(* ===== verification/Go_Prelude.thy ===== *)
theory Go_Prelude
  imports Main "HOL-Library.Word" "HOL-Library.AList"
begin

text \<open>
  The part of the Go language and of its standard library that every component of
  goice relies on: fixed-width unsigned integers, byte slices, the big-endian accessors
  of \<^verbatim>\<open>encoding/binary\<close>, number formatting, and run-time panics as values.

  \<^item> \<open>'a go\<close> is the outcome of a Go call: it returns a value or it panics. A Go function
    with an \<open>error\<close> result returns a sum or carries an \<open>error option\<close> in its value.
  \<^item> Byte slices are lists of \<open>8 word\<close>; \<open>put_at\<close> is the in-place write of \<open>copy\<close> and
    of \<open>PutUint16\<close>, \<open>subslice\<close> is \<open>xs[i:j]\<close>.
  \<^item> \<open>be_put\<close>/\<open>be_get\<close> are \<open>binary.BigEndian\<close>, for every width at once.
\<close>

unbundle bit_operations_syntax

named_theorems be_simps \<open>big-endian encoding and decoding of machine words\<close>
named_theorems go_simps \<open>unfolding the operations of a component on a returned value\<close>

section \<open>Types\<close>

type_synonym byte = "8 word"
type_synonym u16 = "16 word"
type_synonym u32 = "32 word"
type_synonym u64 = "64 word"
type_synonym bytes = "byte list"

text \<open>
  The panics of the modelled code: run-time checks and explicit \<open>panic\<close> calls. A send on a
  channel that is nil, or whose buffer is full, does not return: \<open>BlockedSend\<close>.
\<close>

datatype panic =
    IndexOutOfRange
  | SliceOutOfRange
  | NilDereference
  | CloseOfNilChannel
  | CloseOfClosedChannel
  | SendOnClosedChannel
  | BlockedSend
  | ExplicitPanic string

datatype 'a go = Ret 'a | Panic panic

section \<open>Outcomes\<close>

fun go_bind :: "'a go \<Rightarrow> ('a \<Rightarrow> 'b go) \<Rightarrow> 'b go" where
  "go_bind (Ret x) f = f x"
| "go_bind (Panic p) f = Panic p"

fun go_map :: "('a \<Rightarrow> 'b) \<Rightarrow> 'a go \<Rightarrow> 'b go" where
  "go_map f (Ret x) = Ret (f x)"
| "go_map f (Panic p) = Panic p"

fun returns :: "'a go \<Rightarrow> bool" where
  "returns (Ret x) = True"
| "returns (Panic p) = False"

text \<open>Go's integer division and remainder truncate towards zero.\<close>

definition go_quot :: "int \<Rightarrow> int \<Rightarrow> int" where
  "go_quot a b = sgn a * sgn b * (\<bar>a\<bar> div \<bar>b\<bar>)"

definition go_rem :: "int \<Rightarrow> int \<Rightarrow> int" where
  "go_rem a b = a - go_quot a b * b"

section \<open>Big-endian words\<close>

fun be_put :: "nat \<Rightarrow> 'a::len word \<Rightarrow> bytes" where
  "be_put 0 w = []"
| "be_put (Suc n) w = ucast (drop_bit (8 * n) w) # be_put n w"

fun be_acc :: "'a::len word \<Rightarrow> bytes \<Rightarrow> 'a word" where
  "be_acc acc [] = acc"
| "be_acc acc (b # bs) = be_acc (push_bit 8 acc OR ucast b) bs"

definition be_get :: "bytes \<Rightarrow> 'a::len word" where
  "be_get bs = be_acc 0 bs"

abbreviation put_u16 :: "u16 \<Rightarrow> bytes" where "put_u16 \<equiv> be_put 2"
abbreviation put_u32 :: "u32 \<Rightarrow> bytes" where "put_u32 \<equiv> be_put 4"
abbreviation put_u64 :: "u64 \<Rightarrow> bytes" where "put_u64 \<equiv> be_put 8"

section \<open>Slices\<close>

definition subslice :: "nat \<Rightarrow> nat \<Rightarrow> 'a list \<Rightarrow> 'a list" where
  "subslice i j xs = take (j - i) (drop i xs)"

definition put_at :: "nat \<Rightarrow> 'a list \<Rightarrow> 'a list \<Rightarrow> 'a list" where
  "put_at i vs xs = take i xs @ vs @ drop (i + length vs) xs"

text \<open>\<open>copy(dst, src)\<close>: overwrites a prefix, as many elements as both have.\<close>

definition copy_into :: "'a list \<Rightarrow> 'a list \<Rightarrow> 'a list" where
  "copy_into dst src = take (length dst) src @ drop (length src) dst"

section \<open>Strings and numbers\<close>

definition bytes_of_string :: "string \<Rightarrow> bytes" where
  "bytes_of_string s = map (\<lambda>c. of_nat (of_char c)) s"

definition string_of_bytes :: "bytes \<Rightarrow> string" where
  "string_of_bytes b = map (\<lambda>w. char_of (unat w)) b"

definition digit_char :: "nat \<Rightarrow> char" where
  "digit_char d = char_of (if d < 10 then 48 + d else 87 + d)"

fun show_base :: "nat \<Rightarrow> nat \<Rightarrow> string" where
  "show_base b n =
     (if b < 2 \<or> n < b then [digit_char n]
      else show_base b (n div b) @ [digit_char (n mod b)])"

declare show_base.simps [simp del]

abbreviation show_dec :: "nat \<Rightarrow> string" where "show_dec \<equiv> show_base 10"
abbreviation show_hex :: "nat \<Rightarrow> string" where "show_hex \<equiv> show_base 16"

definition itoa :: "int \<Rightarrow> string" where
  "itoa i = (if i < 0 then ''-'' @ show_dec (nat (- i)) else show_dec (nat i))"

text \<open>\<open>%x\<close> of a byte slice: two lower-case digits for each byte.\<close>

definition show_hex_bytes :: "bytes \<Rightarrow> string" where
  "show_hex_bytes b = concat (map (\<lambda>w. [digit_char (unat w div 16), digit_char (unat w mod 16)]) b)"

section \<open>Facts\<close>

lemma go_bind_Ret_iff: "go_bind x f = Ret y \<longleftrightarrow> (\<exists>z. x = Ret z \<and> f z = Ret y)"
  by (cases x) auto

lemma go_map_Ret: "go_map f x = Ret y \<longleftrightarrow> (\<exists>z. x = Ret z \<and> y = f z)"
  by (cases x) auto

lemma go_bind_assoc: "go_bind (go_bind x f) g = go_bind x (\<lambda>y. go_bind (f y) g)"
  by (cases x) auto

lemma returns_iff: "returns x \<longleftrightarrow> (\<exists>y. x = Ret y)"
  by (cases x) auto

lemma go_quot_nonneg: "0 \<le> a \<Longrightarrow> 0 < b \<Longrightarrow> go_quot a b = a div b"
  by (cases "a = 0") (simp_all add: go_quot_def)

lemma go_rem_nonneg: "0 \<le> a \<Longrightarrow> 0 < b \<Longrightarrow> go_rem a b = a mod b"
  by (simp add: go_rem_def go_quot_nonneg minus_div_mult_eq_mod)

lemma length_be_put [simp]: "length (be_put n w) = n"
  by (induction n) auto

lemma be_acc_be_put:
  "be_acc acc (be_put n w) = push_bit (8 * n) acc OR take_bit (8 * n) w"
proof (induction n arbitrary: acc)
  case 0
  then show ?case by simp
next
  case (Suc n)
  have step: "push_bit (8 * n) (push_bit 8 acc OR ucast (ucast (drop_bit (8 * n) w) :: byte))
        OR take_bit (8 * n) w
      = push_bit (8 * Suc n) acc OR take_bit (8 * Suc n) w"
  proof (rule bit_word_eqI)
    fix i assume "i < LENGTH('a)"
    show "bit (push_bit (8 * n) (push_bit 8 acc OR ucast (ucast (drop_bit (8 * n) w) :: byte))
        OR take_bit (8 * n) w) i
      \<longleftrightarrow> bit (push_bit (8 * Suc n) acc OR take_bit (8 * Suc n) w) i"
    proof (cases "i < 8 * n")
      case True
      then show ?thesis by (auto simp: bit_simps)
    next
      case False
      then obtain k where k: "i = 8 * n + k" by (metis le_Suc_ex not_less)
      with \<open>i < LENGTH('a)\<close> show ?thesis
        by (cases "k < 8") (auto simp: bit_simps)
    qed
  qed
  show ?case by (simp only: be_put.simps be_acc.simps Suc.IH step)
qed

lemma be_get_be_put [be_simps]:
  fixes w :: "'a::len word"
  shows "LENGTH('a) \<le> 8 * n \<Longrightarrow> be_get (be_put n w) = w"
  by (simp add: be_get_def be_acc_be_put)
    (rule bit_word_eqI, auto simp: bit_simps)

lemma be_get_put_u16 [simp]: "be_get (put_u16 w) = w"
  by (rule be_get_be_put) simp

lemma be_get_put_u32 [simp]: "be_get (put_u32 w) = w"
  by (rule be_get_be_put) simp

lemma be_get_put_u64 [simp]: "be_get (put_u64 w) = w"
  by (rule be_get_be_put) simp

lemma bit_be_acc_low:
  fixes acc :: "'a::len word"
  assumes "i < LENGTH('a)"
  shows "bit (be_acc acc bs) i \<longleftrightarrow>
    (if i < 8 * length bs then bit (be_acc 0 bs :: 'a word) i else bit acc (i - 8 * length bs))"
  using assms
proof (induction bs arbitrary: acc)
  case Nil
  then show ?case by simp
next
  case (Cons b bs)
  let ?n = "8 * length bs"
  have "bit (be_acc (push_bit 8 acc OR ucast b) bs) i \<longleftrightarrow>
      (if i < ?n then bit (be_acc 0 bs :: 'a word) i else bit (push_bit 8 acc OR ucast b :: 'a word) (i - ?n))"
    using Cons by blast
  moreover have "bit (be_acc (push_bit 8 0 OR ucast b) bs :: 'a word) i \<longleftrightarrow>
      (if i < ?n then bit (be_acc 0 bs :: 'a word) i else bit (push_bit 8 0 OR ucast b :: 'a word) (i - ?n))"
    using Cons by blast
  ultimately show ?case
    using Cons.prems
    by (auto simp: bit_simps not_less algebra_simps dest: bit_imp_le_length)
qed

lemma be_put_be_acc:
  fixes acc :: "'a::len word"
  shows "8 * length bs \<le> LENGTH('a) \<Longrightarrow> be_put (length bs) (be_acc acc bs) = bs"
proof (induction bs arbitrary: acc)
  case Nil
  then show ?case by simp
next
  case (Cons b bs)
  let ?a = "push_bit 8 acc OR ucast b :: 'a word"
  have top: "ucast (drop_bit (8 * length bs) (be_acc ?a bs)) = b"
  proof (rule bit_word_eqI)
    fix i assume "i < LENGTH(8)"
    with Cons.prems show "bit (ucast (drop_bit (8 * length bs) (be_acc ?a bs)) :: byte) i \<longleftrightarrow> bit b i"
      by (auto simp: bit_simps bit_be_acc_low [of "8 * length bs + i" ?a bs])
  qed
  with Cons show ?case by simp
qed

lemma be_put_be_get [be_simps]:
  "8 * length bs \<le> LENGTH('a) \<Longrightarrow> be_put (length bs) (be_get bs :: 'a::len word) = bs"
  by (simp add: be_get_def be_put_be_acc)

lemma subslice_append_left [simp]: "j \<le> length xs \<Longrightarrow> subslice i j (xs @ ys) = subslice i j xs"
  by (simp add: subslice_def)

lemma subslice_0_length [simp]: "subslice 0 (length xs) xs = xs"
  by (simp add: subslice_def)

lemma length_subslice [simp]: "length (subslice i j xs) = min (j - i) (length xs - i)"
  by (simp add: subslice_def)

lemma length_put_at [simp]: "i + length vs \<le> length xs \<Longrightarrow> length (put_at i vs xs) = length xs"
  by (simp add: put_at_def)

lemma put_at_append_left:
  "i + length vs \<le> length xs \<Longrightarrow> put_at i vs (xs @ ys) = put_at i vs xs @ ys"
  by (simp add: put_at_def)

lemma put_at_append_right:
  "length xs \<le> i \<Longrightarrow> put_at i vs (xs @ ys) = xs @ put_at (i - length xs) vs ys"
  by (simp add: put_at_def Nat.add_diff_assoc2)

lemma subslice_put_at_same [simp]:
  "i + length vs \<le> length xs \<Longrightarrow> subslice i (i + length vs) (put_at i vs xs) = vs"
  by (simp add: subslice_def put_at_def)

lemma copy_into_full [simp]: "length dst = length src \<Longrightarrow> copy_into dst src = src"
  by (simp add: copy_into_def)

lemma length_copy_into [simp]: "length (copy_into dst src) = length dst"
  by (simp add: copy_into_def min_def)

lemma length_bytes_of_string [simp]: "length (bytes_of_string s) = length s"
  by (simp add: bytes_of_string_def)

lemma string_of_bytes_of_string [simp]: "string_of_bytes (bytes_of_string s) = s"
proof -
  have "unat (of_nat (of_char c) :: byte) = of_char c" for c
    by (simp add: unat_of_nat)
  then show ?thesis
    by (simp add: string_of_bytes_def bytes_of_string_def comp_def)
qed

lemma bytes_of_string_of_bytes [simp]: "bytes_of_string (string_of_bytes b) = b"
proof -
  have "of_nat (of_char (char_of (unat w) :: char)) = w" for w :: byte
  proof -
    have "unat w < 256" using unsigned_less [of w, where 'a = nat] by simp
    then show ?thesis by simp
  qed
  then show ?thesis
    by (simp add: string_of_bytes_def bytes_of_string_def comp_def map_idI)
qed

section \<open>Association lists\<close>

text \<open>A Go map whose order of iteration matters is an association list with distinct keys.\<close>

lemma update_new: "k \<notin> fst ` set a \<Longrightarrow> AList.update k v a = a @ [(k, v)]"
  by (induction a) auto

lemma update_present: "map_of a k = Some w \<Longrightarrow> map fst (AList.update k v a) = map fst a"
  by (induction a) (auto split: if_splits)

lemma update_mem: "x \<in> set (AList.update k v a) \<Longrightarrow> x = (k, v) \<or> x \<in> set a"
  by (induction a) (auto split: if_splits)

end
