(* ===== verification/Go_Net.thy ===== *)
theory Go_Net
  imports Go_Prelude
begin

text \<open>
  The text functions of Go's standard library that the ICE package uses: \<open>net.SplitHostPort\<close>,
  \<open>net.JoinHostPort\<close>, \<open>net.ParseIP\<close>, \<open>IP.String\<close>, \<open>strconv.Atoi\<close> and the hexadecimal
  \<open>fmt.Sscanf\<close>; and the tests on addresses that gathering needs (\<open>net.CIDRMask\<close>, \<open>IP.Mask\<close>,
  \<open>IPNet.Contains\<close>, \<open>IsLoopback\<close>, \<open>IsLinkLocalUnicast\<close>). Text is a list of characters, one per byte.

  Shown here: printing and reading decimal numbers is a round trip, and splitting a joined
  host and port gives them back.
\<close>

section \<open>Numbers\<close>

definition is_digit :: "char \<Rightarrow> bool" where
  "is_digit c \<longleftrightarrow> 48 \<le> (of_char c :: nat) \<and> (of_char c :: nat) \<le> 57"

definition hex_val :: "char \<Rightarrow> nat option" where
  "hex_val c =
     (if is_digit c then Some (of_char c - 48)
      else if 97 \<le> (of_char c :: nat) \<and> (of_char c :: nat) \<le> 102 then Some (of_char c - 87)
      else if 65 \<le> (of_char c :: nat) \<and> (of_char c :: nat) \<le> 70 then Some (of_char c - 55)
      else None)"

definition digits_value :: "nat \<Rightarrow> string \<Rightarrow> nat" where
  "digits_value b s = foldl (\<lambda>n c. b * n + the (hex_val c)) 0 s"

definition max_int :: int where "max_int = 2 ^ 63 - 1"

text \<open>\<open>strconv.Atoi\<close>: an optional sign and decimal digits, in the range of \<open>int\<close>.\<close>

definition atoi_nat :: "string \<Rightarrow> nat option" where
  "atoi_nat s = (if s \<noteq> [] \<and> list_all is_digit s then Some (digits_value 10 s) else None)"

definition Atoi :: "string \<Rightarrow> int option" where
  "Atoi s =
     (case s of
        [] \<Rightarrow> None
      | c # cs \<Rightarrow>
          if c = CHR ''-'' then
            (case atoi_nat cs of Some n \<Rightarrow> if int n \<le> max_int + 1 then Some (- int n) else None | None \<Rightarrow> None)
          else
            (case atoi_nat (if c = CHR ''+'' then cs else s) of
               Some n \<Rightarrow> if int n \<le> max_int then Some (int n) else None | None \<Rightarrow> None))"

text \<open>The number \<open>Atoi\<close> returns beside an error: the nearest one for a number out of range, else 0.\<close>

definition Atoi_value :: "string \<Rightarrow> int" where
  "Atoi_value s =
     (case Atoi s of
        Some i \<Rightarrow> i
      | None \<Rightarrow>
          if s = [] then 0
          else if hd s = CHR ''-'' then (if atoi_nat (tl s) \<noteq> None then - max_int - 1 else 0)
          else if atoi_nat (if hd s = CHR ''+'' then tl s else s) \<noteq> None then max_int else 0)"

text \<open>
  \<open>fmt.Sscanf(s, "%x", &i)\<close> on text that does not start with a sign or a space: the longest
  run of hexadecimal digits.
\<close>

definition Sscanf_hex :: "string \<Rightarrow> int option" where
  "Sscanf_hex s =
     (let ds = takeWhile (\<lambda>c. hex_val c \<noteq> None) s
      in if ds = [] \<or> int (digits_value 16 ds) > max_int then None else Some (int (digits_value 16 ds)))"

section \<open>Host and port\<close>

definition index_of :: "char \<Rightarrow> string \<Rightarrow> nat option" where
  "index_of c s = (if c \<in> set s then Some (length (takeWhile (\<lambda>x. x \<noteq> c) s)) else None)"

definition last_index :: "char \<Rightarrow> string \<Rightarrow> nat option" where
  "last_index c s = map_option (\<lambda>i. length s - 1 - i) (index_of c (rev s))"

definition SplitHostPort :: "string \<Rightarrow> string + (string \<times> string)" where
  "SplitHostPort hp =
     (case last_index CHR '':'' hp of
        None \<Rightarrow> Inl ''missing port in address''
      | Some i \<Rightarrow>
          let rest = (\<lambda>host j k.
                if CHR ''['' \<in> set (drop j hp) then Inl ''unexpected '[' in address''
                else if CHR '']'' \<in> set (drop k hp) then Inl ''unexpected ']' in address''
                else Inr (host, drop (Suc i) hp))
          in if hp ! 0 = CHR ''['' then
               (case index_of CHR '']'' hp of
                  None \<Rightarrow> Inl ''missing ']' in address''
                | Some e \<Rightarrow>
                    if Suc e = length hp then Inl ''missing port in address''
                    else if Suc e = i then rest (subslice 1 e hp) 1 (Suc e)
                    else if hp ! Suc e = CHR '':'' then Inl ''too many colons in address''
                    else Inl ''missing port in address'')
             else if CHR '':'' \<in> set (take i hp) then Inl ''too many colons in address''
             else rest (take i hp) 0 0)"

text \<open>What the callers that only log the error go on with.\<close>

definition split_or_empty :: "string \<Rightarrow> string \<times> string" where
  "split_or_empty hp = (case SplitHostPort hp of Inl e \<Rightarrow> ([], []) | Inr hp \<Rightarrow> hp)"

definition JoinHostPort :: "string \<Rightarrow> string \<Rightarrow> string" where
  "JoinHostPort host port =
     (if CHR '':'' \<in> set host \<or> CHR ''%'' \<in> set host then ''['' @ host @ '']:'' @ port
      else host @ '':'' @ port)"

section \<open>IP addresses\<close>

definition v4_prefix :: bytes where "v4_prefix = replicate 10 0 @ [0xff, 0xff]"

definition To4 :: "bytes \<Rightarrow> bytes option" where
  "To4 ip =
     (if length ip = 4 then Some ip
      else if length ip = 16 \<and> take 12 ip = v4_prefix then Some (drop 12 ip) else None)"

definition IP_Equal :: "bytes \<Rightarrow> bytes \<Rightarrow> bool" where
  "IP_Equal ip x =
     (if length ip = length x then ip = x
      else if length ip = 4 \<and> length x = 16 then take 12 x = v4_prefix \<and> ip = drop 12 x
      else if length ip = 16 \<and> length x = 4 then take 12 ip = v4_prefix \<and> drop 12 ip = x
      else False)"

definition dotted :: "bytes \<Rightarrow> string" where
  "dotted ip = concat (map2 (\<lambda>i b. (if i = 0 then [] else ''.'') @ show_dec (unat b)) [0..<length ip] ip)"

fun groups :: "bytes \<Rightarrow> nat list" where
  "groups (a # b # bs) = (256 * unat a + unat b) # groups bs"
| "groups _ = []"

text \<open>The longest run of zero groups: its start and end, the first of several; none below two.\<close>

fun zero_run :: "nat \<Rightarrow> nat list \<Rightarrow> nat \<times> nat \<Rightarrow> nat \<times> nat" where
  "zero_run i [] (e0, e1) = (e0, e1)"
| "zero_run i (g # gs) (e0, e1) =
     (let n = length (takeWhile (\<lambda>x. x = 0) (g # gs))
      in zero_run (Suc i) gs (if n > e1 - e0 then (i, i + n) else (e0, e1)))"

fun show_groups :: "nat \<times> nat \<Rightarrow> nat \<Rightarrow> nat list \<Rightarrow> string" where
  "show_groups (e0, e1) i [] = []"
| "show_groups (e0, e1) i (g # gs) =
     (if e0 < e1 \<and> e0 \<le> i \<and> i < e1 then
        (if i = e0 then ''::'' else []) @ show_groups (e0, e1) (Suc i) gs
      else (if i = 0 \<or> (e0 < e1 \<and> i = e1) then [] else '':'') @ show_hex g @ show_groups (e0, e1) (Suc i) gs)"

definition IP_String :: "bytes \<Rightarrow> string" where
  "IP_String ip =
     (if ip = [] then ''<nil>''
      else case To4 ip of
        Some p4 \<Rightarrow> dotted p4
      | None \<Rightarrow>
          if length ip \<noteq> 16 then ''?'' @ show_hex_bytes ip
          else let (e0, e1) = zero_run 0 (groups ip) (0, 0)
               in show_groups (if e1 - e0 < 2 then (0, 0) else (e0, e1)) 0 (groups ip))"

text \<open>\<open>dtoi\<close> and \<open>xtoi\<close>: a number, how many characters it took; nothing if none or too big.\<close>

definition scan_number :: "nat \<Rightarrow> (char \<Rightarrow> bool) \<Rightarrow> string \<Rightarrow> (nat \<times> nat) option" where
  "scan_number b ok s =
     (let ds = takeWhile ok s; n = digits_value b ds
      in if ds = [] \<or> 0xFFFFFF \<le> n then None else Some (n, length ds))"

definition dtoi :: "string \<Rightarrow> (nat \<times> nat) option" where
  "dtoi = scan_number 10 is_digit"

definition xtoi :: "string \<Rightarrow> (nat \<times> nat) option" where
  "xtoi = scan_number 16 (\<lambda>c. hex_val c \<noteq> None)"

fun parse_quad :: "nat \<Rightarrow> string \<Rightarrow> bytes option" where
  "parse_quad 0 s = (if s = [] then Some [] else None)"
| "parse_quad (Suc k) s =
     (case dtoi s of
        None \<Rightarrow> None
      | Some (n, c) \<Rightarrow>
          if n > 255 then None
          else let s' = drop c s
               in if k = 0 then map_option (\<lambda>bs. of_nat n # bs) (parse_quad 0 s')
                  else case s' of
                    [] \<Rightarrow> None
                  | x # s'' \<Rightarrow> if x \<noteq> CHR ''.'' then None
                               else map_option (\<lambda>bs. of_nat n # bs) (parse_quad k s''))"

definition parseIPv4 :: "string \<Rightarrow> bytes option" where
  "parseIPv4 s = map_option (\<lambda>q. v4_prefix @ q) (parse_quad 4 s)"

text \<open>
  The loop of \<open>parseIPv6\<close>: \<open>ip\<close> is what has been read, \<open>ell\<close> where the ellipsis was. The
  fuel is the number of groups left, at most eight.
\<close>

fun parse_groups :: "nat \<Rightarrow> bytes \<Rightarrow> nat option \<Rightarrow> string \<Rightarrow> (bytes \<times> nat option) option" where
  "parse_groups 0 ip ell s = (if s = [] then Some (ip, ell) else None)"
| "parse_groups (Suc k) ip ell s =
     (case xtoi s of
        None \<Rightarrow> None
      | Some (n, c) \<Rightarrow>
          if n > 0xFFFF then None
          else if c < length s \<and> s ! c = CHR ''.'' then
            (if (ell = None \<and> length ip \<noteq> 12) \<or> length ip + 4 > 16 then None
             else map_option (\<lambda>q. (ip @ q, ell)) (parse_quad 4 s))
          else
            let ip = ip @ [of_nat (n div 256), of_nat n]; s = drop c s in
            if s = [] then Some (ip, ell)
            else if hd s \<noteq> CHR '':'' \<or> length s = 1 then None
            else let s = tl s in
              if hd s = CHR '':'' then
                (if ell \<noteq> None then None
                 else if tl s = [] then Some (ip, Some (length ip))
                 else parse_groups k ip (Some (length ip)) (tl s))
              else parse_groups k ip ell s)"

definition parseIPv6 :: "string \<Rightarrow> bytes option" where
  "parseIPv6 s =
     (let (ell, s) = (if take 2 s = ''::'' then (Some 0, drop 2 s) else (None, s))
      in if ell = Some 0 \<and> s = [] then Some (replicate 16 0)
         else case parse_groups 8 [] ell s of
           None \<Rightarrow> None
         | Some (ip, ell) \<Rightarrow>
             if length ip < 16 then
               (case ell of None \<Rightarrow> None
                | Some e \<Rightarrow> Some (take e ip @ replicate (16 - length ip) 0 @ drop e ip))
             else if ell \<noteq> None then None else Some ip)"

definition ParseIP :: "string \<Rightarrow> bytes" where
  "ParseIP s =
     (case dropWhile (\<lambda>c. c \<noteq> CHR ''.'' \<and> c \<noteq> CHR '':'') s of
        [] \<Rightarrow> []
      | c # _ \<Rightarrow> case (if c = CHR ''.'' then parseIPv4 s else parseIPv6 s) of None \<Rightarrow> [] | Some ip \<Rightarrow> ip)"

section \<open>Decimal numbers\<close>

lemma of_char_digit_char: "d < 10 \<Longrightarrow> (of_char (digit_char d) :: nat) = 48 + d"
  by (simp add: digit_char_def)

lemma is_digit_digit_char: "d < 10 \<Longrightarrow> is_digit (digit_char d)"
  by (simp add: is_digit_def of_char_digit_char)

lemma hex_val_digit_char: "d < 10 \<Longrightarrow> hex_val (digit_char d) = Some d"
  by (simp add: hex_val_def is_digit_digit_char of_char_digit_char)

lemma show_base_nonempty [simp]: "show_base b n \<noteq> []"
  by (subst show_base.simps) simp

lemma digits_value_snoc: "digits_value b (s @ [c]) = b * digits_value b s + the (hex_val c)"
  by (simp add: digits_value_def)

lemma show_dec_digits: "list_all is_digit (show_dec n)"
proof (induction n rule: less_induct)
  case (less n)
  show ?case
  proof (cases "n < 10")
    case True
    then show ?thesis by (subst show_base.simps) (simp add: is_digit_digit_char)
  next
    case False
    then show ?thesis
      using less [of "n div 10"] by (subst show_base.simps) (simp add: is_digit_digit_char)
  qed
qed

lemma show_dec_value: "digits_value 10 (show_dec n) = n"
proof (induction n rule: less_induct)
  case (less n)
  show ?case
  proof (cases "n < 10")
    case True
    then show ?thesis by (subst show_base.simps) (simp add: digits_value_def hex_val_digit_char)
  next
    case False
    then show ?thesis
      using less [of "n div 10"] by (subst show_base.simps) (simp add: digits_value_snoc hex_val_digit_char)
  qed
qed

lemma digit_not_sign: "is_digit c \<Longrightarrow> c \<noteq> CHR ''-'' \<and> c \<noteq> CHR ''+'' \<and> c \<noteq> CHR '' '' \<and> c \<noteq> CHR '':''"
  by (auto simp: is_digit_def)

lemma Atoi_show_dec:
  assumes "int n \<le> max_int"
  shows "Atoi (show_dec n) = Some (int n)"
proof -
  obtain c cs where c: "show_dec n = c # cs" by (meson neq_Nil_conv show_base_nonempty)
  then have "is_digit c" using show_dec_digits [of n] by simp
  then show ?thesis
    using assms c digit_not_sign [of c] show_dec_digits [of n] show_dec_value [of n]
    by (simp add: Atoi_def atoi_nat_def)
qed

section \<open>Splitting a joined address\<close>

definition plain :: "string \<Rightarrow> bool" where
  "plain s \<longleftrightarrow> CHR '':'' \<notin> set s \<and> CHR ''['' \<notin> set s \<and> CHR '']'' \<notin> set s"

lemma last_index_append:
  assumes "c \<notin> set p"
  shows "last_index c (h @ c # p) = Some (length h)"
proof -
  have "takeWhile (\<lambda>x. x \<noteq> c) (rev p @ c # rev h) = rev p"
    using assms by (subst takeWhile_append2) auto
  then show ?thesis by (simp add: last_index_def index_of_def)
qed

lemma SplitHostPort_plain:
  assumes "plain host" and "plain port"
  shows "SplitHostPort (host @ '':'' @ port) = Inr (host, port)"
proof -
  have i: "last_index CHR '':'' (host @ CHR '':'' # port) = Some (length host)"
    using assms(2) by (intro last_index_append) (simp add: plain_def)
  have "(host @ CHR '':'' # port) ! 0 \<noteq> CHR ''[''"
    using assms(1) by (cases host) (auto simp: plain_def)
  then show ?thesis
    using assms by (simp add: SplitHostPort_def i Let_def plain_def)
qed

lemma index_of_nth:
  assumes "index_of c s = Some i"
  shows "i < length s" "s ! i = c"
proof -
  have c: "c \<in> set s" and i: "i = length (takeWhile (\<lambda>x. x \<noteq> c) s)" using assms by (auto simp: index_of_def split: if_splits)
  then show "i < length s" by (metis (mono_tags, lifting) length_takeWhile_le nat_less_le takeWhile_eq_all_conv takeWhile_eq_take take_all_iff le_refl)
  then show "s ! i = c" using nth_length_takeWhile [of "\<lambda>x. x \<noteq> c" s] i by simp
qed

lemma last_index_nth:
  assumes "last_index c s = Some i"
  shows "i < length s" "s ! i = c"
proof -
  obtain j where j: "index_of c (rev s) = Some j" "i = length s - 1 - j" using assms by (auto simp: last_index_def)
  then have "j < length s" "rev s ! j = c" using index_of_nth [OF j(1)] by simp_all
  then show "i < length s" "s ! i = c" using j(2) by (auto simp: rev_nth)
qed

text \<open>What an address that splits looks like; only one without brackets is host, colon and port.\<close>

lemma SplitHostPort_form:
  assumes "SplitHostPort a = Inr (host, port)"
  shows "a = (if a ! 0 = CHR ''['' then ''['' @ host @ '']:'' @ port else host @ '':'' @ port)"
proof -
  obtain i where i: "last_index CHR '':'' a = Some i"
    using assms by (auto simp: SplitHostPort_def split: option.splits)
  have ai: "i < length a" "a ! i = CHR '':''" using last_index_nth [OF i] by simp_all
  then have split_i: "a = take i a @ CHR '':'' # drop (Suc i) a" by (metis id_take_nth_drop)
  show ?thesis
  proof (cases "a ! 0 = CHR ''[''")
    case False
    then have "host = take i a" "port = drop (Suc i) a"
      using assms i by (auto simp: SplitHostPort_def Let_def split: if_splits)
    then show ?thesis using False split_i by simp
  next
    case True
    then obtain e where e: "index_of CHR '']'' a = Some e" "Suc e = i" "host = subslice 1 e a" "port = drop (Suc i) a"
      using assms i by (auto simp: SplitHostPort_def Let_def split: if_splits option.splits)
    have ae: "e < length a" "a ! e = CHR '']''" using index_of_nth [OF e(1)] by simp_all
    have "e \<noteq> 0" using True ae(2) by (cases e) simp_all
    then have "take i a = a ! 0 # subslice 1 e a @ [a ! e]"
      using ae(1) e(2) take_Suc_conv_app_nth [of e a] id_take_nth_drop [of 0 "take e a"]
      by (simp add: subslice_def drop_take)
    then show ?thesis using True split_i e ae(2) by simp
  qed
qed

section \<open>Dotted addresses\<close>

lemma dtoi_show_dec:
  assumes "n < 0xFFFFFF" and "rest = [] \<or> \<not> is_digit (hd rest)"
  shows "dtoi (show_dec n @ rest) = Some (n, length (show_dec n))"
proof -
  have "takeWhile is_digit (show_dec n @ rest) = show_dec n"
    using show_dec_digits [of n] assms(2)
    by (cases rest) (auto simp: takeWhile_append list_all_iff)
  then show ?thesis using assms(1) by (simp add: dtoi_def scan_number_def show_dec_value)
qed

lemma dotted_eq:
  "dotted [a, b, c, d] = show_dec (unat a) @ ''.'' @ show_dec (unat b) @ ''.'' @ show_dec (unat c) @ ''.'' @ show_dec (unat d)"
  by (simp add: dotted_def numeral_eq_Suc)

lemma not_digit_dot: "\<not> is_digit CHR ''.''"
  by (simp add: is_digit_def)

lemma parse_quad_dotted: "parse_quad 4 (dotted [a, b, c, d]) = Some [a, b, c, d]"
proof -
  have lt: "unat (x :: byte) < 256" for x using unsigned_less [of x, where ?'a = nat] by simp
  have dot: "dtoi (show_dec (unat (x :: byte)) @ CHR ''.'' # r) = Some (unat x, length (show_dec (unat x)))" for x r
    using lt [of x] by (intro dtoi_show_dec) (simp_all add: not_digit_dot)
  have end_: "dtoi (show_dec (unat (x :: byte))) = Some (unat x, length (show_dec (unat x)))" for x
    using dtoi_show_dec [of "unat x" "[]"] lt [of x] by simp
  have small: "\<not> unat (x :: byte) > 255" for x using lt [of x] by simp
  have step: "parse_quad (Suc (Suc k)) (show_dec (unat x) @ CHR ''.'' # r) = map_option ((#) x) (parse_quad (Suc k) r)" for k x r
    using small [of x] by (subst parse_quad.simps) (simp add: dot del: parse_quad.simps)
  have last: "parse_quad (Suc 0) (show_dec (unat x)) = Some [x]" for x
    using small [of x] by (simp add: end_)
  have "parse_quad (Suc (Suc (Suc (Suc 0)))) (dotted [a, b, c, d]) = Some [a, b, c, d]"
    unfolding dotted_eq by (simp add: step last del: parse_quad.simps)
  then show ?thesis by (simp only: numeral_nat One_nat_def)
qed

lemma dropWhile_dotted: "\<exists>r. dropWhile (\<lambda>c. c \<noteq> CHR ''.'' \<and> c \<noteq> CHR '':'') (dotted [a, b, c, d]) = CHR ''.'' # r"
proof -
  have "list_all (\<lambda>c. c \<noteq> CHR ''.'' \<and> c \<noteq> CHR '':'') (show_dec (unat a))"
    using show_dec_digits [of "unat a"] not_digit_dot digit_not_sign by (auto simp: list_all_iff)
  then show ?thesis unfolding dotted_eq by (simp add: dropWhile_append2 list_all_iff)
qed

lemma length_4: "length (ip :: 'a list) = 4 \<Longrightarrow> \<exists>a b c d. ip = [a, b, c, d]"
  by (auto simp: numeral_eq_Suc length_Suc_conv)

lemma ParseIP_dotted:
  assumes "length ip = 4" shows "ParseIP (dotted ip) = v4_prefix @ ip"
proof -
  obtain a b c d where ip: "ip = [a, b, c, d]" using length_4 [OF assms] by blast
  obtain r where "dropWhile (\<lambda>c. c \<noteq> CHR ''.'' \<and> c \<noteq> CHR '':'') (dotted ip) = CHR ''.'' # r"
    using dropWhile_dotted ip by blast
  then show ?thesis using parse_quad_dotted [of a b c d] by (simp add: ParseIP_def parseIPv4_def ip)
qed

lemma IP_String_v4: "length ip = 4 \<Longrightarrow> IP_String ip = dotted ip" "length ip = 4 \<Longrightarrow> IP_String (v4_prefix @ ip) = dotted ip"
  by (auto simp: IP_String_def To4_def v4_prefix_def)

lemma Atoi_value_show_dec: "int n \<le> max_int \<Longrightarrow> Atoi_value (show_dec n) = int n"
  by (simp add: Atoi_value_def Atoi_show_dec)

lemma plain_digits: "list_all is_digit s \<Longrightarrow> plain s"
  by (auto simp: plain_def list_all_iff is_digit_def)

lemma plain_append [simp]: "plain (s @ t) \<longleftrightarrow> plain s \<and> plain t"
  by (auto simp: plain_def)

lemma plain_dotted: "length ip = 4 \<Longrightarrow> plain (dotted ip)"
  using length_4 [of ip] plain_digits [OF show_dec_digits] by (auto simp: dotted_eq plain_def)

lemma digit_chars:
  "digit_char 0 = CHR ''0''" "digit_char 1 = CHR ''1''" "digit_char (Suc 0) = CHR ''1''" "digit_char 2 = CHR ''2''" "digit_char 3 = CHR ''3''"
  "digit_char 4 = CHR ''4''" "digit_char 5 = CHR ''5''" "digit_char 6 = CHR ''6''" "digit_char 7 = CHR ''7''"
  "digit_char 8 = CHR ''8''" "digit_char 9 = CHR ''9''"
  by code_simp+

section \<open>Networks\<close>

text \<open>
  \<open>net.CIDRMask\<close>, \<open>IP.Mask\<close> and \<open>IPNet.Contains\<close>. \<open>ParseCIDR\<close> of a constant network is the pair of
  its masked address and its mask.
\<close>

definition CIDRMask :: "nat \<Rightarrow> nat \<Rightarrow> bytes" where
  "CIDRMask ones bits =
     map (\<lambda>i. if 8 * i + 8 \<le> ones then 0xff
              else if ones \<le> 8 * i then 0 else of_nat (256 - 2 ^ (8 - (ones - 8 * i)))) [0..<bits div 8]"

definition IP_Mask :: "bytes \<Rightarrow> bytes \<Rightarrow> bytes" where
  "IP_Mask ip mk =
     (let mk = (if length mk = 16 \<and> length ip = 4 \<and> take 12 mk = replicate 12 0xff then drop 12 mk else mk);
          ip = (if length mk = 4 \<and> length ip = 16 \<and> take 12 ip = v4_prefix then drop 12 ip else ip)
      in if length ip \<noteq> length mk then [] else map2 (AND) ip mk)"

definition IPNet_Contains :: "bytes \<times> bytes \<Rightarrow> bytes \<Rightarrow> bool" where
  "IPNet_Contains n ip =
     (let nn = (case To4 (fst n) of Some x \<Rightarrow> x | None \<Rightarrow> fst n);
          m = (if length (snd n) = 16 \<and> length nn = 4 then drop 12 (snd n) else snd n);
          x = (case To4 ip of Some x \<Rightarrow> x | None \<Rightarrow> ip)
      in length m = length nn \<and> length x = length nn \<and>
         list_all (\<lambda>i. nn ! i AND m ! i = x ! i AND m ! i) [0..<length nn])"

definition IsLoopback :: "bytes \<Rightarrow> bool" where
  "IsLoopback ip =
     (case To4 ip of Some ip4 \<Rightarrow> ip4 ! 0 = 127 | None \<Rightarrow> ip = replicate 15 0 @ [1])"

definition IsLinkLocalUnicast :: "bytes \<Rightarrow> bool" where
  "IsLinkLocalUnicast ip =
     (case To4 ip of
        Some ip4 \<Rightarrow> ip4 ! 0 = 169 \<and> ip4 ! 1 = 254
      | None \<Rightarrow> length ip = 16 \<and> ip ! 0 = 0xfe \<and> ip ! 1 AND 0xc0 = 0x80)"

end
