(* ===== verification/Stun_Attributes.thy ===== *)
theory Stun_Attributes
  imports Go_Prelude
begin

text \<open>
  Attribute types, raw attributes and error values of package \<^verbatim>\<open>stun\<close>
  (\<^verbatim>\<open>src/stun/attributes.go\<close>, \<^verbatim>\<open>src/stun/errors.go\<close>, and the error values the other
  files of the package declare).

  A raw attribute is the Go struct of the same name; \<open>Attributes_Get\<close> is the first-match
  lookup every getter uses. The lemmas characterise the lookup after an append, the
  equality test, and the padding function.
\<close>

section \<open>Attribute types\<close>

type_synonym AttrType = u16

definition AttrMappedAddress :: AttrType where "AttrMappedAddress = 0x0001"
definition AttrUsername :: AttrType where "AttrUsername = 0x0006"
definition AttrMessageIntegrity :: AttrType where "AttrMessageIntegrity = 0x0008"
definition AttrErrorCode :: AttrType where "AttrErrorCode = 0x0009"
definition AttrUnknownAttributes :: AttrType where "AttrUnknownAttributes = 0x000A"
definition AttrRealm :: AttrType where "AttrRealm = 0x0014"
definition AttrNonce :: AttrType where "AttrNonce = 0x0015"
definition AttrXORMappedAddress :: AttrType where "AttrXORMappedAddress = 0x0020"

definition AttrSoftware :: AttrType where "AttrSoftware = 0x8022"
definition AttrAlternateServer :: AttrType where "AttrAlternateServer = 0x8023"
definition AttrFingerprint :: AttrType where "AttrFingerprint = 0x8028"

definition AttrPriority :: AttrType where "AttrPriority = 0x0024"
definition AttrUseCandidate :: AttrType where "AttrUseCandidate = 0x0025"
definition AttrICEControlled :: AttrType where "AttrICEControlled = 0x8029"
definition AttrICEControlling :: AttrType where "AttrICEControlling = 0x802A"

definition AttrChannelNumber :: AttrType where "AttrChannelNumber = 0x000C"
definition AttrLifetime :: AttrType where "AttrLifetime = 0x000D"
definition AttrXORPeerAddress :: AttrType where "AttrXORPeerAddress = 0x0012"
definition AttrData :: AttrType where "AttrData = 0x0013"
definition AttrXORRelayedAddress :: AttrType where "AttrXORRelayedAddress = 0x0016"
definition AttrEvenPort :: AttrType where "AttrEvenPort = 0x0018"
definition AttrRequestedTransport :: AttrType where "AttrRequestedTransport = 0x0019"
definition AttrDontFragment :: AttrType where "AttrDontFragment = 0x001A"
definition AttrReservationToken :: AttrType where "AttrReservationToken = 0x0022"

definition AttrOrigin :: AttrType where "AttrOrigin = 0x802F"

lemmas attr_type_defs =
  AttrMappedAddress_def AttrUsername_def AttrMessageIntegrity_def AttrErrorCode_def
  AttrUnknownAttributes_def AttrRealm_def AttrNonce_def AttrXORMappedAddress_def
  AttrSoftware_def AttrAlternateServer_def AttrFingerprint_def AttrPriority_def
  AttrUseCandidate_def AttrICEControlled_def AttrICEControlling_def AttrChannelNumber_def
  AttrLifetime_def AttrXORPeerAddress_def AttrData_def AttrXORRelayedAddress_def
  AttrEvenPort_def AttrRequestedTransport_def AttrDontFragment_def AttrReservationToken_def
  AttrOrigin_def

definition attrNames :: "AttrType \<rightharpoonup> string" where
  "attrNames = map_of
    [(AttrMappedAddress, ''MAPPED-ADDRESS''),
     (AttrUsername, ''USERNAME''),
     (AttrErrorCode, ''ERROR-CODE''),
     (AttrMessageIntegrity, ''MESSAGE-INTEGRITY''),
     (AttrUnknownAttributes, ''UNKNOWN-ATTRIBUTES''),
     (AttrRealm, ''REALM''),
     (AttrNonce, ''NONCE''),
     (AttrXORMappedAddress, ''XOR-MAPPED-ADDRESS''),
     (AttrSoftware, ''SOFTWARE''),
     (AttrAlternateServer, ''ALTERNATE-SERVER''),
     (AttrFingerprint, ''FINGERPRINT''),
     (AttrPriority, ''PRIORITY''),
     (AttrUseCandidate, ''USE-CANDIDATE''),
     (AttrICEControlled, ''ICE-CONTROLLED''),
     (AttrICEControlling, ''ICE-CONTROLLING''),
     (AttrChannelNumber, ''CHANNEL-NUMBER''),
     (AttrLifetime, ''LIFETIME''),
     (AttrXORPeerAddress, ''XOR-PEER-ADDRESS''),
     (AttrData, ''DATA''),
     (AttrXORRelayedAddress, ''XOR-RELAYED-ADDRESS''),
     (AttrEvenPort, ''EVEN-PORT''),
     (AttrRequestedTransport, ''REQUESTED-TRANSPORT''),
     (AttrDontFragment, ''DONT-FRAGMENT''),
     (AttrReservationToken, ''RESERVATION-TOKEN''),
     (AttrOrigin, ''ORIGIN'')]"

definition AttrType_String :: "AttrType \<Rightarrow> string" where
  "AttrType_String t =
     (case attrNames t of None \<Rightarrow> ''0x'' @ show_hex (unat t) | Some s \<Rightarrow> s)"

section \<open>Error values\<close>

record DecodeErrPlace =
  Parent :: string
  Children :: string

text \<open>
  One datatype for the errors the modelled packages return; a constructor per error
  variable or error struct of the source, with the struct's fields in its order.
  \<open>Errorf\<close> is \<open>fmt.Errorf\<close> and \<open>errors.New\<close> with the rendered text.
\<close>

datatype go_error =
    ErrUnexpectedHeaderEOF
  | ErrFormatError
  | ErrUnexpectedEOF
  | EOF
  | DecodeErr DecodeErrPlace string
  | ErrAttributeNotFound
  | AttrOverflowErr AttrType int int
  | AttrLengthErr AttrType int int
  | BadAttrLength AttrType int int
  | ErrBadIPLength
  | ErrBadUnknownAttrsSize
  | ErrNoDefaultReason
  | ErrFingerprintBeforeIntegrity
  | IntegrityErr bytes bytes
  | CRCMismatch u32 u32
  | ErrTransactionStopped
  | ErrTransactionNotExists
  | ErrTransactionExists
  | ErrAgentClosed
  | ErrTransactionTimeOut
  | Errorf string

definition newDecodeErr :: "string \<Rightarrow> string \<Rightarrow> string \<Rightarrow> go_error" where
  "newDecodeErr parent children message =
     DecodeErr \<lparr>Parent = parent, Children = children\<rparr> message"

definition newAttrDecodeErr :: "string \<Rightarrow> string \<Rightarrow> go_error" where
  "newAttrDecodeErr children message = newDecodeErr ''attribute'' children message"

definition DecodeErr_IsPlaceParent :: "go_error \<Rightarrow> string \<Rightarrow> bool" where
  "DecodeErr_IsPlaceParent e p = (case e of DecodeErr pl _ \<Rightarrow> Parent pl = p | _ \<Rightarrow> False)"

definition DecodeErr_IsPlaceChildren :: "go_error \<Rightarrow> string \<Rightarrow> bool" where
  "DecodeErr_IsPlaceChildren e c = (case e of DecodeErr pl _ \<Rightarrow> Children pl = c | _ \<Rightarrow> False)"

definition DecodeErr_IsPlace :: "go_error \<Rightarrow> DecodeErrPlace \<Rightarrow> bool" where
  "DecodeErr_IsPlace e p = (case e of DecodeErr pl _ \<Rightarrow> pl = p | _ \<Rightarrow> False)"

definition DecodeErr_IsInvalidCookie :: "go_error \<Rightarrow> bool" where
  "DecodeErr_IsInvalidCookie e =
     (case e of DecodeErr pl _ \<Rightarrow> pl = \<lparr>Parent = ''message'', Children = ''cookie''\<rparr> | _ \<Rightarrow> False)"

definition DecodeErrPlace_String :: "DecodeErrPlace \<Rightarrow> string" where
  "DecodeErrPlace_String p = Parent p @ ''/'' @ Children p"

section \<open>Raw attributes\<close>

record RawAttribute =
  attr_Type :: AttrType
  attr_Length :: u16
  attr_Value :: bytes

definition empty_RawAttribute :: RawAttribute where
  "empty_RawAttribute = \<lparr>attr_Type = 0, attr_Length = 0, attr_Value = []\<rparr>"

fun Attributes_Get :: "RawAttribute list \<Rightarrow> AttrType \<Rightarrow> RawAttribute \<times> bool" where
  "Attributes_Get [] t = (empty_RawAttribute, False)"
| "Attributes_Get (candidate # as) t =
     (if attr_Type candidate = t then (candidate, True) else Attributes_Get as t)"

text \<open>\<open>for i, v := range a.Value\<close> with the bounds check of \<open>b.Value[i]\<close> made by the length test.\<close>

fun bytes_agree :: "bytes \<Rightarrow> bytes \<Rightarrow> bool" where
  "bytes_agree [] bs = True"
| "bytes_agree (v # vs) [] = True"
| "bytes_agree (v # vs) (b # bs) = (if b \<noteq> v then False else bytes_agree vs bs)"

definition RawAttribute_Equal :: "RawAttribute \<Rightarrow> RawAttribute \<Rightarrow> bool" where
  "RawAttribute_Equal a b =
     (if attr_Type a \<noteq> attr_Type b then False
      else if attr_Length a \<noteq> attr_Length b then False
      else if length (attr_Value b) \<noteq> length (attr_Value a) then False
      else bytes_agree (attr_Value a) (attr_Value b))"

definition RawAttribute_String :: "RawAttribute \<Rightarrow> string" where
  "RawAttribute_String a = AttrType_String (attr_Type a) @ '': 0x'' @ show_hex_bytes (attr_Value a)"

definition padding :: nat where "padding = 4"

definition nearestPaddedValueLength :: "nat \<Rightarrow> nat" where
  "nearestPaddedValueLength l =
     (let n = padding * (l div padding) in if n < l then n + padding else n)"

section \<open>Facts\<close>

lemma Attributes_Get_append:
  "Attributes_Get (as @ bs) t =
     (if \<exists>a\<in>set as. attr_Type a = t then Attributes_Get as t else Attributes_Get bs t)"
  by (induction as) auto

lemma Attributes_Get_found: "snd (Attributes_Get as t) \<longleftrightarrow> (\<exists>a\<in>set as. attr_Type a = t)"
  by (induction as) auto

lemma Attributes_Get_mem:
  "Attributes_Get as t = (a, True) \<Longrightarrow> a \<in> set as \<and> attr_Type a = t"
  by (induction as) (auto split: if_splits)

lemma bytes_agree_eq: "length a = length b \<Longrightarrow> bytes_agree a b \<longleftrightarrow> a = b"
  by (induction a b rule: bytes_agree.induct) auto

lemma RawAttribute_Equal_iff: "RawAttribute_Equal a b \<longleftrightarrow> a = b"
  by (cases a; cases b) (auto simp: RawAttribute_Equal_def bytes_agree_eq)

text \<open>The padding function rounds up to the next multiple of four.\<close>

lemma nearestPaddedValueLength_eq: "nearestPaddedValueLength l = 4 * ((l + 3) div 4)"
  unfolding nearestPaddedValueLength_def padding_def Let_def by presburger

lemma nearestPaddedValueLength_bounds:
  "l \<le> nearestPaddedValueLength l" "nearestPaddedValueLength l < l + 4"
  "nearestPaddedValueLength l mod 4 = 0"
  unfolding nearestPaddedValueLength_eq by presburger+

lemma nearestPaddedValueLength_aligned:
  "l mod 4 = 0 \<Longrightarrow> nearestPaddedValueLength l = l"
  unfolding nearestPaddedValueLength_eq by presburger

end
