(* ===== verification/Go_Hash.thy ===== *)
theory Go_Hash
  imports Go_Prelude
begin

text \<open>
  The checksums and hashes of Go's standard library that the STUN attributes use:
  \<^verbatim>\<open>hash/crc32\<close> (\<open>ChecksumIEEE\<close>), \<^verbatim>\<open>crypto/sha1\<close>, \<^verbatim>\<open>crypto/hmac\<close> and \<^verbatim>\<open>crypto/md5\<close>,
  as executable functions on byte lists. The lemmas give what the callers need of them:
  the length of each digest.
\<close>

section \<open>CRC-32 (IEEE polynomial, reflected)\<close>

definition crc32_shift :: "u32 \<Rightarrow> u32" where
  "crc32_shift c = (if bit c 0 then drop_bit 1 c XOR 0xEDB88320 else drop_bit 1 c)"

definition crc32_update :: "u32 \<Rightarrow> byte \<Rightarrow> u32" where
  "crc32_update c b = (crc32_shift ^^ 8) (c XOR ucast b)"

definition ChecksumIEEE :: "bytes \<Rightarrow> u32" where
  "ChecksumIEEE bs = NOT (foldl crc32_update 0xFFFFFFFF bs)"

section \<open>Merkle-Damgard framing shared by SHA-1 and MD5\<close>

definition md_padding :: "nat \<Rightarrow> bytes" where
  "md_padding n = 0x80 # replicate ((64 - (n + 9) mod 64) mod 64) 0"

fun chunks :: "nat \<Rightarrow> 'a list \<Rightarrow> 'a list list" where
  "chunks n xs = (if n = 0 \<or> xs = [] then [] else take n xs # chunks n (drop n xs))"

declare chunks.simps [simp del]

section \<open>SHA-1\<close>

type_synonym sha1_state = "u32 \<times> u32 \<times> u32 \<times> u32 \<times> u32"

text \<open>The message schedule, latest word first.\<close>

fun sha1_expand :: "nat \<Rightarrow> u32 list \<Rightarrow> u32 list" where
  "sha1_expand 0 ws = ws"
| "sha1_expand (Suc k) ws =
     sha1_expand k (word_rotl 1 (ws ! 2 XOR ws ! 7 XOR ws ! 13 XOR ws ! 15) # ws)"

definition sha1_f :: "nat \<Rightarrow> u32 \<Rightarrow> u32 \<Rightarrow> u32 \<Rightarrow> u32 \<times> u32" where
  "sha1_f t b c d =
     (if t < 20 then ((b AND c) OR (NOT b AND d), 0x5A827999)
      else if t < 40 then (b XOR c XOR d, 0x6ED9EBA1)
      else if t < 60 then ((b AND c) OR (b AND d) OR (c AND d), 0x8F1BBCDC)
      else (b XOR c XOR d, 0xCA62C1D6))"

fun sha1_rounds :: "nat \<Rightarrow> u32 list \<Rightarrow> sha1_state \<Rightarrow> sha1_state" where
  "sha1_rounds t [] s = s"
| "sha1_rounds t (w # ws) (a, b, c, d, e) =
     (let (f, k) = sha1_f t b c d
      in sha1_rounds (Suc t) ws (word_rotl 5 a + f + e + k + w, a, word_rotl 30 b, c, d))"

fun sha1_block :: "sha1_state \<Rightarrow> bytes \<Rightarrow> sha1_state" where
  "sha1_block (h0, h1, h2, h3, h4) blk =
     (let ws = rev (sha1_expand 64 (rev (map be_get (chunks 4 blk))));
          (a, b, c, d, e) = sha1_rounds 0 ws (h0, h1, h2, h3, h4)
      in (h0 + a, h1 + b, h2 + c, h3 + d, h4 + e))"

definition sha1 :: "bytes \<Rightarrow> bytes" where
  "sha1 m =
     (let padded = m @ md_padding (length m) @ put_u64 (of_nat (8 * length m));
          (a, b, c, d, e) =
            foldl sha1_block (0x67452301, 0xEFCDAB89, 0x98BADCFE, 0x10325476, 0xC3D2E1F0)
              (chunks 64 padded)
      in put_u32 a @ put_u32 b @ put_u32 c @ put_u32 d @ put_u32 e)"

section \<open>HMAC-SHA1\<close>

definition hmac_key :: "bytes \<Rightarrow> bytes" where
  "hmac_key k = (let k' = (if 64 < length k then sha1 k else k) in k' @ replicate (64 - length k') 0)"

definition hmac_sha1 :: "bytes \<Rightarrow> bytes \<Rightarrow> bytes" where
  "hmac_sha1 k m =
     sha1 (map (\<lambda>b. b XOR 0x5c) (hmac_key k) @ sha1 (map (\<lambda>b. b XOR 0x36) (hmac_key k) @ m))"

section \<open>MD5\<close>

type_synonym md5_state = "u32 \<times> u32 \<times> u32 \<times> u32"

definition md5_K :: "u32 list" where
  "md5_K =
    [0xd76aa478, 0xe8c7b756, 0x242070db, 0xc1bdceee,
     0xf57c0faf, 0x4787c62a, 0xa8304613, 0xfd469501,
     0x698098d8, 0x8b44f7af, 0xffff5bb1, 0x895cd7be,
     0x6b901122, 0xfd987193, 0xa679438e, 0x49b40821,
     0xf61e2562, 0xc040b340, 0x265e5a51, 0xe9b6c7aa,
     0xd62f105d, 0x02441453, 0xd8a1e681, 0xe7d3fbc8,
     0x21e1cde6, 0xc33707d6, 0xf4d50d87, 0x455a14ed,
     0xa9e3e905, 0xfcefa3f8, 0x676f02d9, 0x8d2a4c8a,
     0xfffa3942, 0x8771f681, 0x6d9d6122, 0xfde5380c,
     0xa4beea44, 0x4bdecfa9, 0xf6bb4b60, 0xbebfbc70,
     0x289b7ec6, 0xeaa127fa, 0xd4ef3085, 0x04881d05,
     0xd9d4d039, 0xe6db99e5, 0x1fa27cf8, 0xc4ac5665,
     0xf4292244, 0x432aff97, 0xab9423a7, 0xfc93a039,
     0x655b59c3, 0x8f0ccc92, 0xffeff47d, 0x85845dd1,
     0x6fa87e4f, 0xfe2ce6e0, 0xa3014314, 0x4e0811a1,
     0xf7537e82, 0xbd3af235, 0x2ad7d2bb, 0xeb86d391]"

definition md5_S :: "nat list" where
  "md5_S =
    [7, 12, 17, 22, 7, 12, 17, 22, 7, 12, 17, 22, 7, 12, 17, 22,
     5, 9, 14, 20, 5, 9, 14, 20, 5, 9, 14, 20, 5, 9, 14, 20,
     4, 11, 16, 23, 4, 11, 16, 23, 4, 11, 16, 23, 4, 11, 16, 23,
     6, 10, 15, 21, 6, 10, 15, 21, 6, 10, 15, 21, 6, 10, 15, 21]"

definition md5_f :: "nat \<Rightarrow> u32 \<Rightarrow> u32 \<Rightarrow> u32 \<Rightarrow> u32 \<times> nat" where
  "md5_f t b c d =
     (if t < 16 then ((b AND c) OR (NOT b AND d), t)
      else if t < 32 then ((d AND b) OR (NOT d AND c), (5 * t + 1) mod 16)
      else if t < 48 then (b XOR c XOR d, (3 * t + 5) mod 16)
      else (c XOR (b OR NOT d), (7 * t) mod 16))"

fun md5_rounds :: "nat \<Rightarrow> (u32 \<times> nat) list \<Rightarrow> u32 list \<Rightarrow> md5_state \<Rightarrow> md5_state" where
  "md5_rounds t [] x s = s"
| "md5_rounds t ((k, r) # ks) x (a, b, c, d) =
     (let (f, g) = md5_f t b c d
      in md5_rounds (Suc t) ks x (d, b + word_rotl r (a + f + k + x ! g), b, c))"

fun md5_block :: "md5_state \<Rightarrow> bytes \<Rightarrow> md5_state" where
  "md5_block (a0, b0, c0, d0) blk =
     (let x = map (\<lambda>q. be_get (rev q)) (chunks 4 blk);
          (a, b, c, d) = md5_rounds 0 (zip md5_K md5_S) x (a0, b0, c0, d0)
      in (a0 + a, b0 + b, c0 + c, d0 + d))"

definition md5 :: "bytes \<Rightarrow> bytes" where
  "md5 m =
     (let padded = m @ md_padding (length m) @ rev (put_u64 (of_nat (8 * length m)));
          (a, b, c, d) = foldl md5_block (0x67452301, 0xEFCDAB89, 0x98BADCFE, 0x10325476) (chunks 64 padded)
      in rev (put_u32 a) @ rev (put_u32 b) @ rev (put_u32 c) @ rev (put_u32 d))"

section \<open>Digest lengths\<close>

lemma length_sha1 [simp]: "length (sha1 m) = 20"
  by (simp add: sha1_def Let_def split: prod.splits)

lemma length_hmac_sha1 [simp]: "length (hmac_sha1 k m) = 20"
  by (simp add: hmac_sha1_def)

lemma length_md5 [simp]: "length (md5 m) = 16"
  by (simp add: md5_def Let_def split: prod.splits)

end
