(* ===== verification/Ice_Candidate.thy ===== *)
theory Ice_Candidate
  imports Go_Net Stun_Attributes Go_Hash
begin

text \<open>
  ICE candidates: \<^verbatim>\<open>src/ice/candidate.go\<close>, \<^verbatim>\<open>src/ice/util.go\<close> and the candidate lists of
  \<^verbatim>\<open>src/ice/gather.go\<close>.

  The parser is written as the code has it: a first loop that cuts six elements at single
  spaces, and a second one over the rest of the buffer that finds key-value pairs by the
  offsets \<open>start\<close>, \<open>end\<close> and \<open>vStart\<close>. It fills in a candidate it is given, so a failed
  parse leaves it half filled; the functions return the error and the candidate.
\<close>

section \<open>Addresses\<close>

datatype AddressType = AddressIPv4 | AddressIPv6 | AddressFQDN

record ConnectionAddress =
  ca_Host :: string
  ca_IP :: bytes
  ca_Type :: AddressType

definition ConnectionAddress_reset :: "ConnectionAddress \<Rightarrow> ConnectionAddress" where
  "ConnectionAddress_reset a =
     a\<lparr>ca_Host := [], ca_IP := map (\<lambda>_. 0) (ca_IP a), ca_Type := AddressIPv4\<rparr>"

definition ConnectionAddress_Equal :: "ConnectionAddress \<Rightarrow> ConnectionAddress \<Rightarrow> bool" where
  "ConnectionAddress_Equal a b =
     (if ca_Type a \<noteq> ca_Type b then False
      else case ca_Type a of AddressFQDN \<Rightarrow> ca_Host a = ca_Host b | _ \<Rightarrow> IP_Equal (ca_IP a) (ca_IP b))"

definition ConnectionAddress_str :: "ConnectionAddress \<Rightarrow> string" where
  "ConnectionAddress_str a = (case ca_Type a of AddressFQDN \<Rightarrow> ca_Host a | _ \<Rightarrow> IP_String (ca_IP a))"

section \<open>Candidates\<close>

datatype CandidateType =
    CandidateUnknown | CandidateHost | CandidateServerReflexive | CandidatePeerReflexive | CandidateRelay

definition CandidateType_String :: "CandidateType \<Rightarrow> string" where
  "CandidateType_String c =
     (case c of
        CandidateHost \<Rightarrow> ''host''
      | CandidateServerReflexive \<Rightarrow> ''srflx''
      | CandidatePeerReflexive \<Rightarrow> ''prflx''
      | CandidateRelay \<Rightarrow> ''relay''
      | CandidateUnknown \<Rightarrow> ''unknown'')"

text \<open>\<open>TransportZero\<close> is the zero value of the byte, which no constant names.\<close>

datatype TransportType = TransportZero | TransportUDP | TransportUnknown

definition TransportType_String :: "TransportType \<Rightarrow> string" where
  "TransportType_String t = (if t = TransportUDP then ''UDP'' else ''Unknown'')"

record Attribute =
  at_Key :: string
  at_Value :: string

fun Attributes_Value :: "Attribute list \<Rightarrow> string \<Rightarrow> string" where
  "Attributes_Value [] k = []"
| "Attributes_Value (a # as) k = (if at_Key a = k then at_Value a else Attributes_Value as k)"

definition Attributes_equal :: "Attribute list \<Rightarrow> Attribute list \<Rightarrow> bool" where
  "Attributes_equal a b \<longleftrightarrow>
     length a = length b \<and>
     list_all (\<lambda>attr. Attributes_Value b (at_Key attr) = at_Value attr) a \<and>
     list_all (\<lambda>attr. Attributes_Value a (at_Key attr) = at_Value attr) b"

definition Attribute_String :: "Attribute \<Rightarrow> string" where
  "Attribute_String a = at_Key a @ '':'' @ at_Value a"

record Candidate =
  cd_addr :: string
  baseAddr :: string
  relatedAddr :: string
  transport :: TransportType
  transportValue :: string
  Foundation :: int
  ComponentID :: int
  Priority :: int
  cd_Type :: CandidateType
  NetworkCost :: int
  Generation :: int
  cd_Attributes :: "Attribute list"

text \<open>\<open>new(Candidate)\<close>\<close>

definition zero_Candidate :: Candidate where
  "zero_Candidate = \<lparr>cd_addr = [], baseAddr = [], relatedAddr = [], transport = TransportZero,
     transportValue = [], Foundation = 0, ComponentID = 0, Priority = 0, cd_Type = CandidateUnknown,
     NetworkCost = 0, Generation = 0, cd_Attributes = []\<rparr>"

definition Candidate_String :: "Candidate \<Rightarrow> string" where
  "Candidate_String c =
     (let (host, port) = split_or_empty (cd_addr c);
          s = ''a=candidate:'' @ itoa (Foundation c) @ '' '' @ itoa (ComponentID c) @ '' '' @
              TransportType_String (transport c) @ '' '' @ itoa (Priority c) @ '' '' @ host @ '' '' @ port @
              '' typ '' @ CandidateType_String (cd_Type c)
      in if cd_Type c = CandidateServerReflexive then
           let (rhost, rport) = split_or_empty (baseAddr c)
           in s @ '' raddr '' @ rhost @ '' rport '' @ rport
         else s)"

definition Candidate_reset :: "Candidate \<Rightarrow> Candidate" where
  "Candidate_reset c =
     c\<lparr>cd_addr := [], relatedAddr := [], NetworkCost := 0, Generation := 0,
       transport := TransportUnknown, transportValue := [], cd_Attributes := []\<rparr>"

definition Candidate_Equal :: "Candidate \<Rightarrow> Candidate \<Rightarrow> bool" where
  "Candidate_Equal c b =
     (if cd_addr c \<noteq> cd_addr b then False
      else if transport c \<noteq> transport b then False
      else if Foundation c \<noteq> Foundation b then False
      else if ComponentID c \<noteq> ComponentID b then False
      else if Priority c \<noteq> Priority b then False
      else if cd_Type c \<noteq> cd_Type b then False
      else True)"

section \<open>The parser\<close>

datatype cand_error =
    BufferTooSmall nat
  | BadNumber string
  | UnknownCandidate string
  | FailedAtChar nat nat cand_error
  | FailedAttribute nat cand_error

type_synonym parsed = "cand_error option \<times> Candidate"

definition sp :: char where "sp = CHR '' ''"
definition mandatoryElements :: nat where "mandatoryElements = 6"
definition minBufLen :: nat where "minBufLen = 10"

text \<open>The index at which the loop of \<open>parseInt\<close> stops: the first digit, else the last index.\<close>

fun first_digit :: "nat \<Rightarrow> string \<Rightarrow> nat" where
  "first_digit i [] = i"
| "first_digit i [c] = i"
| "first_digit i (c # d # cs) = (if is_digit c then i else first_digit (Suc i) (d # cs))"

definition parseInt :: "string \<Rightarrow> int option" where
  "parseInt v =
     (let v2 = drop (first_digit 0 v) v
      in case Atoi v2 of Some i \<Rightarrow> Some i | None \<Rightarrow> Sscanf_hex v2)"

definition parse_number :: "string \<Rightarrow> string \<Rightarrow> (int \<Rightarrow> Candidate) \<Rightarrow> Candidate \<Rightarrow> parsed" where
  "parse_number what v f c =
     (case parseInt v of None \<Rightarrow> (Some (BadNumber what), c) | Some i \<Rightarrow> (None, f i))"

definition parseFoundation :: "string \<Rightarrow> Candidate \<Rightarrow> parsed" where
  "parseFoundation v c = parse_number ''foundation'' v (\<lambda>i. c\<lparr>Foundation := i\<rparr>) c"

definition parseComponentID :: "string \<Rightarrow> Candidate \<Rightarrow> parsed" where
  "parseComponentID v c = parse_number ''component ID'' v (\<lambda>i. c\<lparr>ComponentID := i\<rparr>) c"

definition parsePriority :: "string \<Rightarrow> Candidate \<Rightarrow> parsed" where
  "parsePriority v c = parse_number ''priority'' v (\<lambda>i. c\<lparr>Priority := i\<rparr>) c"

definition parseNetworkCost :: "string \<Rightarrow> Candidate \<Rightarrow> parsed" where
  "parseNetworkCost v c = parse_number ''network cost'' v (\<lambda>i. c\<lparr>NetworkCost := i\<rparr>) c"

definition parseGeneration :: "string \<Rightarrow> Candidate \<Rightarrow> parsed" where
  "parseGeneration v c = parse_number ''generation'' v (\<lambda>i. c\<lparr>Generation := i\<rparr>) c"

definition parsePort :: "string \<Rightarrow> Candidate \<Rightarrow> parsed" where
  "parsePort v c = (None, c\<lparr>cd_addr := cd_addr c @ '':'' @ v\<rparr>)"

definition parseRelatedPort :: "string \<Rightarrow> Candidate \<Rightarrow> parsed" where
  "parseRelatedPort v c = (None, c\<lparr>relatedAddr := relatedAddr c @ '':'' @ v\<rparr>)"

definition parseConnectionAddress :: "string \<Rightarrow> Candidate \<Rightarrow> parsed" where
  "parseConnectionAddress v c = (None, c\<lparr>cd_addr := v\<rparr>)"

definition parseRelatedAddress :: "string \<Rightarrow> Candidate \<Rightarrow> parsed" where
  "parseRelatedAddress v c = (None, c\<lparr>relatedAddr := v\<rparr>)"

definition parseTransport :: "string \<Rightarrow> Candidate \<Rightarrow> parsed" where
  "parseTransport v c =
     (None, if v = ''udp'' \<or> v = ''UDP'' then c\<lparr>transport := TransportUDP\<rparr>
            else c\<lparr>transport := TransportUnknown, transportValue := v\<rparr>)"

definition parseType :: "string \<Rightarrow> Candidate \<Rightarrow> parsed" where
  "parseType v c =
     (if v = ''host'' then (None, c\<lparr>cd_Type := CandidateHost\<rparr>)
      else if v = ''prflx'' then (None, c\<lparr>cd_Type := CandidatePeerReflexive\<rparr>)
      else if v = ''relay'' then (None, c\<lparr>cd_Type := CandidateRelay\<rparr>)
      else if v = ''srflx'' then (None, c\<lparr>cd_Type := CandidateServerReflexive\<rparr>)
      else (Some (UnknownCandidate v), c))"

definition parseAttribute :: "Attribute \<Rightarrow> Candidate \<Rightarrow> parsed" where
  "parseAttribute a c =
     (if at_Key a = ''generation'' then parseGeneration (at_Value a) c
      else if at_Key a = ''network-cost'' then parseNetworkCost (at_Value a) c
      else if at_Key a = ''typ'' then parseType (at_Value a) c
      else if at_Key a = ''raddr'' then parseRelatedAddress (at_Value a) c
      else if at_Key a = ''rport'' then parseRelatedPort (at_Value a) c
      else (None, c\<lparr>cd_Attributes := cd_Attributes c @ [a]\<rparr>))"

definition parse_fns :: "(string \<Rightarrow> Candidate \<Rightarrow> parsed) list" where
  "parse_fns = [parseFoundation, parseComponentID, parseTransport, parsePriority,
     parseConnectionAddress, parsePort]"

text \<open>
  The first loop of \<open>parse\<close>: at index \<open>i\<close> with \<open>cur\<close> the \<open>l\<close> characters since the last space.
  The result is the error, the value of \<open>last\<close> (0 when the buffer ended first) and the candidate.
\<close>

fun parse_elements ::
  "nat \<Rightarrow> nat \<Rightarrow> string \<Rightarrow> string \<Rightarrow> Candidate \<Rightarrow> cand_error option \<times> nat \<times> Candidate" where
  "parse_elements i pos cur [] c = (None, 0, c)"
| "parse_elements i pos cur (x # xs) c =
     (if pos > mandatoryElements - 1 then (None, i, c)
      else if x \<noteq> sp then parse_elements (Suc i) pos (cur @ [x]) xs c
      else case (parse_fns ! pos) cur c of
        (Some e, c) \<Rightarrow> (Some (FailedAtChar i pos e), 0, c)
      | (None, c) \<Rightarrow> parse_elements (Suc i) (Suc pos) [] xs c)"

text \<open>The second loop, over the indices of \<open>buf\<close>.\<close>

fun parse_pairs ::
  "string \<Rightarrow> nat \<Rightarrow> nat list \<Rightarrow> nat \<Rightarrow> nat \<Rightarrow> nat \<Rightarrow> Candidate \<Rightarrow> parsed" where
  "parse_pairs buf last1 [] start end1 vStart c = (None, c)"
| "parse_pairs buf last1 (i # is) start end1 vStart c =
     (if buf ! i \<noteq> sp \<and> i \<noteq> length buf - 1 then
        (if start = 0 then parse_pairs buf last1 is i end1 vStart c
         else if vStart = 0 \<and> end1 \<noteq> 0 then parse_pairs buf last1 is start end1 i c
         else parse_pairs buf last1 is start end1 vStart c)
      else if start = 0 then parse_pairs buf last1 is start end1 vStart c
      else if end1 = 0 then parse_pairs buf last1 is start i vStart c
      else if vStart = 0 then parse_pairs buf last1 is start end1 vStart c
      else
        let i' = (if i = length buf - 1 \<and> buf ! (length buf - 1) \<noteq> sp then length buf else i)
        in case parseAttribute \<lparr>at_Key = subslice start end1 buf, at_Value = subslice vStart i' buf\<rparr> c of
             (Some e, c) \<Rightarrow> (Some (FailedAttribute (i' + last1) e), c)
           | (None, c) \<Rightarrow> parse_pairs buf last1 is 0 0 0 c)"

definition trim_prefix :: "string \<Rightarrow> string \<Rightarrow> string" where
  "trim_prefix p s = (if take (length p) s = p then drop (length p) s else s)"

definition candidateParser_parse :: "string \<Rightarrow> Candidate \<Rightarrow> parsed" where
  "candidateParser_parse buf c =
     (if length buf < minBufLen then (Some (BufferTooSmall (length buf)), c)
      else
        let buf = (if buf ! 0 = CHR ''a'' then trim_prefix ''a='' buf else buf);
            buf = (if buf ! 0 = CHR ''c'' then trim_prefix ''candidate:'' buf else buf)
        in case parse_elements 0 0 [] buf c of
             (Some e, _, c) \<Rightarrow> (Some e, c)
           | (None, last1, c) \<Rightarrow>
               if last1 = 0 then (None, c)
               else let buf = drop (last1 - 1) buf
                    in parse_pairs buf last1 [0..<length buf] 0 0 0 c)"

definition ParseAttribute :: "string \<Rightarrow> Candidate \<Rightarrow> parsed" where
  "ParseAttribute v c = candidateParser_parse v c"

section \<open>Priorities and foundations\<close>

definition typePreference :: "CandidateType \<Rightarrow> 32 word" where
  "typePreference t =
     (case t of CandidateHost \<Rightarrow> 126 | CandidateServerReflexive \<Rightarrow> 100
      | CandidatePeerReflexive \<Rightarrow> 110 | CandidateRelay \<Rightarrow> 0 | CandidateUnknown \<Rightarrow> 0)"

definition calcCandidatePriority :: "CandidateType \<Rightarrow> int \<Rightarrow> int \<Rightarrow> int" where
  "calcCandidatePriority t localPreference componentID =
     sint (push_bit 24 (typePreference t AND 0xff) + push_bit 8 (of_int localPreference AND 0xffff) +
           ((256 - of_int componentID) AND 0xff) :: 32 word)"

definition calcFoundation :: "string \<Rightarrow> int" where
  "calcFoundation base = uint (be_get (take 4 (md5 (bytes_of_string base))) :: u32)"

definition defaultPreference :: int where "defaultPreference = 0xffff"
definition maxCandidates :: nat where "maxCandidates = 8"

section \<open>Candidate lists\<close>

fun addCandidates :: "Candidate list \<Rightarrow> Candidate \<Rightarrow> Candidate list" where
  "addCandidates cs new = (if list_ex (\<lambda>c. Candidate_Equal c new) cs then cs else cs @ [new])"

text \<open>The loop of \<open>getLocalCandidates\<close> over the gathered addresses.\<close>

fun local_candidates :: "string \<Rightarrow> string \<Rightarrow> bytes list \<Rightarrow> Candidate list \<Rightarrow> Candidate list" where
  "local_candidates primary port [] cs = cs"
| "local_candidates primary port (ip # ips) cs =
     (let addr = IP_String ip @ '':'' @ port;
          c = zero_Candidate\<lparr>cd_Type := CandidateHost, cd_addr := addr, baseAddr := addr,
                             Foundation := calcFoundation addr\<rparr>
      in if list_ex (\<lambda>c2. Candidate_Equal c2 c) cs then local_candidates primary port ips cs
         else if addr = primary then
           (if cs \<noteq> [] then
              let t = cs ! 0 in local_candidates primary port ips ((cs[0 := c])[length cs - 1 := t])
            else local_candidates primary port ips (cs @ [c]))
         else local_candidates primary port ips (cs @ [c]))"

definition getLocalCandidates :: "string \<Rightarrow> bytes list \<Rightarrow> string + Candidate list" where
  "getLocalCandidates primary addrs =
     (case SplitHostPort primary of
        Inl e \<Rightarrow> Inl e
      | Inr (_, port) \<Rightarrow>
          let cs = local_candidates primary port addrs []
          in Inr (if length cs > maxCandidates - 1 then take (maxCandidates - 1) cs else cs))"

section \<open>UDP addresses\<close>

text \<open>\<open>addrToUDPAddr\<close>: IP and port; failures of the steps are only logged.\<close>

definition addrToUDPAddr :: "string \<Rightarrow> bytes \<times> int" where
  "addrToUDPAddr addr =
     (let (host, port) = split_or_empty addr
      in (ParseIP host, Atoi_value port))"

definition udpAddrToAddr :: "bytes \<times> int \<Rightarrow> string" where
  "udpAddrToAddr a = IP_String (fst a) @ '':'' @ itoa (snd a)"

section \<open>What the parser does with well-formed text\<close>

definition token :: "string \<Rightarrow> bool" where
  "token w \<longleftrightarrow> w \<noteq> [] \<and> sp \<notin> set w"

text \<open>The first loop hands every element up to a space to its function.\<close>

lemma parse_elements_token:
  assumes "sp \<notin> set w" and "pos \<le> 5"
  shows "parse_elements i pos cur (w @ sp # rest) c =
    (case (parse_fns ! pos) (cur @ w) c of
       (Some e, c) \<Rightarrow> (Some (FailedAtChar (i + length w) pos e), 0, c)
     | (None, c) \<Rightarrow> parse_elements (Suc (i + length w)) (Suc pos) [] rest c)"
  using assms(1)
proof (induction w arbitrary: i cur)
  case Nil
  then show ?case using assms(2) by (simp add: mandatoryElements_def split: prod.splits option.splits)
next
  case (Cons x w)
  then have "x \<noteq> sp" "sp \<notin> set w" by auto
  then have "parse_elements i pos cur ((x # w) @ sp # rest) c =
      parse_elements (Suc i) pos (cur @ [x]) (w @ sp # rest) c"
    using assms(2) by (simp add: mandatoryElements_def)
  with Cons.IH [OF \<open>sp \<notin> set w\<close>, of "Suc i" "cur @ [x]"] show ?case
    by (simp split: prod.splits option.splits)
qed

lemma parse_elements_done: "xs \<noteq> [] \<Longrightarrow> parse_elements i 6 cur xs c = (None, i, c)"
  by (cases xs) (simp_all add: mandatoryElements_def)

text \<open>Inside a key or inside a value the second loop changes nothing.\<close>

lemma parse_pairs_inside:
  assumes "\<forall>i\<in>set js. buf ! i \<noteq> sp \<and> i \<noteq> length buf - 1" and "s \<noteq> 0" and "v = 0 \<longrightarrow> e = 0"
  shows "parse_pairs buf l (js @ is) s e v c = parse_pairs buf l is s e v c"
  using assms by (induction js) auto

lemma nth_in_token:
  assumes "sp \<notin> set w" and "length pre \<le> i" and "i < length pre + length w"
  shows "(pre @ w @ suf) ! i \<noteq> sp"
proof -
  have "i - length pre < length w" using assms(2,3) by simp
  moreover from this have "w ! (i - length pre) \<noteq> sp" using assms(1) nth_mem by metis
  ultimately show ?thesis using assms(2) by (simp add: nth_append)
qed

lemma upt_split: "i \<le> j \<Longrightarrow> j < n \<Longrightarrow> [i..<n] = [i..<j] @ j # [Suc j..<n]"
  using upt_add_eq_append [of i j "n - j"] by (simp add: upt_conv_Cons)

text \<open>
  One pair, from the first character of its key. A value of one character at the end of the
  buffer is lost; for every other the attribute is handled and the offsets are reset.
\<close>

lemma parse_pairs_pair:
  assumes key: "token key" and val: "token val" and pre: "pre \<noteq> []"
    and buf: "buf = pre @ key @ sp # val @ suf"
    and suf: "suf = [] \<and> 2 \<le> length val \<or> (\<exists>suf'. suf = sp # suf')"
  shows "parse_pairs buf l [length pre..<length buf] 0 0 0 c =
    (case parseAttribute \<lparr>at_Key = key, at_Value = val\<rparr> c of
       (Some e, c) \<Rightarrow> (Some (FailedAttribute (length pre + length key + 1 + length val + l) e), c)
     | (None, c) \<Rightarrow> parse_pairs buf l [length pre + length key + 2 + length val..<length buf] 0 0 0 c)"
proof -
  let ?p = "length pre" and ?n = "length buf"
  define k where "k = ?p + length key"
  define m where "m = k + 1 + length val"
  have len: "?n = m + length suf" using buf by (simp add: k_def m_def)
  have pos: "0 < ?p" "?p < k" "k + 1 < m" using pre key val by (auto simp: k_def m_def token_def)
  have ends: "m = ?n \<and> k + 2 < m \<or> m < ?n"
    using suf len by (auto simp: m_def)
  have nsp_key: "buf ! i \<noteq> sp" if "?p \<le> i" "i < k" for i
    using nth_in_token [of key pre i] key that buf by (simp add: token_def k_def)
  have nsp_val: "buf ! i \<noteq> sp" if "k + 1 \<le> i" "i < m" for i
    using nth_in_token [of val "pre @ key @ [sp]" i suf] val that buf by (simp add: token_def k_def m_def)
  have sp_k: "buf ! k = sp" using buf by (simp add: k_def nth_append)
  have sub: "subslice ?p k buf = key" "subslice (k + 1) m buf = val"
    using buf by (simp_all add: subslice_def k_def m_def)
  have "parse_pairs buf l [?p..<?n] 0 0 0 c = parse_pairs buf l [Suc ?p..<?n] ?p 0 0 c"
    using pos ends nsp_key [of ?p] by (subst upt_conv_Cons) auto
  also have "[Suc ?p..<?n] = [Suc ?p..<k] @ k # [k + 1..<?n]"
    using pos ends by (subst upt_split [of "Suc ?p" k ?n]) auto
  also have "parse_pairs buf l ([Suc ?p..<k] @ k # [k + 1..<?n]) ?p 0 0 c = parse_pairs buf l (k # [k + 1..<?n]) ?p 0 0 c"
    using pos ends nsp_key by (intro parse_pairs_inside) auto
  also have "\<dots> = parse_pairs buf l [k + 1..<?n] ?p k 0 c"
    using pos sp_k by simp
  also have "\<dots> = parse_pairs buf l [k + 2..<?n] ?p k (k + 1) c"
    using pos ends nsp_val [of "k + 1"] by (subst upt_conv_Cons) auto
  finally have read: "parse_pairs buf l [?p..<?n] 0 0 0 c = parse_pairs buf l [k + 2..<?n] ?p k (k + 1) c" .
  define q where "q = (if m = ?n then ?n - 1 else m)"
  have q: "k + 2 \<le> q" "q < ?n" using pos ends by (auto simp: q_def)
  have "[k + 2..<?n] = [k + 2..<q] @ q # [Suc q..<?n]"
    using q by (rule upt_split)
  moreover have "parse_pairs buf l ([k + 2..<q] @ q # [Suc q..<?n]) ?p k (k + 1) c =
      parse_pairs buf l (q # [Suc q..<?n]) ?p k (k + 1) c"
    using pos q nsp_val by (intro parse_pairs_inside) (auto simp: q_def split: if_splits)
  ultimately have read2: "parse_pairs buf l [?p..<?n] 0 0 0 c = parse_pairs buf l (q # [Suc q..<?n]) ?p k (k + 1) c"
    using read by simp
  have q_end: "\<not> (buf ! q \<noteq> sp \<and> q \<noteq> ?n - 1)"
    using suf len by (auto simp: q_def m_def k_def buf nth_append)
  have q': "(if q = ?n - 1 \<and> buf ! (?n - 1) \<noteq> sp then ?n else q) = m"
  proof (cases "m = ?n")
    case True
    then show ?thesis using nsp_val [of "?n - 1"] pos by (simp add: q_def)
  next
    case False
    then have "buf ! q = sp" using suf len by (auto simp: q_def m_def k_def buf nth_append)
    then show ?thesis using False by (auto simp: q_def)
  qed
  have rest: "[Suc q..<?n] = [k + 2 + length val..<?n]"
  proof (cases "m = ?n")
    case True
    then show ?thesis by (simp add: q_def m_def)
  next
    case False
    then show ?thesis by (simp add: q_def m_def)
  qed
  have nz: "?p \<noteq> 0" "k \<noteq> 0" "k + 1 \<noteq> 0" using pos by simp_all
  have "parse_pairs buf l (q # is) ?p k (k + 1) c =
    (case parseAttribute \<lparr>at_Key = key, at_Value = val\<rparr> c of
       (Some e, c) \<Rightarrow> (Some (FailedAttribute (m + l) e), c) | (None, c) \<Rightarrow> parse_pairs buf l is 0 0 0 c)" for "is"
    by (simp only: parse_pairs.simps(2) q_end q' nz if_False Let_def sub)
  then show ?thesis
    unfolding read2 rest by (simp only: m_def k_def ac_simps)
qed

section \<open>Printing and parsing a candidate\<close>

lemma parseInt_show_dec:
  assumes "int n \<le> max_int"
  shows "parseInt (show_dec n) = Some (int n)"
proof -
  obtain x xs where x: "show_dec n = x # xs" by (meson neq_Nil_conv show_base_nonempty)
  then have "is_digit x" using show_dec_digits [of n] by simp
  then have "first_digit 0 (show_dec n) = 0" unfolding x by (cases xs) simp_all
  then show ?thesis using Atoi_show_dec [OF assms] by (simp add: parseInt_def)
qed

lemma token_show_dec [simp]: "token (show_dec n)"
  using show_dec_digits [of n] digit_not_sign by (auto simp: token_def sp_def list_all_iff)

definition good_number :: "int \<Rightarrow> bool" where
  "good_number i \<longleftrightarrow> 0 \<le> i \<and> i \<le> max_int"

lemma good_number_itoa:
  assumes "good_number i"
  shows "token (itoa i)" "parseInt (itoa i) = Some i"
  using assms parseInt_show_dec [of "nat i"] by (simp_all add: itoa_def good_number_def)

definition good_address :: "string \<Rightarrow> string \<Rightarrow> string \<Rightarrow> bool" where
  "good_address a host port \<longleftrightarrow>
     a = host @ '':'' @ port \<and> token host \<and> plain host \<and> token port \<and> plain port"

lemma good_address_split: "good_address a host port \<Longrightarrow> split_or_empty a = (host, port)"
  using SplitHostPort_plain [of host port] by (simp add: good_address_def split_or_empty_def)

lemma candidate_type_token: "token (CandidateType_String t)" "2 \<le> length (CandidateType_String t)"
  by (cases t; simp add: CandidateType_String_def token_def sp_def)+

lemma parseType_String:
  "t \<noteq> CandidateUnknown \<Longrightarrow> parseType (CandidateType_String t) c = (None, c\<lparr>cd_Type := t\<rparr>)"
  by (cases t) (simp_all add: CandidateType_String_def parseType_def)

text \<open>The six mandatory elements of a printed candidate, each followed by a space.\<close>

definition element_text :: "Candidate \<Rightarrow> string \<Rightarrow> string \<Rightarrow> string" where
  "element_text c host port =
     itoa (Foundation c) @ sp # itoa (ComponentID c) @ sp # TransportType_String TransportUDP @ sp # itoa (Priority c) @ sp #
     host @ sp # port @ [sp]"

lemma parse_element_text:
  assumes "good_number (Foundation c)" "good_number (ComponentID c)" "good_number (Priority c)"
    and addr: "token host" "token port" and "tail \<noteq> []"
  shows "parse_elements 0 0 [] (element_text c host port @ tail) c0 =
    (None, length (element_text c host port),
     c0\<lparr>Foundation := Foundation c, ComponentID := ComponentID c, transport := TransportUDP,
        Priority := Priority c, cd_addr := host @ '':'' @ port\<rparr>)"
proof -
  have tokens: "sp \<notin> set (itoa (Foundation c))" "sp \<notin> set (itoa (ComponentID c))" "sp \<notin> set (itoa (Priority c))"
      "sp \<notin> set (TransportType_String TransportUDP)" "sp \<notin> set host" "sp \<notin> set port"
    using assms good_number_itoa by (simp_all add: token_def sp_def TransportType_String_def)
  have fns: "parse_fns ! 0 = parseFoundation" "parse_fns ! Suc 0 = parseComponentID" "parse_fns ! Suc (Suc 0) = parseTransport"
      "parse_fns ! Suc (Suc (Suc 0)) = parsePriority" "parse_fns ! Suc (Suc (Suc (Suc 0))) = parseConnectionAddress"
      "parse_fns ! Suc (Suc (Suc (Suc (Suc 0)))) = parsePort"
    by (simp_all add: parse_fns_def)
  have done6: "parse_elements i (Suc (Suc (Suc (Suc (Suc (Suc 0)))))) [] tail x = (None, i, x)" for i x
    using parse_elements_done [OF assms(6), of i "[]" x] by (simp add: numeral_eq_Suc)
  show ?thesis
    using addr assms(1-3)
    by (simp only: element_text_def append_assoc append_Cons append_Nil parse_elements_token [OF tokens(1)]
        parse_elements_token [OF tokens(2)] parse_elements_token [OF tokens(3)] parse_elements_token [OF tokens(4)]
        parse_elements_token [OF tokens(5)] parse_elements_token [OF tokens(6)] fns)
      (simp add: parseFoundation_def parseComponentID_def parsePriority_def parse_number_def good_number_itoa
        parseTransport_def TransportType_String_def parseConnectionAddress_def parsePort_def done6)
qed


text \<open>The pairs of a printed candidate.\<close>

definition pair_text :: "CandidateType \<Rightarrow> string \<Rightarrow> string \<Rightarrow> string" where
  "pair_text t rhost rport =
     ''typ'' @ sp # CandidateType_String t @
     (if t = CandidateServerReflexive then sp # ''raddr'' @ sp # rhost @ sp # ''rport'' @ sp # rport else [])"

lemma parse_pairs_first: "parse_pairs (sp # b) l [0..<length (sp # b)] 0 0 0 c = parse_pairs (sp # b) l [1..<length (sp # b)] 0 0 0 c"
  by (subst upt_conv_Cons) simp_all

lemma key_tokens: "token ''typ''" "token ''raddr''" "token ''rport''"
  by (simp_all add: token_def sp_def)

lemma parse_pairs_next:
  assumes "token key" and "token val" and "pre \<noteq> []" and "buf = pre @ key @ sp # val @ suf"
    and "suf = [] \<and> 2 \<le> length val \<or> (\<exists>suf'. suf = sp # suf')"
    and "parseAttribute \<lparr>at_Key = key, at_Value = val\<rparr> c = (None, c')"
    and "length pre' = length pre + length key + 2 + length val"
  shows "parse_pairs buf l [length pre..<length buf] 0 0 0 c = parse_pairs buf l [length pre'..<length buf] 0 0 0 c'"
  using parse_pairs_pair [OF assms(1-5), of l c] assms(6,7) by simp

lemma parse_pair_text:
  assumes "t \<noteq> CandidateUnknown"
    and refl: "t = CandidateServerReflexive \<Longrightarrow> token rhost \<and> token rport \<and> 2 \<le> length rport"
  shows "parse_pairs (sp # pair_text t rhost rport) l [0..<length (sp # pair_text t rhost rport)] 0 0 0 c =
    (None, if t = CandidateServerReflexive
           then c\<lparr>cd_Type := t, relatedAddr := rhost @ '':'' @ rport\<rparr> else c\<lparr>cd_Type := t\<rparr>)"
proof (cases "t = CandidateServerReflexive")
  case False
  then have "sp # pair_text t rhost rport = [sp] @ ''typ'' @ sp # CandidateType_String t @ []"
    by (simp add: pair_text_def)
  from parse_pairs_pair [OF key_tokens(1) candidate_type_token(1) _ this] candidate_type_token(2) False
  show ?thesis
    unfolding parse_pairs_first
    by (simp add: parseAttribute_def parseType_String [OF assms(1)] pair_text_def)
next
  case True
  define b where "b = sp # pair_text t rhost rport"
  let ?T = "CandidateType_String t"
  let ?p2 = "sp # ''typ'' @ sp # ?T @ [sp]" and ?p3 = "sp # ''typ'' @ sp # ?T @ sp # ''raddr'' @ sp # rhost @ [sp]"
  have b1: "b = [sp] @ ''typ'' @ sp # ?T @ sp # ''raddr'' @ sp # rhost @ sp # ''rport'' @ sp # rport"
    and b2: "b = ?p2 @ ''raddr'' @ sp # rhost @ sp # ''rport'' @ sp # rport"
    and b3: "b = ?p3 @ ''rport'' @ sp # rport @ []"
    using True by (simp_all add: b_def pair_text_def)
  have tokens: "token rhost" "token rport" "2 \<le> length rport" using refl True by auto
  have "parse_pairs b l [length [sp]..<length b] 0 0 0 c =
      parse_pairs b l [length ?p2..<length b] 0 0 0 (c\<lparr>cd_Type := t\<rparr>)"
    by (rule parse_pairs_next [OF key_tokens(1) candidate_type_token(1) _ b1])
      (simp_all add: parseAttribute_def parseType_String [OF assms(1)])
  also have "\<dots> = parse_pairs b l [length ?p3..<length b] 0 0 0 (c\<lparr>cd_Type := t, relatedAddr := rhost\<rparr>)"
    by (rule parse_pairs_next [OF key_tokens(2) tokens(1) _ b2])
      (simp_all add: parseAttribute_def parseRelatedAddress_def)
  also have "\<dots> = parse_pairs b l [length (b @ [sp])..<length b] 0 0 0
      (c\<lparr>cd_Type := t, relatedAddr := rhost @ '':'' @ rport\<rparr>)"
    by (rule parse_pairs_next [OF key_tokens(3) tokens(2) _ b3])
      (simp_all add: parseAttribute_def parseRelatedPort_def tokens(3) b3)
  finally show ?thesis
    unfolding parse_pairs_first using True by (simp add: b_def)
qed

text \<open>
  A printed candidate is parsed into its fields, whatever the receiver held. The address comes
  back as host, colon and port, the related address of a server reflexive one likewise from the
  base it was printed with. (The port of the base has two digits or more, since the parser drops
  a single last character.)
\<close>

definition splits_to :: "string \<Rightarrow> string \<Rightarrow> string \<Rightarrow> bool" where
  "splits_to a host port \<longleftrightarrow> SplitHostPort a = Inr (host, port) \<and> token host \<and> token port"

lemma splits_plain:
  assumes "splits_to a host port"
  shows "a = host @ '':'' @ port \<longleftrightarrow> a ! 0 \<noteq> CHR ''[''"
proof (cases "a ! 0 = CHR ''[''")
  case True
  then have "a = ''['' @ host @ '']:'' @ port" using SplitHostPort_form [of a host port] assms by (simp add: splits_to_def)
  then have "length a \<noteq> length (host @ '':'' @ port)" by simp
  then show ?thesis using True by blast
next
  case False
  then show ?thesis using SplitHostPort_form [of a host port] assms by (simp add: splits_to_def)
qed

definition scalars_ok :: "Candidate \<Rightarrow> bool" where
  "scalars_ok c \<longleftrightarrow> good_number (Foundation c) \<and> good_number (ComponentID c) \<and> good_number (Priority c) \<and>
     transport c = TransportUDP \<and> cd_Type c \<noteq> CandidateUnknown"

lemma ParseAttribute_fields:
  assumes ok: "scalars_ok c" and addr: "splits_to (cd_addr c) host port"
    and base: "cd_Type c = CandidateServerReflexive \<Longrightarrow> splits_to (baseAddr c) rhost rport \<and> 2 \<le> length rport"
  shows "ParseAttribute (Candidate_String c) c0 = (None,
    c0\<lparr>Foundation := Foundation c, ComponentID := ComponentID c, transport := TransportUDP, Priority := Priority c,
       cd_addr := host @ '':'' @ port, cd_Type := cd_Type c,
       relatedAddr := (if cd_Type c = CandidateServerReflexive then rhost @ '':'' @ rport else relatedAddr c0)\<rparr>)"
proof -
  let ?e = "element_text c host port" and ?p = "pair_text (cd_Type c) rhost rport"
  have split: "split_or_empty (cd_addr c) = (host, port)"
    "cd_Type c = CandidateServerReflexive \<Longrightarrow> split_or_empty (baseAddr c) = (rhost, rport)"
    using addr base by (auto simp: splits_to_def split_or_empty_def)
  have str: "Candidate_String c = ''a=candidate:'' @ ?e @ ?p"
    using ok split by (simp add: Candidate_String_def element_text_def pair_text_def scalars_ok_def sp_def)
  have first: "?e \<noteq> []" "?p \<noteq> []" by (simp_all add: element_text_def pair_text_def)
  have elems: "parse_elements 0 0 [] (?e @ ?p) c0 = (None, length ?e,
      c0\<lparr>Foundation := Foundation c, ComponentID := ComponentID c, transport := TransportUDP,
         Priority := Priority c, cd_addr := host @ '':'' @ port\<rparr>)" (is "_ = (None, _, ?c1)")
    using ok addr by (intro parse_element_text first) (simp_all add: scalars_ok_def splits_to_def)
  have "?e = butlast ?e @ [sp]" by (simp add: element_text_def butlast_append)
  then have drop: "drop (length ?e - 1) (?e @ ?p) = sp # ?p"
    by (metis append.assoc append_Cons append_Nil append_eq_conv_conj length_butlast)
  have "ParseAttribute (Candidate_String c) c0 =
      parse_pairs (sp # ?p) (length ?e) [0..<length (sp # ?p)] 0 0 0 ?c1"
    using elems first drop
    by (simp add: ParseAttribute_def candidateParser_parse_def str minBufLen_def trim_prefix_def)
  also have "\<dots> = (None, if cd_Type c = CandidateServerReflexive
      then ?c1\<lparr>cd_Type := cd_Type c, relatedAddr := rhost @ '':'' @ rport\<rparr> else ?c1\<lparr>cd_Type := cd_Type c\<rparr>)"
    using ok base by (intro parse_pair_text) (auto simp: scalars_ok_def splits_to_def)
  finally show ?thesis by simp
qed

definition printable :: "Candidate \<Rightarrow> bool" where
  "printable c \<longleftrightarrow> scalars_ok c \<and> (\<exists>host port. good_address (cd_addr c) host port) \<and>
     (cd_Type c = CandidateServerReflexive \<longrightarrow>
        (\<exists>host port. good_address (baseAddr c) host port \<and> 2 \<le> length port))"

lemma good_address_splits: "good_address a host port \<Longrightarrow> splits_to a host port"
  using SplitHostPort_plain [of host port] by (simp add: good_address_def splits_to_def)

lemma ParseAttribute_String:
  assumes "printable c"
  shows "\<exists>c'. ParseAttribute (Candidate_String c) c0 = (None, c') \<and> Candidate_Equal c c' \<and>
    (cd_Type c = CandidateServerReflexive \<longrightarrow> relatedAddr c' = baseAddr c)"
proof -
  obtain host port where addr: "good_address (cd_addr c) host port" using assms by (auto simp: printable_def)
  obtain rhost rport where base: "cd_Type c = CandidateServerReflexive \<Longrightarrow>
      good_address (baseAddr c) rhost rport \<and> 2 \<le> length rport"
    using assms by (auto simp: printable_def)
  show ?thesis
    using ParseAttribute_fields [of c host port rhost rport c0] good_address_splits addr base assms
    by (auto simp: Candidate_Equal_def printable_def scalars_ok_def good_address_def)
qed

section \<open>Priorities\<close>

definition type_preference :: "CandidateType \<Rightarrow> int" where
  "type_preference t = uint (typePreference t)"

lemma type_preference_simps [simp]:
  "type_preference CandidateHost = 126" "type_preference CandidateServerReflexive = 100"
  "type_preference CandidatePeerReflexive = 110" "type_preference CandidateRelay = 0"
  "type_preference CandidateUnknown = 0"
  by (simp_all add: type_preference_def typePreference_def)

lemma type_preference_bounds: "0 \<le> type_preference t" "type_preference t \<le> 126"
  by (cases t; simp)+

lemma sint_of_int_u32:
  assumes "0 \<le> k" and "k < 2 ^ 31"
  shows "sint (of_int k :: 32 word) = k"
  using assms by (simp only: signed_of_int) (simp add: signed_take_bit_int_eq_self)

lemma and_mask_word:
  "w AND (0xff :: 32 word) = take_bit 8 w" "w AND (0xffff :: 32 word) = take_bit 16 w"
proof -
  have "(0xff :: 32 word) = mask 8" "(0xffff :: 32 word) = mask 16"
    by (simp_all add: mask_eq_exp_minus_1)
  then show "w AND (0xff :: 32 word) = take_bit 8 w" "w AND (0xffff :: 32 word) = take_bit 16 w"
    by (simp_all only: take_bit_eq_mask)
qed

lemma take_bit_of_int_word:
  "n \<le> 32 \<Longrightarrow> take_bit n (of_int k :: 32 word) = of_int (k mod 2 ^ n)"
  by (rule bit_word_eqI) (auto simp: bit_simps simp flip: take_bit_eq_mod)

lemma calcCandidatePriority_eq:
  assumes "0 \<le> lp" and "lp < 65536" and "1 \<le> cid" and "cid \<le> 256"
  shows "calcCandidatePriority t lp cid = 2 ^ 24 * type_preference t + 2 ^ 8 * lp + (256 - cid)"
proof -
  have tp: "typePreference t = of_int (type_preference t)"
    by (cases t) (simp_all add: typePreference_def)
  have a: "push_bit 24 (typePreference t AND 0xff) = (of_int (2 ^ 24 * type_preference t) :: 32 word)"
    using type_preference_bounds [of t]
    by (simp only: and_mask_word tp take_bit_of_int_word) (simp add: push_bit_eq_mult)
  have b: "push_bit 8 (of_int lp AND 0xffff) = (of_int (2 ^ 8 * lp) :: 32 word)"
    using assms by (simp only: and_mask_word take_bit_of_int_word) (simp add: push_bit_eq_mult)
  have m: "(256 - cid) mod 2 ^ 8 = 256 - cid" using assms by (intro mod_pos_pos_trivial) simp_all
  have e: "256 - of_int cid = (of_int (256 - cid) :: 32 word)" by simp
  have "take_bit 8 (of_int (256 - cid) :: 32 word) = of_int (256 - cid)"
    by (subst take_bit_of_int_word) (simp_all only: m)
  then have c: "(256 - of_int cid) AND 0xff = (of_int (256 - cid) :: 32 word)"
    by (simp only: and_mask_word e)
  let ?k = "2 ^ 24 * type_preference t + 2 ^ 8 * lp + (256 - cid)"
  have "calcCandidatePriority t lp cid = sint (of_int ?k :: 32 word)"
    unfolding calcCandidatePriority_def a b c by (simp only: of_int_add)
  also have "\<dots> = ?k"
    using type_preference_bounds [of t] assms by (intro sint_of_int_u32) simp_all
  finally show ?thesis .
qed

lemma calcFoundation_range: "0 \<le> calcFoundation base" "calcFoundation base < 2 ^ 32"
  unfolding calcFoundation_def
  using uint_lt2p [of "be_get (take 4 (md5 (bytes_of_string base))) :: u32"] by simp_all

end
