(* ===== verification/Ice_Checklist.thy ===== *)
theory Ice_Checklist
  imports Ice_Candidate "HOL-Library.Multiset"
begin

text \<open>
  Check lists: \<^verbatim>\<open>src/ice/checklist.go\<close>, and of \<^verbatim>\<open>src/ice/icesession.go\<close> the pair priority, the
  pruning of the list and the retransmission timer.

  The code compares candidates and checks by pointer and changes checks in place, so both
  live in heaps (lists) and are named by their index. The states of a check and the results
  of a session are the enumerations of the code, ordered as their numbers are.
\<close>

section \<open>States, roles and results\<close>

datatype SessionCheckState =
  checkStateFrozen | checkStateWaiting | checkStateInProgress | checkStateSucced | checkStateFailed

datatype SessionRole = SessionRoleUnkown | SessionRoleControlling | SessionRoleControlled

datatype sessionCompleteResult =
  sessionNotComplete | sessionCheckComplete | sessionCompleteSuccess | sessionAllCompleteSuccess
  | sessionCompleteFailure

fun state_number :: "SessionCheckState \<Rightarrow> nat" where
  "state_number checkStateFrozen = 0"
| "state_number checkStateWaiting = 1"
| "state_number checkStateInProgress = 2"
| "state_number checkStateSucced = 3"
| "state_number checkStateFailed = 4"

fun result_number :: "sessionCompleteResult \<Rightarrow> nat" where
  "result_number sessionNotComplete = 0"
| "result_number sessionCheckComplete = 1"
| "result_number sessionCompleteSuccess = 2"
| "result_number sessionAllCompleteSuccess = 3"
| "result_number sessionCompleteFailure = 4"

lemma state_number_inject: "state_number a = state_number b \<Longrightarrow> a = b"
  by (cases a; cases b) simp_all

lemma result_number_inject: "result_number a = result_number b \<Longrightarrow> a = b"
  by (cases a; cases b) simp_all

instantiation SessionCheckState :: linorder
begin

definition less_eq_SessionCheckState :: "SessionCheckState \<Rightarrow> SessionCheckState \<Rightarrow> bool" where
  "a \<le> b \<longleftrightarrow> state_number a \<le> state_number b"

definition less_SessionCheckState :: "SessionCheckState \<Rightarrow> SessionCheckState \<Rightarrow> bool" where
  "a < b \<longleftrightarrow> state_number a < state_number b"

instance
  by standard (auto simp: less_eq_SessionCheckState_def less_SessionCheckState_def intro: state_number_inject)

end

instantiation sessionCompleteResult :: linorder
begin

definition less_eq_sessionCompleteResult :: "sessionCompleteResult \<Rightarrow> sessionCompleteResult \<Rightarrow> bool" where
  "a \<le> b \<longleftrightarrow> result_number a \<le> result_number b"

definition less_sessionCompleteResult :: "sessionCompleteResult \<Rightarrow> sessionCompleteResult \<Rightarrow> bool" where
  "a < b \<longleftrightarrow> result_number a < result_number b"

instance
  by standard (auto simp: less_eq_sessionCompleteResult_def less_sessionCompleteResult_def
      intro: result_number_inject)

end

lemmas state_order_defs = less_eq_SessionCheckState_def less_SessionCheckState_def
lemmas result_order_defs = less_eq_sessionCompleteResult_def less_sessionCompleteResult_def

definition SessionCheckState_String :: "SessionCheckState \<Rightarrow> string" where
  "SessionCheckState_String s =
     (case s of checkStateFrozen \<Rightarrow> ''frozen'' | checkStateWaiting \<Rightarrow> ''waiting''
      | checkStateInProgress \<Rightarrow> ''inprogress'' | checkStateSucced \<Rightarrow> ''success'' | checkStateFailed \<Rightarrow> ''failed'')"

definition SessionRole_String :: "SessionRole \<Rightarrow> string" where
  "SessionRole_String s =
     (case s of SessionRoleUnkown \<Rightarrow> ''unkown'' | SessionRoleControlled \<Rightarrow> ''controlled''
      | SessionRoleControlling \<Rightarrow> ''controlling'')"

section \<open>Checks\<close>

text \<open>A check; its candidates are indices into the heap of candidates.\<close>

record sessionCheck =
  localCandidate :: nat
  remoteCandidate :: nat
  key :: string
  priority :: u64
  state :: SessionCheckState
  nominated :: bool
  err :: "go_error option"

definition check_key :: "Candidate \<Rightarrow> Candidate \<Rightarrow> string" where
  "check_key l r = cd_addr l @ ''-'' @ cd_addr r"

definition calcPairPriority :: "SessionRole \<Rightarrow> Candidate \<Rightarrow> Candidate \<Rightarrow> u64" where
  "calcPairPriority role l r =
     (let (o1, a) = (if role = SessionRoleControlling
                     then (of_int (Priority l), of_int (Priority r))
                     else (of_int (Priority r), of_int (Priority l)));
          (min1, max1) = (if o1 > a then (a, o1) else (o1, a :: u32));
          p = push_bit 32 (ucast min1);
          max1 = push_bit 1 max1;
          p = p + ucast max1
      in if o1 > a then p + 1 else p)"

text \<open>\<open>sort.Stable\<close> with the \<open>Less\<close> of the list: higher priorities first.\<close>

definition sort_checks :: "sessionCheck list \<Rightarrow> nat list \<Rightarrow> nat list" where
  "sort_checks heap cs = sort_key (\<lambda>c. - uint (priority (heap ! c))) cs"

definition prune_key :: "Candidate list \<Rightarrow> sessionCheck \<Rightarrow> string" where
  "prune_key cands c = itoa (Foundation (cands ! localCandidate c)) @ cd_addr (cands ! remoteCandidate c)"

fun prune :: "(nat \<Rightarrow> string) \<Rightarrow> string set \<Rightarrow> nat list \<Rightarrow> nat list" where
  "prune k m [] = []"
| "prune k m (c # cs) = (if k c \<in> m then prune k m cs else c # prune k (insert (k c) m) cs)"

section \<open>Retransmission\<close>

definition maxRetryBindingRequest :: nat where "maxRetryBindingRequest = 7"
definition stunTimeoutValue :: int where "stunTimeoutValue = 1600 * 1000000"
definition defaultRTOValue :: int where "defaultRTOValue = 100 * 1000000"

definition calcRetransmitTimeout :: "nat \<Rightarrow> int \<Rightarrow> int" where
  "calcRetransmitTimeout i lastsleep =
     (if i = 0 then defaultRTOValue
      else if i < maxRetryBindingRequest - 1 then lastsleep * 2
      else stunTimeoutValue)"

text \<open>The timeouts of the attempts of \<open>onecheck\<close> from number \<open>i\<close> on.\<close>

fun timeouts :: "nat \<Rightarrow> nat \<Rightarrow> int \<Rightarrow> int list" where
  "timeouts i 0 sleep = []"
| "timeouts i (Suc n) sleep =
     (let sleep = calcRetransmitTimeout i sleep in sleep # timeouts (Suc i) n sleep)"

section \<open>Pair priorities\<close>

text \<open>Both agents of a session, one in each role, give a pair the same priority.\<close>

lemma calcPairPriority_agree:
  "calcPairPriority SessionRoleControlling l r = calcPairPriority SessionRoleControlled r l"
  by (simp add: calcPairPriority_def)

lemma ucast_of_int_u32: "0 \<le> k \<Longrightarrow> k < 2 ^ 32 \<Longrightarrow> (ucast (of_int k :: u32) :: u64) = of_int k"
  by (simp only: ucast_eq unsigned_of_int) (simp add: take_bit_int_eq_self)

lemma uint_of_int_u64: "0 \<le> k \<Longrightarrow> k < 2 ^ 64 \<Longrightarrow> uint (of_int k :: u64) = k"
  by (simp only: unsigned_of_int) (simp add: take_bit_int_eq_self)

text \<open>The two operands: the priority of the controlling agent's candidate and of the other.\<close>

definition pair_priorities :: "SessionRole \<Rightarrow> Candidate \<Rightarrow> Candidate \<Rightarrow> int \<times> int" where
  "pair_priorities role l r =
     (if role = SessionRoleControlling then (Priority l, Priority r) else (Priority r, Priority l))"

lemma calcPairPriority_eq:
  assumes "pair_priorities role l r = (g, d)" and g: "0 \<le> g" "g < 2 ^ 31" and d: "0 \<le> d" "d < 2 ^ 31"
  shows "uint (calcPairPriority role l r) = 2 ^ 32 * min g d + 2 * max g d + (if g > d then 1 else 0)"
proof -
  have u: "uint (of_int g :: u32) = g" "uint (of_int d :: u32) = d"
    using g d by (simp_all only: unsigned_of_int) (simp_all add: take_bit_int_eq_self)
  then have gt: "(of_int d :: u32) < of_int g \<longleftrightarrow> d < g" by (simp only: word_less_def)
  have mn: "0 \<le> min g d" "min g d < 2 ^ 31" and mx: "0 \<le> max g d" "max g d < 2 ^ 31" using g d by auto
  let ?b = "if g > d then 1 else 0 :: int"
  have "calcPairPriority role l r =
      push_bit 32 (ucast (of_int (min g d) :: u32)) + ucast (push_bit 1 (of_int (max g d) :: u32)) + of_int ?b"
    using assms(1) gt
    by (auto simp: calcPairPriority_def pair_priorities_def Let_def min_def max_def split: if_splits)
  also have "push_bit 1 (of_int (max g d) :: u32) = of_int (2 * max g d)"
    by (simp only: push_bit_eq_mult) simp
  also have "ucast (of_int (2 * max g d) :: u32) = (of_int (2 * max g d) :: u64)"
    using mx by (intro ucast_of_int_u32) simp_all
  also have "ucast (of_int (min g d) :: u32) = (of_int (min g d) :: u64)"
    using mn by (intro ucast_of_int_u32) simp_all
  also have "push_bit 32 (of_int (min g d) :: u64) = of_int (2 ^ 32 * min g d)"
    by (simp only: push_bit_eq_mult) simp
  finally have "calcPairPriority role l r = of_int (2 ^ 32 * min g d + 2 * max g d + ?b)"
    by (simp only: of_int_add)
  moreover have "uint (of_int (2 ^ 32 * min g d + 2 * max g d + ?b) :: u64) = 2 ^ 32 * min g d + 2 * max g d + ?b"
    using mn mx by (intro uint_of_int_u64) auto
  ultimately show ?thesis by (simp only:)
qed

section \<open>Sorting and pruning\<close>

lemma sort_checks_perm: "mset (sort_checks heap cs) = mset cs"
  by (simp add: sort_checks_def)

lemma sort_checks_sorted:
  "sorted_wrt (\<lambda>c d. priority (heap ! d) \<le> priority (heap ! c)) (sort_checks heap cs)"
proof -
  let ?f = "\<lambda>c. - uint (priority (heap ! c))"
  have "sorted (map ?f (sort_key ?f cs))" by (rule sorted_sort_key)
  then show ?thesis
    by (simp add: sort_checks_def sorted_map word_le_def)
qed

lemma prune_subset: "set (prune k m cs) \<subseteq> set cs"
  by (induction k m cs rule: prune.induct) auto

lemma prune_avoids: "c \<in> set (prune k m cs) \<Longrightarrow> k c \<notin> m"
  by (induction k m cs rule: prune.induct) (auto split: if_splits)

lemma prune_distinct: "distinct (map k (prune k m cs))"
  by (induction k m cs rule: prune.induct) (auto dest: prune_avoids)

text \<open>Every pair is kept or stands behind a kept pair with the same key.\<close>

lemma prune_covers:
  assumes "sorted_wrt R cs" and "reflp R" and "c \<in> set cs" and "k c \<notin> m"
  shows "\<exists>d\<in>set (prune k m cs). k d = k c \<and> R d c"
  using assms
proof (induction k m cs rule: prune.induct)
  case (2 k m x cs)
  show ?case
  proof (cases "c = x \<or> k c = k x")
    case True
    then have "k x \<notin> m" "R x c" using 2 by (auto dest: reflpD)
    then show ?thesis using True by auto
  next
    case False
    then have "c \<in> set cs" using 2 by simp
    show ?thesis
    proof (cases "k x \<in> m")
      case True
      then show ?thesis using 2 \<open>c \<in> set cs\<close> by simp
    next
      case False
      then show ?thesis using 2 \<open>c \<in> set cs\<close> \<open>\<not> (c = x \<or> k c = k x)\<close> by auto
    qed
  qed
qed simp

lemma prune_sorted: "sorted_wrt R cs \<Longrightarrow> sorted_wrt R (prune k m cs)"
proof (induction k m cs rule: prune.induct)
  case (2 k m x cs)
  then show ?case using prune_subset [of k "insert (k x) m" cs] by (auto split: if_splits)
qed simp

section \<open>The retransmission schedule\<close>

lemma timeouts_schedule:
  "map (\<lambda>t. t div 1000000) (timeouts 0 maxRetryBindingRequest defaultRTOValue) =
     [100, 200, 400, 800, 1600, 3200, 1600]"
  by code_simp

end
