(* ===== verification/Stun_Message.thy ===== *)
theory Stun_Message
  imports Stun_Attributes
begin

text \<open>
  STUN messages: \<^verbatim>\<open>src/stun/message.go\<close>, \<^verbatim>\<open>src/stun/helpers.go\<close>, \<^verbatim>\<open>src/stun/stun.go\<close> and
  the message lookup of \<^verbatim>\<open>src/stun/attributes.go\<close>.

  A message keeps its wire form in \<open>Raw\<close>, a Go slice. The slice is modelled by its
  contents \<open>msg_Raw\<close> and by \<open>msg_Spare\<close>, the bytes of the backing array between its length
  and its capacity: re-slicing exposes them, and \<open>grow\<close> reallocates when they do not
  suffice. A reallocation is modelled as exactly fitting; what Go's \<open>append\<close> reserves
  beyond that is not observable in \<open>Raw\<close> (lemma \<open>Message_Add_eq\<close> and \<open>add_prefix_eq\<close>). Attribute values are copies: the source documents that a value is valid
  only until \<open>Raw\<close> is modified.

  Lemmas: the bits of a message type and its round trip, the closed form of \<open>grow\<close>, and
  the effect of \<open>Add\<close> on any message. The invariant and the wire format are in the theory
  \<open>Stun_Wire\<close>.
\<close>

section \<open>Message types\<close>

type_synonym MessageClass = byte
type_synonym Method = u16
type_synonym TransactionID = bytes

definition ClassRequest :: MessageClass where "ClassRequest = 0x00"
definition ClassIndication :: MessageClass where "ClassIndication = 0x01"
definition ClassSuccessResponse :: MessageClass where "ClassSuccessResponse = 0x02"
definition ClassErrorResponse :: MessageClass where "ClassErrorResponse = 0x03"

definition MethodBinding :: Method where "MethodBinding = 0x001"
definition MethodAllocate :: Method where "MethodAllocate = 0x003"
definition MethodRefresh :: Method where "MethodRefresh = 0x004"
definition MethodSend :: Method where "MethodSend = 0x006"
definition MethodData :: Method where "MethodData = 0x007"
definition MethodCreatePermission :: Method where "MethodCreatePermission = 0x008"
definition MethodChannelBind :: Method where "MethodChannelBind = 0x009"
definition MethodChannelData :: Method where "MethodChannelData = 0x4000"

lemmas class_defs =
  ClassRequest_def ClassIndication_def ClassSuccessResponse_def ClassErrorResponse_def
lemmas method_defs =
  MethodBinding_def MethodAllocate_def MethodRefresh_def MethodSend_def MethodData_def
  MethodCreatePermission_def MethodChannelBind_def MethodChannelData_def

record MessageType =
  mt_Method :: Method
  mt_Class :: MessageClass

definition NewType :: "Method \<Rightarrow> MessageClass \<Rightarrow> MessageType" where
  "NewType method class = \<lparr>mt_Method = method, mt_Class = class\<rparr>"

definition BindingRequest :: MessageType where
  "BindingRequest = NewType MethodBinding ClassRequest"
definition BindingSuccess :: MessageType where
  "BindingSuccess = NewType MethodBinding ClassSuccessResponse"
definition BindingError :: MessageType where
  "BindingError = NewType MethodBinding ClassErrorResponse"
definition BindingIndication :: MessageType where
  "BindingIndication = NewType MethodBinding ClassIndication"

definition MessageClass_String :: "MessageClass \<Rightarrow> string go" where
  "MessageClass_String c =
     (if c = ClassRequest then Ret ''request''
      else if c = ClassIndication then Ret ''indication''
      else if c = ClassSuccessResponse then Ret ''success response''
      else if c = ClassErrorResponse then Ret ''error response''
      else Panic (ExplicitPanic ''unknown message class''))"

definition methodName :: "Method \<rightharpoonup> string" where
  "methodName = map_of
    [(MethodBinding, ''binding''),
     (MethodAllocate, ''allocate''),
     (MethodRefresh, ''refresh''),
     (MethodSend, ''send''),
     (MethodData, ''data''),
     (MethodCreatePermission, ''create permission''),
     (MethodChannelBind, ''channel bind'')]"

definition Method_String :: "Method \<Rightarrow> string" where
  "Method_String m = (case methodName m of None \<Rightarrow> ''0x'' @ show_hex (unat m) | Some s \<Rightarrow> s)"

definition MessageType_String :: "MessageType \<Rightarrow> string go" where
  "MessageType_String t =
     go_map (\<lambda>c. Method_String (mt_Method t) @ '' '' @ c) (MessageClass_String (mt_Class t))"

definition methodABits :: u16 where "methodABits = 0xf"
definition methodBBits :: u16 where "methodBBits = 0x70"
definition methodDBits :: u16 where "methodDBits = 0xf80"
definition methodBShift :: nat where "methodBShift = 1"
definition methodDShift :: nat where "methodDShift = 2"
definition c0Bit :: u16 where "c0Bit = 0x1"
definition c1Bit :: u16 where "c1Bit = 0x2"
definition classC0Shift :: nat where "classC0Shift = 4"
definition classC1Shift :: nat where "classC1Shift = 7"

lemmas type_bit_defs =
  methodABits_def methodBBits_def methodDBits_def methodBShift_def methodDShift_def
  c0Bit_def c1Bit_def classC0Shift_def classC1Shift_def

definition MessageType_Value :: "MessageType \<Rightarrow> u16" where
  "MessageType_Value t =
     (let m = mt_Method t;
          a = m AND methodABits;
          b = m AND methodBBits;
          d = m AND methodDBits;
          m' = a + push_bit methodBShift b + push_bit methodDShift d;
          c = ucast (mt_Class t) :: u16;
          c0 = push_bit classC0Shift (c AND c0Bit);
          c1 = push_bit classC1Shift (c AND c1Bit);
          class = c0 + c1
      in m' + class)"

definition MessageType_ReadValue :: "u16 \<Rightarrow> MessageType" where
  "MessageType_ReadValue v =
     (let c0 = drop_bit classC0Shift v AND c0Bit;
          c1 = drop_bit classC1Shift v AND c1Bit;
          class = c0 + c1;
          a = v AND methodABits;
          b = drop_bit methodBShift v AND methodBBits;
          d = drop_bit methodDShift v AND methodDBits;
          m = a + b + d
      in \<lparr>mt_Method = m, mt_Class = ucast class\<rparr>)"

section \<open>Messages and their buffer\<close>

definition magicCookie :: u32 where "magicCookie = 0x2112A442"
definition attributeHeaderSize :: nat where "attributeHeaderSize = 4"
definition messageHeaderSize :: nat where "messageHeaderSize = 20"
definition TransactionIDSize :: nat where "TransactionIDSize = 12"

lemmas size_defs = attributeHeaderSize_def messageHeaderSize_def TransactionIDSize_def padding_def

definition IsMessage :: "bytes \<Rightarrow> bool" where
  "IsMessage b \<longleftrightarrow> messageHeaderSize \<le> length b \<and> be_get (subslice 4 8 b) = magicCookie"

text \<open>\<open>msg_AttrsNil\<close> tells whether the \<open>Attributes\<close> slice is still nil, which \<open>attrEqual\<close> tests.\<close>

record Message =
  msg_Type :: MessageType
  msg_Length :: u32
  msg_TransactionID :: TransactionID
  msg_Attributes :: "RawAttribute list"
  msg_AttrsNil :: bool
  msg_Raw :: bytes
  msg_Spare :: bytes

text \<open>\<open>new(Message)\<close>, the zero value, and the constructor \<open>New\<close>.\<close>

definition zero_Message :: Message where
  "zero_Message =
     \<lparr>msg_Type = \<lparr>mt_Method = 0, mt_Class = 0\<rparr>, msg_Length = 0,
      msg_TransactionID = replicate TransactionIDSize 0,
      msg_Attributes = [], msg_AttrsNil = True, msg_Raw = [], msg_Spare = []\<rparr>"

definition New :: Message where
  "New = zero_Message\<lparr>msg_Raw := replicate messageHeaderSize 0,
                      msg_Spare := replicate (120 - messageHeaderSize) 0\<rparr>"

definition Message_cap :: "Message \<Rightarrow> nat" where
  "Message_cap m = length (msg_Raw m) + length (msg_Spare m)"

text \<open>\<open>m.Raw = m.Raw[:n]\<close>: a slice may be extended up to its capacity.\<close>

definition Message_reslice :: "nat \<Rightarrow> Message \<Rightarrow> Message go" where
  "Message_reslice n m =
     (if n \<le> Message_cap m
      then Ret (m\<lparr>msg_Raw := take n (msg_Raw m @ msg_Spare m),
                  msg_Spare := drop n (msg_Raw m @ msg_Spare m)\<rparr>)
      else Panic SliceOutOfRange)"

text \<open>A write into the backing array through \<open>m.Raw[i:j]\<close>, which is checked against the capacity.\<close>

definition Message_poke :: "nat \<Rightarrow> bytes \<Rightarrow> Message \<Rightarrow> Message go" where
  "Message_poke i v m =
     (if i + length v \<le> Message_cap m
      then (let buf = put_at i v (msg_Raw m @ msg_Spare m)
            in Ret (m\<lparr>msg_Raw := take (length (msg_Raw m)) buf,
                      msg_Spare := drop (length (msg_Raw m)) buf\<rparr>))
      else Panic SliceOutOfRange)"

definition Message_Reset :: "Message \<Rightarrow> Message" where
  "Message_Reset m =
     m\<lparr>msg_Raw := [], msg_Spare := msg_Raw m @ msg_Spare m, msg_Length := 0, msg_Attributes := []\<rparr>"

text \<open>\<open>for cap(m.Raw) < n { m.Raw = append(m.Raw, 0) }\<close>\<close>

function grow_loop :: "nat \<Rightarrow> bytes \<Rightarrow> bytes \<Rightarrow> bytes \<times> bytes" where
  "grow_loop n raw spare =
     (if length raw + length spare < n then grow_loop n (raw @ [0]) (tl spare) else (raw, spare))"
  by pat_completeness auto
termination
  by (relation "measure (\<lambda>(n, raw, spare). n - length raw)") auto

declare grow_loop.simps [simp del]

definition Message_grow :: "Message \<Rightarrow> nat \<Rightarrow> Message go" where
  "Message_grow m v =
     (let n = length (msg_Raw m) + v;
          (raw, spare) = grow_loop n (msg_Raw m) (msg_Spare m)
      in Message_reslice n (m\<lparr>msg_Raw := raw, msg_Spare := spare\<rparr>))"

definition Message_WriteLength :: "Message \<Rightarrow> Message go" where
  "Message_WriteLength m =
     (if length (msg_Raw m) \<le> 4 then Panic IndexOutOfRange
      else Message_poke 2 (put_u16 (ucast (msg_Length m))) m)"

definition Message_WriteType :: "Message \<Rightarrow> Message go" where
  "Message_WriteType m = Message_poke 0 (put_u16 (MessageType_Value (msg_Type m))) m"

definition Message_WriteTransactionID :: "Message \<Rightarrow> Message go" where
  "Message_WriteTransactionID m = Message_poke 8 (msg_TransactionID m) m"

definition Message_SetType :: "MessageType \<Rightarrow> Message \<Rightarrow> Message go" where
  "Message_SetType t m = Message_WriteType (m\<lparr>msg_Type := t\<rparr>)"

definition Message_WriteHeader :: "Message \<Rightarrow> Message go" where
  "Message_WriteHeader m =
     go_bind (if length (msg_Raw m) < messageHeaderSize then Message_grow m messageHeaderSize else Ret m)
       (\<lambda>m. go_bind (Message_WriteType m)
       (\<lambda>m. go_bind (Message_WriteLength m)
       (\<lambda>m. go_bind (Message_poke 4 (put_u32 magicCookie) m)
              Message_WriteTransactionID)))"

text \<open>The part of \<open>Add\<close> that pads the value to a multiple of four bytes.\<close>

definition Message_pad :: "nat \<Rightarrow> nat \<Rightarrow> Message \<Rightarrow> Message go" where
  "Message_pad lst vlen m =
     (let bytesToAdd = nearestPaddedValueLength vlen - vlen;
          lst' = lst + bytesToAdd
      in go_bind (Message_grow m lst')
           (\<lambda>m. go_bind (Message_poke lst (replicate bytesToAdd 0) m)
           (\<lambda>m. go_bind (Message_reslice lst' m)
           (\<lambda>m. Ret (m\<lparr>msg_Length := msg_Length m + of_nat bytesToAdd\<rparr>)))))"

definition Message_Add :: "Message \<Rightarrow> AttrType \<Rightarrow> bytes \<Rightarrow> Message go" where
  "Message_Add m t v =
     (let allocSize = attributeHeaderSize + length v;
          first = messageHeaderSize + unat (msg_Length m);
          lst = first + allocSize;
          attr = \<lparr>attr_Type = t, attr_Length = of_nat (length v), attr_Value = v\<rparr>
      in go_bind (Message_grow m lst)
           (\<lambda>m. go_bind (Message_reslice lst m)
           (\<lambda>m. go_bind (Message_poke first (put_u16 t)
                           (m\<lparr>msg_Length := msg_Length m + of_nat allocSize\<rparr>))
           (\<lambda>m. go_bind (Message_poke (first + 2) (put_u16 (attr_Length attr)) m)
           (\<lambda>m. go_bind (Message_poke (first + attributeHeaderSize) v m)
           (\<lambda>m. go_bind (if unat (attr_Length attr) mod padding \<noteq> 0
                          then Message_pad lst (length v) m else Ret m)
           (\<lambda>m. Message_WriteLength
                  (m\<lparr>msg_Attributes := msg_Attributes m @ [attr], msg_AttrsNil := False\<rparr>))))))))"

text \<open>\<open>WriteAttributes\<close> ranges over the attributes the message has when the loop starts.\<close>

fun add_all :: "RawAttribute list \<Rightarrow> Message \<Rightarrow> Message go" where
  "add_all [] m = Ret m"
| "add_all (a # as) m = go_bind (Message_Add m (attr_Type a) (attr_Value a)) (add_all as)"

definition Message_WriteAttributes :: "Message \<Rightarrow> Message go" where
  "Message_WriteAttributes m = add_all (msg_Attributes m) m"

definition Message_Encode :: "Message \<Rightarrow> Message go" where
  "Message_Encode m =
     go_bind (Message_WriteHeader (m\<lparr>msg_Raw := [], msg_Spare := msg_Raw m @ msg_Spare m\<rparr>))
       Message_WriteAttributes"

section \<open>Decoding\<close>

text \<open>
  The attribute loop: \<open>b\<close> is the unread part of the body. It returns the error, if any,
  and the attributes appended so far.
\<close>

function decode_attrs ::
  "nat \<Rightarrow> nat \<Rightarrow> bytes \<Rightarrow> RawAttribute list \<Rightarrow> go_error option \<times> RawAttribute list" where
  "decode_attrs offset sz b as =
     (if \<not> offset < sz then (None, as)
      else if length b < attributeHeaderSize then
        (Some (newAttrDecodeErr ''header''
           (''buffer length '' @ show_dec (length b) @ '' is less than '' @
            show_dec attributeHeaderSize @ '' (expected header size)'')), as)
      else
        let t = be_get (subslice 0 2 b);
            l = be_get (subslice 2 4 b) :: u16;
            aL = unat l;
            aBuffL = nearestPaddedValueLength aL;
            b' = drop attributeHeaderSize b
        in if length b' < aBuffL then
             (Some (newAttrDecodeErr ''value''
                (''buffer length '' @ show_dec (length b') @ '' is less than '' @
                 show_dec aBuffL @ '' (expected value size for '' @ AttrType_String t @ '')'')), as)
           else decode_attrs (offset + attributeHeaderSize + aBuffL) sz (drop aBuffL b')
                  (as @ [\<lparr>attr_Type = t, attr_Length = l, attr_Value = take aL b'\<rparr>]))"
  by pat_completeness auto
termination
  by (relation "measure (\<lambda>(offset, sz, b, as). sz - offset)") (auto simp: size_defs)

declare decode_attrs.simps [simp del]

definition Message_Decode :: "Message \<Rightarrow> (go_error option \<times> Message) go" where
  "Message_Decode m =
     (let buf = msg_Raw m in
      case buf of [] \<Rightarrow> Panic IndexOutOfRange
      | firstByte # _ \<Rightarrow>
        if firstByte AND 0x40 = 0x40 then
          (if Message_cap m < 4 then Panic SliceOutOfRange
           else let l = be_get (subslice 2 4 (msg_Raw m @ msg_Spare m)) :: u16
                in if unat (l + 4) = length buf
                   then Ret (None, m\<lparr>msg_Type := \<lparr>mt_Method = MethodChannelData,
                                                  mt_Class = ClassSuccessResponse\<rparr>\<rparr>)
                   else Ret (Some ErrFormatError, m))
        else if firstByte AND 0xC0 \<noteq> 0 then Ret (Some ErrFormatError, m)
        else if length buf < messageHeaderSize then Ret (Some ErrUnexpectedHeaderEOF, m)
        else
          let t = be_get (subslice 0 2 buf);
              size = unat (be_get (subslice 2 4 buf) :: u16);
              cookie = be_get (subslice 4 8 buf);
              fullSize = messageHeaderSize + size
          in if cookie \<noteq> magicCookie then
               Ret (Some (newDecodeErr ''message'' ''cookie''
                 (show_hex (unat cookie) @ '' is invalid magic cookie (should be '' @
                  show_hex (unat magicCookie) @ '')'')), m)
             else if length buf < fullSize then
               Ret (Some (newAttrDecodeErr ''message''
                 (''buffer length '' @ show_dec (length buf) @ '' is less than '' @
                  show_dec fullSize @ '' (expected message size)'')), m)
             else
               let (err, as) = decode_attrs 0 size (subslice messageHeaderSize fullSize buf) []
               in Ret (err, m\<lparr>msg_Type := MessageType_ReadValue t,
                              msg_Length := of_nat size,
                              msg_TransactionID := subslice 8 messageHeaderSize buf,
                              msg_Attributes := as,
                              msg_AttrsNil := (msg_AttrsNil m \<and> as = [])\<rparr>))"

text \<open>\<open>append(raw, tBuf...)\<close> on the message's slice.\<close>

definition raw_append :: "bytes \<Rightarrow> Message \<Rightarrow> Message" where
  "raw_append v m = m\<lparr>msg_Raw := msg_Raw m @ v, msg_Spare := drop (length v) (msg_Spare m)\<rparr>"

definition Message_Write :: "bytes \<Rightarrow> Message \<Rightarrow> (nat \<times> go_error option \<times> Message) go" where
  "Message_Write tBuf m =
     go_map (\<lambda>(e, m'). (length tBuf, e, m'))
       (Message_Decode (raw_append tBuf (m\<lparr>msg_Raw := [], msg_Spare := msg_Raw m @ msg_Spare m\<rparr>)))"

definition Message_CloneTo :: "Message \<Rightarrow> Message \<Rightarrow> (go_error option \<times> Message) go" where
  "Message_CloneTo m b = Message_Decode (raw_append (msg_Raw m) b)"

text \<open>
  \<open>ReadFrom\<close>: the reader is an argument. Given the size of the buffer it returns the
  bytes it stored at its front and an error, if any.
\<close>

definition Message_ReadFrom ::
  "(nat \<Rightarrow> bytes \<times> go_error option) \<Rightarrow> Message \<Rightarrow> (nat \<times> go_error option \<times> Message) go" where
  "Message_ReadFrom r m =
     (let (data, err) = r (Message_cap m);
          tBuf = put_at 0 data (msg_Raw m @ msg_Spare m);
          old = m\<lparr>msg_Raw := take (length (msg_Raw m)) tBuf,
                  msg_Spare := drop (length (msg_Raw m)) tBuf\<rparr>
      in if err \<noteq> None then Ret (length data, err, old)
         else if length data = 0 then Ret (0, Some ErrUnexpectedHeaderEOF, old)
         else go_map (\<lambda>(e, m'). (length data, e, m'))
                (Message_Decode (m\<lparr>msg_Raw := take (length data) tBuf,
                                   msg_Spare := drop (length data) tBuf\<rparr>)))"

definition Message_WriteTo :: "(bytes \<Rightarrow> nat \<times> go_error option) \<Rightarrow> Message \<Rightarrow> nat \<times> go_error option" where
  "Message_WriteTo w m = w (msg_Raw m)"

section \<open>Lookup and comparison\<close>

definition Message_Get :: "Message \<Rightarrow> AttrType \<Rightarrow> go_error + bytes" where
  "Message_Get m t =
     (let (v, ok) = Attributes_Get (msg_Attributes m) t
      in if \<not> ok then Inl ErrAttributeNotFound else Inr (attr_Value v))"

fun any_type :: "RawAttribute list \<Rightarrow> AttrType \<Rightarrow> bool" where
  "any_type [] t = False"
| "any_type (a # as) t = (if attr_Type a = t then True else any_type as t)"

definition Message_Contains :: "Message \<Rightarrow> AttrType \<Rightarrow> bool" where
  "Message_Contains m t = any_type (msg_Attributes m) t"

fun attrs_included :: "RawAttribute list \<Rightarrow> RawAttribute list \<Rightarrow> bool" where
  "attrs_included [] b = True"
| "attrs_included (attr # as) b =
     (let (attrB, ok) = Attributes_Get b (attr_Type attr)
      in if \<not> ok then False
         else if \<not> RawAttribute_Equal attrB attr then False
         else attrs_included as b)"

definition attrEqual :: "bool \<times> RawAttribute list \<Rightarrow> bool \<times> RawAttribute list \<Rightarrow> bool" where
  "attrEqual a b =
     (if fst a \<and> fst b then True
      else if fst a \<or> fst b then False
      else attrs_included (snd a) (snd b))"

definition Message_Equal :: "Message option \<Rightarrow> Message option \<Rightarrow> bool" where
  "Message_Equal m b =
     (case (m, b) of
        (None, None) \<Rightarrow> True
      | (None, Some _) \<Rightarrow> False
      | (Some _, None) \<Rightarrow> False
      | (Some m, Some b) \<Rightarrow>
          if msg_Type m \<noteq> msg_Type b then False
          else if msg_TransactionID m \<noteq> msg_TransactionID b then False
          else if msg_Length m \<noteq> msg_Length b then False
          else if \<not> attrEqual (msg_AttrsNil m, msg_Attributes m) (msg_AttrsNil b, msg_Attributes b)
          then False else True)"

section \<open>Setters, getters and checkers\<close>

text \<open>
  A \<open>Setter\<close> is what its \<open>AddTo\<close> does to a message, a \<open>Checker\<close> what its \<open>Check\<close> does.
  A checker may write to the message (\<open>MessageIntegrity.Check\<close> does), so it returns it too.
\<close>

type_synonym Setter = "Message \<Rightarrow> (go_error option \<times> Message) go"
type_synonym Checker = "Message \<Rightarrow> (go_error option \<times> Message) go"

fun run_setters :: "Setter list \<Rightarrow> Message \<Rightarrow> (go_error option \<times> Message) go" where
  "run_setters [] m = Ret (None, m)"
| "run_setters (s # ss) m =
     go_bind (s m) (\<lambda>(err, m'). if err \<noteq> None then Ret (err, m') else run_setters ss m')"

definition Message_Build :: "Setter list \<Rightarrow> Message \<Rightarrow> (go_error option \<times> Message) go" where
  "Message_Build setters m =
     go_bind (Message_WriteHeader (Message_Reset m)) (run_setters setters)"

definition Build :: "Setter list \<Rightarrow> (go_error option \<times> Message) go" where
  "Build setters = Message_Build setters zero_Message"

definition MustBuild :: "Setter list \<Rightarrow> Message go" where
  "MustBuild setters =
     go_bind (Build setters)
       (\<lambda>(err, m). if err \<noteq> None then Panic (ExplicitPanic ''build'') else Ret m)"

definition Message_Check :: "Checker list \<Rightarrow> Message \<Rightarrow> (go_error option \<times> Message) go" where
  "Message_Check checkers m = run_setters checkers m"

text \<open>A \<open>Getter\<close> stores into its receiver; its outcome for \<open>Parse\<close> is the error alone.\<close>

fun Message_Parse :: "(Message \<Rightarrow> go_error option) list \<Rightarrow> Message \<Rightarrow> go_error option" where
  "Message_Parse [] m = None"
| "Message_Parse (g # gs) m = (case g m of Some e \<Rightarrow> Some e | None \<Rightarrow> Message_Parse gs m)"

definition add_ok :: "Message go \<Rightarrow> (go_error option \<times> Message) go" where
  "add_ok r = go_map (\<lambda>m. (None, m)) r"

definition MessageType_AddTo :: "MessageType \<Rightarrow> Setter" where
  "MessageType_AddTo t m = add_ok (Message_SetType t m)"

definition transactionIDValueSetter_AddTo :: "TransactionID \<Rightarrow> Setter" where
  "transactionIDValueSetter_AddTo t m =
     add_ok (Message_WriteTransactionID (m\<lparr>msg_TransactionID := t\<rparr>))"

text \<open>
  \<open>io.ReadFull(rand.Reader, m.TransactionID[:])\<close>: the bytes read (all twelve unless there
  is an error) are an argument.
\<close>

definition Message_NewTransactionID ::
  "bytes \<times> go_error option \<Rightarrow> Message \<Rightarrow> (go_error option \<times> Message) go" where
  "Message_NewTransactionID rnd m =
     (let (data, err) = rnd;
          m' = m\<lparr>msg_TransactionID := put_at 0 data (msg_TransactionID m)\<rparr>
      in if err = None then add_ok (Message_WriteTransactionID m') else Ret (err, m'))"

definition transactionIDSetter_AddTo :: "bytes \<times> go_error option \<Rightarrow> Setter" where
  "transactionIDSetter_AddTo rnd m = Message_NewTransactionID rnd m"

section \<open>Message type bits\<close>

lemma u16_type_bits:
  "bit (0xf :: u16) n \<longleftrightarrow> n < 4" "bit (0x70 :: u16) n \<longleftrightarrow> 4 \<le> n \<and> n < 7"
  "bit (0xf80 :: u16) n \<longleftrightarrow> 7 \<le> n \<and> n < 12" "bit (2 :: u16) n \<longleftrightarrow> n = 1"
proof -
  have masks: "(0xf :: u16) = mask 4" "(0x70 :: u16) = push_bit 4 (mask 3)"
    "(0xf80 :: u16) = push_bit 7 (mask 5)" "(2 :: u16) = push_bit 1 (mask 1)"
    by (simp_all add: mask_eq_exp_minus_1 push_bit_eq_mult)
  show "bit (0xf :: u16) n \<longleftrightarrow> n < 4" "bit (0x70 :: u16) n \<longleftrightarrow> 4 \<le> n \<and> n < 7"
    "bit (0xf80 :: u16) n \<longleftrightarrow> 7 \<le> n \<and> n < 12" "bit (2 :: u16) n \<longleftrightarrow> n = 1"
    unfolding masks by (auto simp: bit_simps)
qed

lemma word_add_eq_or:
  fixes a b :: "'a::len word"
  shows "(\<And>n. n < LENGTH('a) \<Longrightarrow> \<not> (bit a n \<and> bit b n)) \<Longrightarrow> a + b = a OR b"
  by (rule disjunctive_add_eq_or) (rule bit_word_eqI, auto simp: bit_simps)

lemmas type_bit_simps =
  bit_or_iff bit_and_iff bit_push_bit_iff bit_drop_bit_eq comp_def u16_type_bits bit_1_iff
  possible_bit_word bit_take_bit_iff

text \<open>The fields added up in \<open>Value\<close> and \<open>ReadValue\<close> do not overlap: each sum is a bitwise or.\<close>

lemma MessageType_Value_or:
  fixes t defines "m \<equiv> mt_Method t" and "c \<equiv> ucast (mt_Class t) :: u16"
  shows "MessageType_Value t =
    (((m AND 0xf) OR push_bit 1 (m AND 0x70)) OR push_bit 2 (m AND 0xf80)) OR
    (push_bit 4 (c AND 1) OR push_bit 7 (c AND 2))"
proof -
  let ?a = "m AND 0xf" and ?b = "push_bit 1 (m AND 0x70)" and ?d = "push_bit 2 (m AND 0xf80)"
  let ?c0 = "push_bit 4 (c AND 1)" and ?c1 = "push_bit 7 (c AND 2)"
  have "?a + ?b = ?a OR ?b" by (rule word_add_eq_or) (simp only: type_bit_simps, auto)
  moreover have "(?a OR ?b) + ?d = (?a OR ?b) OR ?d"
    by (rule word_add_eq_or) (simp only: type_bit_simps, auto)
  moreover have "?c0 + ?c1 = ?c0 OR ?c1" by (rule word_add_eq_or) (simp only: type_bit_simps, auto)
  moreover have "((?a OR ?b) OR ?d) + (?c0 OR ?c1) = ((?a OR ?b) OR ?d) OR (?c0 OR ?c1)"
    by (rule word_add_eq_or) (simp only: type_bit_simps, auto)
  ultimately show ?thesis
    unfolding MessageType_Value_def Let_def type_bit_defs m_def [symmetric] c_def [symmetric]
    by (simp only:)
qed

lemma bit_MessageType_Value:
  "bit (MessageType_Value t) n =
     (if n < 4 then bit (mt_Method t) n
      else if n = 4 then bit (mt_Class t) 0
      else if n < 8 then bit (mt_Method t) (n - 1)
      else if n = 8 then bit (mt_Class t) 1
      else n < 14 \<and> bit (mt_Method t) (n - 2))"
  unfolding MessageType_Value_or
  by (simp only: type_bit_simps bit_ucast_iff) auto

lemma MessageType_ReadValue_or:
  "MessageType_ReadValue v =
     \<lparr>mt_Method = ((v AND 0xf) OR (drop_bit 1 v AND 0x70)) OR (drop_bit 2 v AND 0xf80),
      mt_Class = ucast ((drop_bit 4 v AND 1) OR (drop_bit 7 v AND 2))\<rparr>"
proof -
  let ?a = "v AND 0xf" and ?b = "drop_bit 1 v AND 0x70" and ?d = "drop_bit 2 v AND 0xf80"
  let ?c0 = "drop_bit 4 v AND 1" and ?c1 = "drop_bit 7 v AND 2"
  have "?a + ?b = ?a OR ?b" by (rule word_add_eq_or) (simp only: type_bit_simps, auto)
  moreover have "(?a OR ?b) + ?d = (?a OR ?b) OR ?d"
    by (rule word_add_eq_or) (simp only: type_bit_simps, auto)
  moreover have "?c0 + ?c1 = ?c0 OR ?c1" by (rule word_add_eq_or) (simp only: type_bit_simps, auto)
  ultimately show ?thesis
    unfolding MessageType_ReadValue_def Let_def type_bit_defs by (simp only:)
qed

text \<open>Decoding a type value gives back the 12 method bits and the 2 class bits.\<close>

lemma MessageType_ReadValue_Value:
  "MessageType_ReadValue (MessageType_Value t) =
     \<lparr>mt_Method = take_bit 12 (mt_Method t), mt_Class = take_bit 2 (mt_Class t)\<rparr>"
proof -
  have "mt_Method (MessageType_ReadValue (MessageType_Value t)) = take_bit 12 (mt_Method t)"
    unfolding MessageType_ReadValue_or
    by (simp only: MessageType.simps, rule bit_word_eqI)
      (simp only: type_bit_simps bit_MessageType_Value, auto)
  moreover have "mt_Class (MessageType_ReadValue (MessageType_Value t)) = take_bit 2 (mt_Class t)"
    unfolding MessageType_ReadValue_or
    by (simp only: MessageType.simps, rule bit_word_eqI)
      (simp only: type_bit_simps bit_ucast_iff bit_MessageType_Value, auto simp: less_2_cases_iff)
  ultimately show ?thesis by (simp add: MessageType.equality)
qed

definition valid_MessageType :: "MessageType \<Rightarrow> bool" where
  "valid_MessageType t \<longleftrightarrow> mt_Method t < 0x1000 \<and> mt_Class t < 4"

lemma take_bit_word_less:
  fixes w :: "'a::len word"
  assumes "unat w < 2 ^ n"
  shows "take_bit n w = w"
  using assms by (simp add: word_unat_eq_iff unsigned_take_bit_eq take_bit_nat_eq_self)

lemma MessageType_roundtrip:
  "valid_MessageType t \<Longrightarrow> MessageType_ReadValue (MessageType_Value t) = t"
  unfolding MessageType_ReadValue_Value valid_MessageType_def
  using take_bit_word_less [of "mt_Method t" 12] take_bit_word_less [of "mt_Class t" 2]
  by (simp add: word_less_nat_alt)

lemma bit_MessageType_Value_top: "14 \<le> n \<Longrightarrow> \<not> bit (MessageType_Value t) n"
  by (simp add: bit_MessageType_Value)
 
section \<open>Buffer operations\<close>

lemma grow_loop_eq:
  "grow_loop n raw spare =
     (if n \<le> length raw + length spare then (raw, spare)
      else (raw @ replicate (n - length raw) 0, []))"
proof (induction n raw spare rule: grow_loop.induct)
  case (1 n raw spare)
  show ?case
  proof (cases "length raw + length spare < n")
    case True
    then have "n - length raw = Suc (n - Suc (length raw))" by simp
    then have rep: "replicate (n - length raw) (0 :: byte) = 0 # replicate (n - Suc (length raw)) 0"
      by simp
    have step: "grow_loop n raw spare = grow_loop n (raw @ [0]) (tl spare)"
      using True by (subst grow_loop.simps) simp
    show ?thesis
      unfolding step 1 [OF True]
      using True by (cases spare; cases "n = Suc (length raw)") (auto simp: rep)
  next
    case False
    then show ?thesis by (subst grow_loop.simps) simp
  qed
qed

text \<open>What a slice sees past its length when it grows by \<open>v\<close>: stale bytes, or zeros after a reallocation.\<close>

definition spare_for :: "Message \<Rightarrow> nat \<Rightarrow> bytes" where
  "spare_for m v = (if v \<le> length (msg_Spare m) then msg_Spare m else replicate v 0)"

lemma length_spare_for: "v \<le> length (spare_for m v)"
  by (simp add: spare_for_def)

lemma Message_grow_eq:
  "Message_grow m v =
     Ret (m\<lparr>msg_Raw := msg_Raw m @ take v (spare_for m v), msg_Spare := drop v (spare_for m v)\<rparr>)"
  by (auto simp: Message_grow_def grow_loop_eq Message_reslice_def Message_cap_def spare_for_def)

lemma Message_reslice_le:
  "n \<le> length (msg_Raw m) \<Longrightarrow>
     Message_reslice n m = Ret (m\<lparr>msg_Raw := take n (msg_Raw m),
                                  msg_Spare := drop n (msg_Raw m) @ msg_Spare m\<rparr>)"
  by (simp add: Message_reslice_def Message_cap_def)

lemma Message_poke_in:
  "i + length v \<le> length (msg_Raw m) \<Longrightarrow>
     Message_poke i v m = Ret (m\<lparr>msg_Raw := put_at i v (msg_Raw m)\<rparr>)"
  by (simp add: Message_poke_def Message_cap_def put_at_append_left Let_def)

lemma Message_WriteLength_eq:
  "4 < length (msg_Raw m) \<Longrightarrow>
     Message_WriteLength m =
       Ret (m\<lparr>msg_Raw := put_at 2 (put_u16 (ucast (msg_Length m))) (msg_Raw m)\<rparr>)"
  by (simp add: Message_WriteLength_def Message_poke_in)

section \<open>Add\<close>

definition enc_tlv :: "AttrType \<Rightarrow> bytes \<Rightarrow> bytes" where
  "enc_tlv t v = put_u16 t @ put_u16 (of_nat (length v)) @ v @
     replicate (nearestPaddedValueLength (length v) - length v) 0"

lemma length_enc_tlv [simp]: "length (enc_tlv t v) = 4 + nearestPaddedValueLength (length v)"
  using nearestPaddedValueLength_bounds(1) [of "length v"] by (simp add: enc_tlv_def)

text \<open>The bytes before the new attribute: the message so far, or what re-slicing exposes.\<close>

definition add_prefix :: "Message \<Rightarrow> bytes \<Rightarrow> bytes" where
  "add_prefix m v =
     (let first = messageHeaderSize + unat (msg_Length m)
      in take first (msg_Raw m @ spare_for m (first + attributeHeaderSize + length v)))"

lemma length_add_prefix: "length (add_prefix m v) = messageHeaderSize + unat (msg_Length m)"
  using length_spare_for [of "messageHeaderSize + unat (msg_Length m) + attributeHeaderSize + length v" m]
  by (simp add: add_prefix_def Let_def)

lemma add_prefix_eq:
  "messageHeaderSize + unat (msg_Length m) \<le> length (msg_Raw m) \<Longrightarrow>
   add_prefix m v = take (messageHeaderSize + unat (msg_Length m)) (msg_Raw m)"
  by (simp add: add_prefix_def Let_def)

definition added :: "Message \<Rightarrow> AttrType \<Rightarrow> bytes \<Rightarrow> Message" where
  "added m t v =
     (let len = msg_Length m + of_nat (attributeHeaderSize + nearestPaddedValueLength (length v))
      in m\<lparr>msg_Length := len,
           msg_Attributes := msg_Attributes m @
             [\<lparr>attr_Type = t, attr_Length = of_nat (length v), attr_Value = v\<rparr>],
           msg_AttrsNil := False,
           msg_Raw := put_at 2 (put_u16 (ucast len)) (add_prefix m v) @ enc_tlv t v\<rparr>)"

lemma put_tlv:
  assumes "length p = first" and "length q = 4 + length v" and "length (a :: bytes) = 2" and "length b = 2"
  shows "put_at (first + 4) v (put_at (first + 2) b (put_at first a (p @ q))) = p @ a @ b @ v"
proof -
  obtain q0 q1 q2 q3 q' where q: "q = q0 # q1 # q2 # q3 # q'" and "length q' = length v"
    using assms(2) by (auto simp: length_Suc_conv numeral_eq_Suc)
  moreover obtain a0 a1 b0 b1 where "a = [a0, a1]" "b = [b0, b1]"
    using assms(3,4) by (auto simp: length_Suc_conv numeral_eq_Suc)
  ultimately show ?thesis
    using assms(1) by (simp add: put_at_def)
qed

lemma unat_of_nat_mod_4: "unat (of_nat n :: u16) mod 4 = n mod 4"
  by (simp add: unat_of_nat take_bit_eq_mod mod_mod_cancel)

lemma Message_pad_eq:
  assumes "length (msg_Raw m) = lst"
  shows "\<exists>sp. Message_pad lst k m =
    Ret (m\<lparr>msg_Raw := msg_Raw m @ replicate (nearestPaddedValueLength k - k) 0, msg_Spare := sp,
           msg_Length := msg_Length m + of_nat (nearestPaddedValueLength k - k)\<rparr>)"
proof -
  define n where "n = nearestPaddedValueLength k - k"
  define q where "q = take (lst + n) (spare_for m (lst + n))"
  let ?m = "m\<lparr>msg_Raw := msg_Raw m @ q, msg_Spare := drop (lst + n) (spare_for m (lst + n))\<rparr>"
  have len: "length q = lst + n"
    using length_spare_for [of "lst + n" m] by (simp add: q_def)
  have poke: "Message_poke lst (replicate n 0) ?m =
      Ret (?m\<lparr>msg_Raw := put_at lst (replicate n 0) (msg_Raw m @ q)\<rparr>)"
    using assms len by (subst Message_poke_in) auto
  have pre: "take (lst + n) (put_at lst (replicate n 0) (msg_Raw m @ q)) = msg_Raw m @ replicate n 0"
    using assms by (simp add: put_at_def)
  have len': "length (put_at lst (replicate n 0) (msg_Raw m @ q)) = lst + (lst + n)"
    using assms len by (subst length_put_at) auto
  show ?thesis
    unfolding Message_pad_def Let_def Message_grow_eq go_bind.simps n_def [symmetric]
      q_def [symmetric] poke
    using len' by (subst Message_reslice_le) (auto simp: pre)
qed

text \<open>The steps of \<open>Add\<close>: allocation, the three writes of the TLV, padding.\<close>

lemma add_alloc:
  fixes m v defines "lst \<equiv> messageHeaderSize + unat (msg_Length m) + (attributeHeaderSize + length v)"
  shows "\<exists>m1 q sp. Message_grow m lst = Ret m1 \<and> length q = 4 + length v \<and>
    Message_reslice lst m1 = Ret (m\<lparr>msg_Raw := add_prefix m v @ q, msg_Spare := sp\<rparr>)"
proof -
  define first where "first = messageHeaderSize + unat (msg_Length m)"
  define sp where "sp = spare_for m lst"
  define q where "q = drop first (take lst (msg_Raw m @ sp))"
  let ?m1 = "m\<lparr>msg_Raw := msg_Raw m @ take lst sp, msg_Spare := drop lst sp\<rparr>"
  have lst: "lst = first + (4 + length v)"
    by (simp add: lst_def first_def size_defs)
  have lsp: "lst \<le> length sp" unfolding sp_def by (rule length_spare_for)
  have p: "add_prefix m v = take first (msg_Raw m @ sp)"
    by (simp add: add_prefix_def Let_def sp_def lst_def first_def add.assoc)
  have "take lst (msg_Raw m @ take lst sp) = take lst (msg_Raw m @ sp)"
    by simp
  also have "\<dots> = add_prefix m v @ q"
    unfolding p q_def by (metis append_take_drop_id le_add1 lst min.absorb1 take_take)
  finally have tk: "take lst (msg_Raw ?m1) = add_prefix m v @ q"
    by simp
  moreover have "lst \<le> length (msg_Raw ?m1)" using lsp by simp
  ultimately have "Message_reslice lst ?m1 =
      Ret (m\<lparr>msg_Raw := add_prefix m v @ q, msg_Spare := drop lst (msg_Raw ?m1) @ drop lst sp\<rparr>)"
    using Message_reslice_le [of lst ?m1] by simp
  moreover have "length q = 4 + length v"
    using lsp by (simp add: q_def lst)
  ultimately show ?thesis
    using Message_grow_eq [of m lst] by (auto simp: sp_def)
qed

lemma add_write:
  assumes "length p = first" and "length q = 4 + length v" and "msg_Raw m = p @ q"
  shows "\<exists>m1 m2. Message_poke first (put_u16 t) m = Ret m1 \<and>
    Message_poke (first + 2) (put_u16 l) m1 = Ret m2 \<and>
    Message_poke (first + attributeHeaderSize) v m2 =
      Ret (m\<lparr>msg_Raw := p @ put_u16 t @ put_u16 l @ v\<rparr>)"
proof -
  let ?m1 = "m\<lparr>msg_Raw := put_at first (put_u16 t) (p @ q)\<rparr>"
  let ?m2 = "m\<lparr>msg_Raw := put_at (first + 2) (put_u16 l) (put_at first (put_u16 t) (p @ q))\<rparr>"
  have "Message_poke first (put_u16 t) m = Ret ?m1"
    using assms Message_poke_in [of first "put_u16 t" m] by simp
  moreover have "Message_poke (first + 2) (put_u16 l) ?m1 = Ret ?m2"
    using assms Message_poke_in [of "first + 2" "put_u16 l" ?m1] by simp
  moreover have "Message_poke (first + attributeHeaderSize) v ?m2 =
      Ret (m\<lparr>msg_Raw := p @ put_u16 t @ put_u16 l @ v\<rparr>)"
    using assms Message_poke_in [of "first + 4" v ?m2] put_tlv [of p first q v "put_u16 t" "put_u16 l"]
    by (simp add: size_defs)
  ultimately show ?thesis by blast
qed

lemma add_pad:
  fixes m v
  assumes "msg_Raw m = p @ put_u16 t @ put_u16 (of_nat (length v)) @ v"
    and "length p + 4 + length v = lst"
  shows "\<exists>sp. (if unat (of_nat (length v) :: u16) mod padding \<noteq> 0
      then Message_pad lst (length v) m else Ret m) =
    Ret (m\<lparr>msg_Raw := p @ enc_tlv t v, msg_Spare := sp,
           msg_Length := msg_Length m + of_nat (nearestPaddedValueLength (length v) - length v)\<rparr>)"
proof (cases "unat (of_nat (length v) :: u16) mod padding = 0")
  case True
  then have "nearestPaddedValueLength (length v) = length v"
    by (intro nearestPaddedValueLength_aligned) (simp add: padding_def unat_of_nat_mod_4)
  with True assms(1) show ?thesis
    by (intro exI [of _ "msg_Spare m"]) (simp add: enc_tlv_def)
next
  case False
  have "length (msg_Raw m) = lst" using assms by simp
  from Message_pad_eq [OF this, of "length v"] False assms(1) show ?thesis
    by (auto simp: enc_tlv_def)
qed

text \<open>
  \<open>Add\<close> always returns, whatever the message, and up to the spare capacity its result is
  \<open>added\<close>.
\<close>

lemma Message_Add_eq: "\<exists>sp. Message_Add m t v = Ret (added m t v\<lparr>msg_Spare := sp\<rparr>)"
proof -
  define first where "first = messageHeaderSize + unat (msg_Length m)"
  define lst where "lst = first + (attributeHeaderSize + length v)"
  define p where "p = add_prefix m v"
  define l1 where "l1 = msg_Length m + of_nat (attributeHeaderSize + length v)"
  define l where "l = (of_nat (length v) :: u16)"
  have lp: "length p = first" by (simp add: p_def first_def length_add_prefix)
  obtain m1 q s1 where grow: "Message_grow m lst = Ret m1" and lq: "length q = 4 + length v"
    and res: "Message_reslice lst m1 = Ret (m\<lparr>msg_Raw := p @ q, msg_Spare := s1\<rparr>)"
    using add_alloc [of m v] unfolding lst_def first_def p_def by blast
  let ?m2 = "m\<lparr>msg_Raw := p @ q, msg_Spare := s1, msg_Length := l1\<rparr>"
  let ?m3 = "m\<lparr>msg_Raw := p @ put_u16 t @ put_u16 l @ v, msg_Spare := s1, msg_Length := l1\<rparr>"
  obtain m3 m4 where pokes: "Message_poke first (put_u16 t) ?m2 = Ret m3"
      "Message_poke (first + 2) (put_u16 l) m3 = Ret m4"
      "Message_poke (first + attributeHeaderSize) v m4 = Ret ?m3"
    using add_write [of p first q v ?m2 t l] lp lq by (auto simp: fun_upd_def)
  obtain s2 where pad: "(if unat l mod padding \<noteq> 0
      then Message_pad lst (length v) ?m3 else Ret ?m3) =
      Ret (m\<lparr>msg_Raw := p @ enc_tlv t v, msg_Spare := s2,
        msg_Length := l1 + of_nat (nearestPaddedValueLength (length v) - length v)\<rparr>)"
    using add_pad [of ?m3 p t v lst] lp by (auto simp: lst_def size_defs l_def)
  have len: "l1 + of_nat (nearestPaddedValueLength (length v) - length v) =
      msg_Length m + of_nat (attributeHeaderSize + nearestPaddedValueLength (length v))"
    using nearestPaddedValueLength_bounds(1) [of "length v"] by (simp add: l1_def of_nat_diff)
  let ?m5 = "m\<lparr>msg_Raw := p @ enc_tlv t v, msg_Spare := s2,
        msg_Length := l1 + of_nat (nearestPaddedValueLength (length v) - length v),
        msg_Attributes := msg_Attributes m @ [\<lparr>attr_Type = t, attr_Length = l, attr_Value = v\<rparr>],
        msg_AttrsNil := False\<rparr>"
  have msg_upd: "\<And>r s. msg_Length (m\<lparr>msg_Raw := r, msg_Spare := s\<rparr>) + of_nat (attributeHeaderSize + length v) = l1"
      "\<And>r s k. msg_Attributes (m\<lparr>msg_Raw := r, msg_Spare := s, msg_Length := k\<rparr>) = msg_Attributes m"
    by (simp_all add: l1_def)
  have "Message_Add m t v = Message_WriteLength ?m5"
    unfolding Message_Add_def Let_def first_def [symmetric] lst_def [symmetric] grow
    by (simp only: go_bind.simps res RawAttribute.simps l_def [symmetric] msg_upd pokes pad)
  also have "\<dots> = Ret (?m5\<lparr>msg_Raw := put_at 2 (put_u16 (ucast (msg_Length ?m5))) p @ enc_tlv t v\<rparr>)"
    using lp by (subst Message_WriteLength_eq) (simp_all add: first_def size_defs put_at_append_left)
  also have "\<dots> = Ret (added m t v\<lparr>msg_Spare := s2\<rparr>)"
    by (simp add: added_def Let_def len p_def l_def)
  finally show ?thesis by blast
qed

lemma Message_Add_returns: "returns (Message_Add m t v)"
  using Message_Add_eq [of m t v] by auto

end
