(* ===== verification/Stun_Wire.thy ===== *)
theory Stun_Wire
  imports Stun_Message
begin

text \<open>
  The wire format of STUN messages and what \<^verbatim>\<open>src/stun/message.go\<close> does with it.

  \<^item> \<open>msg_wf\<close>: the buffer of a message is the encoding of its fields. Every operation that
    writes the buffer (\<open>WriteHeader\<close> after \<open>Reset\<close>, \<open>SetType\<close>, \<open>WriteTransactionID\<close>, \<open>Add\<close>)
    establishes or keeps it.
  \<^item> \<open>is_tlvs\<close>, \<open>wire_message\<close>: an abstract grammar of the format; \<open>Decode\<close> accepts exactly
    its sentences (\<open>Message_Decode_iff_wire\<close>) and inverts the encoder (\<open>Message_Decode_wf\<close>).
  \<^item> \<open>Message_Decode_returns\<close>: when decoding panics.
\<close>

section \<open>The invariant: the buffer is the encoding of the fields\<close>

definition enc_header :: "MessageType \<Rightarrow> u32 \<Rightarrow> TransactionID \<Rightarrow> bytes" where
  "enc_header t len tid =
     put_u16 (MessageType_Value t) @ put_u16 (ucast len) @ put_u32 magicCookie @ tid"

definition enc_attrs :: "RawAttribute list \<Rightarrow> bytes" where
  "enc_attrs as = concat (map (\<lambda>a. enc_tlv (attr_Type a) (attr_Value a)) as)"

definition attr_wf :: "RawAttribute \<Rightarrow> bool" where
  "attr_wf a \<longleftrightarrow> attr_Length a = of_nat (length (attr_Value a)) \<and> length (attr_Value a) < 65536"

definition msg_wf :: "Message \<Rightarrow> bool" where
  "msg_wf m \<longleftrightarrow>
     length (msg_TransactionID m) = TransactionIDSize \<and>
     list_all attr_wf (msg_Attributes m) \<and>
     unat (msg_Length m) = length (enc_attrs (msg_Attributes m)) \<and>
     unat (msg_Length m) < 65536 \<and>
     msg_Raw m = enc_header (msg_Type m) (msg_Length m) (msg_TransactionID m) @ enc_attrs (msg_Attributes m)"

text \<open>Room for one more attribute with a value of \<open>k\<close> bytes.\<close>

definition fits :: "Message \<Rightarrow> nat \<Rightarrow> bool" where
  "fits m k \<longleftrightarrow> unat (msg_Length m) + attributeHeaderSize + nearestPaddedValueLength k < 65536"

definition mk_attr :: "AttrType \<Rightarrow> bytes \<Rightarrow> RawAttribute" where
  "mk_attr t v = \<lparr>attr_Type = t, attr_Length = of_nat (length v), attr_Value = v\<rparr>"

lemma mk_attr_sel [simp]:
  "attr_Type (mk_attr t v) = t" "attr_Value (mk_attr t v) = v" "attr_Length (mk_attr t v) = of_nat (length v)"
  by (simp_all add: mk_attr_def)

lemma length_enc_header [simp]: "length (enc_header t l tid) = 8 + length tid"
  by (simp add: enc_header_def)

lemma enc_attrs_simps [simp]:
  "enc_attrs [] = []"
  "enc_attrs (a # as) = enc_tlv (attr_Type a) (attr_Value a) @ enc_attrs as"
  "enc_attrs (as @ bs) = enc_attrs as @ enc_attrs bs"
  by (simp_all add: enc_attrs_def)

lemma put_length_enc_header:
  "put_at 2 (put_u16 (ucast l')) (enc_header t l tid) = enc_header t l' tid"
  by (simp add: enc_header_def put_at_def numeral_eq_Suc)

lemma put_type_enc_header:
  "put_at 0 (put_u16 (MessageType_Value t')) (enc_header t l tid) = enc_header t' l tid"
  by (simp add: enc_header_def put_at_def numeral_eq_Suc)

lemma put_tid_enc_header:
  "length tid' = length tid \<Longrightarrow> put_at 8 tid' (enc_header t l tid) = enc_header t l tid'"
  by (simp add: enc_header_def put_at_def numeral_eq_Suc)

lemma msg_wf_length_Raw: "msg_wf m \<Longrightarrow> length (msg_Raw m) = messageHeaderSize + unat (msg_Length m)"
  by (auto simp: msg_wf_def size_defs)

lemma Message_Add_wf:
  assumes "msg_wf m" and "fits m (length v)"
  shows "\<exists>m'. Message_Add m t v = Ret m' \<and> msg_wf m' \<and>
    msg_Type m' = msg_Type m \<and> msg_TransactionID m' = msg_TransactionID m \<and>
    msg_Attributes m' = msg_Attributes m @ [mk_attr t v] \<and>
    unat (msg_Length m') = unat (msg_Length m) + attributeHeaderSize + nearestPaddedValueLength (length v)"
proof -
  obtain sp where add: "Message_Add m t v = Ret (added m t v\<lparr>msg_Spare := sp\<rparr>)"
    using Message_Add_eq by blast
  let ?k = "attributeHeaderSize + nearestPaddedValueLength (length v)"
  let ?l = "msg_Length m + of_nat ?k"
  have small: "unat (msg_Length m) + ?k < 65536"
    using assms(2) by (simp add: fits_def)
  then have ul: "unat ?l = unat (msg_Length m) + ?k"
    by (simp add: unat_word_ariths unat_of_nat take_bit_eq_mod)
  have "add_prefix m v = msg_Raw m"
    using msg_wf_length_Raw [OF assms(1)] by (simp add: add_prefix_eq)
  then have raw: "msg_Raw (added m t v) =
      enc_header (msg_Type m) ?l (msg_TransactionID m) @ enc_attrs (msg_Attributes m @ [mk_attr t v])"
    using assms(1) by (simp add: added_def Let_def msg_wf_def put_at_append_left put_length_enc_header)
  have "length v < 65536"
    using small nearestPaddedValueLength_bounds(1) [of "length v"] by linarith
  then have "msg_wf (added m t v\<lparr>msg_Spare := sp\<rparr>)"
    using assms(1) raw ul small by (simp add: msg_wf_def added_def Let_def attr_wf_def mk_attr_def size_defs)
  with add ul show ?thesis
    by (auto simp: added_def Let_def mk_attr_def)
qed

lemma Message_WriteHeader_empty:
  assumes "msg_Raw m = []" and "length (msg_TransactionID m) = TransactionIDSize"
  shows "\<exists>sp. Message_WriteHeader m =
    Ret (m\<lparr>msg_Spare := sp, msg_Raw := enc_header (msg_Type m) (msg_Length m) (msg_TransactionID m)\<rparr>)"
proof -
  define r where "r = take 20 (spare_for m 20)"
  have lr: "length r = 20" using length_spare_for [of 20 m] by (simp add: r_def)
  let ?m = "m\<lparr>msg_Raw := r, msg_Spare := drop 20 (spare_for m 20)\<rparr>"
  have grow: "Message_grow m 20 = Ret ?m"
    using assms(1) by (simp add: Message_grow_eq r_def)
  have put: "put_at 8 (msg_TransactionID m) (put_at 4 (put_u32 magicCookie)
      (put_at 2 (put_u16 (ucast (msg_Length m))) (put_at 0 (put_u16 (MessageType_Value (msg_Type m))) r)))
    = enc_header (msg_Type m) (msg_Length m) (msg_TransactionID m)"
    using lr assms(2) by (simp add: put_at_def enc_header_def size_defs numeral_eq_Suc)
  show ?thesis
    using assms lr put
    by (simp add: Message_WriteHeader_def grow Message_WriteType_def Message_poke_in
        Message_WriteLength_eq Message_WriteTransactionID_def size_defs) blast
qed

lemma Message_SetType_wf:
  assumes "msg_wf m"
  shows "\<exists>m'. Message_SetType t m = Ret m' \<and> msg_wf m' \<and> msg_Type m' = t \<and>
    msg_TransactionID m' = msg_TransactionID m \<and> msg_Attributes m' = msg_Attributes m \<and>
    msg_Length m' = msg_Length m"
  using assms
  by (auto simp: Message_SetType_def Message_WriteType_def Message_poke_in msg_wf_def
      put_at_append_left put_type_enc_header)

lemma Message_WriteTransactionID_wf:
  assumes "msg_wf m" and "length tid = TransactionIDSize"
  shows "\<exists>m'. Message_WriteTransactionID (m\<lparr>msg_TransactionID := tid\<rparr>) = Ret m' \<and> msg_wf m' \<and>
    msg_Type m' = msg_Type m \<and> msg_TransactionID m' = tid \<and> msg_Attributes m' = msg_Attributes m \<and>
    msg_Length m' = msg_Length m"
  using assms
  by (auto simp: Message_WriteTransactionID_def Message_poke_in msg_wf_def
      put_at_append_left put_tid_enc_header)

section \<open>The wire grammar, and Decode as its recogniser\<close>

text \<open>
  \<open>is_tlvs as b\<close>: the body \<open>b\<close> is a sequence of type-length-value triples for the
  attributes \<open>as\<close>, each padded to four bytes with bytes of any value.
\<close>

fun is_tlvs :: "RawAttribute list \<Rightarrow> bytes \<Rightarrow> bool" where
  "is_tlvs [] b \<longleftrightarrow> b = []"
| "is_tlvs (a # as) b \<longleftrightarrow>
     (let n = nearestPaddedValueLength (length (attr_Value a)) in
      attr_wf a \<and> 4 + n \<le> length b \<and>
      subslice 0 2 b = put_u16 (attr_Type a) \<and> subslice 2 4 b = put_u16 (attr_Length a) \<and>
      subslice 4 (4 + length (attr_Value a)) b = attr_Value a \<and> is_tlvs as (drop (4 + n) b))"

lemma RawAttribute_eta [simp]:
  "\<lparr>attr_Type = attr_Type a, attr_Length = attr_Length a, attr_Value = attr_Value a\<rparr> = a"
  by simp

lemma attr_wf_length: "attr_wf a \<Longrightarrow> unat (attr_Length a) = length (attr_Value a)"
  by (simp add: attr_wf_def unat_of_nat take_bit_eq_mod)

lemma decode_attrs_step:
  fixes b defines "l \<equiv> be_get (subslice 2 4 b) :: u16"
  defines "n \<equiv> nearestPaddedValueLength (unat l)"
  assumes "off < sz" and "4 + n \<le> length b"
  shows "decode_attrs off sz b acc = decode_attrs (off + (4 + n)) sz (drop (4 + n) b)
    (acc @ [\<lparr>attr_Type = be_get (subslice 0 2 b), attr_Length = l, attr_Value = take (unat l) (drop 4 b)\<rparr>])"
proof -
  have "\<not> length b < attributeHeaderSize" "\<not> length (drop attributeHeaderSize b) < n"
    using assms(4) by (auto simp: size_defs)
  then show ?thesis
    using assms(3) by (subst decode_attrs.simps)
      (simp add: Let_def size_defs n_def l_def ac_simps)
qed

lemma decode_attrs_None_length:
  fixes b defines "n \<equiv> nearestPaddedValueLength (unat (be_get (subslice 2 4 b) :: u16))"
  assumes "decode_attrs off sz b acc = (None, res)" and "off < sz"
  shows "4 + n \<le> length b"
  using assms by (subst (asm) decode_attrs.simps) (auto simp: Let_def size_defs split: if_splits)

lemma decode_attrs_complete:
  "is_tlvs as b \<Longrightarrow> decode_attrs off (off + length b) b acc = (None, acc @ as)"
proof (induction as arbitrary: off b acc)
  case Nil
  then show ?case by (subst decode_attrs.simps) simp
next
  case (Cons a as)
  let ?n = "nearestPaddedValueLength (length (attr_Value a))"
  have wf: "attr_wf a" and le: "4 + ?n \<le> length b" and rest: "is_tlvs as (drop (4 + ?n) b)"
    and sub: "subslice 0 2 b = put_u16 (attr_Type a)" "subslice 2 4 b = put_u16 (attr_Length a)"
      "take (length (attr_Value a)) (drop 4 b) = attr_Value a"
    using Cons.prems by (simp_all add: Let_def subslice_def)
  have "decode_attrs off (off + length b) b acc =
      decode_attrs (off + (4 + ?n)) (off + length b) (drop (4 + ?n) b) (acc @ [a])"
    using decode_attrs_step [of off "off + length b" b acc] le
    by (cases "b = []") (simp_all add: sub attr_wf_length [OF wf] RawAttribute_eta)
  also have "\<dots> = decode_attrs (off + (4 + ?n)) (off + (4 + ?n) + length (drop (4 + ?n) b))
      (drop (4 + ?n) b) (acc @ [a])"
    using le by simp
  also have "\<dots> = (None, (acc @ [a]) @ as)"
    by (rule Cons.IH [OF rest])
  finally show ?case by simp
qed

lemma be_put_2_get: "2 \<le> length b \<Longrightarrow> put_u16 (be_get (subslice 0 2 b)) = subslice 0 2 b"
  using be_put_be_get [where 'a = 16, of "subslice 0 2 b"] by simp

lemma be_put_2_get': "4 \<le> length b \<Longrightarrow> put_u16 (be_get (subslice 2 4 b)) = subslice 2 4 b"
  using be_put_be_get [where 'a = 16, of "subslice 2 4 b"] by simp

lemma decode_attrs_sound:
  "decode_attrs off sz b acc = (None, res) \<Longrightarrow> sz = off + length b \<Longrightarrow>
   \<exists>as. res = acc @ as \<and> is_tlvs as b"
proof (induction "length b" arbitrary: off b acc rule: less_induct)
  case less
  define l where "l = (be_get (subslice 2 4 b) :: u16)"
  define n where "n = nearestPaddedValueLength (unat l)"
  define a where "a = \<lparr>attr_Type = be_get (subslice 0 2 b), attr_Length = l,
    attr_Value = take (unat l) (drop 4 b)\<rparr>"
  show ?case
  proof (cases "b = []")
    case True
    with less.prems show ?thesis by (subst (asm) decode_attrs.simps) (auto intro: exI [of _ "[]"])
  next
    case False
    then have off: "off < sz" using less.prems(2) by simp
    have bn: "4 + n \<le> length b"
      using decode_attrs_None_length [OF less.prems(1) off] by (simp add: n_def l_def)
    have rec: "decode_attrs (off + (4 + n)) sz (drop (4 + n) b) (acc @ [a]) = (None, res)"
      using decode_attrs_step [OF off, of b acc] bn less.prems(1) by (simp add: a_def n_def l_def)
    obtain as where as: "res = (acc @ [a]) @ as" "is_tlvs as (drop (4 + n) b)"
      using less.hyps [OF _ rec] less.prems(2) bn False by auto
    have ln: "unat l \<le> n" unfolding n_def by (rule nearestPaddedValueLength_bounds)
    have "unat l < 65536" using unsigned_less [of l, where 'a = nat] by simp
    then have "attr_wf a" and "length (attr_Value a) = unat l"
      using ln bn by (simp_all add: attr_wf_def a_def)
    moreover have "subslice 4 (4 + unat l) b = attr_Value a"
      by (simp add: a_def subslice_def)
    ultimately have "is_tlvs (a # as) b"
      using as(2) bn by (simp add: Let_def n_def [symmetric]) (simp add: a_def be_put_2_get be_put_2_get' l_def)
    with as(1) show ?thesis by auto
  qed
qed

lemma is_tlvs_enc: "list_all attr_wf as \<Longrightarrow> is_tlvs as (enc_attrs as)"
proof (induction as)
  case Nil
  then show ?case by simp
next
  case (Cons a as)
  let ?n = "nearestPaddedValueLength (length (attr_Value a))"
  have "length (attr_Value a) \<le> ?n" by (rule nearestPaddedValueLength_bounds)
  moreover have "attr_Length a = of_nat (length (attr_Value a))"
    using Cons.prems by (simp add: attr_wf_def)
  ultimately show ?case
    using Cons by (simp add: enc_tlv_def subslice_def Let_def)
qed

lemma decode_attrs_enc:
  "list_all attr_wf as \<Longrightarrow>
   decode_attrs off (off + length (enc_attrs as)) (enc_attrs as) acc = (None, acc @ as)"
  by (rule decode_attrs_complete [OF is_tlvs_enc])

section \<open>Decoding an encoded message\<close>

lemma byte_type_bits: "bit (0x40 :: byte) n \<longleftrightarrow> n = 6" "bit (0xC0 :: byte) n \<longleftrightarrow> n = 6 \<or> n = 7"
proof -
  have masks: "(0x40 :: byte) = push_bit 6 (mask 1)" "(0xC0 :: byte) = push_bit 6 (mask 2)"
    by (simp_all add: mask_eq_exp_minus_1 push_bit_eq_mult)
  show "bit (0x40 :: byte) n \<longleftrightarrow> n = 6" "bit (0xC0 :: byte) n \<longleftrightarrow> n = 6 \<or> n = 7"
    unfolding masks
    by (simp_all only: bit_push_bit_iff bit_mask_iff possible_bit_word) auto
qed

text \<open>The first byte of an encoded type has its two top bits clear: it is not channel data.\<close>

lemma first_byte_type:
  "ucast (drop_bit 8 (MessageType_Value t)) AND (0x40 :: byte) = 0"
  "ucast (drop_bit 8 (MessageType_Value t)) AND (0xC0 :: byte) = 0"
  by (rule bit_word_eqI, simp only: bit_and_iff byte_type_bits bit_ucast_iff bit_drop_bit_eq comp_def,
      auto simp: bit_MessageType_Value_top)+

text \<open>
  Decoding the encoding of a header and of well-formed attributes, whatever bytes follow
  in the buffer, recovers exactly these fields.
\<close>

lemma Message_Decode_enc:
  assumes raw: "msg_Raw r = enc_header t l tid @ enc_attrs as @ extra"
    and t: "valid_MessageType t" and tid: "length tid = TransactionIDSize"
    and as: "list_all attr_wf as" and l: "unat l = length (enc_attrs as)" "unat l < 65536"
  shows "Message_Decode r = Ret (None, r\<lparr>msg_Type := t, msg_Length := l, msg_TransactionID := tid,
    msg_Attributes := as, msg_AttrsNil := (msg_AttrsNil r \<and> as = [])\<rparr>)"
proof -
  let ?b0 = "ucast (drop_bit 8 (MessageType_Value t)) :: byte"
  have hd: "msg_Raw r = ?b0 # tl (msg_Raw r)"
    unfolding raw by (simp add: enc_header_def numeral_eq_Suc)
  have ul: "unat (ucast l :: u16) = unat l"
    using l(2) by (simp add: unsigned_ucast_eq take_bit_nat_eq_self)
  have sub: "subslice 0 2 (msg_Raw r) = put_u16 (MessageType_Value t)"
      "subslice 2 4 (msg_Raw r) = put_u16 (ucast l)"
      "subslice 4 8 (msg_Raw r) = put_u32 magicCookie"
      "subslice 8 messageHeaderSize (msg_Raw r) = tid"
      "subslice messageHeaderSize (messageHeaderSize + unat l) (msg_Raw r) = enc_attrs as"
    using tid l unfolding raw enc_header_def by (simp_all add: subslice_def size_defs)
  have len: "length (msg_Raw r) = messageHeaderSize + unat l + length extra"
    using tid l unfolding raw by (simp add: size_defs)
  have dec: "decode_attrs 0 (unat l) (enc_attrs as) [] = (None, as)"
    using decode_attrs_enc [OF as, of 0 "[]"] l(1) by simp
  show ?thesis
    unfolding Message_Decode_def Let_def
    by (subst hd) (simp add: first_byte_type sub len ul dec MessageType_roundtrip [OF t])
qed

lemma Message_Decode_wf:
  assumes "msg_wf m" and "valid_MessageType (msg_Type m)" and "msg_Raw r = msg_Raw m"
  shows "Message_Decode r = Ret (None, r\<lparr>msg_Type := msg_Type m, msg_Length := msg_Length m,
    msg_TransactionID := msg_TransactionID m, msg_Attributes := msg_Attributes m,
    msg_AttrsNil := (msg_AttrsNil r \<and> msg_Attributes m = [])\<rparr>)"
  using assms by (intro Message_Decode_enc [where extra = "[]"]) (auto simp: msg_wf_def)

definition wire_message ::
  "bytes \<Rightarrow> MessageType \<Rightarrow> u32 \<Rightarrow> TransactionID \<Rightarrow> RawAttribute list \<Rightarrow> bool" where
  "wire_message b t l tid as \<longleftrightarrow>
     messageHeaderSize \<le> length b \<and> hd b AND 0xC0 = 0 \<and>
     t = MessageType_ReadValue (be_get (subslice 0 2 b)) \<and>
     l = of_nat (unat (be_get (subslice 2 4 b) :: u16)) \<and>
     be_get (subslice 4 8 b) = magicCookie \<and>
     tid = subslice 8 messageHeaderSize b \<and>
     messageHeaderSize + unat l \<le> length b \<and>
     is_tlvs as (subslice messageHeaderSize (messageHeaderSize + unat l) b)"

definition decoded :: "Message \<Rightarrow> MessageType \<Rightarrow> u32 \<Rightarrow> TransactionID \<Rightarrow> RawAttribute list \<Rightarrow> Message" where
  "decoded r t l tid as =
     r\<lparr>msg_Type := t, msg_Length := l, msg_TransactionID := tid, msg_Attributes := as,
       msg_AttrsNil := (msg_AttrsNil r \<and> as = [])\<rparr>"

lemma and_C0_and_40:
  fixes b :: byte
  assumes "b AND 0xC0 = 0" shows "b AND 0x40 = 0"
proof -
  have "\<not> bit b 6"
    using arg_cong [OF assms, of "\<lambda>w. bit w 6"] by (simp add: bit_and_iff byte_type_bits)
  then show ?thesis
    by (intro bit_word_eqI) (simp only: bit_and_iff byte_type_bits bit_0_eq, auto)
qed

lemma Message_Decode_header:
  assumes "b \<noteq> []" and "msg_Raw r = b" and "hd b AND 0x40 \<noteq> 0x40"
  shows "Message_Decode r = 
    (if hd b AND 0xC0 \<noteq> 0 then Ret (Some ErrFormatError, r)
        else if length b < messageHeaderSize then Ret (Some ErrUnexpectedHeaderEOF, r)
        else
          let t = be_get (subslice 0 2 b);
              sz = unat (be_get (subslice 2 4 b) :: u16);
              cookie = be_get (subslice 4 8 b);
              fullSize = messageHeaderSize + sz
          in if cookie \<noteq> magicCookie then
               Ret (Some (newDecodeErr ''message'' ''cookie''
                 (show_hex (unat cookie) @ '' is invalid magic cookie (should be '' @
                  show_hex (unat magicCookie) @ '')'')), r)
             else if length b < fullSize then
               Ret (Some (newAttrDecodeErr ''message''
                 (''buffer length '' @ show_dec (length b) @ '' is less than '' @
                  show_dec fullSize @ '' (expected message size)'')), r)
             else
               let (err, as) = decode_attrs 0 sz (subslice messageHeaderSize fullSize b) []
               in Ret (err, decoded r (MessageType_ReadValue t) (of_nat sz)
                      (subslice 8 messageHeaderSize b) as))"
  using assms by (cases b) (simp_all add: Message_Decode_def decoded_def Let_def)

lemma Message_Decode_iff_wire:
  assumes "msg_Raw r \<noteq> []" and "hd (msg_Raw r) AND 0x40 \<noteq> 0x40"
  shows "Message_Decode r = Ret (None, r') \<longleftrightarrow>
    (\<exists>t l tid as. wire_message (msg_Raw r) t l tid as \<and> r' = decoded r t l tid as)"
proof -
  define b where "b = msg_Raw r"
  define sz where "sz = unat (be_get (subslice 2 4 b) :: u16)"
  have ul: "unat (of_nat sz :: u32) = sz"
    using unsigned_less [of "be_get (subslice 2 4 b) :: u16", where 'a = nat]
    by (simp add: sz_def unsigned_ucast_eq take_bit_nat_eq_self)
  have dec: "decode_attrs 0 sz (subslice messageHeaderSize (messageHeaderSize + sz) b) [] = (None, as) \<longleftrightarrow>
      is_tlvs as (subslice messageHeaderSize (messageHeaderSize + sz) b)"
    if "messageHeaderSize + sz \<le> length b" for as
    using that decode_attrs_sound [of 0 sz "subslice messageHeaderSize (messageHeaderSize + sz) b" "[]" as]
      decode_attrs_complete [of as "subslice messageHeaderSize (messageHeaderSize + sz) b" 0 "[]"]
    by auto
  obtain e bs where d: "decode_attrs 0 sz (subslice messageHeaderSize (messageHeaderSize + sz) b) [] = (e, bs)"
    by (rule prod.exhaust)
  show ?thesis
    using assms
    unfolding Message_Decode_header [OF assms(1) refl assms(2)] b_def [symmetric] wire_message_def Let_def
      sz_def [symmetric]
    by (auto simp: dec [symmetric] d ul not_less split: if_splits)
qed

text \<open>\<open>Decode\<close> panics exactly on an empty buffer, or on a short channel-data buffer.\<close>

lemma Message_Decode_returns:
  "returns (Message_Decode m) \<longleftrightarrow>
     msg_Raw m \<noteq> [] \<and> (hd (msg_Raw m) AND 0x40 = 0x40 \<longrightarrow> 4 \<le> Message_cap m)"
  by (cases "msg_Raw m") (auto simp: Message_Decode_def Let_def not_less split: prod.splits)

section \<open>Building\<close>

lemma Message_WriteHeader_Reset:
  assumes "length (msg_TransactionID m) = TransactionIDSize"
  shows "\<exists>m'. Message_WriteHeader (Message_Reset m) = Ret m' \<and> msg_wf m' \<and> msg_Type m' = msg_Type m \<and>
    msg_TransactionID m' = msg_TransactionID m \<and> msg_Attributes m' = [] \<and> msg_Length m' = 0"
proof -
  obtain sp where "Message_WriteHeader (Message_Reset m) = Ret (Message_Reset m\<lparr>msg_Spare := sp,
      msg_Raw := enc_header (msg_Type m) 0 (msg_TransactionID m)\<rparr>)"
    using Message_WriteHeader_empty [of "Message_Reset m"] assms by (auto simp: Message_Reset_def)
  then show ?thesis
    using assms by (auto simp: Message_Reset_def msg_wf_def)
qed

lemma run_setters_append:
  "run_setters (ss @ ts) m =
     go_bind (run_setters ss m) (\<lambda>(err, m'). if err \<noteq> None then Ret (err, m') else run_setters ts m')"
proof (induction ss arbitrary: m)
  case Nil
  then show ?case by simp
next
  case (Cons s ss)
  then show ?case by (cases "s m") (auto split: prod.splits)
qed

text \<open>The fields that \<open>Equal\<close> compares survive a decode of the encoding.\<close>

lemma attrs_included_refl:
  "distinct (map attr_Type as) \<Longrightarrow> attrs_included as as"
proof -
  have "attrs_included bs (cs @ bs)" if "distinct (map attr_Type (cs @ bs))" for bs cs
    using that
  proof (induction bs arbitrary: cs)
    case Nil
    then show ?case by simp
  next
    case (Cons b bs)
    then have "attrs_included bs ((cs @ [b]) @ bs)" by (intro Cons.IH) simp
    moreover have "Attributes_Get (cs @ b # bs) (attr_Type b) = (b, True)"
      using Cons.prems by (auto simp: Attributes_Get_append image_iff)
    ultimately show ?case by (simp add: RawAttribute_Equal_iff)
  qed
  from this [of "[]"] show "distinct (map attr_Type as) \<Longrightarrow> attrs_included as as" by simp
qed

lemma Message_Contains_iff: "Message_Contains m t \<longleftrightarrow> (\<exists>a\<in>set (msg_Attributes m). attr_Type a = t)"
proof -
  have "any_type as t \<longleftrightarrow> (\<exists>a\<in>set as. attr_Type a = t)" for as by (induction as) auto
  then show ?thesis by (simp add: Message_Contains_def)
qed

lemma Message_Get_append:
  assumes "msg_Attributes m' = msg_Attributes m @ as"
  shows "Message_Get m' u =
     (if Message_Contains m u then Message_Get m u else Message_Get (m\<lparr>msg_Attributes := as\<rparr>) u)"
  by (simp add: Message_Get_def assms Attributes_Get_append Message_Contains_iff)

lemma Message_Get_found: "Message_Contains m t \<longleftrightarrow> (\<exists>v. Message_Get m t = Inr v)"
  using Attributes_Get_found [of "msg_Attributes m" t]
  by (auto simp: Message_Contains_iff Message_Get_def split: prod.splits)

text \<open>Lookups see only the attribute list.\<close>

lemma Message_Get_cong: "msg_Attributes m = msg_Attributes m' \<Longrightarrow> Message_Get m t = Message_Get m' t"
  by (simp add: Message_Get_def)

section \<open>CloneTo and Encode\<close>

text \<open>
  \<open>CloneTo\<close> appends to the target's buffer: into an empty message it copies, into a
  message that holds one it decodes that one again.
\<close>

lemma Message_CloneTo_empty:
  assumes "msg_wf m" and "valid_MessageType (msg_Type m)" and "msg_Raw b = []"
  shows "\<exists>b'. Message_CloneTo m b = Ret (None, b') \<and> msg_Raw b' = msg_Raw m \<and> msg_Type b' = msg_Type m \<and>
    msg_Length b' = msg_Length m \<and> msg_TransactionID b' = msg_TransactionID m \<and> msg_Attributes b' = msg_Attributes m"
  using Message_Decode_wf [OF assms(1,2), of "raw_append (msg_Raw m) b"] assms(3)
  by (simp add: Message_CloneTo_def raw_append_def)

lemma Message_CloneTo_nonempty:
  assumes "msg_wf b" and "valid_MessageType (msg_Type b)"
  shows "\<exists>b'. Message_CloneTo m b = Ret (None, b') \<and> msg_Raw b' = msg_Raw b @ msg_Raw m \<and>
    msg_Type b' = msg_Type b \<and> msg_Length b' = msg_Length b \<and>
    msg_TransactionID b' = msg_TransactionID b \<and> msg_Attributes b' = msg_Attributes b"
proof -
  have "msg_Raw (raw_append (msg_Raw m) b) = enc_header (msg_Type b) (msg_Length b) (msg_TransactionID b) @
      enc_attrs (msg_Attributes b) @ msg_Raw m"
    using assms(1) by (simp add: raw_append_def msg_wf_def)
  from Message_Decode_enc [OF this assms(2)] assms(1) show ?thesis
    by (simp add: Message_CloneTo_def raw_append_def msg_wf_def)
qed

text \<open>\<open>WriteAttributes\<close> adds every attribute to the message that already has it.\<close>

lemma add_all_attributes:
  "\<exists>m'. add_all as m = Ret m' \<and>
     msg_Attributes m' = msg_Attributes m @ map (\<lambda>a. mk_attr (attr_Type a) (attr_Value a)) as"
proof (induction as arbitrary: m)
  case (Cons a as)
  obtain sp where "Message_Add m (attr_Type a) (attr_Value a) =
      Ret (added m (attr_Type a) (attr_Value a)\<lparr>msg_Spare := sp\<rparr>)"
    using Message_Add_eq by blast
  with Cons.IH [of "added m (attr_Type a) (attr_Value a)\<lparr>msg_Spare := sp\<rparr>"] show ?case
    by (auto simp: added_def Let_def mk_attr_def)
qed simp

lemma mk_attr_same: "attr_wf a \<Longrightarrow> mk_attr (attr_Type a) (attr_Value a) = a"
  by (simp add: mk_attr_def attr_wf_def)

lemma Message_Encode_doubles:
  assumes "list_all attr_wf (msg_Attributes m)" and "length (msg_TransactionID m) = TransactionIDSize"
  shows "\<exists>m'. Message_Encode m = Ret m' \<and> msg_Attributes m' = msg_Attributes m @ msg_Attributes m"
proof -
  obtain m1 where m1: "Message_WriteHeader (m\<lparr>msg_Raw := [], msg_Spare := msg_Raw m @ msg_Spare m\<rparr>) = Ret m1"
      "msg_Attributes m1 = msg_Attributes m"
    using Message_WriteHeader_empty [of "m\<lparr>msg_Raw := [], msg_Spare := msg_Raw m @ msg_Spare m\<rparr>"] assms(2)
    by auto
  have "map (\<lambda>a. mk_attr (attr_Type a) (attr_Value a)) (msg_Attributes m) = msg_Attributes m"
    using assms(1) by (intro map_idI) (auto simp: list_all_iff mk_attr_same)
  then show ?thesis
    using m1 add_all_attributes [of "msg_Attributes m" m1]
    by (auto simp: Message_Encode_def Message_WriteAttributes_def)
qed

lemma fits_mono: "fits m k' \<Longrightarrow> k \<le> k' \<Longrightarrow> fits m k"
  using div_le_mono [of "k + 3" "k' + 3" 4] by (simp add: fits_def nearestPaddedValueLength_eq)

end
