(* ===== verification/Stun_Codec.thy ===== *)
theory Stun_Codec
  imports Stun_Wire
begin

text \<open>
  The contract of an attribute type of the packages \<^verbatim>\<open>stun\<close>, \<^verbatim>\<open>turn\<close> and \<^verbatim>\<open>ice/attr\<close>: the
  \<open>Setter\<close>/\<open>Getter\<close> interfaces of \<^verbatim>\<open>src/stun/helpers.go\<close> with the law that relates them.

  A provider gives the attribute type, the bytes it writes for a value (they may depend on
  the transaction id, as the XOR-ed addresses do), its \<open>AddTo\<close> and \<open>GetFrom\<close>, which values
  it accepts, which receivers it can decode into, and the value a receiver ends up with.
  Proved once for every provider: the value survives the trip through memory and through
  the wire, and a missing attribute is reported.
\<close>

section \<open>Building a message from setters that add an attribute\<close>

definition adds :: "Setter \<Rightarrow> AttrType \<Rightarrow> (TransactionID \<Rightarrow> bytes) \<Rightarrow> bool" where
  "adds s t e \<longleftrightarrow> (\<forall>m. s m = add_ok (Message_Add m t (e (msg_TransactionID m))))"

type_synonym adding = "Setter \<times> AttrType \<times> (TransactionID \<Rightarrow> bytes)"

definition adding_attrs :: "TransactionID \<Rightarrow> adding list \<Rightarrow> RawAttribute list" where
  "adding_attrs tid ss = map (\<lambda>(s, t, e). mk_attr t (e tid)) ss"

lemma run_setters_adds:
  assumes "list_all (\<lambda>(s, t, e). adds s t e) ss" and "msg_wf m"
    and "unat (msg_Length m) + length (enc_attrs (adding_attrs (msg_TransactionID m) ss)) < 65536"
  shows "\<exists>m'. run_setters (map fst ss) m = Ret (None, m') \<and> msg_wf m' \<and> msg_Type m' = msg_Type m \<and>
    msg_TransactionID m' = msg_TransactionID m \<and>
    msg_Attributes m' = msg_Attributes m @ adding_attrs (msg_TransactionID m) ss"
  using assms
proof (induction ss arbitrary: m)
  case Nil
  then show ?case by (simp add: adding_attrs_def)
next
  case (Cons x ss)
  obtain s t e where x: "x = (s, t, e)" by (cases x)
  let ?v = "e (msg_TransactionID m)"
  have s: "s m = add_ok (Message_Add m t ?v)" using Cons.prems(1) x by (simp add: adds_def)
  have fits: "fits m (length ?v)"
    using Cons.prems(3) x by (simp add: fits_def adding_attrs_def size_defs)
  obtain m1 where m1: "Message_Add m t ?v = Ret m1" "msg_wf m1" "msg_Type m1 = msg_Type m"
      "msg_TransactionID m1 = msg_TransactionID m" "msg_Attributes m1 = msg_Attributes m @ [mk_attr t ?v]"
      "unat (msg_Length m1) = unat (msg_Length m) + attributeHeaderSize + nearestPaddedValueLength (length ?v)"
    using Message_Add_wf [OF Cons.prems(2) fits] by blast
  have "unat (msg_Length m1) + length (enc_attrs (adding_attrs (msg_TransactionID m1) ss)) < 65536"
    using Cons.prems(3) x m1(4,6) by (simp add: adding_attrs_def size_defs)
  from Cons.IH [OF _ m1(2) this] Cons.prems(1) x obtain m' where
    "run_setters (map fst ss) m1 = Ret (None, m')" "msg_wf m'" "msg_Type m' = msg_Type m1"
    "msg_TransactionID m' = msg_TransactionID m1"
    "msg_Attributes m' = msg_Attributes m1 @ adding_attrs (msg_TransactionID m1) ss"
    by auto
  then show ?case
    using x s m1 by (auto simp: add_ok_def adding_attrs_def)
qed

lemma Message_Build_adds:
  assumes "list_all (\<lambda>(s, t, e). adds s t e) ss" and "length (msg_TransactionID m) = TransactionIDSize"
    and "length tid = TransactionIDSize" and "length (enc_attrs (adding_attrs tid ss)) < 65536"
  shows "\<exists>m'. Message_Build (MessageType_AddTo t # transactionIDValueSetter_AddTo tid # map fst ss) m =
      Ret (None, m') \<and> msg_wf m' \<and> msg_Type m' = t \<and> msg_TransactionID m' = tid \<and>
      msg_Attributes m' = adding_attrs tid ss"
proof -
  obtain m1 where m1: "Message_WriteHeader (Message_Reset m) = Ret m1" "msg_wf m1" "msg_Attributes m1 = []"
      "msg_Length m1 = 0"
    using Message_WriteHeader_Reset [OF assms(2)] by blast
  obtain m2 where m2: "Message_SetType t m1 = Ret m2" "msg_wf m2" "msg_Type m2 = t" "msg_Attributes m2 = []"
      "msg_Length m2 = 0"
    using Message_SetType_wf [OF m1(2), of t] m1(3,4) by auto
  obtain m3 where m3: "Message_WriteTransactionID (m2\<lparr>msg_TransactionID := tid\<rparr>) = Ret m3" "msg_wf m3"
      "msg_Type m3 = t" "msg_TransactionID m3 = tid" "msg_Attributes m3 = []" "msg_Length m3 = 0"
    using Message_WriteTransactionID_wf [OF m2(2) assms(3)] m2(3-5) by auto
  obtain m' where "run_setters (map fst ss) m3 = Ret (None, m')" "msg_wf m'" "msg_Type m' = msg_Type m3"
      "msg_TransactionID m' = msg_TransactionID m3"
      "msg_Attributes m' = msg_Attributes m3 @ adding_attrs (msg_TransactionID m3) ss"
    using run_setters_adds [OF assms(1) m3(2)] assms(4) m3(4,6) by auto
  then show ?thesis
    using m1 m2 m3 by (simp add: Message_Build_def MessageType_AddTo_def transactionIDValueSetter_AddTo_def add_ok_def)
qed

section \<open>The codec contract\<close>

locale attribute_codec =
  fixes attr :: AttrType
    and encode :: "TransactionID \<Rightarrow> 'v \<Rightarrow> bytes"
    and AddTo :: "'v \<Rightarrow> Setter"
    and GetFrom :: "'v \<Rightarrow> Message \<Rightarrow> (go_error option \<times> 'v) go"
    and valid :: "'v \<Rightarrow> bool"
    and fresh :: "'v \<Rightarrow> bool"
    and norm :: "'v \<Rightarrow> 'v"
  assumes AddTo_encode:
      "valid v \<Longrightarrow> AddTo v m = add_ok (Message_Add m attr (encode (msg_TransactionID m) v))"
    and GetFrom_encode:
      "valid v \<Longrightarrow> fresh v0 \<Longrightarrow> Message_Get m attr = Inr (encode (msg_TransactionID m) v) \<Longrightarrow>
       GetFrom v0 m = Ret (None, norm v)"
    and GetFrom_error: "Message_Get m attr = Inl e \<Longrightarrow> GetFrom v0 m = Ret (Some e, v0)"
begin

lemma AddTo_adds: "valid v \<Longrightarrow> adds (AddTo v) attr (\<lambda>tid. encode tid v)"
  by (simp add: adds_def AddTo_encode)

lemma AddTo_wf:
  assumes "msg_wf m" and "valid v" and "fits m (length (encode (msg_TransactionID m) v))"
  shows "\<exists>m'. AddTo v m = Ret (None, m') \<and> msg_wf m' \<and>
    msg_Type m' = msg_Type m \<and> msg_TransactionID m' = msg_TransactionID m \<and>
    msg_Attributes m' = msg_Attributes m @ [mk_attr attr (encode (msg_TransactionID m) v)]"
  using Message_Add_wf [OF assms(1,3), of attr] AddTo_encode [OF assms(2), of m]
  by (auto simp: add_ok_def)

lemma GetFrom_missing:
  assumes "\<not> Message_Contains m attr"
  shows "GetFrom v0 m = Ret (Some ErrAttributeNotFound, v0)"
proof -
  have "Message_Get m attr = Inl ErrAttributeNotFound"
    using assms Message_Get_found [of m attr]
    by (auto simp: Message_Get_def Let_def split: prod.splits if_splits)
  then show ?thesis by (rule GetFrom_error)
qed

text \<open>
  A value added to a message without such an attribute is what any message with the same
  id and at least these attributes in front yields.
\<close>

lemma GetFrom_stable:
  assumes "valid v" and "fresh v0" and "\<not> Message_Contains m attr"
    and "msg_TransactionID m' = tid"
    and "msg_Attributes m' = msg_Attributes m @ mk_attr attr (encode tid v) # as"
  shows "GetFrom v0 m' = Ret (None, norm v)"
proof (rule GetFrom_encode [OF assms(1,2)])
  have "Message_Get m' attr = Message_Get (m\<lparr>msg_Attributes := mk_attr attr (encode tid v) # as\<rparr>) attr"
    using Message_Get_append [OF assms(5), of attr] assms(3) by simp
  then show "Message_Get m' attr = Inr (encode (msg_TransactionID m') v)"
    by (simp add: Message_Get_def assms(4))
qed

lemma wire_roundtrip:
  assumes "msg_wf m" and "valid_MessageType (msg_Type m)" and "\<not> Message_Contains m attr"
    and "valid v" and "fresh v0" and "fits m (length (encode (msg_TransactionID m) v))"
  shows "\<exists>m'. AddTo v m = Ret (None, m') \<and>
    (\<forall>r. msg_Raw r = msg_Raw m' \<longrightarrow>
       (\<exists>r'. Message_Decode r = Ret (None, r') \<and> GetFrom v0 r' = Ret (None, norm v)))"
proof -
  obtain m' where m': "AddTo v m = Ret (None, m')" "msg_wf m'" "msg_Type m' = msg_Type m"
      "msg_TransactionID m' = msg_TransactionID m"
      "msg_Attributes m' = msg_Attributes m @ [mk_attr attr (encode (msg_TransactionID m) v)]"
    using AddTo_wf [OF assms(1,4,6)] by blast
  have "\<exists>r'. Message_Decode r = Ret (None, r') \<and> GetFrom v0 r' = Ret (None, norm v)"
    if "msg_Raw r = msg_Raw m'" for r
  proof -
    have "valid_MessageType (msg_Type m')" using assms(2) m'(3) by simp
    from Message_Decode_wf [OF m'(2) this that] show ?thesis
      using GetFrom_stable [OF assms(4,5,3)] m'(4,5) by auto
  qed
  with m'(1) show ?thesis by blast
qed

end

end
