(* ===== verification/Ice_Attr.thy ===== *)
theory Ice_Attr
  imports Stun_Codec
begin

text \<open>
  The ICE attributes of \<^verbatim>\<open>src/ice/attr/\<close>: PRIORITY, ICE-CONTROLLED, ICE-CONTROLLING and
  USE-CANDIDATE. The first three are instances of \<open>attribute_codec\<close>; USE-CANDIDATE has a
  setter only and is read by its presence.
\<close>

section \<open>The fixed-size getters\<close>

text \<open>The body the three \<open>GetFrom\<close> share: fetch, check the length, convert.\<close>

definition get_sized ::
  "AttrType \<Rightarrow> nat \<Rightarrow> (bytes \<Rightarrow> 'v) \<Rightarrow> 'v \<Rightarrow> Message \<Rightarrow> (go_error option \<times> 'v) go" where
  "get_sized t sz conv n m =
     (case Message_Get m t of
        Inl e \<Rightarrow> Ret (Some e, n)
      | Inr v \<Rightarrow>
          if length v \<noteq> sz then Ret (Some (BadAttrLength t (int (length v)) (int sz)), n)
          else Ret (None, conv v))"

subsection \<open>PRIORITY\<close>

definition prioritySize :: nat where "prioritySize = 4"

definition Priority_AddTo :: "u32 \<Rightarrow> Setter" where
  "Priority_AddTo n m =
     (let v = replicate prioritySize 0; v = put_at 0 (put_u32 n) v
      in add_ok (Message_Add m AttrPriority v))"

definition Priority_GetFrom :: "u32 \<Rightarrow> Message \<Rightarrow> (go_error option \<times> u32) go" where
  "Priority_GetFrom = get_sized AttrPriority prioritySize be_get"

subsection \<open>ICE-CONTROLLED and ICE-CONTROLLING\<close>

definition iceControlledSize :: nat where "iceControlledSize = 8"

definition IceControlled_AddTo :: "u64 \<Rightarrow> Setter" where
  "IceControlled_AddTo n m =
     (let v = replicate iceControlledSize 0; v = put_at 0 (put_u64 n) v
      in add_ok (Message_Add m AttrICEControlled v))"

definition IceControlled_GetFrom :: "u64 \<Rightarrow> Message \<Rightarrow> (go_error option \<times> u64) go" where
  "IceControlled_GetFrom = get_sized AttrICEControlled iceControlledSize be_get"

definition iceControllingSize :: nat where "iceControllingSize = 8"

definition IceControlling_AddTo :: "u64 \<Rightarrow> Setter" where
  "IceControlling_AddTo n m =
     (let v = replicate iceControllingSize 0; v = put_at 0 (put_u64 n) v
      in add_ok (Message_Add m AttrICEControlling v))"

definition IceControlling_GetFrom :: "u64 \<Rightarrow> Message \<Rightarrow> (go_error option \<times> u64) go" where
  "IceControlling_GetFrom = get_sized AttrICEControlling iceControllingSize be_get"

subsection \<open>USE-CANDIDATE\<close>

definition UseCandidate_AddTo :: Setter where
  "UseCandidate_AddTo m = add_ok (Message_Add m AttrUseCandidate [])"

section \<open>The attributes are codecs\<close>

interpretation priority: attribute_codec AttrPriority "\<lambda>_. put_u32" Priority_AddTo Priority_GetFrom
  "\<lambda>_. True" "\<lambda>_. True" "\<lambda>v. v"
  by unfold_locales
    (simp_all add: Priority_AddTo_def Priority_GetFrom_def get_sized_def prioritySize_def put_at_def)

interpretation ice_controlled: attribute_codec AttrICEControlled "\<lambda>_. put_u64" IceControlled_AddTo
  IceControlled_GetFrom "\<lambda>_. True" "\<lambda>_. True" "\<lambda>v. v"
  by unfold_locales
    (simp_all add: IceControlled_AddTo_def IceControlled_GetFrom_def get_sized_def iceControlledSize_def
      put_at_def)

interpretation ice_controlling: attribute_codec AttrICEControlling "\<lambda>_. put_u64" IceControlling_AddTo
  IceControlling_GetFrom "\<lambda>_. True" "\<lambda>_. True" "\<lambda>v. v"
  by unfold_locales
    (simp_all add: IceControlling_AddTo_def IceControlling_GetFrom_def get_sized_def iceControllingSize_def
      put_at_def)

lemma UseCandidate_AddTo_wf:
  assumes "msg_wf m" and "fits m 0"
  shows "\<exists>m'. UseCandidate_AddTo m = Ret (None, m') \<and> msg_wf m' \<and> msg_Type m' = msg_Type m \<and>
    msg_TransactionID m' = msg_TransactionID m \<and> msg_Attributes m' = msg_Attributes m @ [mk_attr AttrUseCandidate []]"
  using Message_Add_wf [OF assms(1), of "[]" AttrUseCandidate] assms(2)
  by (auto simp: UseCandidate_AddTo_def add_ok_def)

end
