(* ===== verification/Stun_Addr.thy ===== *)
theory Stun_Addr
  imports Stun_Codec
begin

text \<open>
  Address attributes: \<^verbatim>\<open>src/stun/addr.go\<close>, \<^verbatim>\<open>src/stun/xor.go\<close> and \<^verbatim>\<open>src/stun/xoraddr.go\<close>.

  \<open>MappedAddress\<close>, \<open>AlternateServer\<close>, \<open>XORMappedAddress\<close> (and the TURN addresses) are one
  struct in Go up to conversion, hence one record here. \<open>fastXORBytes\<close> is modelled on the
  64-bit words it loads and stores, and shown equal to \<open>safeXORBytes\<close>. A getter slices
  \<open>v[0:2]\<close> of a value that may be shorter: Go then reads on in the backing array if it has
  capacity, so the bytes past the value are the argument \<open>past\<close>.
\<close>

section \<open>XOR of byte slices\<close>

definition wordSize :: nat where "wordSize = 8"

text \<open>One machine word of a slice, as a little-endian machine loads and stores it.\<close>

definition load_word :: "bytes \<Rightarrow> nat \<Rightarrow> u64" where
  "load_word b i = be_get (rev (subslice (wordSize * i) (wordSize * i + wordSize) b))"

definition store_word :: "u64 \<Rightarrow> nat \<Rightarrow> bytes \<Rightarrow> bytes" where
  "store_word w i b = put_at (wordSize * i) (rev (put_u64 w)) b"

text \<open>\<open>for i := 0; i < w; i++ { dw[i] = aw[i] ^ bw[i] }\<close>\<close>

fun xor_words :: "nat list \<Rightarrow> bytes \<Rightarrow> bytes \<Rightarrow> bytes \<Rightarrow> bytes" where
  "xor_words [] dst a b = dst"
| "xor_words (i # is) dst a b =
     xor_words is (store_word (load_word a i XOR load_word b i) i dst) a b"

text \<open>\<open>dst[i] = a[i] ^ b[i]\<close> for the given indices, in order, with Go's bounds check.\<close>

fun xor_bytes_at :: "nat list \<Rightarrow> bytes \<Rightarrow> bytes \<Rightarrow> bytes \<Rightarrow> bytes go" where
  "xor_bytes_at [] dst a b = Ret dst"
| "xor_bytes_at (i # is) dst a b =
     (if i < length dst \<and> i < length a \<and> i < length b
      then xor_bytes_at is (dst[i := a ! i XOR b ! i]) a b
      else Panic IndexOutOfRange)"

definition fastXORBytes :: "bytes \<Rightarrow> bytes \<Rightarrow> bytes \<Rightarrow> (nat \<times> bytes) go" where
  "fastXORBytes dst a b =
     (let n = (if length b < length a then length b else length a);
          w = n div wordSize;
          dst' = (if 0 < w then xor_words [0..<w] dst a b else dst)
      in go_map (\<lambda>d. (n, d)) (xor_bytes_at [n - n mod wordSize..<n] dst' a b))"

definition safeXORBytes :: "bytes \<Rightarrow> bytes \<Rightarrow> bytes \<Rightarrow> (nat \<times> bytes) go" where
  "safeXORBytes dst a b =
     (let n = (if length b < length a then length b else length a)
      in go_map (\<lambda>d. (n, d)) (xor_bytes_at [0..<n] dst a b))"

text \<open>\<open>runtime.GOARCH\<close> is amd64, as the word size of 8 says.\<close>

definition supportsUnaligned :: bool where "supportsUnaligned = True"

definition xorBytes :: "bytes \<Rightarrow> bytes \<Rightarrow> bytes \<Rightarrow> (nat \<times> bytes) go" where
  "xorBytes dst a b =
     (if supportsUnaligned then fastXORBytes dst a b else safeXORBytes dst a b)"

section \<open>Addresses\<close>

record MappedAddress =
  addr_IP :: bytes
  addr_Port :: int

type_synonym AlternateServer = MappedAddress
type_synonym XORMappedAddress = MappedAddress

definition familyIPv4 :: u16 where "familyIPv4 = 0x01"
definition familyIPv6 :: u16 where "familyIPv6 = 0x02"

text \<open>\<open>net.IPv4len\<close> and \<open>net.IPv6len\<close>.\<close>

definition IPv4len :: nat where "IPv4len = 4"
definition IPv6len :: nat where "IPv6len = 16"

fun isZeros :: "bytes \<Rightarrow> bool" where
  "isZeros [] = True"
| "isZeros (b # bs) = (if b \<noteq> 0 then False else isZeros bs)"

definition isIPv4 :: "bytes \<Rightarrow> bool" where
  "isIPv4 ip \<longleftrightarrow> isZeros (subslice 0 10 ip) \<and> ip ! 10 = 0xff \<and> ip ! 11 = 0xff"

text \<open>The family and the address bytes both encoders start with.\<close>

definition addr_family :: "bytes \<Rightarrow> go_error + (u16 \<times> bytes)" where
  "addr_family ip =
     (if length ip = IPv6len then
        (if isIPv4 ip then Inr (familyIPv4, subslice 12 16 ip) else Inr (familyIPv6, ip))
      else if length ip \<noteq> IPv4len then Inl ErrBadIPLength
      else Inr (familyIPv4, ip))"

text \<open>Both decoders make the receiver's IP a slice of \<open>ipLen\<close> zeros, reusing its array.\<close>

definition reset_IP :: "nat \<Rightarrow> bytes \<Rightarrow> bytes" where
  "reset_IP ipLen ip =
     (let ip1 = (if length ip < ipLen then ip @ replicate (ipLen - length ip) 0 else ip)
      in map (\<lambda>_. 0) (take ipLen ip1))"

definition family_len :: "u16 \<Rightarrow> nat" where
  "family_len family = (if family = familyIPv6 then IPv6len else IPv4len)"

definition bad_family :: "u16 \<Rightarrow> go_error" where
  "bad_family family =
     newDecodeErr ''xor-mapped address'' ''family'' (''bad value '' @ show_dec (unat family))"

subsection \<open>MAPPED-ADDRESS and ALTERNATE-SERVER\<close>

definition MappedAddress_addAs :: "MappedAddress \<Rightarrow> AttrType \<Rightarrow> Setter" where
  "MappedAddress_addAs a t m =
     (case addr_family (addr_IP a) of
        Inl e \<Rightarrow> Ret (Some e, m)
      | Inr (family, ip) \<Rightarrow>
          let value = replicate 128 0;
              value = put_at 0 (put_u16 family) value;
              value = put_at 2 (put_u16 (of_int (addr_Port a))) value;
              value = put_at 4 ip value
          in add_ok (Message_Add m t (take (4 + length ip) value)))"

definition MappedAddress_GetFromAs ::
  "MappedAddress \<Rightarrow> Message \<Rightarrow> AttrType \<Rightarrow> go_error option \<times> MappedAddress" where
  "MappedAddress_GetFromAs a m t =
     (case Message_Get m t of
        Inl e \<Rightarrow> (Some e, a)
      | Inr v \<Rightarrow>
          if length v \<le> 4 then (Some ErrUnexpectedEOF, a)
          else let family = be_get (subslice 0 2 v) in
            if family \<noteq> familyIPv6 \<and> family \<noteq> familyIPv4 then (Some (bad_family family), a)
            else (None, \<lparr>addr_IP = copy_into (reset_IP (family_len family) (addr_IP a)) (drop 4 v),
                         addr_Port = uint (be_get (subslice 2 4 v) :: u16)\<rparr>))"

definition MappedAddress_AddTo :: "MappedAddress \<Rightarrow> Setter" where
  "MappedAddress_AddTo a = MappedAddress_addAs a AttrMappedAddress"

definition MappedAddress_GetFrom :: "MappedAddress \<Rightarrow> Message \<Rightarrow> (go_error option \<times> MappedAddress) go" where
  "MappedAddress_GetFrom a m = Ret (MappedAddress_GetFromAs a m AttrMappedAddress)"

definition AlternateServer_AddTo :: "AlternateServer \<Rightarrow> Setter" where
  "AlternateServer_AddTo s = MappedAddress_addAs s AttrAlternateServer"

definition AlternateServer_GetFrom :: "AlternateServer \<Rightarrow> Message \<Rightarrow> (go_error option \<times> AlternateServer) go" where
  "AlternateServer_GetFrom s m = Ret (MappedAddress_GetFromAs s m AttrAlternateServer)"

subsection \<open>XOR-MAPPED-ADDRESS\<close>

definition xor_pad :: "TransactionID \<Rightarrow> bytes" where
  "xor_pad tid =
     (let xorValue = replicate IPv6len 0;
          xorValue = take 4 xorValue @ copy_into (drop 4 xorValue) tid
      in put_at 0 (put_u32 magicCookie) xorValue)"

text \<open>\<open>magicCookie >> 16\<close>, a constant of type \<open>int\<close> in both expressions that use it.\<close>

definition port_mask :: int where "port_mask = drop_bit 16 (uint magicCookie)"

definition XORMappedAddress_AddToAs :: "XORMappedAddress \<Rightarrow> AttrType \<Rightarrow> Setter" where
  "XORMappedAddress_AddToAs a t m =
     (case addr_family (addr_IP a) of
        Inl e \<Rightarrow> Ret (Some e, m)
      | Inr (family, ip) \<Rightarrow>
          let value = replicate (32 + 128) 0;
              value = put_at 0 (put_u16 family) value;
              value = put_at 2 (put_u16 (of_int (addr_Port a XOR port_mask))) value
          in go_bind (xorBytes (subslice 4 (4 + length ip) value) ip (xor_pad (msg_TransactionID m)))
               (\<lambda>(n, x). add_ok (Message_Add m t (take (4 + length ip) (put_at 4 x value)))))"

definition XORMappedAddress_GetFromAs ::
  "bytes \<Rightarrow> XORMappedAddress \<Rightarrow> Message \<Rightarrow> AttrType \<Rightarrow> (go_error option \<times> XORMappedAddress) go" where
  "XORMappedAddress_GetFromAs past a m t =
     (case Message_Get m t of
        Inl e \<Rightarrow> Ret (Some e, a)
      | Inr v \<Rightarrow>
          if length (v @ past) < 2 then Panic SliceOutOfRange
          else let family = be_get (subslice 0 2 (v @ past)) in
            if family \<noteq> familyIPv6 \<and> family \<noteq> familyIPv4 then Ret (Some (bad_family family), a)
            else let a1 = a\<lparr>addr_IP := reset_IP (family_len family) (addr_IP a)\<rparr> in
              if length v \<le> 4 then Ret (Some ErrUnexpectedEOF, a1)
              else if length (drop 4 v) > length (addr_IP a1) then
                Ret (Some (AttrOverflowErr AttrXORMappedAddress (int (length (addr_IP a1)))
                       (int (length (drop 4 v)))), a1)
              else
                let port = uint (be_get (subslice 2 4 v) :: u16) XOR port_mask in
                go_map (\<lambda>(n, ip). (None, \<lparr>addr_IP = ip, addr_Port = port\<rparr>))
                  (xorBytes (addr_IP a1) (drop 4 v) (xor_pad (msg_TransactionID m))))"

definition XORMappedAddress_AddTo :: "XORMappedAddress \<Rightarrow> Setter" where
  "XORMappedAddress_AddTo a = XORMappedAddress_AddToAs a AttrXORMappedAddress"

definition XORMappedAddress_GetFrom ::
  "bytes \<Rightarrow> XORMappedAddress \<Rightarrow> Message \<Rightarrow> (go_error option \<times> XORMappedAddress) go" where
  "XORMappedAddress_GetFrom past a m = XORMappedAddress_GetFromAs past a m AttrXORMappedAddress"

section \<open>XOR: the word-wise loop is the byte-wise loop\<close>

lemma xor_bytes_at_upt:
  assumes "k \<le> n" and "n \<le> length dst" and "n \<le> length a" and "n \<le> length b"
  shows "xor_bytes_at [k..<n] dst a b =
    Ret (take k dst @ map2 (XOR) (subslice k n a) (subslice k n b) @ drop n dst)"
  using assms
proof (induction "n - k" arbitrary: k dst)
  case 0
  then show ?case by (simp add: subslice_def)
next
  case (Suc d)
  then have k: "k < n" by simp
  have sub: "subslice k n xs = xs ! k # subslice (Suc k) n xs" if "n \<le> length xs" for xs :: bytes
    using that k by (simp add: subslice_def Cons_nth_drop_Suc [symmetric] Suc_diff_Suc [symmetric])
  have "xor_bytes_at [k..<n] dst a b = xor_bytes_at [Suc k..<n] (dst[k := a ! k XOR b ! k]) a b"
    using k Suc.prems by (simp add: upt_conv_Cons)
  also have "\<dots> = Ret (take (Suc k) (dst[k := a ! k XOR b ! k]) @
      map2 (XOR) (subslice (Suc k) n a) (subslice (Suc k) n b) @ drop n (dst[k := a ! k XOR b ! k]))"
    using Suc.hyps(2) Suc.prems k by (intro Suc.hyps(1)) auto
  also have "take (Suc k) (dst[k := a ! k XOR b ! k]) = take k dst @ [a ! k XOR b ! k]"
    using k Suc.prems by (simp add: take_Suc_conv_app_nth)
  finally show ?case
    using k Suc.prems by (simp add: sub)
qed

lemma be_acc_xor:
  "length xs = length ys \<Longrightarrow>
   be_acc (a XOR b) (map2 (XOR) xs ys) = be_acc a xs XOR be_acc b ys"
proof (induction xs ys arbitrary: a b rule: list_induct2)
  case Nil
  then show ?case by simp
next
  case (Cons x xs y ys)
  have "push_bit 8 (a XOR b) OR ucast (x XOR y) = (push_bit 8 a OR ucast x) XOR (push_bit 8 b OR ucast y)"
    by (rule bit_word_eqI) (auto simp: bit_simps dest: bit_imp_le_length)
  with Cons.IH show ?case by simp
qed

lemma word_xor_bytes:
  assumes "length xs = 8" and "length ys = 8"
  shows "rev (put_u64 (be_get (rev xs) XOR be_get (rev ys))) = map2 (XOR) xs ys"
proof -
  have "be_get (rev xs) XOR be_get (rev ys) = (be_get (map2 (XOR) (rev xs) (rev ys)) :: u64)"
    using be_acc_xor [of "rev xs" "rev ys" "0 :: u64" 0] assms by (simp add: be_get_def)
  also have "map2 (XOR) (rev xs) (rev ys) = rev (map2 (XOR) xs ys)"
    using assms by (simp add: zip_rev rev_map)
  finally have e: "be_get (rev xs) XOR be_get (rev ys) = (be_get (rev (map2 (XOR) xs ys)) :: u64)" .
  have "put_u64 (be_get (rev (map2 (XOR) xs ys))) = rev (map2 (XOR) xs ys)"
    using be_put_be_get [where 'a = 64, of "rev (map2 (XOR) xs ys)"] assms by simp
  with e show ?thesis by simp
qed

lemma xor_words_upt:
  assumes "8 * w \<le> length dst" and "8 * w \<le> length a" and "8 * w \<le> length b"
  shows "xor_words [0..<w] dst a b = map2 (XOR) (take (8 * w) a) (take (8 * w) b) @ drop (8 * w) dst"
proof -
  have step: "xor_words (is @ [i]) d a b =
      store_word (load_word a i XOR load_word b i) i (xor_words is d a b)" for "is" i d
    by (induction "is" arbitrary: d) auto
  show ?thesis
    using assms
  proof (induction w)
    case 0
    then show ?case by simp
  next
    case (Suc w)
    let ?x = "subslice (8 * w) (8 * w + 8) a" and ?y = "subslice (8 * w) (8 * w + 8) b"
    have word: "rev (put_u64 (load_word a w XOR load_word b w)) = map2 (XOR) ?x ?y"
      unfolding load_word_def wordSize_def using Suc.prems by (intro word_xor_bytes) auto
    have split: "take (8 * Suc w) c = take (8 * w) c @ subslice (8 * w) (8 * w + 8) c" for c :: bytes
      by (simp add: subslice_def ac_simps flip: take_add)
    have "xor_words [0..<Suc w] dst a b = put_at (8 * w) (map2 (XOR) ?x ?y)
        (map2 (XOR) (take (8 * w) a) (take (8 * w) b) @ drop (8 * w) dst)"
      using Suc by (simp add: step store_word_def word wordSize_def)
    also have "\<dots> = map2 (XOR) (take (8 * w) a) (take (8 * w) b) @ map2 (XOR) ?x ?y @ drop (8 * Suc w) dst"
      using Suc.prems by (subst put_at_append_right) (auto simp: put_at_def add.commute)
    finally show ?case
      using Suc.prems by (simp only: split) (simp add: zip_append1)
  qed
qed

lemma safeXORBytes_eq:
  assumes "min (length a) (length b) \<le> length dst"
  shows "safeXORBytes dst a b =
    Ret (min (length a) (length b), map2 (XOR) a b @ drop (min (length a) (length b)) dst)"
proof -
  let ?n = "min (length a) (length b)"
  have n: "(if length b < length a then length b else length a) = ?n" by simp
  have "map2 (XOR) (take ?n a) (take ?n b) = map2 (XOR) a b"
    by (simp add: take_zip [symmetric])
  then show ?thesis
    using xor_bytes_at_upt [of 0 ?n dst a b] assms
    by (simp only: safeXORBytes_def n Let_def) (simp add: subslice_def)
qed

lemma fastXORBytes_eq:
  assumes "min (length a) (length b) \<le> length dst"
  shows "fastXORBytes dst a b = safeXORBytes dst a b"
proof -
  let ?n = "min (length a) (length b)"
  let ?k = "?n - ?n mod wordSize"
  have n: "(if length b < length a then length b else length a) = ?n" by simp
  have k: "?k = 8 * (?n div wordSize)" "?k \<le> ?n"
    by (simp add: wordSize_def minus_mod_eq_mult_div) (rule diff_le_self)
  have words: "(if 0 < ?n div wordSize then xor_words [0..<?n div wordSize] dst a b else dst) =
      map2 (XOR) (take ?k a) (take ?k b) @ drop ?k dst" (is "?d = _")
    using assms k xor_words_upt [of "?n div wordSize" dst a b] by auto
  have lens: "?n \<le> length ?d" "take ?k ?d = map2 (XOR) (take ?k a) (take ?k b)" "drop ?n ?d = drop ?n dst"
    unfolding words using assms k by auto
  have join: "map2 (XOR) (take ?k a) (take ?k b) @ map2 (XOR) (subslice ?k ?n a) (subslice ?k ?n b) =
      map2 (XOR) a b"
  proof -
    have "take ?k c @ subslice ?k ?n c = take ?n c" for c :: bytes
      using k(2) by (simp add: subslice_def flip: take_add)
    moreover have "map2 (XOR) (take ?n a) (take ?n b) = map2 (XOR) a b"
      by (simp add: take_zip [symmetric])
    moreover have "length (take ?k a) = length (take ?k b)" using k(2) by simp
    ultimately show ?thesis by (metis map_append zip_append)
  qed
  have "fastXORBytes dst a b = go_map (\<lambda>d. (?n, d)) (xor_bytes_at [?k..<?n] ?d a b)"
    unfolding fastXORBytes_def Let_def n ..
  also have "\<dots> = Ret (?n, map2 (XOR) a b @ drop ?n dst)"
    using xor_bytes_at_upt [OF k(2) lens(1), of a b] by (simp add: lens join flip: append_assoc)
  finally show ?thesis
    using safeXORBytes_eq [OF assms] by simp
qed

lemma xorBytes_eq:
  assumes "min (length a) (length b) \<le> length dst"
  shows "xorBytes dst a b =
    Ret (min (length a) (length b), map2 (XOR) a b @ drop (min (length a) (length b)) dst)"
  using assms by (simp add: xorBytes_def fastXORBytes_eq safeXORBytes_eq)

lemma map2_xor_cancel:
  fixes a :: bytes
  shows "length a \<le> length p \<Longrightarrow> map2 (XOR) (map2 (XOR) a p) p = a"
proof (induction a arbitrary: p)
  case Nil
  then show ?case by simp
next
  case (Cons x a)
  then show ?case by (cases p) (auto simp: xor.assoc)
qed

section \<open>Encoded addresses\<close>

definition valid_addr :: "MappedAddress \<Rightarrow> bool" where
  "valid_addr a \<longleftrightarrow> length (addr_IP a) = IPv4len \<or> length (addr_IP a) = IPv6len"

text \<open>An IPv4 address in IPv6 form is sent, and read back, in its 4-byte form; a port keeps 16 bits.\<close>

definition wire_ip :: "bytes \<Rightarrow> bytes" where
  "wire_ip ip = (if length ip = IPv6len \<and> isIPv4 ip then subslice 12 16 ip else ip)"

definition wire_addr :: "MappedAddress \<Rightarrow> MappedAddress" where
  "wire_addr a = \<lparr>addr_IP = wire_ip (addr_IP a), addr_Port = addr_Port a mod 65536\<rparr>"

definition wire_family :: "bytes \<Rightarrow> u16" where
  "wire_family ip = (if length (wire_ip ip) = IPv6len then familyIPv6 else familyIPv4)"

definition mapped_encode :: "MappedAddress \<Rightarrow> bytes" where
  "mapped_encode a = put_u16 (wire_family (addr_IP a)) @ put_u16 (of_int (addr_Port a)) @ wire_ip (addr_IP a)"

definition xor_encode :: "TransactionID \<Rightarrow> MappedAddress \<Rightarrow> bytes" where
  "xor_encode tid a = put_u16 (wire_family (addr_IP a)) @
     put_u16 (of_int (addr_Port a XOR port_mask)) @ map2 (XOR) (wire_ip (addr_IP a)) (xor_pad tid)"

lemma addr_family_eq:
  "valid_addr a \<Longrightarrow> addr_family (addr_IP a) = Inr (wire_family (addr_IP a), wire_ip (addr_IP a))"
  by (auto simp: valid_addr_def addr_family_def wire_family_def wire_ip_def IPv4len_def IPv6len_def)

lemma length_wire_ip:
  "valid_addr a \<Longrightarrow> length (wire_ip (addr_IP a)) = 4 \<or> length (wire_ip (addr_IP a)) = 16"
  by (auto simp: valid_addr_def wire_ip_def IPv4len_def IPv6len_def)

lemma wire_family_cases:
  "valid_addr a \<Longrightarrow> wire_family (addr_IP a) = familyIPv6 \<or> wire_family (addr_IP a) = familyIPv4"
  "valid_addr a \<Longrightarrow> family_len (wire_family (addr_IP a)) = length (wire_ip (addr_IP a))"
  using length_wire_ip [of a]
  by (auto simp: wire_family_def family_len_def IPv4len_def IPv6len_def familyIPv4_def familyIPv6_def)

lemma reset_IP_eq: "reset_IP n ip = replicate n 0"
  by (auto simp: reset_IP_def Let_def map_replicate_const min_def)

lemma length_xor_pad [simp]: "length (xor_pad tid) = 16"
  by (simp add: xor_pad_def Let_def put_at_def IPv6len_def)

lemma put_fields:
  assumes "length (f :: bytes) = 2" and "length p = 2" and "4 + length ip \<le> n"
  shows "take (4 + length ip) (put_at 4 ip (put_at 2 p (put_at 0 f (replicate n 0)))) = f @ p @ ip"
  using assms by (simp add: put_at_def)

lemma MappedAddress_addAs_eq:
  assumes "valid_addr a"
  shows "MappedAddress_addAs a t m = add_ok (Message_Add m t (mapped_encode a))"
proof -
  have "length (wire_ip (addr_IP a)) \<le> 16" using length_wire_ip [OF assms] by auto
  then show ?thesis
    by (simp add: MappedAddress_addAs_def addr_family_eq [OF assms] Let_def put_fields mapped_encode_def)
qed

lemma MappedAddress_GetFromAs_eq:
  assumes "valid_addr a" and "Message_Get m t = Inr (mapped_encode a)"
  shows "MappedAddress_GetFromAs a0 m t = (None, wire_addr a)"
proof -
  have port: "uint (of_int (addr_Port a) :: u16) = addr_Port a mod 65536"
    by (simp add: unsigned_of_int take_bit_eq_mod)
  show ?thesis
    using length_wire_ip [OF assms(1)] wire_family_cases [OF assms(1)]
    by (auto simp: MappedAddress_GetFromAs_def assms(2) Let_def mapped_encode_def subslice_def
        reset_IP_eq wire_addr_def port)
qed

lemma xor_port: "uint (of_int (p XOR port_mask) :: u16) XOR port_mask = p mod 65536"
proof -
  have "uint (of_int (p XOR port_mask) :: u16) XOR port_mask =
      take_bit 16 (p XOR port_mask) XOR take_bit 16 port_mask"
    by (simp add: unsigned_of_int port_mask_def magicCookie_def)
  also have "\<dots> = take_bit 16 p"
    by (simp add: take_bit_xor xor.assoc)
  finally show ?thesis by (simp add: take_bit_eq_mod)
qed

lemma XORMappedAddress_AddToAs_eq:
  assumes "valid_addr a"
  shows "XORMappedAddress_AddToAs a t m = add_ok (Message_Add m t (xor_encode (msg_TransactionID m) a))"
proof -
  let ?ip = "wire_ip (addr_IP a)" and ?pad = "xor_pad (msg_TransactionID m)"
  have le: "length ?ip \<le> 16" using length_wire_ip [OF assms] by auto
  have xor: "xorBytes d ?ip ?pad = Ret (length ?ip, map2 (XOR) ?ip ?pad)"
    if "length d = length ?ip" for d
    using xorBytes_eq [of ?ip ?pad d] that le by (simp add: min_absorb1)
  have len: "length (map2 (XOR) ?ip ?pad) = length ?ip" using le by simp
  have sub: "length (subslice 4 (4 + length ?ip) (put_at 2 p (put_at 0 f (replicate 160 0)))) = length ?ip"
    if "length p = 2" "length f = 2" for p f :: bytes
    using le that by simp
  show ?thesis
    unfolding XORMappedAddress_AddToAs_def addr_family_eq [OF assms]
    using put_fields [of "put_u16 (wire_family (addr_IP a))"
        "put_u16 (of_int (addr_Port a XOR port_mask))" "map2 (XOR) ?ip ?pad" 160] le len
    by (simp add: Let_def xor sub xor_encode_def)
qed

lemma XORMappedAddress_GetFromAs_eq:
  assumes "valid_addr a" and "Message_Get m t = Inr (xor_encode (msg_TransactionID m) a)"
  shows "XORMappedAddress_GetFromAs past a0 m t = Ret (None, wire_addr a)"
proof -
  let ?ip = "wire_ip (addr_IP a)" and ?pad = "xor_pad (msg_TransactionID m)"
  let ?x = "map2 (XOR) ?ip ?pad" and ?v = "xor_encode (msg_TransactionID m) a"
  have ip: "length ?ip = 4 \<or> length ?ip = 16" by (rule length_wire_ip [OF assms(1)])
  then have len: "length ?x = length ?ip" "length ?ip \<le> 16" by auto
  have v: "length ?v = 4 + length ?ip" "subslice 0 2 (?v @ past) = put_u16 (wire_family (addr_IP a))"
      "subslice 2 4 ?v = put_u16 (of_int (addr_Port a XOR port_mask))" "drop 4 ?v = ?x"
    using len by (simp_all add: xor_encode_def subslice_def)
  have xor: "xorBytes (replicate (length ?ip) 0) ?x ?pad = Ret (length ?ip, ?ip)"
    using xorBytes_eq [of ?x ?pad "replicate (length ?ip) 0"] len map2_xor_cancel [of ?ip ?pad]
    by (simp add: min_absorb1)
  show ?thesis
    using ip wire_family_cases [OF assms(1)]
    by (auto simp: XORMappedAddress_GetFromAs_def assms(2) Let_def v reset_IP_eq len xor xor_port wire_addr_def)
qed

section \<open>The address attributes are codecs\<close>

interpretation mapped_addr: attribute_codec AttrMappedAddress "\<lambda>_. mapped_encode"
  MappedAddress_AddTo MappedAddress_GetFrom valid_addr "\<lambda>_. True" wire_addr
  by unfold_locales
    (simp_all add: MappedAddress_AddTo_def MappedAddress_GetFrom_def MappedAddress_addAs_eq
      MappedAddress_GetFromAs_eq, simp add: MappedAddress_GetFromAs_def)

interpretation alternate_server: attribute_codec AttrAlternateServer "\<lambda>_. mapped_encode"
  AlternateServer_AddTo AlternateServer_GetFrom valid_addr "\<lambda>_. True" wire_addr
  by unfold_locales
    (simp_all add: AlternateServer_AddTo_def AlternateServer_GetFrom_def MappedAddress_addAs_eq
      MappedAddress_GetFromAs_eq, simp add: MappedAddress_GetFromAs_def)

interpretation xor_mapped_addr: attribute_codec AttrXORMappedAddress xor_encode
  XORMappedAddress_AddTo "XORMappedAddress_GetFrom past" valid_addr "\<lambda>_. True" wire_addr
  for past
  by unfold_locales
    (simp_all add: XORMappedAddress_AddTo_def XORMappedAddress_GetFrom_def XORMappedAddress_AddToAs_eq
      XORMappedAddress_GetFromAs_eq, simp add: XORMappedAddress_GetFromAs_def)

end
