(* ===== verification/Stun_Text.thy ===== *)
theory Stun_Text
  imports Stun_Codec
begin

text \<open>
  The remaining value attributes of package \<^verbatim>\<open>stun\<close>: \<^verbatim>\<open>src/stun/textattrs.go\<close> (USERNAME,
  REALM, SOFTWARE, NONCE), \<^verbatim>\<open>src/stun/uattrs.go\<close> (UNKNOWN-ATTRIBUTES) and
  \<^verbatim>\<open>src/stun/errorcode.go\<close> (ERROR-CODE). Each is shown to be an attribute codec; the text
  attributes also have their length limits, and ERROR-CODE the range of reasons for which
  its encoder panics.
\<close>

section \<open>Text attributes\<close>

type_synonym TextAttribute = bytes

definition TextAttribute_AddToAs :: "TextAttribute \<Rightarrow> AttrType \<Rightarrow> int \<Rightarrow> Setter" where
  "TextAttribute_AddToAs v t maxLen m =
     (if 0 < maxLen \<and> maxLen < int (length v)
      then Ret (Some (AttrOverflowErr t maxLen (int (length v))), m)
      else add_ok (Message_Add m t v))"

definition TextAttribute_GetFromAs ::
  "TextAttribute \<Rightarrow> Message \<Rightarrow> AttrType \<Rightarrow> go_error option \<times> TextAttribute" where
  "TextAttribute_GetFromAs v m t =
     (case Message_Get m t of Inl e \<Rightarrow> (Some e, v) | Inr a \<Rightarrow> (None, take 0 v @ a))"

definition maxUsernameB :: int where "maxUsernameB = 513"
definition maxRealmB :: int where "maxRealmB = 763"
definition softwareRawMaxB :: int where "softwareRawMaxB = 763"
definition maxNonceB :: int where "maxNonceB = 763"

definition NewUsername :: "string \<Rightarrow> bytes" where "NewUsername username = bytes_of_string username"
definition NewRealm :: "string \<Rightarrow> bytes" where "NewRealm realm = bytes_of_string realm"
definition NewSoftware :: "string \<Rightarrow> bytes" where "NewSoftware software = bytes_of_string software"
definition NewNonce :: "string \<Rightarrow> bytes" where "NewNonce nonce = bytes_of_string nonce"

definition Username_AddTo :: "bytes \<Rightarrow> Setter" where
  "Username_AddTo u m = TextAttribute_AddToAs u AttrUsername maxUsernameB m"
definition Username_GetFrom :: "bytes \<Rightarrow> Message \<Rightarrow> (go_error option \<times> bytes) go" where
  "Username_GetFrom u m = Ret (TextAttribute_GetFromAs u m AttrUsername)"
definition Realm_AddTo :: "bytes \<Rightarrow> Setter" where
  "Realm_AddTo n m = TextAttribute_AddToAs n AttrRealm maxRealmB m"
definition Realm_GetFrom :: "bytes \<Rightarrow> Message \<Rightarrow> (go_error option \<times> bytes) go" where
  "Realm_GetFrom n m = Ret (TextAttribute_GetFromAs n m AttrRealm)"
definition Software_AddTo :: "bytes \<Rightarrow> Setter" where
  "Software_AddTo s m = TextAttribute_AddToAs s AttrSoftware softwareRawMaxB m"
definition Software_GetFrom :: "bytes \<Rightarrow> Message \<Rightarrow> (go_error option \<times> bytes) go" where
  "Software_GetFrom s m = Ret (TextAttribute_GetFromAs s m AttrSoftware)"
definition Nonce_AddTo :: "bytes \<Rightarrow> Setter" where
  "Nonce_AddTo n m = TextAttribute_AddToAs n AttrNonce maxNonceB m"
definition Nonce_GetFrom :: "bytes \<Rightarrow> Message \<Rightarrow> (go_error option \<times> bytes) go" where
  "Nonce_GetFrom n m = Ret (TextAttribute_GetFromAs n m AttrNonce)"

section \<open>UNKNOWN-ATTRIBUTES\<close>

definition attrTypeSize :: nat where "attrTypeSize = 4"

fun UnknownAttributes_String_loop :: "nat \<Rightarrow> nat \<Rightarrow> AttrType list \<Rightarrow> string" where
  "UnknownAttributes_String_loop i lst [] = []"
| "UnknownAttributes_String_loop i lst (t # ts) =
     AttrType_String t @ (if i \<noteq> lst then '', '' else '''') @ UnknownAttributes_String_loop (Suc i) lst ts"

definition UnknownAttributes_String :: "AttrType list \<Rightarrow> string" where
  "UnknownAttributes_String a =
     (if length a = 0 then ''<nil>'' else UnknownAttributes_String_loop 0 (length a - 1) a)"

fun unknown_put :: "nat \<Rightarrow> bytes \<Rightarrow> AttrType list \<Rightarrow> bytes" where
  "unknown_put i v [] = v"
| "unknown_put i v (t # ts) =
     (let v1 = v @ [0, 0, 0, 0];
          first = attrTypeSize * i
      in unknown_put (Suc i) (put_at first (put_u16 t) v1) ts)"

definition UnknownAttributes_AddTo :: "AttrType list \<Rightarrow> Setter" where
  "UnknownAttributes_AddTo a m = add_ok (Message_Add m AttrUnknownAttributes (unknown_put 0 [] a))"

function unknown_get :: "nat \<Rightarrow> bytes \<Rightarrow> AttrType list \<Rightarrow> AttrType list" where
  "unknown_get first v acc =
     (if first < length v
      then unknown_get (first + attrTypeSize) v (acc @ [be_get (subslice first (first + 2) v)])
      else acc)"
  by pat_completeness auto
termination
  by (relation "measure (\<lambda>(first, v, acc). length v - first)") (auto simp: attrTypeSize_def)

declare unknown_get.simps [simp del]

definition UnknownAttributes_GetFrom ::
  "AttrType list \<Rightarrow> Message \<Rightarrow> (go_error option \<times> AttrType list) go" where
  "UnknownAttributes_GetFrom a m =
     (case Message_Get m AttrUnknownAttributes of
        Inl e \<Rightarrow> Ret (Some e, a)
      | Inr v \<Rightarrow>
          if length v mod attrTypeSize \<noteq> 0 then Ret (Some ErrBadUnknownAttrsSize, a)
          else Ret (None, unknown_get 0 v []))"

section \<open>ERROR-CODE\<close>

record ErrorCodeAttribute =
  ec_Code :: int
  ec_Reason :: bytes

definition errorCodeReasonStart :: nat where "errorCodeReasonStart = 4"
definition errorCodeClassByte :: nat where "errorCodeClassByte = 2"
definition errorCodeNumberByte :: nat where "errorCodeNumberByte = 3"
definition errorCodeReasonMaxB :: nat where "errorCodeReasonMaxB = 763"
definition errorCodeModulo :: int where "errorCodeModulo = 100"

lemmas error_code_defs = errorCodeReasonStart_def errorCodeClassByte_def errorCodeNumberByte_def
  errorCodeReasonMaxB_def errorCodeModulo_def

text \<open>
  \<open>value\<close> is made with capacity \<open>errorCodeReasonMaxB\<close>; re-slicing it past that panics.
\<close>

definition ErrorCodeAttribute_AddTo :: "ErrorCodeAttribute \<Rightarrow> Setter" where
  "ErrorCodeAttribute_AddTo c m =
     (if errorCodeReasonMaxB < length (ec_Reason c) then
        Ret (Some (AttrOverflowErr AttrErrorCode
                     (int (errorCodeReasonMaxB + errorCodeReasonStart))
                     (int (length (ec_Reason c) + errorCodeReasonStart))), m)
      else if errorCodeReasonMaxB < errorCodeReasonStart + length (ec_Reason c) then
        Panic SliceOutOfRange
      else
        let value = replicate (errorCodeReasonStart + length (ec_Reason c)) 0;
            number = of_int (go_rem (ec_Code c) errorCodeModulo);
            class = of_int (go_quot (ec_Code c) errorCodeModulo);
            value = value[errorCodeClassByte := class];
            value = value[errorCodeNumberByte := number];
            value = take errorCodeReasonStart value @ copy_into (drop errorCodeReasonStart value) (ec_Reason c)
        in add_ok (Message_Add m AttrErrorCode value))"

definition ErrorCodeAttribute_String :: "ErrorCodeAttribute \<Rightarrow> string" where
  "ErrorCodeAttribute_String c = itoa (ec_Code c) @ '': '' @ string_of_bytes (ec_Reason c)"

definition ErrorCodeAttribute_GetFrom ::
  "ErrorCodeAttribute \<Rightarrow> Message \<Rightarrow> (go_error option \<times> ErrorCodeAttribute) go" where
  "ErrorCodeAttribute_GetFrom c m =
     (case Message_Get m AttrErrorCode of
        Inl e \<Rightarrow> Ret (Some e, c)
      | Inr v \<Rightarrow>
          if length v < errorCodeReasonStart then Ret (Some ErrUnexpectedEOF, c)
          else
            let class = ucast (v ! errorCodeClassByte) :: u16;
                number = ucast (v ! errorCodeNumberByte) :: u16;
                code = uint (class * of_int errorCodeModulo + number)
            in Ret (None, \<lparr>ec_Code = code, ec_Reason = drop errorCodeReasonStart v\<rparr>))"

definition CodeTryAlternate :: int where "CodeTryAlternate = 300"
definition CodeBadRequest :: int where "CodeBadRequest = 400"
definition CodeUnauthorised :: int where "CodeUnauthorised = 401"
definition CodeUnknownAttribute :: int where "CodeUnknownAttribute = 420"
definition CodeStaleNonce :: int where "CodeStaleNonce = 428"
definition CodeRoleConflict :: int where "CodeRoleConflict = 478"
definition CodeServerError :: int where "CodeServerError = 500"
definition CodeForbidden :: int where "CodeForbidden = 403"
definition CodeAllocMismatch :: int where "CodeAllocMismatch = 437"
definition CodeWrongCredentials :: int where "CodeWrongCredentials = 441"
definition CodeUnsupportedTransProto :: int where "CodeUnsupportedTransProto = 442"
definition CodeAllocQuotaReached :: int where "CodeAllocQuotaReached = 486"
definition CodeInsufficientCapacity :: int where "CodeInsufficientCapacity = 508"

lemmas code_defs = CodeTryAlternate_def CodeBadRequest_def CodeUnauthorised_def
  CodeUnknownAttribute_def CodeStaleNonce_def CodeRoleConflict_def CodeServerError_def
  CodeForbidden_def CodeAllocMismatch_def CodeWrongCredentials_def CodeUnsupportedTransProto_def
  CodeAllocQuotaReached_def CodeInsufficientCapacity_def

definition errorReasons :: "int \<rightharpoonup> bytes" where
  "errorReasons = map_of (map (\<lambda>(c, s). (c, bytes_of_string s))
    [(CodeTryAlternate, ''Try Alternate''),
     (CodeBadRequest, ''Bad Request''),
     (CodeUnauthorised, ''Unauthorised''),
     (CodeUnknownAttribute, ''Unknown Attribute''),
     (CodeStaleNonce, ''Stale nonce''),
     (CodeServerError, ''Server Error''),
     (CodeRoleConflict, ''Role Conflict''),
     (CodeForbidden, ''Forbidden''),
     (CodeAllocMismatch, ''Allocation Mismatch''),
     (CodeWrongCredentials, ''Wrong Credentials''),
     (CodeUnsupportedTransProto, ''Unsupported Transport Protocol''),
     (CodeAllocQuotaReached, ''Allocation Quota Reached''),
     (CodeInsufficientCapacity, ''Insufficient Capacity'')])"

definition ErrorCode_AddTo :: "int \<Rightarrow> Setter" where
  "ErrorCode_AddTo c m =
     (case errorReasons c of
        None \<Rightarrow> Ret (Some ErrNoDefaultReason, m)
      | Some reason \<Rightarrow> ErrorCodeAttribute_AddTo \<lparr>ec_Code = c, ec_Reason = reason\<rparr> m)"

section \<open>Text attributes are codecs\<close>

definition text_ok :: "int \<Rightarrow> bytes \<Rightarrow> bool" where
  "text_ok maxLen v \<longleftrightarrow> int (length v) \<le> maxLen"

lemma TextAttribute_AddToAs_ok:
  "text_ok maxLen v \<Longrightarrow> TextAttribute_AddToAs v t maxLen m = add_ok (Message_Add m t v)"
  by (simp add: text_ok_def TextAttribute_AddToAs_def)

lemmas text_codec_simps = TextAttribute_AddToAs_ok TextAttribute_GetFromAs_def
  Username_AddTo_def Username_GetFrom_def Realm_AddTo_def Realm_GetFrom_def
  Software_AddTo_def Software_GetFrom_def Nonce_AddTo_def Nonce_GetFrom_def

interpretation username: attribute_codec AttrUsername "\<lambda>_ v. v" Username_AddTo Username_GetFrom
  "text_ok maxUsernameB" "\<lambda>_. True" "\<lambda>v. v"
  by unfold_locales (simp_all add: text_codec_simps)

interpretation realm: attribute_codec AttrRealm "\<lambda>_ v. v" Realm_AddTo Realm_GetFrom
  "text_ok maxRealmB" "\<lambda>_. True" "\<lambda>v. v"
  by unfold_locales (simp_all add: text_codec_simps)

interpretation software: attribute_codec AttrSoftware "\<lambda>_ v. v" Software_AddTo Software_GetFrom
  "text_ok softwareRawMaxB" "\<lambda>_. True" "\<lambda>v. v"
  by unfold_locales (simp_all add: text_codec_simps)

interpretation nonce: attribute_codec AttrNonce "\<lambda>_ v. v" Nonce_AddTo Nonce_GetFrom
  "text_ok maxNonceB" "\<lambda>_. True" "\<lambda>v. v"
  by unfold_locales (simp_all add: text_codec_simps)

section \<open>UNKNOWN-ATTRIBUTES is a codec\<close>

definition unknown_encode :: "AttrType list \<Rightarrow> bytes" where
  "unknown_encode a = concat (map (\<lambda>t. put_u16 t @ [0, 0]) a)"

lemma length_unknown_encode: "length (unknown_encode a) = 4 * length a"
  by (induction a) (simp_all add: unknown_encode_def)

lemma unknown_put_eq: "length v = 4 * i \<Longrightarrow> unknown_put i v a = v @ unknown_encode a"
proof (induction a arbitrary: i v)
  case Nil
  then show ?case by (simp add: unknown_encode_def)
next
  case (Cons t a)
  have "put_at (attrTypeSize * i) (put_u16 t) (v @ [0, 0, 0, 0]) = v @ put_u16 t @ [0, 0]"
    using Cons.prems by (simp add: put_at_def attrTypeSize_def)
  with Cons show ?case by (simp add: Let_def unknown_encode_def)
qed

lemma unknown_get_eq:
  "length pre = first \<Longrightarrow> unknown_get first (pre @ unknown_encode a) acc = acc @ a"
proof (induction a arbitrary: first pre acc)
  case Nil
  then show ?case by (subst unknown_get.simps) (simp add: unknown_encode_def)
next
  case (Cons t a)
  let ?v = "pre @ unknown_encode (t # a)"
  have v: "?v = (pre @ put_u16 t @ [0, 0]) @ unknown_encode a"
    by (simp add: unknown_encode_def)
  have "unknown_get first ?v acc = unknown_get (first + 4) ?v (acc @ [t])"
    using Cons.prems by (subst unknown_get.simps)
      (simp add: unknown_encode_def subslice_def attrTypeSize_def)
  also have "\<dots> = (acc @ [t]) @ a"
    unfolding v using Cons.prems by (intro Cons.IH) simp
  finally show ?case by simp
qed

interpretation unknown_attrs: attribute_codec AttrUnknownAttributes "\<lambda>_. unknown_encode"
  UnknownAttributes_AddTo UnknownAttributes_GetFrom "\<lambda>_. True" "\<lambda>_. True" "\<lambda>v. v"
proof unfold_locales
  fix a a0 :: "AttrType list" and m :: Message
  show "UnknownAttributes_AddTo a m = add_ok (Message_Add m AttrUnknownAttributes (unknown_encode a))"
    by (simp add: UnknownAttributes_AddTo_def unknown_put_eq)
  show "Message_Get m AttrUnknownAttributes = Inr (unknown_encode a) \<Longrightarrow>
      UnknownAttributes_GetFrom a0 m = Ret (None, a)"
    using unknown_get_eq [of "[]" 0 a "[]"]
    by (simp add: UnknownAttributes_GetFrom_def length_unknown_encode attrTypeSize_def)
qed (simp add: UnknownAttributes_GetFrom_def)

section \<open>ERROR-CODE is a codec\<close>

definition valid_error_code :: "ErrorCodeAttribute \<Rightarrow> bool" where
  "valid_error_code c \<longleftrightarrow> 0 \<le> ec_Code c \<and> ec_Code c < 25600 \<and> length (ec_Reason c) \<le> 759"

definition error_code_encode :: "ErrorCodeAttribute \<Rightarrow> bytes" where
  "error_code_encode c = [0, 0, of_int (ec_Code c div 100), of_int (ec_Code c mod 100)] @ ec_Reason c"

lemma length_error_code_encode: "length (error_code_encode c) = 4 + length (ec_Reason c)"
  by (simp add: error_code_encode_def)

lemma ErrorCodeAttribute_AddTo_eq:
  assumes "valid_error_code c"
  shows "ErrorCodeAttribute_AddTo c m = add_ok (Message_Add m AttrErrorCode (error_code_encode c))"
proof -
  have "replicate (4 + length (ec_Reason c)) (0::byte) = [0, 0, 0, 0] @ replicate (length (ec_Reason c)) 0"
    by (simp add: numeral_eq_Suc)
  then show ?thesis
    using assms
    by (simp add: ErrorCodeAttribute_AddTo_def valid_error_code_def error_code_defs Let_def
        error_code_encode_def go_rem_nonneg go_quot_nonneg)
qed

lemma error_code_value:
  assumes "0 \<le> c" and "c < 25600"
  shows "uint (ucast (of_int (c div 100) :: byte) * 100 + ucast (of_int (c mod 100) :: byte) :: u16) = c"
proof -
  have b: "uint (of_int (c div 100) :: byte) = c div 100" "uint (of_int (c mod 100) :: byte) = c mod 100"
    using assms by (simp_all add: unsigned_of_int take_bit_int_eq_self)
  have w: "uint (ucast (of_int (c div 100) :: byte) :: u16) = c div 100"
      "uint (ucast (of_int (c mod 100) :: byte) :: u16) = c mod 100"
    using assms b by (simp_all add: unsigned_ucast_eq take_bit_int_eq_self)
  have "c div 100 * 100 + c mod 100 = c" by simp
  then show ?thesis
    using assms w by (simp add: uint_word_ariths)
qed

interpretation error_code: attribute_codec AttrErrorCode "\<lambda>_. error_code_encode"
  ErrorCodeAttribute_AddTo ErrorCodeAttribute_GetFrom valid_error_code "\<lambda>_. True" "\<lambda>v. v"
proof unfold_locales
  fix c c0 :: ErrorCodeAttribute and m :: Message
  assume valid: "valid_error_code c"
  show "ErrorCodeAttribute_AddTo c m = add_ok (Message_Add m AttrErrorCode (error_code_encode c))"
    by (rule ErrorCodeAttribute_AddTo_eq [OF valid])
  show "Message_Get m AttrErrorCode = Inr (error_code_encode c) \<Longrightarrow>
      ErrorCodeAttribute_GetFrom c0 m = Ret (None, c)"
    using valid error_code_value [of "ec_Code c"]
    by (simp add: ErrorCodeAttribute_GetFrom_def error_code_encode_def error_code_defs Let_def
        valid_error_code_def)
qed (simp add: ErrorCodeAttribute_GetFrom_def)

text \<open>A reason that passes the length check but does not fit the buffer makes the encoder panic.\<close>

lemma ErrorCodeAttribute_AddTo_panics:
  "ErrorCodeAttribute_AddTo c m = Panic SliceOutOfRange \<longleftrightarrow>
     760 \<le> length (ec_Reason c) \<and> length (ec_Reason c) \<le> 763"
proof -
  have "add_ok (Message_Add m t v) \<noteq> Panic p" for t v p
    using Message_Add_eq [of m t v] by (auto simp: add_ok_def)
  then show ?thesis
    by (auto simp: ErrorCodeAttribute_AddTo_def error_code_defs Let_def)
qed

text \<open>Every code with a default reason is encodable.\<close>

lemma errorReasons_valid:
  assumes "errorReasons c = Some r"
  shows "valid_error_code \<lparr>ec_Code = c, ec_Reason = r\<rparr>"
  using assms unfolding errorReasons_def code_defs
  by (auto simp: valid_error_code_def split: if_splits)

lemma ErrorCode_AddTo_eq:
  "ErrorCode_AddTo c m =
     (case errorReasons c of None \<Rightarrow> Ret (Some ErrNoDefaultReason, m)
      | Some r \<Rightarrow> add_ok (Message_Add m AttrErrorCode (error_code_encode \<lparr>ec_Code = c, ec_Reason = r\<rparr>)))"
  by (auto simp: ErrorCode_AddTo_def ErrorCodeAttribute_AddTo_eq errorReasons_valid split: option.splits)

end
