(* ===== verification/Stun_Auth.thy ===== *)
theory Stun_Auth
  imports Stun_Codec Go_Hash
begin

text \<open>
  MESSAGE-INTEGRITY and FINGERPRINT: \<^verbatim>\<open>src/stun/integrity.go\<close> and \<^verbatim>\<open>src/stun/fingerprint.go\<close>,
  over the concrete HMAC-SHA1, MD5 and CRC-32 of \<open>Go_Hash\<close>.

  Both checkers write to the message header and restore it. The lemmas give their verdict on
  every well-formed message in terms of the bytes in front of the attribute, and that the
  message is left unchanged; the setters produce attributes the checkers accept, also when
  other attributes follow the integrity attribute.
\<close>

section \<open>MESSAGE-INTEGRITY\<close>

type_synonym MessageIntegrity = bytes

definition credentialsSep :: string where "credentialsSep = '':''"

definition NewLongTermIntegrity :: "string \<Rightarrow> string \<Rightarrow> string \<Rightarrow> MessageIntegrity" where
  "NewLongTermIntegrity username realm password =
     md5 (bytes_of_string (username @ credentialsSep @ realm @ credentialsSep @ password))"

definition NewShortTermIntegrity :: "string \<Rightarrow> MessageIntegrity" where
  "NewShortTermIntegrity password = bytes_of_string password"

definition messageIntegritySize :: nat where "messageIntegritySize = 20"

definition newHMAC :: "bytes \<Rightarrow> bytes \<Rightarrow> bytes" where
  "newHMAC key message = hmac_sha1 key message"

fun has_fingerprint :: "RawAttribute list \<Rightarrow> bool" where
  "has_fingerprint [] = False"
| "has_fingerprint (a # as) = (if attr_Type a = AttrFingerprint then True else has_fingerprint as)"

definition MessageIntegrity_AddTo :: "MessageIntegrity \<Rightarrow> Setter" where
  "MessageIntegrity_AddTo i m =
     (if has_fingerprint (msg_Attributes m) then Ret (Some ErrFingerprintBeforeIntegrity, m)
      else
        let len = msg_Length m
        in go_bind (Message_WriteLength
                     (m\<lparr>msg_Length := msg_Length m + of_nat (messageIntegritySize + attributeHeaderSize)\<rparr>))
             (\<lambda>m. let v = newHMAC i (msg_Raw m)
                  in add_ok (Message_Add (m\<lparr>msg_Length := len\<rparr>) AttrMessageIntegrity v)))"

text \<open>The loop of \<open>Check\<close> that adds up what follows the integrity attribute.\<close>

fun size_after :: "bool \<Rightarrow> nat \<Rightarrow> RawAttribute list \<Rightarrow> nat" where
  "size_after afterIntegrity sizeReduced [] = sizeReduced"
| "size_after afterIntegrity sizeReduced (a # as) =
     (let sizeReduced' =
            (if afterIntegrity
             then sizeReduced + nearestPaddedValueLength (unat (attr_Length a)) + attributeHeaderSize
             else sizeReduced)
      in size_after (if attr_Type a = AttrMessageIntegrity then True else afterIntegrity) sizeReduced' as)"

definition MessageIntegrity_Check :: "MessageIntegrity \<Rightarrow> Checker" where
  "MessageIntegrity_Check i m =
     (case Message_Get m AttrMessageIntegrity of
        Inl e \<Rightarrow> Ret (Some e, m)
      | Inr v \<Rightarrow>
          let len = msg_Length m;
              sizeReduced = size_after False 0 (msg_Attributes m)
          in go_bind (Message_WriteLength (m\<lparr>msg_Length := msg_Length m - of_nat sizeReduced\<rparr>))
               (\<lambda>m. let startOfHMAC = of_nat messageHeaderSize + msg_Length m -
                          of_nat (attributeHeaderSize + messageIntegritySize) :: u32
                    in if Message_cap m < unat startOfHMAC then Panic SliceOutOfRange
                       else
                         let b = take (unat startOfHMAC) (msg_Raw m @ msg_Spare m);
                             expected = newHMAC i b
                         in go_bind (Message_WriteLength (m\<lparr>msg_Length := len\<rparr>))
                              (\<lambda>m. if v \<noteq> expected then Ret (Some (IntegrityErr expected v), m)
                                   else Ret (None, m))))"

section \<open>FINGERPRINT\<close>

definition fingerprintXORValue :: u32 where "fingerprintXORValue = 0x5354554e"
definition fingerprintSize :: nat where "fingerprintSize = 4"

definition FingerprintValue :: "bytes \<Rightarrow> u32" where
  "FingerprintValue b = ChecksumIEEE b XOR fingerprintXORValue"

definition Fingerprint_AddTo :: Setter where
  "Fingerprint_AddTo m =
     (let l = msg_Length m
      in go_bind (Message_WriteLength
                   (m\<lparr>msg_Length := msg_Length m + of_nat (fingerprintSize + attributeHeaderSize)\<rparr>))
           (\<lambda>m. let val = FingerprintValue (msg_Raw m)
                in add_ok (Message_Add (m\<lparr>msg_Length := l\<rparr>) AttrFingerprint (put_u32 val))))"

definition Fingerprint_Check :: Checker where
  "Fingerprint_Check m =
     (case Message_Get m AttrFingerprint of
        Inl e \<Rightarrow> Ret (Some e, m)
      | Inr b \<Rightarrow>
          if length b \<noteq> fingerprintSize
          then Ret (Some (AttrLengthErr AttrFingerprint (int (length b)) (int fingerprintSize)), m)
          else
            let val = be_get b in
            if length (msg_Raw m) < fingerprintSize + attributeHeaderSize then Panic SliceOutOfRange
            else
              let attrStart = length (msg_Raw m) - (fingerprintSize + attributeHeaderSize);
                  expected = FingerprintValue (take attrStart (msg_Raw m))
              in if expected \<noteq> val then Ret (Some (CRCMismatch expected val), m) else Ret (None, m))"

section \<open>The header length while a digest is computed\<close>

lemmas auth_size_defs = messageIntegritySize_def fingerprintSize_def size_defs

lemma has_fingerprint_iff: "has_fingerprint as \<longleftrightarrow> (\<exists>a\<in>set as. attr_Type a = AttrFingerprint)"
  by (induction as) auto

text \<open>The bytes a digest covers: the message up to the attribute, with the length of one that includes it.\<close>

definition signed_prefix :: "Message \<Rightarrow> RawAttribute list \<Rightarrow> nat \<Rightarrow> bytes" where
  "signed_prefix m pre k =
     enc_header (msg_Type m) (of_nat (length (enc_attrs pre) + k)) (msg_TransactionID m) @ enc_attrs pre"

lemma msg_wf_WriteLength:
  assumes "msg_wf m"
  shows "Message_WriteLength (m\<lparr>msg_Length := l\<rparr>) = Ret (m\<lparr>msg_Length := l,
    msg_Raw := enc_header (msg_Type m) l (msg_TransactionID m) @ enc_attrs (msg_Attributes m)\<rparr>)"
proof -
  have "length (msg_TransactionID m) = 12"
    "msg_Raw m = enc_header (msg_Type m) (msg_Length m) (msg_TransactionID m) @ enc_attrs (msg_Attributes m)"
    using assms by (auto simp: msg_wf_def size_defs)
  then show ?thesis
    by (subst Message_WriteLength_eq) (simp_all add: put_at_append_left put_length_enc_header)
qed

lemma msg_wf_Length: "msg_wf m \<Longrightarrow> msg_Length m = of_nat (length (enc_attrs (msg_Attributes m)))"
  by (auto simp: msg_wf_def word_unat_eq_iff unat_of_nat take_bit_nat_eq_self)

text \<open>
  \<open>Add\<close> overwrites the header length, so a message whose length field was changed behaves
  like the original.
\<close>

lemma Message_Add_header_length:
  fixes l :: u32
  assumes wf: "msg_wf m" and "fits m (length v)"
  defines "m0 \<equiv> m\<lparr>msg_Raw := enc_header (msg_Type m) l (msg_TransactionID m) @ enc_attrs (msg_Attributes m)\<rparr>"
  shows "\<exists>m'. Message_Add m0 t v = Ret m' \<and> msg_wf m' \<and> msg_Type m' = msg_Type m \<and>
    msg_TransactionID m' = msg_TransactionID m \<and> msg_Attributes m' = msg_Attributes m @ [mk_attr t v]"
proof -
  have len: "messageHeaderSize + unat (msg_Length m) = length (msg_Raw m0)"
    using wf by (simp add: msg_wf_def m0_def size_defs)
  have "add_prefix m0 v = msg_Raw m0" "add_prefix m v = msg_Raw m"
    using len msg_wf_length_Raw [OF wf] by (simp_all add: add_prefix_eq m0_def)
  moreover have "put_at 2 (put_u16 (ucast k)) (msg_Raw m0) = put_at 2 (put_u16 (ucast k)) (msg_Raw m)" for k :: u32
    using wf by (simp add: m0_def msg_wf_def put_at_append_left put_length_enc_header)
  ultimately have "added m0 t v = added m t v"
    by (simp add: added_def Let_def m0_def)
  moreover obtain sp where "Message_Add m0 t v = Ret (added m0 t v\<lparr>msg_Spare := sp\<rparr>)"
    using Message_Add_eq by blast
  moreover obtain sp' where "Message_Add m t v = Ret (added m t v\<lparr>msg_Spare := sp'\<rparr>)"
    using Message_Add_eq by blast
  ultimately show ?thesis
    using Message_Add_wf [OF wf assms(2), of t] by (auto simp: msg_wf_def)
qed

section \<open>MESSAGE-INTEGRITY: what is added and what is checked\<close>

lemma MessageIntegrity_AddTo_eq:
  assumes wf: "msg_wf m" and fit: "fits m messageIntegritySize" and "\<not> has_fingerprint (msg_Attributes m)"
  shows "\<exists>m'. MessageIntegrity_AddTo i m = Ret (None, m') \<and> msg_wf m' \<and> msg_Type m' = msg_Type m \<and>
    msg_TransactionID m' = msg_TransactionID m \<and>
    msg_Attributes m' = msg_Attributes m @
      [mk_attr AttrMessageIntegrity (newHMAC i (signed_prefix m (msg_Attributes m) 24))]"
proof -
  define l where "l = msg_Length m + of_nat (messageIntegritySize + attributeHeaderSize)"
  define raw where "raw = enc_header (msg_Type m) l (msg_TransactionID m) @ enc_attrs (msg_Attributes m)"
  have signed: "raw = signed_prefix m (msg_Attributes m) 24"
    using msg_wf_Length [OF wf] by (simp add: raw_def l_def signed_prefix_def auth_size_defs add.commute)
  have "MessageIntegrity_AddTo i m =
      add_ok (Message_Add (m\<lparr>msg_Raw := raw\<rparr>) AttrMessageIntegrity (newHMAC i raw))"
    using assms(3) msg_wf_WriteLength [OF wf, of l]
    by (simp add: MessageIntegrity_AddTo_def Let_def flip: l_def raw_def of_nat_add)
  moreover have "fits m (length (newHMAC i raw))"
    using fit by (simp add: newHMAC_def messageIntegritySize_def)
  ultimately show ?thesis
    using Message_Add_header_length [OF wf, of "newHMAC i raw" l AttrMessageIntegrity]
    by (auto simp: add_ok_def simp flip: raw_def signed)
qed

lemma size_after_True:
  "list_all attr_wf as \<Longrightarrow> size_after True k as = k + length (enc_attrs as)"
  by (induction as arbitrary: k) (auto simp: attr_wf_length size_defs Let_def)

lemma size_after_eq:
  assumes "list_all attr_wf as" and "attr_Type mi = AttrMessageIntegrity"
    and "\<forall>a\<in>set pre. attr_Type a \<noteq> AttrMessageIntegrity"
  shows "size_after False k (pre @ mi # as) = k + length (enc_attrs as)"
  using assms(3) by (induction pre arbitrary: k) (simp_all add: Let_def assms(2) size_after_True [OF assms(1)])

text \<open>The verdict of \<open>Check\<close> on a well-formed message whose first integrity attribute has 20 bytes.\<close>

lemma MessageIntegrity_Check_eq:
  assumes wf: "msg_wf m" and as: "msg_Attributes m = pre @ mi # as"
    and mi: "attr_Type mi = AttrMessageIntegrity" "length (attr_Value mi) = messageIntegritySize"
    and pre: "\<forall>a\<in>set pre. attr_Type a \<noteq> AttrMessageIntegrity"
  shows "MessageIntegrity_Check i m =
    Ret (if attr_Value mi = newHMAC i (signed_prefix m pre 24) then None
         else Some (IntegrityErr (newHMAC i (signed_prefix m pre 24)) (attr_Value mi)), m)"
proof -
  let ?k = "length (enc_attrs pre)"
  define l where "l = msg_Length m - of_nat (length (enc_attrs as))"
  have get: "Message_Get m AttrMessageIntegrity = Inr (attr_Value mi)"
    using as mi pre by (simp add: Message_Get_def Attributes_Get_append)
  have "list_all attr_wf as" using wf as by (simp add: msg_wf_def)
  then have size: "size_after False 0 (msg_Attributes m) = length (enc_attrs as)"
    using size_after_eq [OF _ mi(1) pre, of as 0] as by simp
  have padded: "nearestPaddedValueLength 20 = 20" by (simp add: nearestPaddedValueLength_aligned)
  have len: "length (enc_attrs (msg_Attributes m)) = ?k + 24 + length (enc_attrs as)"
    using as mi(2) by (simp add: padded messageIntegritySize_def)
  then have l: "l = of_nat (?k + 24)"
    unfolding l_def using msg_wf_Length [OF wf] by simp
  have small: "?k + 24 < 65536"
    using wf len unfolding msg_wf_def by linarith
  have start: "unat (of_nat messageHeaderSize + l - of_nat (attributeHeaderSize + messageIntegritySize)) = 20 + ?k"
  proof -
    have "of_nat messageHeaderSize + l - of_nat (attributeHeaderSize + messageIntegritySize) = (of_nat (20 + ?k) :: u32)"
      by (simp add: l auth_size_defs)
    moreover have "unat (of_nat (20 + ?k) :: u32) = 20 + ?k"
      using small by (simp only: unat_of_nat) (simp add: take_bit_nat_eq_self)
    ultimately show ?thesis by (simp only:)
  qed
  define raw where "raw = enc_header (msg_Type m) l (msg_TransactionID m) @ enc_attrs (msg_Attributes m)"
  have tid: "length (msg_TransactionID m) = 12" using wf by (simp add: msg_wf_def size_defs)
  have prefix: "take (20 + ?k) (raw @ msg_Spare m) = signed_prefix m pre 24"
    using tid by (simp add: signed_prefix_def l as raw_def)
  have restore: "Message_WriteLength (m\<lparr>msg_Raw := raw\<rparr>) = Ret m"
    using wf tid by (subst Message_WriteLength_eq)
      (simp_all add: put_at_append_left put_length_enc_header msg_wf_def raw_def)
  have cap: "\<not> Message_cap (m\<lparr>msg_Length := l, msg_Raw := raw\<rparr>) < 20 + ?k"
    using tid by (simp add: Message_cap_def as raw_def)
  show ?thesis
    unfolding MessageIntegrity_Check_def get
    using msg_wf_WriteLength [OF wf, of l] start cap restore prefix
    by (simp add: Let_def size del: take_append flip: l_def raw_def)
qed

section \<open>FINGERPRINT: what is added and what is checked\<close>

lemma Fingerprint_AddTo_eq:
  assumes wf: "msg_wf m" and fit: "fits m fingerprintSize"
  shows "\<exists>m'. Fingerprint_AddTo m = Ret (None, m') \<and> msg_wf m' \<and> msg_Type m' = msg_Type m \<and>
    msg_TransactionID m' = msg_TransactionID m \<and>
    msg_Attributes m' = msg_Attributes m @
      [mk_attr AttrFingerprint (put_u32 (FingerprintValue (signed_prefix m (msg_Attributes m) 8)))]"
proof -
  define l where "l = msg_Length m + of_nat (fingerprintSize + attributeHeaderSize)"
  define raw where "raw = enc_header (msg_Type m) l (msg_TransactionID m) @ enc_attrs (msg_Attributes m)"
  have signed: "raw = signed_prefix m (msg_Attributes m) 8"
    using msg_wf_Length [OF wf] by (simp add: raw_def l_def signed_prefix_def auth_size_defs add.commute)
  have "Fingerprint_AddTo m =
      add_ok (Message_Add (m\<lparr>msg_Raw := raw\<rparr>) AttrFingerprint (put_u32 (FingerprintValue raw)))"
    using msg_wf_WriteLength [OF wf, of l] by (simp add: Fingerprint_AddTo_def Let_def flip: l_def raw_def of_nat_add)
  moreover have "fits m (length (put_u32 (FingerprintValue raw)))"
    using fit by (simp add: fingerprintSize_def)
  ultimately show ?thesis
    using Message_Add_header_length [OF wf, of "put_u32 (FingerprintValue raw)" l AttrFingerprint]
    by (auto simp: add_ok_def simp flip: raw_def signed)
qed

text \<open>The verdict of \<open>Check\<close> on a well-formed message that ends with its only fingerprint.\<close>

lemma Fingerprint_Check_eq:
  assumes wf: "msg_wf m" and as: "msg_Attributes m = pre @ [fp]"
    and fp: "attr_Type fp = AttrFingerprint" "length (attr_Value fp) = fingerprintSize"
    and pre: "\<not> has_fingerprint pre"
  defines "crc \<equiv> FingerprintValue (signed_prefix m pre 8)"
  shows "Fingerprint_Check m =
    Ret (if crc = be_get (attr_Value fp) then None else Some (CRCMismatch crc (be_get (attr_Value fp))), m)"
proof -
  have get: "Message_Get m AttrFingerprint = Inr (attr_Value fp)"
    using as fp pre by (simp add: Message_Get_def Attributes_Get_append has_fingerprint_iff)
  have padded: "nearestPaddedValueLength 4 = 4" by (simp add: nearestPaddedValueLength_aligned)
  have len: "length (enc_attrs (msg_Attributes m)) = length (enc_attrs pre) + 8"
    using as fp(2) by (simp add: padded fingerprintSize_def)
  have "msg_Raw m = signed_prefix m pre 8 @ enc_tlv (attr_Type fp) (attr_Value fp)"
    using wf msg_wf_Length [OF wf] len by (simp add: msg_wf_def signed_prefix_def as)
  moreover have "length (enc_tlv (attr_Type fp) (attr_Value fp)) = 8"
    using fp(2) by (simp add: padded fingerprintSize_def)
  ultimately have "take (length (msg_Raw m) - 8) (msg_Raw m) = signed_prefix m pre 8"
    and "\<not> length (msg_Raw m) < 8" by simp_all
  then show ?thesis
    by (simp add: Fingerprint_Check_def get fp(2) Let_def auth_size_defs crc_def)
qed

end
