(* ===== verification/Ice_Session.thy ===== *)
theory Ice_Session
  imports Ice_Checklist Ice_Attr Stun_Addr Stun_Text Stun_Auth "HOL-Library.AList_Mapping"
begin

text \<open>
  The ICE session: \<^verbatim>\<open>src/ice/icesession.go\<close>, the state machine that runs connectivity checks.

  The state is one record. Candidates and checks live in the heaps \<open>cands\<close> and \<open>checks\<close> and are
  named by their index, so that the pointer comparisons and the in-place changes of the code
  are what they are there. Sockets are opaque names. What the session does to the outside
  (messages sent, goroutines started, sockets closed, the callback to the transport) is
  appended to \<open>out\<close>. A channel of \<open>checkMap\<close> is open or closed, with its
  buffer, of capacity one.

  Each handler is a function on the state that returns the new state or panics, in the
  granularity of the \<open>loop\<close> goroutine, which handles one message or failed check at a time.
  The goroutine \<open>onecheck\<close> is cut where it can be interrupted: its start and each attempt.
\<close>

section \<open>State\<close>

type_synonym sock = nat

datatype chan = Open "go_error list" | Closed "go_error list"

datatype effect =
    SendStun sock Message string string
  | GoOnecheck nat bool
  | OnIceComplete "go_error option"
  | CloseSock sock
  | FinishNegotiation sock bool
  | WaitNomination

record rxCheck =
  componentID :: int
  remoteAddress :: string
  localAddress :: string
  userCandidate :: bool
  rx_priority :: int
  rx_role :: SessionRole

record session =
  role :: SessionRole
  aggresive :: bool
  txUserName :: string
  txPassword :: string
  rxUserFrag :: string
  rxUserName :: string
  rxPassword :: string
  txCrendientials :: MessageIntegrity
  rxCrendientials :: MessageIntegrity
  validCheck :: "nat option"
  nominatedCheck :: "nat option"
  nominatedServerSock :: "sock option"
  localCandidates :: "nat list"
  remoteCandidates :: "nat list"
  checkList :: "nat list"
  validCheckList :: "nat list"
  serverSocks :: "string \<rightharpoonup> sock"
  turnServerSock :: "sock option"
  isNominating :: bool
  checkMap :: "(string, chan) mapping"
  tieBreaker :: u64
  earlyCheckList :: "rxCheck list"
  msg2Check :: "TransactionID \<rightharpoonup> nat"
  hasStopped :: bool
  quitClosed :: bool
  completeResult :: sessionCompleteResult
  cands :: "Candidate list"
  checks :: "sessionCheck list"
  out :: "effect list"

abbreviation the_cand :: "session \<Rightarrow> nat \<Rightarrow> Candidate" where "the_cand s i \<equiv> cands s ! i"
abbreviation the_check :: "session \<Rightarrow> nat \<Rightarrow> sessionCheck" where "the_check s i \<equiv> checks s ! i"
abbreviation local_of :: "session \<Rightarrow> nat \<Rightarrow> Candidate" where
  "local_of s c \<equiv> the_cand s (localCandidate (the_check s c))"
abbreviation remote_of :: "session \<Rightarrow> nat \<Rightarrow> Candidate" where
  "remote_of s c \<equiv> the_cand s (remoteCandidate (the_check s c))"

definition emit :: "effect \<Rightarrow> session \<Rightarrow> session" where
  "emit e s = s\<lparr>out := out s @ [e]\<rparr>"

definition upd_check :: "nat \<Rightarrow> (sessionCheck \<Rightarrow> sessionCheck) \<Rightarrow> session \<Rightarrow> session" where
  "upd_check c f s = s\<lparr>checks := (checks s)[c := f (the_check s c)]\<rparr>"

text \<open>\<open>&sessionCheck{...}\<close> and \<open>new(Candidate)\<close>: the address is the index at the end of the heap.\<close>

definition new_check :: "sessionCheck \<Rightarrow> session \<Rightarrow> nat \<times> session" where
  "new_check ch s = (length (checks s), s\<lparr>checks := checks s @ [ch]\<rparr>)"

definition new_cand :: "Candidate \<Rightarrow> session \<Rightarrow> nat \<times> session" where
  "new_cand c s = (length (cands s), s\<lparr>cands := cands s @ [c]\<rparr>)"

text \<open>\<open>newIceSession\<close>: the random strings and the tie breaker are arguments.\<close>

definition newIceSession ::
  "SessionRole \<Rightarrow> Candidate list \<Rightarrow> string \<Rightarrow> string \<Rightarrow> u64 \<Rightarrow> session" where
  "newIceSession r locals frag pwd tie =
     \<lparr>role = r, aggresive = True, txUserName = [], txPassword = [], rxUserFrag = frag, rxUserName = [],
      rxPassword = pwd, txCrendientials = [], rxCrendientials = NewShortTermIntegrity pwd,
      validCheck = None, nominatedCheck = None, nominatedServerSock = None,
      localCandidates = [0..<length locals], remoteCandidates = [], checkList = [], validCheckList = [],
      serverSocks = Map.empty, turnServerSock = None, isNominating = False, checkMap = Mapping.empty,
      tieBreaker = tie, earlyCheckList = [], msg2Check = Map.empty, hasStopped = False, quitClosed = False,
      completeResult = sessionNotComplete, cands = locals, checks = [], out = []\<rparr>"

section \<open>Bookkeeping\<close>

definition addMsgCheck :: "TransactionID \<Rightarrow> nat \<Rightarrow> session \<Rightarrow> session" where
  "addMsgCheck tid c s = s\<lparr>msg2Check := (msg2Check s)(tid \<mapsto> c)\<rparr>"

definition getMsgCheck :: "TransactionID \<Rightarrow> session \<Rightarrow> nat option" where
  "getMsgCheck tid s = msg2Check s tid"

definition deleteMsgCheck :: "TransactionID \<Rightarrow> session \<Rightarrow> session" where
  "deleteMsgCheck tid s = s\<lparr>msg2Check := (msg2Check s)(tid := None)\<rparr>"

definition finishOneCheck :: "nat \<Rightarrow> session \<Rightarrow> session go" where
  "finishOneCheck c s =
     (let k = key (the_check s c)
      in case Mapping.lookup (checkMap s) k of
           None \<Rightarrow> Panic CloseOfNilChannel
         | Some (Closed _) \<Rightarrow> Panic CloseOfClosedChannel
         | Some (Open _) \<Rightarrow> Ret (s\<lparr>checkMap := Mapping.delete k (checkMap s)\<rparr>))"

definition changeCheckState :: "nat \<Rightarrow> SessionCheckState \<Rightarrow> go_error option \<Rightarrow> session \<Rightarrow> session go" where
  "changeCheckState c newState e s =
     (if newState \<le> state (the_check s c) then Ret s
      else
        let s = upd_check c (\<lambda>ch. ch\<lparr>state := newState, err := e\<rparr>) s
        in if checkStateSucced \<le> newState then finishOneCheck c s else Ret s)"

definition canceled :: go_error where "canceled = Errorf ''canceled''"
definition errCheckRetry :: go_error where "errCheckRetry = Errorf ''retry again''"
definition errTriedTooManyTimes :: go_error where "errTriedTooManyTimes = Errorf ''have tried too many times''"

text \<open>
  A send on the channel of a key: to a nil channel, or one whose buffer is full, it blocks. The
  goroutine that would take the value may still come, but only for the channel of a check in
  progress.
\<close>

definition chan_send :: "string \<Rightarrow> go_error \<Rightarrow> session \<Rightarrow> session go" where
  "chan_send k e s =
     (case Mapping.lookup (checkMap s) k of
        None \<Rightarrow> Panic BlockedSend
      | Some (Closed _) \<Rightarrow> Panic SendOnClosedChannel
      | Some (Open buf) \<Rightarrow>
          if buf = [] then Ret (s\<lparr>checkMap := Mapping.update k (Open [e]) (checkMap s)\<rparr>) else Panic BlockedSend)"

definition cancelOneCheck :: "nat \<Rightarrow> session \<Rightarrow> session go" where
  "cancelOneCheck c s =
     go_bind (chan_send (key (the_check s c)) canceled s) (changeCheckState c checkStateFailed (Some canceled))"

definition retryOneCheck :: "nat \<Rightarrow> session \<Rightarrow> session go" where
  "retryOneCheck c s =
     (if state (the_check s c) \<noteq> checkStateInProgress then Ret s
      else chan_send (key (the_check s c)) errCheckRetry s)"

definition changeCompleteResult :: "sessionCompleteResult \<Rightarrow> session \<Rightarrow> session go" where
  "changeCompleteResult r s =
     (if r \<le> completeResult s then Panic (ExplicitPanic ''complete result must increase only'')
      else Ret (s\<lparr>completeResult := r\<rparr>))"

definition changeRole :: "SessionRole \<Rightarrow> session \<Rightarrow> session" where
  "changeRole r s = s\<lparr>role := r\<rparr>"

definition markValidAndNonimated :: "nat \<Rightarrow> session \<Rightarrow> session" where
  "markValidAndNonimated c s =
     (let better = (\<lambda>old. case old of None \<Rightarrow> True
                          | Some d \<Rightarrow> priority (the_check s d) < priority (the_check s c));
          s1 = (if better (validCheck s) then s\<lparr>validCheck := Some c\<rparr> else s)
      in if nominated (the_check s c) \<and> better (nominatedCheck s)
         then s1\<lparr>nominatedCheck := Some c\<rparr> else s1)"

text \<open>
  The socket for a local address: \<open>Inl\<close> is an error, \<open>Inr None\<close> a nil socket.
\<close>

fun sender_of_candidate :: "string \<Rightarrow> session \<Rightarrow> nat list \<Rightarrow> go_error + sock option" where
  "sender_of_candidate localAddr s [] = Inl (Errorf ''cannot found in maps'')"
| "sender_of_candidate localAddr s (i # is) =
     (let c = the_cand s i
      in if cd_addr c = localAddr \<and> cd_Type c = CandidateRelay then Inr (turnServerSock s)
         else if cd_addr c = localAddr \<and> cd_Type c = CandidateServerReflexive then Inr (serverSocks s (baseAddr c))
         else if cd_addr c = localAddr \<and> cd_Type c = CandidatePeerReflexive then Inr (serverSocks s (baseAddr c))
         else sender_of_candidate localAddr s is)"

definition getSenderServerSock :: "string \<Rightarrow> session \<Rightarrow> go_error + sock option" where
  "getSenderServerSock localAddr s =
     (case serverSocks s localAddr of
        Some srv \<Rightarrow> Inr (Some srv)
      | None \<Rightarrow> sender_of_candidate localAddr s (localCandidates s))"

section \<open>The check list\<close>

fun append_remotes :: "Candidate list \<Rightarrow> session \<Rightarrow> session" where
  "append_remotes [] s = s"
| "append_remotes (c # cs) s =
     (let (i, s) = new_cand c s
      in append_remotes cs (if ComponentID c \<noteq> 1 then s else s\<lparr>remoteCandidates := remoteCandidates s @ [i]\<rparr>))"

definition frozen_check :: "nat \<Rightarrow> nat \<Rightarrow> session \<Rightarrow> sessionCheck" where
  "frozen_check l r s =
     \<lparr>localCandidate = l, remoteCandidate = r, key = check_key (the_cand s l) (the_cand s r),
      priority = calcPairPriority (role s) (the_cand s l) (the_cand s r),
      state = checkStateFrozen, nominated = False, err = None\<rparr>"

fun append_checks :: "(nat \<times> nat) list \<Rightarrow> session \<Rightarrow> session" where
  "append_checks [] s = s"
| "append_checks ((l, r) # ps) s =
     (let (c, s) = new_check (frozen_check l r s) s
      in append_checks ps (s\<lparr>checkList := checkList s @ [c]\<rparr>))"

definition pruneCheckList :: "session \<Rightarrow> session" where
  "pruneCheckList s =
     s\<lparr>checkList := prune (\<lambda>c. prune_key (cands s) (the_check s c)) {} (checkList s)\<rparr>"

text \<open>The default candidate is a position in the list of candidates.\<close>

record sessionDescription =
  sd_user :: string
  sd_password :: string
  sd_defaultPort :: int
  sd_defaultIP :: string
  sd_candidates :: "Candidate list"
  sd_defautCandidate :: "nat option"

definition errTooManyCandidates :: go_error where "errTooManyCandidates = Errorf ''too many candidates''"

definition createCheckList :: "sessionDescription \<Rightarrow> session \<Rightarrow> go_error option \<times> session" where
  "createCheckList sd s =
     (if length (sd_candidates sd) > maxCandidates then (Some errTooManyCandidates, s)
      else
        let s = s\<lparr>txUserName := sd_user sd @ '':'' @ rxUserFrag s,
                  rxUserName := rxUserFrag s @ '':'' @ sd_user sd,
                  txPassword := sd_password sd,
                  txCrendientials := NewShortTermIntegrity (sd_password sd)\<rparr>;
            s = append_remotes (sd_candidates sd) s;
            s = append_checks [(l, r). l \<leftarrow> localCandidates s, r \<leftarrow> remoteCandidates s] s
        in if checkList s = [] then (Some (Errorf ''no matched candidate found''), s)
           else (None, pruneCheckList (s\<lparr>checkList := sort_checks (checks s) (checkList s)\<rparr>)))"

section \<open>Completion\<close>

definition closeUselessServerSock :: "string list \<Rightarrow> session \<Rightarrow> session" where
  "closeUselessServerSock order s =
     (let useless = filter (\<lambda>a. serverSocks s a \<noteq> nominatedServerSock s) order;
          s1 = s\<lparr>serverSocks := (\<lambda>a. if serverSocks s a = nominatedServerSock s then serverSocks s a else None),
                 out := out s @ map (\<lambda>a. CloseSock (the (serverSocks s a))) useless\<rparr>
      in if nominatedServerSock s1 \<noteq> turnServerSock s1 then s1\<lparr>turnServerSock := None\<rparr> else s1)"

text \<open>
  The network part of \<open>iceComplete\<close>: the order in which the socket map is visited and what
  binding a TURN channel to an address returns.
\<close>

record net =
  sock_order :: "string list"
  channelBind :: "string \<Rightarrow> go_error option"

text \<open>The result of a success: all checks have finished, or at least one pair is nominated.\<close>

definition advance_result :: "bool \<Rightarrow> session \<Rightarrow> session go" where
  "advance_result allcomplete s =
     (if allcomplete then
        go_bind (changeCompleteResult sessionAllCompleteSuccess s) (\<lambda>s.
          if \<not> Mapping.is_empty (checkMap s) then Panic (ExplicitPanic ''all check should finished'') else Ret s)
      else if completeResult s < sessionCompleteSuccess then changeCompleteResult sessionCompleteSuccess s
      else Ret s)"

text \<open>
  The socket of the nominated check is chosen; at the end the other sockets are closed and a TURN
  channel is bound. \<open>FinishNegotiation\<close> carries whether the mode is that of a TURN relay. The
  result is false when \<open>iceComplete\<close> returns at this point.
\<close>

definition use_nominated :: "net \<Rightarrow> bool \<Rightarrow> session \<Rightarrow> (bool \<times> session) go" where
  "use_nominated n allcomplete s =
     (case nominatedCheck s of
        None \<Rightarrow> Panic NilDereference
      | Some c \<Rightarrow>
          case getSenderServerSock (cd_addr (local_of s c)) s of
            Inl e \<Rightarrow> Panic (ExplicitPanic ''cannot found nominatedcheck corresponding serversock'')
          | Inr srv \<Rightarrow>
              let s = s\<lparr>nominatedServerSock := srv\<rparr> in
              if \<not> allcomplete then Ret (True, s)
              else
                let s = closeUselessServerSock (sock_order n) s in
                case srv of
                  None \<Rightarrow> Panic NilDereference
                | Some sk \<Rightarrow>
                    if cd_Type (local_of s c) = CandidateRelay then
                      (if turnServerSock s = None then Panic NilDereference
                       else Ret (channelBind n (cd_addr (remote_of s c)) = None, emit (FinishNegotiation sk True) s))
                    else Ret (True, emit (FinishNegotiation sk False) s))"

definition iceComplete :: "net \<Rightarrow> go_error option \<Rightarrow> bool \<Rightarrow> session \<Rightarrow> session go" where
  "iceComplete n result allcomplete s =
     (let tell = (\<lambda>res s'. if completeResult s < sessionCompleteSuccess then emit (OnIceComplete res) s' else s')
      in if result \<noteq> None then go_map (tell result) (changeCompleteResult sessionCompleteFailure s)
         else
           go_bind (advance_result allcomplete s) (\<lambda>s1.
             go_map (\<lambda>(go_on, s2). if go_on then tell None s2 else s2) (use_nominated n allcomplete s1)))"

text \<open>\<open>for _, c := range s.checkList.checks { f }\<close>\<close>

fun for_checks :: "nat list \<Rightarrow> (nat \<Rightarrow> session \<Rightarrow> session go) \<Rightarrow> session \<Rightarrow> session go" where
  "for_checks [] f s = Ret s"
| "for_checks (c # cs) f s = go_bind (f c s) (for_checks cs f)"

definition unfreeze :: "nat \<Rightarrow> nat \<Rightarrow> session \<Rightarrow> session go" where
  "unfreeze check c s =
     (if Foundation (local_of s c) = Foundation (local_of s check) \<and> state (the_check s c) = checkStateFrozen
      then changeCheckState c checkStateWaiting None s else Ret s)"

definition cancel_lower :: "nat \<Rightarrow> nat \<Rightarrow> session \<Rightarrow> session go" where
  "cancel_lower check c s =
     (if state (the_check s c) < checkStateInProgress then cancelOneCheck c s
      else if state (the_check s c) = checkStateInProgress \<and> priority (the_check s c) \<le> priority (the_check s check)
      then cancelOneCheck c s
      else Ret s)"

definition tryCompleteCheck :: "net \<Rightarrow> nat \<Rightarrow> session \<Rightarrow> (bool \<times> session) go" where
  "tryCompleteCheck n check s =
     go_bind (if err (the_check s check) = None then for_checks (checkList s) (unfreeze check) s else Ret s)
       (\<lambda>s. go_bind (if err (the_check s check) = None \<and> nominated (the_check s check)
                     then for_checks (checkList s) (cancel_lower check) s else Ret s)
         (\<lambda>s. let hasNotFinished = list_ex (\<lambda>c. state (the_check s c) < checkStateSucced) (checkList s)
              in if nominatedCheck s \<noteq> None then go_map (Pair True) (iceComplete n None (\<not> hasNotFinished) s)
                 else if \<not> hasNotFinished then
                   (if role s = SessionRoleControlled then
                      (if validCheck s = None
                       then go_map (Pair True) (iceComplete n (Some (Errorf ''no valid check'')) True s)
                       else go_map (\<lambda>s. (False, emit WaitNomination s)) (changeCompleteResult sessionCheckComplete s))
                    else if isNominating s
                    then go_map (Pair True) (iceComplete n (Some (Errorf ''controlling no nominated '')) True s)
                    else Panic (ExplicitPanic ''not implemented''))
                 else Ret (False, s)))"

text \<open>The goroutine that waits for a nomination, when its timer fires.\<close>

definition nomination_timeout :: "net \<Rightarrow> session \<Rightarrow> session go" where
  "nomination_timeout n s =
     (if nominatedCheck s = None \<and> \<not> hasStopped s
      then iceComplete n (Some (Errorf ''no nonimated'')) True s else Ret s)"

text \<open>A call of \<open>tryCompleteCheck\<close> whose result is ignored.\<close>

definition try_complete :: "net \<Rightarrow> nat \<Rightarrow> session \<Rightarrow> session go" where
  "try_complete n c s = go_map snd (tryCompleteCheck n c s)"

definition fail_check :: "net \<Rightarrow> nat \<Rightarrow> go_error option \<Rightarrow> session \<Rightarrow> session go" where
  "fail_check n c e s = go_bind (changeCheckState c checkStateFailed e s) (try_complete n c)"

section \<open>Outgoing checks\<close>

definition software :: bytes where "software = bytes_of_string ''nkbai@163.com/ice''"

text \<open>\<open>rnd\<close> is what the random source yields for the transaction id.\<close>

definition buildBindingRequest :: "bytes \<times> go_error option \<Rightarrow> nat \<Rightarrow> session \<Rightarrow> Message go" where
  "buildBindingRequest rnd c s =
     (let prio = calcCandidatePriority CandidatePeerReflexive defaultPreference 1;
          control = (if role s = SessionRoleControlling then IceControlling_AddTo (tieBreaker s)
                     else IceControlled_AddTo (tieBreaker s));
          setters = [MessageType_AddTo BindingRequest, transactionIDSetter_AddTo rnd,
                     Priority_AddTo (of_int prio), control, Software_AddTo software,
                     Username_AddTo (bytes_of_string (txUserName s)),
                     MessageIntegrity_AddTo (txCrendientials s), Fingerprint_AddTo];
          setters = (if nominated (the_check s c) \<and> role s = SessionRoleControlling
                     then UseCandidate_AddTo # setters else setters)
      in go_bind (Message_Build setters zero_Message)
           (\<lambda>(e, req). if e \<noteq> None then Panic (ExplicitPanic ''build error...'') else Ret req))"

text \<open>
  \<open>onecheck\<close> up to its first request: it ends when there is no socket and the session is not
  complete, else it has a socket, perhaps nil; the check becomes nominated when the
  controlling agent nominates.
\<close>

definition onecheck_start :: "nat \<Rightarrow> bool \<Rightarrow> session \<Rightarrow> sock option option \<times> session" where
  "onecheck_start c nominate s =
     (let nominate_it = (if nominate \<and> role s = SessionRoleControlling
                         then upd_check c (\<lambda>ch. ch\<lparr>nominated := True\<rparr>) s else s)
      in case getSenderServerSock (cd_addr (local_of s c)) s of
           Inl e \<Rightarrow> if completeResult s < sessionAllCompleteSuccess then (None, s) else (Some None, nominate_it)
         | Inr sk \<Rightarrow> (Some sk, nominate_it))"

text \<open>One attempt: the request, built at a restart and then resent, goes out under its id.\<close>

definition onecheck_attempt :: "sock option \<Rightarrow> Message \<Rightarrow> nat \<Rightarrow> session \<Rightarrow> session go" where
  "onecheck_attempt sk req c s =
     (let s = addMsgCheck (msg_TransactionID req) c s
      in case sk of
           None \<Rightarrow> Panic NilDereference
         | Some sk \<Rightarrow> Ret (emit (SendStun sk req (cd_addr (local_of s c)) (cd_addr (remote_of s c))) s))"

text \<open>The goroutine takes a value off the channel, or it ends and forgets its request.\<close>

definition onecheck_receive :: "string \<Rightarrow> session \<Rightarrow> session" where
  "onecheck_receive k s =
     (case Mapping.lookup (checkMap s) k of
        Some (Open buf) \<Rightarrow> s\<lparr>checkMap := Mapping.update k (Open (tl buf)) (checkMap s)\<rparr>
      | Some (Closed buf) \<Rightarrow> s\<lparr>checkMap := Mapping.update k (Closed (tl buf)) (checkMap s)\<rparr>
      | None \<Rightarrow> s)"

definition onecheck_end :: "Message \<Rightarrow> session \<Rightarrow> session" where
  "onecheck_end req s = deleteMsgCheck (msg_TransactionID req) s"

section \<open>Responses\<close>

definition addr_setter :: "string \<Rightarrow> Setter" where
  "addr_setter a = (let (ip, port) = addrToUDPAddr a in XORMappedAddress_AddTo \<lparr>addr_IP = ip, addr_Port = port\<rparr>)"

definition send_built :: "bool \<Rightarrow> Setter list \<Rightarrow> sock option \<Rightarrow> string \<Rightarrow> string \<Rightarrow> session \<Rightarrow> session go" where
  "send_built must setters sc localAddr fromAddr s =
     go_bind (Message_Build setters zero_Message)
       (\<lambda>(e, res). if must \<and> e \<noteq> None then Panic (ExplicitPanic ''build res message error'')
                   else case sc of
                     None \<Rightarrow> Panic NilDereference
                   | Some sk \<Rightarrow> Ret (emit (SendStun sk res localAddr fromAddr) s))"

definition sendResponse :: "string \<Rightarrow> string \<Rightarrow> Message \<Rightarrow> int \<Rightarrow> session \<Rightarrow> session go" where
  "sendResponse localAddr fromAddr req code s =
     (case getSenderServerSock localAddr s of
        Inl e \<Rightarrow> Ret s
      | Inr sc \<Rightarrow>
          let tid = transactionIDValueSetter_AddTo (msg_TransactionID req) in
          if code = 0 then
            send_built True [tid, MessageType_AddTo (NewType MethodBinding ClassSuccessResponse),
              Software_AddTo software, addr_setter fromAddr,
              MessageIntegrity_AddTo (txCrendientials s), Fingerprint_AddTo] sc localAddr fromAddr s
          else if code = CodeRoleConflict then
            send_built True [tid, MessageType_AddTo (NewType MethodBinding ClassErrorResponse),
              Software_AddTo software, ErrorCode_AddTo CodeRoleConflict, addr_setter fromAddr,
              MessageIntegrity_AddTo (txCrendientials s), Fingerprint_AddTo] sc localAddr fromAddr s
          else if code = CodeUnauthorised then
            send_built False [tid, MessageType_AddTo BindingError, ErrorCode_AddTo CodeUnauthorised,
              Software_AddTo software, MessageIntegrity_AddTo (txCrendientials s), Fingerprint_AddTo]
              sc localAddr fromAddr s
          else Ret s)"

section \<open>Incoming checks\<close>

fun find_cand :: "string \<Rightarrow> session \<Rightarrow> nat list \<Rightarrow> nat option" where
  "find_cand a s [] = None"
| "find_cand a s (i # is) = (if cd_addr (the_cand s i) = a then Some i else find_cand a s is)"

fun find_check :: "nat \<Rightarrow> nat \<Rightarrow> session \<Rightarrow> nat list \<Rightarrow> nat option" where
  "find_check l r s [] = None"
| "find_check l r s (c # cs) =
     (if localCandidate (the_check s c) = l \<and> remoteCandidate (the_check s c) = r then Some c
      else find_check l r s cs)"

text \<open>The loop that nominates the valid pairs of a remote candidate.\<close>

fun nominate_valid :: "nat \<Rightarrow> nat list \<Rightarrow> session \<Rightarrow> session" where
  "nominate_valid r [] s = s"
| "nominate_valid r (v # vs) s =
     nominate_valid r vs
       (if remoteCandidate (the_check s v) = r
        then markValidAndNonimated v (upd_check v (\<lambda>ch. ch\<lparr>nominated := True\<rparr>) s) else s)"

definition peer_candidate :: "rxCheck \<Rightarrow> Candidate" where
  "peer_candidate rx = zero_Candidate\<lparr>ComponentID := 1, cd_Type := CandidatePeerReflexive,
     Priority := rx_priority rx, cd_addr := remoteAddress rx, Foundation := calcFoundation (remoteAddress rx)\<rparr>"

text \<open>The pair is on the check list.\<close>

definition triggered_known :: "net \<Rightarrow> rxCheck \<Rightarrow> nat \<Rightarrow> session \<Rightarrow> session go" where
  "triggered_known n rx c s =
     (let s = upd_check c (\<lambda>ch. ch\<lparr>nominated := userCandidate rx \<or> nominated ch\<rparr>) s;
          ch = the_check s c
      in if state ch = checkStateFrozen \<or> state ch = checkStateWaiting then
           (if Mapping.lookup (checkMap s) (key ch) = None then Panic (ExplicitPanic ''must ...'')
            else go_map (\<lambda>s. emit (GoOnecheck c (nominated ch \<or> isNominating s)) s)
                   (changeCheckState c checkStateInProgress None s))
         else if state ch = checkStateInProgress then retryOneCheck c s
         else if state ch = checkStateSucced then
           try_complete n c (if userCandidate rx then nominate_valid (remoteCandidate ch) (validCheckList s) s else s)
         else Ret s)"

text \<open>The pair is new: it goes on the list and is checked at once.\<close>

definition triggered_new :: "rxCheck \<Rightarrow> nat \<Rightarrow> nat \<Rightarrow> session \<Rightarrow> session" where
  "triggered_new rx l r s =
     (let (c, s) = new_check \<lparr>localCandidate = l, remoteCandidate = r,
                      key = check_key (the_cand s l) (the_cand s r),
                      priority = calcPairPriority (role s) (the_cand s l) (the_cand s r),
                      state = checkStateInProgress, nominated = userCandidate rx, err = None\<rparr> s;
          s = s\<lparr>checkList := checkList s @ [c], checkMap := Mapping.update (key (the_check s c)) (Open []) (checkMap s)\<rparr>
      in emit (GoOnecheck c (userCandidate rx \<or> isNominating s)) s)"

definition handleIncomingCheck :: "net \<Rightarrow> rxCheck \<Rightarrow> session \<Rightarrow> session go" where
  "handleIncomingCheck n rx s =
     (let known = find_cand (remoteAddress rx) s (remoteCandidates s)
      in if known = None \<and> length (remoteCandidates s) > maxCandidates then Ret s
         else
           let (r, s) = (case known of
                           Some r \<Rightarrow> (r, s)
                         | None \<Rightarrow> let (r, s) = new_cand (peer_candidate rx) s
                                   in (r, s\<lparr>remoteCandidates := remoteCandidates s @ [r]\<rparr>));
               l = find_cand (localAddress rx) s (localCandidates s)
           in case l of
                None \<Rightarrow> Panic NilDereference
              | Some l \<Rightarrow>
                  case find_check l r s (checkList s) of
                    Some c \<Rightarrow> triggered_known n rx c s
                  | None \<Rightarrow> Ret (triggered_new rx l r s))"

section \<open>Check responses\<close>

fun local_for :: "string \<Rightarrow> string \<Rightarrow> session \<Rightarrow> nat list \<Rightarrow> nat option" where
  "local_for a base s [] = None"
| "local_for a base s (i # is) =
     (if a = cd_addr (the_cand s i) \<and> baseAddr (the_cand s i) = base then Some i else local_for a base s is)"

definition addr_String :: "MappedAddress \<Rightarrow> string" where
  "addr_String a = JoinHostPort (IP_String (addr_IP a)) (itoa (addr_Port a))"

definition reflexive_candidate :: "string \<Rightarrow> Candidate \<Rightarrow> Candidate" where
  "reflexive_candidate a l = zero_Candidate\<lparr>Foundation := calcFoundation (baseAddr l), baseAddr := baseAddr l,
     cd_Type := CandidatePeerReflexive, ComponentID := ComponentID l, cd_addr := a, transport := transport l,
     Priority := calcCandidatePriority CandidatePeerReflexive defaultPreference (ComponentID l)\<rparr>"

text \<open>The valid pair of the local candidate and the remote one of the check: found or made.\<close>

definition valid_pair :: "nat \<Rightarrow> nat \<Rightarrow> session \<Rightarrow> nat \<times> session" where
  "valid_pair lcand check s =
     (let ch = the_check s check
      in case find_check lcand (remoteCandidate ch) s (validCheckList s) of
           Some v \<Rightarrow> (v, upd_check v (\<lambda>x. x\<lparr>nominated := nominated ch\<rparr>) s)
         | None \<Rightarrow>
             let l = the_cand s lcand; r = the_cand s (remoteCandidate ch);
                 (v, s) = new_check \<lparr>localCandidate = lcand, remoteCandidate = remoteCandidate ch,
                            key = check_key l r, priority = calcPairPriority (role s) l r,
                            state = checkStateSucced, nominated = nominated ch, err = None\<rparr> s
             in (v, s\<lparr>validCheckList := sort_checks (checks s) (validCheckList s @ [v])\<rparr>))"

text \<open>The part of \<open>handleCheckResponse\<close> for a success response that came from the right address.\<close>

definition check_succeeded :: "net \<Rightarrow> nat \<Rightarrow> MappedAddress \<Rightarrow> session \<Rightarrow> session go" where
  "check_succeeded n check xaddr s =
     (let a = addr_String xaddr; l = local_of s check;
          (lcand, s) = (case local_for a (baseAddr l) s (localCandidates s) of
                          Some i \<Rightarrow> (i, s)
                        | None \<Rightarrow> let (i, s) = new_cand (reflexive_candidate a l) s
                                  in (i, s\<lparr>localCandidates := localCandidates s @ [i]\<rparr>));
          (v, s) = valid_pair lcand check s;
          s = markValidAndNonimated v s
      in go_bind (changeCheckState check checkStateSucced None s) (try_complete n check))"

definition conflict_role :: "Message \<Rightarrow> SessionRole" where
  "conflict_role res =
     (if Message_Get res AttrICEControlled \<noteq> Inl ErrAttributeNotFound then SessionRoleControlling
      else if Message_Get res AttrICEControlling \<noteq> Inl ErrAttributeNotFound then SessionRoleControlled
      else SessionRoleUnkown)"

definition error_response :: "net \<Rightarrow> nat \<Rightarrow> Message \<Rightarrow> session \<Rightarrow> session go" where
  "error_response n check res s =
     go_bind (ErrorCodeAttribute_GetFrom \<lparr>ec_Code = 0, ec_Reason = []\<rparr> res) (\<lambda>(e, code).
       if e \<noteq> None \<or> ec_Code code \<noteq> CodeRoleConflict
       then fail_check n check (Some (Errorf ''unkown error code'')) s
       else retryOneCheck check (if conflict_role res \<noteq> role s then s\<lparr>role := conflict_role res\<rparr> else s))"

text \<open>The failed credentials of a response: an error to the controlling agent, a warning to the other.\<close>

definition check_credentials :: "net \<Rightarrow> nat \<Rightarrow> Message \<Rightarrow> session \<Rightarrow> session go" where
  "check_credentials n check res s =
     go_bind (MessageIntegrity_Check (rxCrendientials s) res) (\<lambda>(e, _).
       if e \<noteq> None \<and> role s = SessionRoleControlling
       then fail_check n check (Some (Errorf ''receive check response,but crendientials check failed'')) s
       else Ret s)"

text \<open>\<open>past\<close> is what follows the value of XOR-MAPPED-ADDRESS in the receive buffer.\<close>

definition handleCheckResponse :: "net \<Rightarrow> bytes \<Rightarrow> nat \<Rightarrow> string \<Rightarrow> Message \<Rightarrow> session \<Rightarrow> session go" where
  "handleCheckResponse n past check from res s =
     (if sessionAllCompleteSuccess \<le> completeResult s then Ret s
      else if getMsgCheck (msg_TransactionID res) s = None then Ret s
      else if mt_Class (msg_Type res) = ClassErrorResponse then error_response n check res s
      else
        go_bind (check_credentials n check res s) (\<lambda>s.
          if cd_addr (remote_of s check) \<noteq> from
          then fail_check n check (Some (Errorf ''got message from unkown address'')) s
          else
            go_bind (XORMappedAddress_GetFrom past \<lparr>addr_IP = [], addr_Port = 0\<rparr> res) (\<lambda>(e, xaddr).
              if e \<noteq> None then fail_check n check e s
              else check_succeeded n check xaddr s)))"

definition processBindingResponse ::
  "net \<Rightarrow> bytes \<Rightarrow> string \<Rightarrow> string \<Rightarrow> Message \<Rightarrow> session \<Rightarrow> session go" where
  "processBindingResponse n past localAddr remoteAddr msg s =
     (case getMsgCheck (msg_TransactionID msg) s of
        None \<Rightarrow> Ret s
      | Some check \<Rightarrow>
          if cd_addr (local_of s check) \<noteq> localAddr then Ret s
          else if checkStateSucced \<le> state (the_check s check) then Ret s
          else handleCheckResponse n past check remoteAddr msg s)"

section \<open>Binding requests\<close>

text \<open>The tie breaker of the peer: zero when the attribute does not decode.\<close>

definition tie_of :: "(u64 \<Rightarrow> Message \<Rightarrow> (go_error option \<times> u64) go) \<Rightarrow> Message \<Rightarrow> u64" where
  "tie_of getFrom req = (case getFrom 0 req of Ret (_, t) \<Rightarrow> t | Panic _ \<Rightarrow> 0)"

text \<open>
  A role attribute of the request that claims our own role: the smaller tie breaker yields.
  The result is the new role, or nothing when the request is answered with a role conflict.
\<close>

definition resolve :: "SessionRole \<Rightarrow> u64 \<Rightarrow> session \<Rightarrow> SessionRole option" where
  "resolve yield_to peer s =
     (if role s = yield_to then Some (role s)
      else if tieBreaker s < peer then Some yield_to else None)"

definition accept_request ::
  "net \<Rightarrow> string \<Rightarrow> string \<Rightarrow> Message \<Rightarrow> bytes \<Rightarrow> rxCheck \<Rightarrow> session \<Rightarrow> session go" where
  "accept_request n localAddr fromAddr req userName rx s =
     go_bind (sendResponse localAddr fromAddr req 0 s) (\<lambda>s.
       if sessionAllCompleteSuccess \<le> completeResult s then Ret s
       else
         let early = (Mapping.is_empty (checkMap s) \<and> completeResult s = sessionNotComplete);
             s = (if early then s\<lparr>rxUserName := string_of_bytes userName\<rparr> else s);
             rx = rx\<lparr>userCandidate := Message_Contains req AttrUseCandidate, componentID := 1,
                     remoteAddress := fromAddr, localAddress := localAddr\<rparr>
         in if early then Ret (s\<lparr>earlyCheckList := earlyCheckList s @ [rx]\<rparr>)
            else handleIncomingCheck n rx s)"

text \<open>The part of \<open>processBindingRequest\<close> after the credentials: the roles, then the answer.\<close>

definition authenticated_request ::
  "net \<Rightarrow> string \<Rightarrow> string \<Rightarrow> Message \<Rightarrow> bytes \<Rightarrow> u32 \<Rightarrow> session \<Rightarrow> session go" where
  "authenticated_request n localAddr fromAddr req userName prio s =
     (let rx = \<lparr>componentID = 0, remoteAddress = [], localAddress = [], userCandidate = False,
                rx_priority = uint prio, rx_role = SessionRoleUnkown\<rparr>;
          controlling = Message_Contains req AttrICEControlling;
          controlled = Message_Contains req AttrICEControlled
      in case (if controlling then resolve SessionRoleControlled (tie_of IceControlling_GetFrom req) s
               else Some (role s)) of
           None \<Rightarrow> sendResponse localAddr fromAddr req CodeRoleConflict s
         | Some r \<Rightarrow>
             let s = changeRole r s;
                 rx = (if controlling then rx\<lparr>rx_role := SessionRoleControlling\<rparr> else rx)
             in case (if controlled then resolve SessionRoleControlling (tie_of IceControlled_GetFrom req) s
                      else Some (role s)) of
                  None \<Rightarrow> sendResponse localAddr fromAddr req CodeRoleConflict s
                | Some r \<Rightarrow>
                    let s = changeRole r s;
                        rx = (if controlled then rx\<lparr>rx_role := SessionRoleControlled\<rparr> else rx)
                    in if \<not> controlling \<and> \<not> controlled
                       then sendResponse localAddr fromAddr req CodeUnauthorised s
                       else accept_request n localAddr fromAddr req userName rx s)"

definition processBindingRequest :: "net \<Rightarrow> string \<Rightarrow> string \<Rightarrow> Message \<Rightarrow> session \<Rightarrow> session go" where
  "processBindingRequest n localAddr fromAddr req s =
     go_bind (Priority_GetFrom 0 req) (\<lambda>(e, prio).
     if e \<noteq> None then Ret s
     else
     go_bind (Username_GetFrom [] req) (\<lambda>(e, userName).
     if e \<noteq> None then sendResponse localAddr fromAddr req CodeUnauthorised s
     else if rxUserName s \<noteq> [] \<and> string_of_bytes userName \<noteq> rxUserName s
     then sendResponse localAddr fromAddr req CodeUnauthorised s
     else
     go_bind (MessageIntegrity_Check (rxCrendientials s) req) (\<lambda>(e, req).
     if e \<noteq> None then sendResponse localAddr fromAddr req CodeUnauthorised s
     else authenticated_request n localAddr fromAddr req userName prio s)))"

section \<open>The loop\<close>

definition processStunMessage ::
  "net \<Rightarrow> bytes \<Rightarrow> string \<Rightarrow> string \<Rightarrow> Message \<Rightarrow> session \<Rightarrow> session go" where
  "processStunMessage n past localAddr remoteAddr msg s =
     (if msg_Type msg = BindingRequest then processBindingRequest n localAddr remoteAddr msg s
      else if msg_Type msg = BindingError \<or> msg_Type msg = BindingSuccess
      then processBindingResponse n past localAddr remoteAddr msg s
      else Ret s)"

text \<open>What \<open>loop\<close> does with a check whose attempts are used up.\<close>

definition check_timed_out :: "net \<Rightarrow> nat \<Rightarrow> go_error \<Rightarrow> session \<Rightarrow> session go" where
  "check_timed_out n c e s =
     (if state (the_check s c) < checkStateSucced then fail_check n c (Some e) s else Ret s)"

section \<open>Starting, sending and stopping\<close>

fun make_channels :: "nat list \<Rightarrow> session \<Rightarrow> session" where
  "make_channels [] s = s"
| "make_channels (c # cs) s =
     make_channels cs (s\<lparr>checkMap := Mapping.update (check_key (local_of s c) (remote_of s c)) (Open []) (checkMap s)\<rparr>)"

fun first_of_foundation :: "int set \<Rightarrow> nat list \<Rightarrow> session \<Rightarrow> session go" where
  "first_of_foundation fmap [] s = Ret s"
| "first_of_foundation fmap (c # cs) s =
     (let f = Foundation (local_of s c)
      in if f \<in> fmap then first_of_foundation fmap cs s
         else go_bind (changeCheckState c checkStateWaiting None s) (first_of_foundation (insert f fmap) cs))"

fun early_checks :: "net \<Rightarrow> rxCheck list \<Rightarrow> session \<Rightarrow> session go" where
  "early_checks n [] s = Ret s"
| "early_checks n (rx # rxs) s = go_bind (handleIncomingCheck n rx s) (early_checks n rxs)"

definition start_in_state :: "SessionCheckState \<Rightarrow> nat \<Rightarrow> session \<Rightarrow> session go" where
  "start_in_state st c s =
     (if state (the_check s c) = st then
        go_map (\<lambda>s. emit (GoOnecheck c (isNominating s)) s) (changeCheckState c checkStateInProgress None s)
      else Ret s)"

definition allcheck :: "net \<Rightarrow> nat list \<Rightarrow> session \<Rightarrow> session go" where
  "allcheck n cs s =
     go_bind (first_of_foundation {} cs (make_channels cs s)) (\<lambda>s.
       go_bind (early_checks n (earlyCheckList s) s) (\<lambda>s.
         go_bind (for_checks cs (start_in_state checkStateWaiting) s)
           (for_checks cs (start_in_state checkStateFrozen))))"

definition startCheck :: "net \<Rightarrow> session \<Rightarrow> (go_error option \<times> session) go" where
  "startCheck n s =
     (let s = (if aggresive s \<and> role s = SessionRoleControlling then s\<lparr>isNominating := True\<rparr> else s)
      in case checkList s of
           [] \<Rightarrow> Panic IndexOutOfRange
         | c # _ \<Rightarrow>
             if state (the_check s c) \<noteq> checkStateFrozen
             then Ret (Some (Errorf ''already start another check''), s)
             else go_map (Pair None) (allcheck n (checkList s) s))"

text \<open>\<open>SendData\<close>: the address data leaves from and goes to, and the socket; or an error.\<close>

definition SendData :: "session \<Rightarrow> (go_error + (sock \<times> string \<times> string)) go" where
  "SendData s =
     (case nominatedCheck s of
        None \<Rightarrow> Panic NilDereference
      | Some c \<Rightarrow>
          case nominatedServerSock s of
            None \<Rightarrow> Ret (Inl (Errorf ''no stun transport''))
          | Some sk \<Rightarrow>
              let l = local_of s c;
                  from = (if cd_Type l = CandidateServerReflexive \<or> cd_Type l = CandidatePeerReflexive
                          then baseAddr l else cd_addr l)
              in Ret (Inr (sk, from, cd_addr (remote_of s c))))"

text \<open>\<open>Stop\<close> closes the sockets, the channels and \<open>quitChan\<close>.\<close>

fun is_Closed :: "chan option \<Rightarrow> bool" where
  "is_Closed (Some (Closed _)) = True"
| "is_Closed _ = False"

fun chan_close :: "chan \<Rightarrow> chan" where
  "chan_close (Open buf) = Closed buf"
| "chan_close (Closed buf) = Closed buf"

definition session_Stop :: "string list \<Rightarrow> session \<Rightarrow> session go" where
  "session_Stop order s =
     (let s = s\<lparr>hasStopped := True,
                out := out s @ map (\<lambda>a. CloseSock (the (serverSocks s a))) (filter (\<lambda>a. serverSocks s a \<noteq> None) order)\<rparr>
      in if \<exists>k \<in> Mapping.keys (checkMap s). is_Closed (Mapping.lookup (checkMap s) k) then Panic CloseOfClosedChannel
         else
           let s = s\<lparr>checkMap := Mapping.map_values (\<lambda>_. chan_close) (checkMap s)\<rparr>
           in if quitClosed s then Panic CloseOfClosedChannel else Ret (s\<lparr>quitClosed := True\<rparr>))"

end
