(* ===== verification/Go_Machine.thy ===== *)
theory Go_Machine
  imports Go_Prelude "HOL-Library.Multiset"
begin

text \<open>
  Components as machines: runs of a labelled step relation, and the contracts the
  components' step relations are shown to meet, as locales. A machine keeps an invariant;
  a monotone machine also only ever moves up in some order; a transaction table accounts for
  everything it starts.
\<close>

inductive path :: "('s \<Rightarrow> 'l \<Rightarrow> 's \<Rightarrow> bool) \<Rightarrow> 's \<Rightarrow> 'l list \<Rightarrow> 's \<Rightarrow> bool" for step where
  path_Nil: "path step s [] s"
| path_snoc: "path step s ls s' \<Longrightarrow> step s' l s'' \<Longrightarrow> path step s (ls @ [l]) s''"

lemma path_one: "step s l s' \<Longrightarrow> path step s [l] s'"
  using path_snoc [OF path_Nil] by fastforce

lemma path_trans: "path step s' ls' s'' \<Longrightarrow> path step s ls s' \<Longrightarrow> path step s (ls @ ls') s''"
  by (induction rule: path.induct) (auto simp flip: append_assoc intro: path_snoc)

locale machine =
  fixes step :: "'s \<Rightarrow> 'l \<Rightarrow> 's \<Rightarrow> bool"
    and inv :: "'s \<Rightarrow> bool"
  assumes step_inv: "step s l s' \<Longrightarrow> inv s \<Longrightarrow> inv s'"
begin

lemma path_inv: "path step s ls s' \<Longrightarrow> inv s \<Longrightarrow> inv s'"
  by (induction rule: path.induct) (auto intro: step_inv)

end

locale monotone_machine = machine step inv
  for step :: "'s \<Rightarrow> 'l \<Rightarrow> 's \<Rightarrow> bool" and inv :: "'s \<Rightarrow> bool" +
  fixes below :: "'s \<Rightarrow> 's \<Rightarrow> bool"
  assumes below_refl: "below s s"
    and below_trans: "below s t \<Longrightarrow> below t u \<Longrightarrow> below s u"
    and step_below: "step s l s' \<Longrightarrow> inv s \<Longrightarrow> below s s'"
begin

lemma path_below: "path step s ls s' \<Longrightarrow> inv s \<Longrightarrow> below s s'"
proof (induction rule: path.induct)
  case (path_snoc s ls s' l s'')
  then have "inv s'" by (blast intro: path_inv)
  then show ?case using path_snoc by (blast intro: below_trans step_below)
qed (rule below_refl)

end

section \<open>Transaction tables\<close>

text \<open>
  The contract of a component that keeps transactions: each step accounts for every
  transaction it starts or completes. Over a whole run the transactions started are those
  completed plus those pending: no handler is called twice for one start, none is lost.
\<close>

locale transaction_table = machine step inv
  for step :: "'s \<Rightarrow> 'l \<Rightarrow> 's \<Rightarrow> bool" and inv :: "'s \<Rightarrow> bool" +
  fixes pending :: "'s \<Rightarrow> 't multiset"
    and started :: "'l \<Rightarrow> 't multiset"
    and completed :: "'l \<Rightarrow> 't multiset"
  assumes step_balance: "step s l s' \<Longrightarrow> inv s \<Longrightarrow> pending s + started l = pending s' + completed l"
begin

lemma path_balance:
  assumes "path step s ls s'" and "inv s"
  shows "pending s + \<Sum>\<^sub># (mset (map started ls)) = pending s' + \<Sum>\<^sub># (mset (map completed ls))"
  using assms
proof (induction rule: path.induct)
  case (path_snoc s ls s' l s'')
  have "pending s' + started l = pending s'' + completed l"
    using step_balance path_snoc path_inv by blast
  with path_snoc show ?case by (simp add: ac_simps) (metis add.assoc add.commute)
qed simp

lemma path_completed_le:
  assumes "path step s ls s'" and "inv s" and "pending s = {#}"
  shows "\<Sum>\<^sub># (mset (map completed ls)) \<subseteq># \<Sum>\<^sub># (mset (map started ls))"
  using path_balance [OF assms(1,2)] assms(3) by simp

end

end
