(* ===== verification/Ice_Invariant.thy ===== *)
theory Ice_Invariant
  imports Ice_Session Go_Machine "HOL-Library.Sublist"
begin

text \<open>
  What holds of the ICE session over every run: the events that change a session as a step
  relation, the invariant of its states and the order in which it only moves up.
\<close>

section \<open>Events\<close>

text \<open>
  Each event is one call the goroutines of the session make: a message or a used-up check that
  \<open>loop\<close> takes, the timer of \<open>tryCompleteCheck\<close>, the parts of \<open>onecheck\<close>, and the calls of the
  transport. The network part is an argument of each event: it may change between them.
\<close>

datatype event =
    RxStun net bytes string string Message
  | TryFail net nat
  | NominationTimer net
  | OnecheckStart nat bool
  | OnecheckAttempt "sock option" Message nat
  | OnecheckReceive string
  | OnecheckEnd Message
  | CreateCheckList sessionDescription
  | StartCheck net
  | StopSession "string list"

inductive session_step :: "session \<Rightarrow> event \<Rightarrow> session \<Rightarrow> bool" where
  step_RxStun: "processStunMessage n past l r m s = Ret s' \<Longrightarrow> session_step s (RxStun n past l r m) s'"
| step_TryFail: "GoOnecheck c b \<in> set (out s) \<Longrightarrow> check_timed_out n c errTriedTooManyTimes s = Ret s' \<Longrightarrow>
    session_step s (TryFail n c) s'"
| step_NominationTimer: "WaitNomination \<in> set (out s) \<Longrightarrow> nomination_timeout n s = Ret s' \<Longrightarrow>
    session_step s (NominationTimer n) s'"
| step_OnecheckStart: "GoOnecheck c b \<in> set (out s) \<Longrightarrow> onecheck_start c b s = (sk, s') \<Longrightarrow>
    session_step s (OnecheckStart c b) s'"
| step_OnecheckAttempt: "GoOnecheck c b \<in> set (out s) \<Longrightarrow> onecheck_attempt sk req c s = Ret s' \<Longrightarrow>
    session_step s (OnecheckAttempt sk req c) s'"
| step_OnecheckReceive: "session_step s (OnecheckReceive k) (onecheck_receive k s)"
| step_OnecheckEnd: "session_step s (OnecheckEnd req) (onecheck_end req s)"
| step_CreateCheckList: "checkList s = [] \<Longrightarrow> createCheckList sd s = (e, s') \<Longrightarrow>
    session_step s (CreateCheckList sd) s'"
| step_StartCheck: "startCheck n s = Ret (e, s') \<Longrightarrow> session_step s (StartCheck n) s'"
| step_StopSession: "session_Stop order s = Ret s' \<Longrightarrow> session_step s (StopSession order) s'"

inductive_cases session_stepE: "session_step s e s'"

section \<open>The invariant\<close>

text \<open>Every candidate and check that is referred to exists; the two lists of checks are disjoint.\<close>

definition refs_ok :: "session \<Rightarrow> bool" where
  "refs_ok s \<longleftrightarrow>
     set (checkList s) \<union> set (validCheckList s) \<subseteq> {..<length (checks s)} \<and>
     set (checkList s) \<inter> set (validCheckList s) = {} \<and>
     ran (msg2Check s) \<subseteq> set (checkList s) \<and>
     (\<forall>c b. GoOnecheck c b \<in> set (out s) \<longrightarrow> c \<in> set (checkList s)) \<and>
     set (localCandidates s) \<union> set (remoteCandidates s) \<subseteq> {..<length (cands s)} \<and>
     (\<forall>ch\<in>set (checks s). localCandidate ch < length (cands s) \<and> remoteCandidate ch < length (cands s))"

text \<open>A reference to a check of the valid list that has the highest priority of the checks of a set.\<close>

definition top_of :: "session \<Rightarrow> nat set \<Rightarrow> nat option \<Rightarrow> bool" where
  "top_of s X b \<longleftrightarrow>
     (\<forall>d. b = Some d \<longrightarrow> d \<in> set (validCheckList s)) \<and>
     (\<forall>w\<in>X. \<exists>d. b = Some d \<and> priority (the_check s w) \<le> priority (the_check s d))"

text \<open>
  The fields of \<open>sessionComponet\<close> over the part \<open>X\<close> of the valid list: \<open>validCheck\<close> is the best
  check, \<open>nominatedCheck\<close> the best nominated one, and every valid check has succeeded.
\<close>

definition component_ok :: "nat set \<Rightarrow> session \<Rightarrow> bool" where
  "component_ok X s \<longleftrightarrow>
     top_of s X (validCheck s) \<and>
     top_of s {v \<in> X. nominated (the_check s v)} (nominatedCheck s) \<and>
     (\<forall>v\<in>set (validCheckList s). state (the_check s v) = checkStateSucced)"

fun is_notification :: "effect \<Rightarrow> bool" where
  "is_notification (OnIceComplete _) = True"
| "is_notification _ = False"

definition notifications :: "session \<Rightarrow> nat" where
  "notifications s = length (filter is_notification (out s))"

definition notified_ok :: "session \<Rightarrow> bool" where
  "notified_ok s \<longleftrightarrow> notifications s \<le> (if completeResult s < sessionCompleteSuccess then 0 else 1)"

definition session_inv_on :: "nat set \<Rightarrow> session \<Rightarrow> bool" where
  "session_inv_on X s \<longleftrightarrow> refs_ok s \<and> component_ok X s \<and> notified_ok s"

abbreviation session_inv :: "session \<Rightarrow> bool" where
  "session_inv s \<equiv> session_inv_on (set (validCheckList s)) s"

section \<open>The order\<close>

definition pair_of :: "sessionCheck \<Rightarrow> nat \<times> nat \<times> string \<times> u64" where
  "pair_of ch = (localCandidate ch, remoteCandidate ch, key ch, priority ch)"

text \<open>
  No check is lost or changes its pair, the state of each check and the result of the session
  only increase, a nomination is only replaced by one of at least its priority, and what was
  sent stays sent.
\<close>

definition grows :: "session \<Rightarrow> session \<Rightarrow> bool" where
  "grows s s' \<longleftrightarrow>
     completeResult s \<le> completeResult s' \<and>
     length (checks s) \<le> length (checks s') \<and>
     (\<forall>c<length (checks s). pair_of (the_check s' c) = pair_of (the_check s c) \<and>
        state (the_check s c) \<le> state (the_check s' c)) \<and>
     set (checkList s) \<subseteq> set (checkList s') \<and>
     set (validCheckList s) \<subseteq> set (validCheckList s') \<and>
     (\<forall>c. nominatedCheck s = Some c \<longrightarrow>
        (\<exists>d. nominatedCheck s' = Some d \<and> priority (the_check s c) \<le> priority (the_check s' d))) \<and>
     prefix (cands s) (cands s') \<and> prefix (out s) (out s')"

lemma grows_refl: "grows s s"
  by (simp add: grows_def)

lemma grows_trans:
  assumes st: "grows s t" and tu: "grows t u" shows "grows s u"
proof -
  have "pair_of (the_check u c) = pair_of (the_check s c) \<and> state (the_check s c) \<le> state (the_check u c)"
    if "c < length (checks s)" for c
  proof -
    have "c < length (checks t)" using that st by (simp add: grows_def)
    then show ?thesis using that st tu unfolding grows_def by (metis order_trans)
  qed
  moreover have "\<exists>e. nominatedCheck u = Some e \<and> priority (the_check s c) \<le> priority (the_check u e)"
    if "nominatedCheck s = Some c" for c
    using that st tu unfolding grows_def by (meson order_trans)
  ultimately show ?thesis
    using st tu unfolding grows_def by (meson order_trans prefix_order.order_trans)
qed

text \<open>A transition of the session that keeps the invariant and moves up.\<close>

definition advances :: "session \<Rightarrow> session \<Rightarrow> bool" where
  "advances s s' \<longleftrightarrow> (session_inv s \<longrightarrow> session_inv s' \<and> grows s s')"

lemma advances_refl [simp]: "advances s s"
  by (simp add: advances_def grows_refl)

lemma advances_trans: "advances s t \<Longrightarrow> advances t u \<Longrightarrow> advances s u"
  unfolding advances_def by (blast intro: grows_trans)

section \<open>Frames\<close>

text \<open>The part of the state the invariant and the order look at.\<close>

definition view where
  "view s = (checks s, checkList s, validCheckList s, validCheck s, nominatedCheck s, localCandidates s,
     remoteCandidates s, cands s, completeResult s, out s, msg2Check s)"

lemma view_advances: "view s = view s' \<Longrightarrow> advances s s'"
  by (simp add: view_def advances_def session_inv_on_def refs_ok_def component_ok_def top_of_def
      notified_ok_def notifications_def grows_def)

lemma emit_advances:
  assumes "\<not> is_notification e" and "\<And>c b. e = GoOnecheck c b \<Longrightarrow> c \<in> set (checkList s)"
  shows "advances s (emit e s)"
  using assms
  by (auto simp: advances_def emit_def session_inv_on_def refs_ok_def component_ok_def top_of_def
      notified_ok_def notifications_def grows_def)

lemma advancesI:
  assumes "session_inv s \<Longrightarrow> refs_ok s'"
    and "session_inv s \<Longrightarrow> component_ok (set (validCheckList s')) s'"
    and "session_inv s \<Longrightarrow> notified_ok s'"
    and "session_inv s \<Longrightarrow> grows s s'"
  shows "advances s s'"
  using assms by (simp add: advances_def session_inv_on_def)

lemma session_invD:
  assumes "session_inv s"
  shows "refs_ok s" "component_ok (set (validCheckList s)) s" "notified_ok s"
  using assms by (simp_all add: session_inv_on_def)

lemma completeResult_update [simp]:
  "refs_ok (s\<lparr>completeResult := r\<rparr>) = refs_ok s"
  "component_ok X (s\<lparr>completeResult := r\<rparr>) = component_ok X s"
  "notifications (s\<lparr>completeResult := r\<rparr>) = notifications s"
  by (simp_all add: refs_ok_def component_ok_def top_of_def notifications_def)

lemma changeCompleteResult_advances:
  assumes "changeCompleteResult r s = Ret s'" shows "advances s s'"
proof -
  have s': "s' = s\<lparr>completeResult := r\<rparr>" and r: "completeResult s < r"
    using assms by (auto simp: changeCompleteResult_def not_le split: if_splits)
  show ?thesis
  proof (rule advancesI)
    assume "session_inv s"
    note inv = session_invD [OF this]
    show "refs_ok s'" and "component_ok (set (validCheckList s')) s'" using inv s' by simp_all
    show "notified_ok s'"
      using inv(3) r s' by (cases "completeResult s < sessionCompleteSuccess") (auto simp: notified_ok_def)
    show "grows s s'" using r s' by (simp add: grows_def)
  qed
qed

section \<open>Checks of the check list\<close>

lemma upd_check_sel [simp]:
  "checkList (upd_check c f s) = checkList s" "validCheckList (upd_check c f s) = validCheckList s"
  "validCheck (upd_check c f s) = validCheck s" "nominatedCheck (upd_check c f s) = nominatedCheck s"
  "localCandidates (upd_check c f s) = localCandidates s" "remoteCandidates (upd_check c f s) = remoteCandidates s"
  "cands (upd_check c f s) = cands s" "completeResult (upd_check c f s) = completeResult s"
  "out (upd_check c f s) = out s" "msg2Check (upd_check c f s) = msg2Check s"
  "checkMap (upd_check c f s) = checkMap s" "role (upd_check c f s) = role s"
  "length (checks (upd_check c f s)) = length (checks s)"
  by (simp_all add: upd_check_def)

lemma the_check_upd:
  "d < length (checks s) \<Longrightarrow> the_check (upd_check c f s) d = (if d = c then f (the_check s d) else the_check s d)"
  by (simp add: upd_check_def nth_list_update)

lemma refs_ok_valid: "refs_ok s \<Longrightarrow> v \<in> set (validCheckList s) \<Longrightarrow> v < length (checks s)"
  by (auto simp: refs_ok_def)

lemma refs_ok_listed: "refs_ok s \<Longrightarrow> c \<in> set (checkList s) \<Longrightarrow> c < length (checks s) \<and> c \<notin> set (validCheckList s)"
  by (auto simp: refs_ok_def)

text \<open>A change of a check that keeps its pair keeps all references.\<close>

lemma refs_ok_upd_check:
  assumes "refs_ok s" and f: "\<And>ch. pair_of (f ch) = pair_of ch"
  shows "refs_ok (upd_check c f s)"
proof -
  have lr: "localCandidate (f ch) = localCandidate ch" "remoteCandidate (f ch) = remoteCandidate ch" for ch
    using f [of ch] by (simp_all add: pair_of_def)
  have "localCandidate ch < length (cands s) \<and> remoteCandidate ch < length (cands s)"
    if mem: "ch \<in> set (checks (upd_check c f s))" for ch
  proof -
    obtain i where i: "i < length (checks s)" and "ch = the_check (upd_check c f s) i"
      using mem by (auto simp: in_set_conv_nth)
    then have "ch = the_check s i \<or> ch = f (the_check s i)" by (simp add: the_check_upd)
    then have "localCandidate ch = localCandidate (the_check s i)" "remoteCandidate ch = remoteCandidate (the_check s i)"
      using lr by auto
    moreover have "the_check s i \<in> set (checks s)" using i by simp
    ultimately show ?thesis using assms(1) unfolding refs_ok_def by (metis (no_types))
  qed
  then show ?thesis using assms(1) by (simp add: refs_ok_def)
qed

lemma notified_ok_upd_check [simp]: "notified_ok (upd_check c f s) = notified_ok s"
  by (simp add: notified_ok_def notifications_def)

text \<open>The checks of the valid list and the component look at the valid list only.\<close>

lemma component_ok_cong:
  assumes "\<And>v. v \<in> set (validCheckList s) \<Longrightarrow> the_check s' v = the_check s v"
    and "validCheckList s' = validCheckList s" "validCheck s' = validCheck s" "nominatedCheck s' = nominatedCheck s"
    and "component_ok X s" and "X \<subseteq> set (validCheckList s)"
  shows "component_ok X s'"
proof -
  have eq: "the_check s' v = the_check s v" if "v \<in> X" for v using that assms(1,6) by blast
  have top: "top_of s' Y b" if "top_of s Y b" "Y \<subseteq> set (validCheckList s)" for Y b
    using that assms(1,2) unfolding top_of_def by (metis subsetD)
  have "{v \<in> X. nominated (the_check s' v)} = {v \<in> X. nominated (the_check s v)}" using eq by auto
  moreover have "{v \<in> X. nominated (the_check s v)} \<subseteq> set (validCheckList s)" using assms(6) by auto
  ultimately show ?thesis
    using assms(5) top [OF _ assms(6)] top [of "{v \<in> X. nominated (the_check s v)}"] assms(1-4)
    unfolding component_ok_def by simp
qed

lemma grows_upd_check:
  assumes "refs_ok s" "component_ok X s" and f: "\<And>ch. pair_of (f ch) = pair_of ch"
    and "c < length (checks s)" and "state (the_check s c) \<le> state (f (the_check s c))"
  shows "grows s (upd_check c f s)"
proof -
  have "priority (f ch) = priority ch" for ch using f [of ch] by (simp add: pair_of_def)
  then have "priority (the_check (upd_check c f s) d) = priority (the_check s d)" if "d < length (checks s)" for d
    using that by (simp add: the_check_upd)
  moreover have "d < length (checks s)" if "nominatedCheck s = Some d" for d
    using that assms(1,2) by (auto simp: component_ok_def top_of_def intro: refs_ok_valid)
  ultimately show ?thesis using assms by (simp add: grows_def the_check_upd)
qed

lemma upd_check_advances:
  assumes c: "c \<in> set (checkList s)" and f: "\<And>ch. pair_of (f ch) = pair_of ch"
    and st: "state (the_check s c) \<le> state (f (the_check s c))"
  shows "advances s (upd_check c f s)"
proof (rule advancesI)
  assume "session_inv s"
  note inv = session_invD [OF this]
  note cl = refs_ok_listed [OF inv(1) c]
  show "refs_ok (upd_check c f s)" by (rule refs_ok_upd_check [OF inv(1) f])
  show "component_ok (set (validCheckList (upd_check c f s))) (upd_check c f s)"
  proof (rule component_ok_cong)
    fix v assume "v \<in> set (validCheckList s)"
    then show "the_check (upd_check c f s) v = the_check s v"
      using cl refs_ok_valid [OF inv(1)] by (metis the_check_upd)
  qed (use inv in simp_all)
  show "notified_ok (upd_check c f s)" using inv(3) by simp
  show "grows s (upd_check c f s)" using grows_upd_check [OF inv(1,2) f _ st] cl by blast
qed

lemma finishOneCheck_advances: "finishOneCheck c s = Ret s' \<Longrightarrow> advances s s'"
  by (auto simp: finishOneCheck_def Let_def view_def intro!: view_advances split: option.splits chan.splits)

lemma chan_send_advances: "chan_send k e s = Ret s' \<Longrightarrow> advances s s'"
  by (auto simp: chan_send_def view_def intro!: view_advances split: option.splits chan.splits if_splits)

lemma chan_send_checkList: "chan_send k e s = Ret s' \<Longrightarrow> checkList s' = checkList s"
  by (auto simp: chan_send_def split: option.splits chan.splits if_splits)

lemma changeCheckState_advances:
  assumes "changeCheckState c st e s = Ret s'" and "c \<in> set (checkList s)"
  shows "advances s s'"
proof (cases "st \<le> state (the_check s c)")
  case True
  then show ?thesis using assms by (simp add: changeCheckState_def)
next
  case False
  let ?u = "upd_check c (\<lambda>ch. ch\<lparr>state := st, err := e\<rparr>) s"
  have "advances s ?u" using assms(2) False by (intro upd_check_advances) (simp_all add: pair_of_def)
  moreover have "s' = ?u \<or> finishOneCheck c ?u = Ret s'"
    using assms(1) False by (auto simp: changeCheckState_def Let_def split: if_splits)
  then have "advances ?u s'" using finishOneCheck_advances by auto
  ultimately show ?thesis by (rule advances_trans)
qed

lemma cancelOneCheck_advances:
  assumes "cancelOneCheck c s = Ret s'" and "c \<in> set (checkList s)"
  shows "advances s s'"
  using assms chan_send_advances chan_send_checkList changeCheckState_advances advances_trans
  unfolding cancelOneCheck_def go_bind_Ret_iff by metis

lemma retryOneCheck_advances: "retryOneCheck c s = Ret s' \<Longrightarrow> advances s s'"
  by (auto simp: retryOneCheck_def intro: chan_send_advances split: if_splits)

text \<open>No handler takes a check off the list.\<close>

lemma changeCheckState_checkList: "changeCheckState c st e s = Ret s' \<Longrightarrow> checkList s' = checkList s"
  by (auto simp: changeCheckState_def finishOneCheck_def Let_def split: if_splits option.splits chan.splits)

lemma cancelOneCheck_checkList: "cancelOneCheck c s = Ret s' \<Longrightarrow> checkList s' = checkList s"
  unfolding cancelOneCheck_def go_bind_Ret_iff using chan_send_checkList changeCheckState_checkList by metis

text \<open>A loop over checks of the list, whose body advances and leaves the list alone.\<close>

lemma for_checks_advances:
  assumes "for_checks cs f s = Ret s'" and "set cs \<subseteq> set (checkList s)"
    and "\<And>c s s'. f c s = Ret s' \<Longrightarrow> c \<in> set (checkList s) \<Longrightarrow> advances s s'"
    and "\<And>c s s'. f c s = Ret s' \<Longrightarrow> checkList s' = checkList s"
  shows "advances s s' \<and> checkList s' = checkList s"
  using assms(1,2)
proof (induction cs arbitrary: s)
  case (Cons c cs)
  obtain t where t: "f c s = Ret t" "for_checks cs f t = Ret s'"
    using Cons.prems(1) by (auto simp: go_bind_Ret_iff)
  then have "checkList t = checkList s" "advances s t" using Cons.prems(2) assms(3,4) by auto
  then show ?case using Cons.IH [OF t(2)] Cons.prems(2) by (auto intro: advances_trans)
qed simp

lemma unfreeze_advances: "unfreeze k c s = Ret s' \<Longrightarrow> c \<in> set (checkList s) \<Longrightarrow> advances s s'"
  by (auto simp: unfreeze_def intro: changeCheckState_advances split: if_splits)

lemma unfreeze_checkList: "unfreeze k c s = Ret s' \<Longrightarrow> checkList s' = checkList s"
  by (auto simp: unfreeze_def intro: changeCheckState_checkList split: if_splits)

lemma cancel_lower_advances: "cancel_lower k c s = Ret s' \<Longrightarrow> c \<in> set (checkList s) \<Longrightarrow> advances s s'"
  by (auto simp: cancel_lower_def intro: cancelOneCheck_advances split: if_splits)

lemma cancel_lower_checkList: "cancel_lower k c s = Ret s' \<Longrightarrow> checkList s' = checkList s"
  by (auto simp: cancel_lower_def intro: cancelOneCheck_checkList split: if_splits)

section \<open>Completion\<close>

lemma out_append_advances:
  assumes "\<And>e. e \<in> set es \<Longrightarrow> \<not> is_notification e \<and> (\<forall>c b. e \<noteq> GoOnecheck c b)"
    and "view s' = view (s\<lparr>out := out s @ es\<rparr>)"
  shows "advances s s'"
proof -
  have "filter is_notification es = []" using assms(1) by simp
  then have "advances s (s\<lparr>out := out s @ es\<rparr>)"
    using assms(1)
    by (auto simp: advances_def session_inv_on_def refs_ok_def component_ok_def top_of_def
        notified_ok_def notifications_def grows_def)
  then show ?thesis using view_advances [OF assms(2) [symmetric]] by (rule advances_trans)
qed

text \<open>The upper layer is told once: a notification comes with the step past \<open>sessionCheckComplete\<close>.\<close>

lemma notify_advances:
  assumes "advances s t" and "notifications t = notifications s"
    and "completeResult s < sessionCompleteSuccess" and "sessionCompleteSuccess \<le> completeResult t"
  shows "advances s (emit (OnIceComplete r) t)"
proof (rule advancesI)
  let ?t = "emit (OnIceComplete r) t"
  assume "session_inv s"
  then have t: "session_inv t" "grows s t" and "notified_ok s"
    using assms(1) by (auto simp: advances_def session_inv_on_def)
  note inv = session_invD [OF t(1)]
  show "refs_ok ?t" using inv(1) by (auto simp: refs_ok_def emit_def)
  show "component_ok (set (validCheckList ?t)) ?t"
    using inv(2) by (simp add: component_ok_def top_of_def emit_def)
  show "notified_ok ?t"
    using \<open>notified_ok s\<close> assms(2-4) by (simp add: notified_ok_def notifications_def emit_def)
  show "grows s ?t" using t(2) by (auto simp: grows_def emit_def prefix_def)
qed

lemma changeCompleteResult_iff:
  "changeCompleteResult r s = Ret s' \<longleftrightarrow> completeResult s < r \<and> s' = s\<lparr>completeResult := r\<rparr>"
  by (auto simp: changeCompleteResult_def not_le)

text \<open>The sockets that are closed and the end of the negotiation on a socket: nothing the invariant sees.\<close>

definition quiet :: "session \<Rightarrow> session \<Rightarrow> bool" where
  "quiet s s' \<longleftrightarrow>
     (\<exists>es. (\<forall>e\<in>set es. \<not> is_notification e \<and> (\<forall>c b. e \<noteq> GoOnecheck c b)) \<and> view s' = view (s\<lparr>out := out s @ es\<rparr>))"

lemma quiet_advances: "quiet s s' \<Longrightarrow> advances s s'"
  unfolding quiet_def by (blast intro: out_append_advances)

lemma quiet_keeps:
  assumes "quiet s s'"
  shows "notifications s' = notifications s" "completeResult s' = completeResult s" "checkList s' = checkList s"
  using assms by (auto simp: quiet_def view_def notifications_def)

lemma quiet_closeUseless: "quiet s (closeUselessServerSock order (s\<lparr>nominatedServerSock := k\<rparr>))"
  unfolding quiet_def
  by (rule exI [of _ "map (\<lambda>a. CloseSock (the (serverSocks s a))) (filter (\<lambda>a. serverSocks s a \<noteq> k) order)"])
    (auto simp: closeUselessServerSock_def Let_def view_def)

lemma quiet_trans: "quiet s t \<Longrightarrow> quiet t u \<Longrightarrow> quiet s u"
proof -
  assume "quiet s t" and "quiet t u"
  then obtain a b where "view t = view (s\<lparr>out := out s @ a\<rparr>)" "view u = view (t\<lparr>out := out t @ b\<rparr>)"
    and e: "\<forall>e\<in>set a. \<not> is_notification e \<and> (\<forall>c b. e \<noteq> GoOnecheck c b)"
      "\<forall>e\<in>set b. \<not> is_notification e \<and> (\<forall>c b. e \<noteq> GoOnecheck c b)"
    unfolding quiet_def by blast
  then have "view u = view (s\<lparr>out := out s @ (a @ b)\<rparr>)" by (simp add: view_def)
  moreover have "\<forall>e\<in>set (a @ b). \<not> is_notification e \<and> (\<forall>c b. e \<noteq> GoOnecheck c b)" using e by auto
  ultimately show ?thesis unfolding quiet_def by blast
qed

lemma quiet_finish: "quiet s (emit (FinishNegotiation sk m) s)"
  unfolding quiet_def by (rule exI [of _ "[FinishNegotiation sk m]"]) (simp add: emit_def view_def)

lemma quiet_refl: "view s = view s' \<Longrightarrow> quiet s s'"
  unfolding quiet_def by (rule exI [of _ "[]"]) (simp add: view_def)

text \<open>
  What \<open>iceComplete\<close> does: the result is raised, quiet work follows, and the upper layer may be told.
\<close>

definition raises :: "session \<Rightarrow> session \<Rightarrow> bool" where
  "raises s t \<longleftrightarrow> advances s t \<and> notifications t = notifications s \<and> checkList t = checkList s \<and>
     sessionCompleteSuccess \<le> completeResult t"

lemma changeCompleteResult_raises:
  "changeCompleteResult r s = Ret t \<Longrightarrow> sessionCompleteSuccess \<le> r \<Longrightarrow> raises s t"
  using changeCompleteResult_advances [of r s t] by (auto simp: raises_def changeCompleteResult_iff)

lemma advance_result_raises: "advance_result allc s = Ret t \<Longrightarrow> raises s t"
  by (auto simp: advance_result_def go_bind_Ret_iff raises_def result_order_defs
      dest: changeCompleteResult_raises split: if_splits)

lemma quiet_raises: "raises s t \<Longrightarrow> quiet t u \<Longrightarrow> raises s u"
  using quiet_keeps [of t u] quiet_advances [of t u] advances_trans by (simp add: raises_def) blast

lemma use_nominated_quiet: "use_nominated n allc s = Ret (b, s') \<Longrightarrow> quiet s s'"
  by (auto simp: use_nominated_def Let_def view_def
      intro: quiet_trans [OF quiet_closeUseless quiet_finish] quiet_refl
      split: option.splits sum.splits if_splits)

lemma tell_advances:
  assumes "raises s t"
  shows "advances s (if completeResult s < sessionCompleteSuccess then emit (OnIceComplete r) t else t)"
  using assms notify_advances [of s t r] by (auto simp: raises_def)

lemma iceComplete_advances:
  assumes "iceComplete n result allc s = Ret s'" shows "advances s s' \<and> checkList s' = checkList s"
proof -
  have "\<exists>t r. raises s t \<and> (s' = t \<or> s' = (if completeResult s < sessionCompleteSuccess
      then emit (OnIceComplete r) t else t))"
  proof (cases result)
    case (Some e)
    then obtain t where "changeCompleteResult sessionCompleteFailure s = Ret t"
      and "s' = (if completeResult s < sessionCompleteSuccess then emit (OnIceComplete result) t else t)"
      using assms by (auto simp: iceComplete_def Let_def go_map_Ret)
    moreover have "sessionCompleteSuccess \<le> sessionCompleteFailure" by (simp add: result_order_defs)
    ultimately show ?thesis using changeCompleteResult_raises by blast
  next
    case None
    then obtain s1 b s2 where "advance_result allc s = Ret s1" "use_nominated n allc s1 = Ret (b, s2)"
      and s': "s' = (if b then if completeResult s < sessionCompleteSuccess
                 then emit (OnIceComplete None) s2 else s2 else s2)"
      using assms by (auto simp: iceComplete_def Let_def go_map_Ret go_bind_Ret_iff)
    then have "raises s s2" using advance_result_raises use_nominated_quiet quiet_raises by blast
    then show ?thesis using s' by (cases b) auto
  qed
  then show ?thesis using tell_advances by (auto simp: raises_def emit_def)
qed

lemma tryCompleteCheck_advances:
  assumes "tryCompleteCheck n c s = Ret (b, s')" shows "advances s s' \<and> checkList s' = checkList s"
proof -
  obtain t u where t: "(if err (the_check s c) = None then for_checks (checkList s) (unfreeze c) s else Ret s) = Ret t"
    and u: "(if err (the_check t c) = None \<and> nominated (the_check t c)
             then for_checks (checkList t) (cancel_lower c) t else Ret t) = Ret u"
    and s': "(\<exists>e a. iceComplete n e a u = Ret s') \<or>
       (\<exists>v. changeCompleteResult sessionCheckComplete u = Ret v \<and> s' = emit WaitNomination v) \<or> s' = u"
    using assms by (fastforce simp: tryCompleteCheck_def go_bind_Ret_iff go_map_Ret Let_def split: if_splits)
  have "advances s t \<and> checkList t = checkList s"
    using t for_checks_advances [OF _ _ unfreeze_advances unfreeze_checkList] by (auto split: if_splits)
  moreover have "advances t u \<and> checkList u = checkList t"
    using u for_checks_advances [OF _ _ cancel_lower_advances cancel_lower_checkList] by (auto split: if_splits)
  moreover have "advances u s'"
    using s'
  proof (elim disjE exE conjE)
    fix v assume "changeCompleteResult sessionCheckComplete u = Ret v" and v: "s' = emit WaitNomination v"
    then have "advances u v" by (blast intro: changeCompleteResult_advances)
    moreover have "advances v s'" unfolding v by (rule emit_advances) simp_all
    ultimately show ?thesis by (rule advances_trans)
  qed (auto dest: iceComplete_advances)
  moreover have "checkList s' = checkList u"
    using s' iceComplete_advances by (auto simp: changeCompleteResult_iff emit_def)
  ultimately show ?thesis by (auto intro: advances_trans)
qed

lemma try_complete_advances:
  "try_complete n c s = Ret s' \<Longrightarrow> advances s s' \<and> checkList s' = checkList s"
  using tryCompleteCheck_advances by (auto simp: try_complete_def go_map_Ret)

lemma nomination_timeout_advances: "nomination_timeout n s = Ret s' \<Longrightarrow> advances s s'"
  using iceComplete_advances by (auto simp: nomination_timeout_def split: if_splits)

lemma fail_check_advances:
  assumes "fail_check n c e s = Ret s'" and "c \<in> set (checkList s)"
  shows "advances s s' \<and> checkList s' = checkList s"
  using assms try_complete_advances changeCheckState_advances changeCheckState_checkList advances_trans
  unfolding fail_check_def go_bind_Ret_iff by metis

lemma check_timed_out_advances:
  "check_timed_out n c e s = Ret s' \<Longrightarrow> c \<in> set (checkList s) \<Longrightarrow> advances s s'"
  using fail_check_advances by (auto simp: check_timed_out_def split: if_splits)

section \<open>Valid and nominated checks\<close>

lemma markValidAndNonimated_sel [simp]:
  "checks (markValidAndNonimated v s) = checks s" "checkList (markValidAndNonimated v s) = checkList s"
  "validCheckList (markValidAndNonimated v s) = validCheckList s" "cands (markValidAndNonimated v s) = cands s"
  "localCandidates (markValidAndNonimated v s) = localCandidates s"
  "remoteCandidates (markValidAndNonimated v s) = remoteCandidates s"
  "completeResult (markValidAndNonimated v s) = completeResult s" "out (markValidAndNonimated v s) = out s"
  "msg2Check (markValidAndNonimated v s) = msg2Check s"
  by (simp_all add: markValidAndNonimated_def Let_def)

text \<open>The reference to the best check, after one more check was looked at.\<close>

definition better :: "session \<Rightarrow> nat \<Rightarrow> nat option \<Rightarrow> nat option" where
  "better s v b = (case b of None \<Rightarrow> Some v
                   | Some d \<Rightarrow> if priority (the_check s d) < priority (the_check s v) then Some v else b)"

lemma markValidAndNonimated_better:
  "validCheck (markValidAndNonimated v s) = better s v (validCheck s)"
  "nominatedCheck (markValidAndNonimated v s) =
     (if nominated (the_check s v) then better s v (nominatedCheck s) else nominatedCheck s)"
  by (auto simp: markValidAndNonimated_def better_def Let_def split: option.splits)

lemma top_of_better:
  assumes "top_of s X b" and "v \<in> set (validCheckList s)"
  shows "top_of s (insert v X) (better s v b)"
  using assms unfolding top_of_def better_def
  by (auto simp: not_less split: option.splits intro: order_trans less_imp_le)

lemma better_ge: "\<exists>d. better s v b = Some d \<and> (\<forall>c. b = Some c \<longrightarrow> priority (the_check s c) \<le> priority (the_check s d))"
  by (auto simp: better_def less_imp_le split: option.splits)

lemma top_of_cong:
  "checks s' = checks s \<Longrightarrow> validCheckList s' = validCheckList s \<Longrightarrow> top_of s' X b = top_of s X b"
  by (simp add: top_of_def)

lemma component_ok_mark:
  assumes "component_ok X s" and "v \<in> set (validCheckList s)"
  shows "component_ok (insert v X) (markValidAndNonimated v s)"
proof -
  let ?N = "{v \<in> X. nominated (the_check s v)}"
  have "{w \<in> insert v X. nominated (the_check s w)} = (if nominated (the_check s v) then insert v ?N else ?N)"
    by auto
  then show ?thesis
    using assms top_of_better [OF _ assms(2)]
    unfolding component_ok_def markValidAndNonimated_better
    by (auto simp: top_of_cong [of "markValidAndNonimated v s" s])
qed

lemma mark_restores:
  assumes inv: "session_inv_on X s" and v: "v \<in> set (validCheckList s)"
    and X: "set (validCheckList s) \<subseteq> insert v X"
  shows "session_inv (markValidAndNonimated v s) \<and> grows s (markValidAndNonimated v s)"
proof -
  let ?m = "markValidAndNonimated v s"
  have "component_ok (insert v X) ?m"
    using inv v by (simp add: session_inv_on_def component_ok_mark)
  then have "component_ok (set (validCheckList s)) ?m"
    using X unfolding component_ok_def top_of_def by (auto 0 3)
  moreover have "refs_ok ?m" "notified_ok ?m"
    using inv by (simp_all add: session_inv_on_def refs_ok_def notified_ok_def notifications_def)
  moreover have "grows s ?m"
    unfolding grows_def markValidAndNonimated_better using better_ge [of s v "nominatedCheck s"] by auto
  ultimately show ?thesis by (simp add: session_inv_on_def)
qed

text \<open>A valid check may change its flag when it is then marked.\<close>

lemma flag_inv_on:
  assumes inv: "session_inv s" and v: "v \<in> set (validCheckList s)"
  shows "session_inv_on (set (validCheckList s) - {v}) (upd_check v (\<lambda>ch. ch\<lparr>nominated := b\<rparr>) s) \<and>
    grows s (upd_check v (\<lambda>ch. ch\<lparr>nominated := b\<rparr>) s)"
proof -
  let ?f = "\<lambda>ch. ch\<lparr>nominated := b\<rparr> :: sessionCheck"
  let ?u = "upd_check v ?f s" and ?V = "set (validCheckList s)"
  note i = session_invD [OF inv]
  have f: "pair_of (?f ch) = pair_of ch" for ch :: sessionCheck by (simp add: pair_of_def)
  have lt: "w < length (checks s)" if "w \<in> ?V" for w using that i(1) by (rule refs_ok_valid [rotated])
  have p: "priority (the_check ?u w) = priority (the_check s w)" if "w \<in> ?V" for w
    using lt [OF that] by (simp add: the_check_upd)
  have n: "the_check ?u w = the_check s w" if "w \<in> ?V - {v}" for w
    using lt that by (auto simp: the_check_upd)
  have top: "top_of ?u Y c" if "top_of s Z c" "Y \<subseteq> Z" "Y \<subseteq> ?V" for Y Z c
    using that p unfolding top_of_def by (auto 0 3 simp: subset_eq)
  have "top_of ?u (?V - {v}) (validCheck s)" using i(2) by (intro top) (auto simp: component_ok_def)
  moreover have "{w \<in> ?V - {v}. nominated (the_check ?u w)} \<subseteq> {w \<in> ?V. nominated (the_check s w)}" using n by auto
  then have "top_of ?u {w \<in> ?V - {v}. nominated (the_check ?u w)} (nominatedCheck s)"
    using i(2) by (intro top) (auto simp: component_ok_def)
  moreover have "state (the_check ?u w) = checkStateSucced" if "w \<in> ?V" for w
    using that i(2) lt [OF that] by (auto simp: the_check_upd component_ok_def)
  ultimately have "component_ok (?V - {v}) ?u" by (simp add: component_ok_def)
  moreover have "grows s ?u" using lt [OF v] by (intro grows_upd_check [OF i(1,2) f]) auto
  ultimately show ?thesis using refs_ok_upd_check [OF i(1) f] i(3) by (simp add: session_inv_on_def)
qed

lemma flag_mark_advances:
  assumes "v \<in> set (validCheckList s)"
  shows "advances s (markValidAndNonimated v (upd_check v (\<lambda>ch. ch\<lparr>nominated := b\<rparr>) s))"
  unfolding advances_def
proof
  let ?u = "upd_check v (\<lambda>ch. ch\<lparr>nominated := b\<rparr>) s"
  assume inv: "session_inv s"
  note u = flag_inv_on [OF inv assms, of b]
  have "session_inv (markValidAndNonimated v ?u) \<and> grows ?u (markValidAndNonimated v ?u)"
    by (rule mark_restores [OF conjunct1 [OF u]]) (use assms in auto)
  then show "session_inv (markValidAndNonimated v ?u) \<and> grows s (markValidAndNonimated v ?u)"
    using u grows_trans by blast
qed

lemma nominate_valid_advances:
  assumes "set vs \<subseteq> set (validCheckList s)"
  shows "advances s (nominate_valid r vs s) \<and> checkList (nominate_valid r vs s) = checkList s"
  using assms
proof (induction vs arbitrary: s)
  case (Cons v vs)
  let ?t = "if remoteCandidate (the_check s v) = r
            then markValidAndNonimated v (upd_check v (\<lambda>ch. ch\<lparr>nominated := True\<rparr>) s) else s"
  have st: "advances s ?t" using Cons.prems flag_mark_advances by simp
  have "validCheckList ?t = validCheckList s" and ct: "checkList ?t = checkList s" by simp_all
  then have "set vs \<subseteq> set (validCheckList ?t)" using Cons.prems by simp
  note IH = Cons.IH [OF this]
  have "nominate_valid r (v # vs) s = nominate_valid r vs ?t" by (simp only: nominate_valid.simps)
  then show ?case using IH ct advances_trans [OF st conjunct1 [OF IH]] by (simp only: simp_thms)
qed simp

section \<open>New candidates and checks\<close>

lemma component_ok_frame:
  assumes "component_ok (set (validCheckList s)) s" and "refs_ok s"
    and "\<And>v. v < length (checks s) \<Longrightarrow> the_check s' v = the_check s v"
    and "validCheckList s' = validCheckList s" "validCheck s' = validCheck s" "nominatedCheck s' = nominatedCheck s"
  shows "component_ok (set (validCheckList s')) s'"
  unfolding assms(4) by (rule component_ok_cong [of s]) (use assms refs_ok_valid in auto)

lemma add_cand_advances:
  assumes "checks s' = checks s" "checkList s' = checkList s" "validCheckList s' = validCheckList s"
    "validCheck s' = validCheck s" "nominatedCheck s' = nominatedCheck s" "completeResult s' = completeResult s"
    "out s' = out s" "msg2Check s' = msg2Check s" and "cands s' = cands s @ cs"
    and "set (localCandidates s') \<union> set (remoteCandidates s') \<subseteq>
      set (localCandidates s) \<union> set (remoteCandidates s) \<union> {length (cands s)..<length (cands s) + length cs}"
  shows "advances s s'"
proof (rule advancesI)
  assume "session_inv s"
  note inv = session_invD [OF this]
  have "set (localCandidates s) \<union> set (remoteCandidates s) \<subseteq> {..<length (cands s)}"
    using inv(1) by (simp add: refs_ok_def)
  then have "set (localCandidates s') \<union> set (remoteCandidates s') \<subseteq> {..<length (cands s')}"
    using assms(9) by (intro order_trans [OF assms(10)]) auto
  then show "refs_ok s'" using inv(1) assms(1-9) by (auto simp: refs_ok_def)
  show "component_ok (set (validCheckList s')) s'"
    by (rule component_ok_frame [OF inv(2,1)]) (simp_all add: assms)
  show "notified_ok s'" using inv(3) assms by (simp add: notified_ok_def notifications_def)
  show "grows s s'" using assms by (simp add: grows_def)
qed

text \<open>A new check of the check list, not yet started.\<close>

lemma add_check_advances:
  assumes "checks s' = checks s @ [ch]" "checkList s' = checkList s @ [length (checks s)]"
    "validCheckList s' = validCheckList s" "validCheck s' = validCheck s" "nominatedCheck s' = nominatedCheck s"
    "completeResult s' = completeResult s" "out s' = out s" "msg2Check s' = msg2Check s" "cands s' = cands s"
    "localCandidates s' = localCandidates s" "remoteCandidates s' = remoteCandidates s"
    and "localCandidate ch < length (cands s)" "remoteCandidate ch < length (cands s)"
  shows "advances s s'"
proof (rule advancesI)
  assume "session_inv s"
  note inv = session_invD [OF this]
  have "length (checks s) \<notin> set (validCheckList s)" using inv(1) by (auto simp: refs_ok_def)
  then show "refs_ok s'" using inv(1) assms unfolding refs_ok_def by auto
  show "component_ok (set (validCheckList s')) s'"
    by (rule component_ok_frame [OF inv(2,1)]) (simp_all add: assms nth_append)
  show "notified_ok s'" using inv(3) assms by (simp add: notified_ok_def notifications_def)
  have "d < length (checks s)" if "nominatedCheck s = Some d" for d
    using that inv by (auto simp: component_ok_def top_of_def intro: refs_ok_valid)
  then show "grows s s'" using assms by (auto simp: grows_def nth_append)
qed

text \<open>A new check of the valid list.\<close>

lemma add_valid_inv_on:
  assumes inv: "session_inv s"
    and s': "checks s' = checks s @ [ch]" "checkList s' = checkList s"
    "set (validCheckList s') = insert (length (checks s)) (set (validCheckList s))" "validCheck s' = validCheck s"
    "nominatedCheck s' = nominatedCheck s"
    "completeResult s' = completeResult s" "out s' = out s" "msg2Check s' = msg2Check s" "cands s' = cands s"
    "localCandidates s' = localCandidates s" "remoteCandidates s' = remoteCandidates s"
    and ch: "localCandidate ch < length (cands s)" "remoteCandidate ch < length (cands s)" "state ch = checkStateSucced"
  shows "session_inv_on (set (validCheckList s)) s' \<and> grows s s'"
proof -
  let ?V = "set (validCheckList s)"
  note i = session_invD [OF inv]
  have lt: "v < length (checks s)" if "v \<in> ?V" for v using that i(1) by (rule refs_ok_valid [rotated])
  then have eq: "the_check s' v = the_check s v" if "v \<in> ?V" for v using that s'(1) by (simp add: nth_append)
  have top: "top_of s' Y b" if "top_of s Y b" "Y \<subseteq> ?V" for Y b
    using that eq s'(3) unfolding top_of_def by (auto 0 3 simp: subset_eq)
  have "{w \<in> ?V. nominated (the_check s' w)} = {w \<in> ?V. nominated (the_check s w)}" using eq by auto
  moreover have "state (the_check s' v) = checkStateSucced" if "v \<in> set (validCheckList s')" for v
    using that s'(1,3) ch(3) i(2) eq by (cases "v \<in> ?V") (auto simp: component_ok_def)
  ultimately have "component_ok ?V s'"
    using i(2) top [of ?V] top [of "{w \<in> ?V. nominated (the_check s w)}"] s'(4,5) by (simp add: component_ok_def)
  moreover have "length (checks s) \<notin> set (checkList s)" using i(1) by (auto simp: refs_ok_def)
  then have "refs_ok s'" using i(1) s' ch(1,2) unfolding refs_ok_def by auto
  moreover have "d < length (checks s)" if "nominatedCheck s = Some d" for d
    using that i lt by (auto simp: component_ok_def top_of_def)
  then have "grows s s'" using s' by (auto simp: grows_def nth_append)
  ultimately show ?thesis using i(3) s' by (simp add: session_inv_on_def notified_ok_def notifications_def)
qed

section \<open>Incoming checks\<close>

lemma advances_assume: "(session_inv s \<Longrightarrow> advances s s') \<Longrightarrow> advances s s'"
  by (auto simp: advances_def)

lemma find_cand_mem: "find_cand a s is = Some i \<Longrightarrow> i \<in> set is"
  by (induction a s "is" rule: find_cand.induct) (auto split: if_splits)

lemma find_check_mem: "find_check l r s cs = Some c \<Longrightarrow> c \<in> set cs"
  by (induction l r s cs rule: find_check.induct) (auto split: if_splits)

lemma local_for_mem: "local_for a b s is = Some i \<Longrightarrow> i \<in> set is"
  by (induction a b s "is" rule: local_for.induct) (auto split: if_splits)

lemma refs_ok_pair:
  assumes "refs_ok s" and "c \<in> set (checkList s)"
  shows "localCandidate (the_check s c) < length (cands s)" "remoteCandidate (the_check s c) < length (cands s)"
  using assms by (auto simp: refs_ok_def subset_eq)

lemma go_onecheck_advances:
  assumes "changeCheckState c st e s = Ret t" and "c \<in> set (checkList s)"
  shows "advances s (emit (GoOnecheck c b) t)"
proof -
  have "c \<in> set (checkList t)" using changeCheckState_checkList [OF assms(1)] assms(2) by simp
  then have "advances t (emit (GoOnecheck c b) t)" by (intro emit_advances) auto
  then show ?thesis using changeCheckState_advances [OF assms] advances_trans by blast
qed

lemma triggered_known_advances:
  assumes "triggered_known n rx c s = Ret s'" and c: "c \<in> set (checkList s)"
  shows "advances s s'"
proof -
  define u where "u = upd_check c (\<lambda>ch. ch\<lparr>nominated := userCandidate rx \<or> nominated ch\<rparr>) s"
  define v where "v = (if userCandidate rx
    then nominate_valid (remoteCandidate (the_check u c)) (validCheckList u) u else u)"
  have su: "advances s u" unfolding u_def using c by (intro upd_check_advances) (simp_all add: pair_of_def)
  have uv: "advances u v" using nominate_valid_advances [of "validCheckList u" u] by (simp add: v_def)
  have cu: "c \<in> set (checkList u)" using c by (simp add: u_def)
  have eq: "triggered_known n rx c s =
    (if state (the_check u c) = checkStateFrozen \<or> state (the_check u c) = checkStateWaiting then
       (if Mapping.lookup (checkMap u) (key (the_check u c)) = None then Panic (ExplicitPanic ''must ...'')
        else go_map (\<lambda>s. emit (GoOnecheck c (nominated (the_check u c) \<or> isNominating s)) s)
               (changeCheckState c checkStateInProgress None u))
     else if state (the_check u c) = checkStateInProgress then retryOneCheck c u
     else if state (the_check u c) = checkStateSucced then try_complete n c v
     else Ret u)"
    unfolding triggered_known_def u_def v_def Let_def by (rule refl)
  note run = assms(1) [unfolded eq]
  have first: "advances u s'" if st: "state (the_check u c) = checkStateFrozen \<or> state (the_check u c) = checkStateWaiting"
  proof -
    obtain t b where "changeCheckState c checkStateInProgress None u = Ret t" "s' = emit (GoOnecheck c b) t"
      using run st by (simp add: go_map_Ret split: if_splits) blast
    then show ?thesis using go_onecheck_advances cu by simp
  qed
  have last: "advances u s'" if "try_complete n c v = Ret s'"
    using uv try_complete_advances [OF that] advances_trans by blast
  have "advances u s'"
  proof (cases "state (the_check u c)")
    case checkStateInProgress
    then show ?thesis using run retryOneCheck_advances by simp
  qed (use run first last in simp_all)
  with su show ?thesis by (rule advances_trans)
qed

lemma triggered_new_advances:
  assumes "l < length (cands s)" "r < length (cands s)"
  shows "advances s (triggered_new rx l r s)"
proof -
  obtain ch t where t: "triggered_new rx l r s = emit (GoOnecheck (length (checks s)) (userCandidate rx \<or> isNominating t)) t"
    and "checks t = checks s @ [ch]" "checkList t = checkList s @ [length (checks s)]"
      "validCheckList t = validCheckList s" "validCheck t = validCheck s" "nominatedCheck t = nominatedCheck s"
      "completeResult t = completeResult s" "out t = out s" "msg2Check t = msg2Check s" "cands t = cands s"
      "localCandidates t = localCandidates s" "remoteCandidates t = remoteCandidates s"
      "localCandidate ch = l" "remoteCandidate ch = r"
    unfolding triggered_new_def new_check_def Let_def by fastforce
  then have "advances s t" using assms by (intro add_check_advances) auto
  moreover have "advances t (triggered_new rx l r s)"
    unfolding t by (intro emit_advances) (use \<open>checkList t = _\<close> in auto)
  ultimately show ?thesis by (rule advances_trans)
qed

text \<open>
  The remote candidate of a request, known or learnt, and the session with it.
\<close>

abbreviation with_peer :: "rxCheck \<Rightarrow> session \<Rightarrow> session" where
  "with_peer rx s \<equiv> s\<lparr>cands := cands s @ [peer_candidate rx], remoteCandidates := remoteCandidates s @ [length (cands s)]\<rparr>"

definition learn_peer :: "rxCheck \<Rightarrow> session \<Rightarrow> nat \<times> session" where
  "learn_peer rx s =
     (case find_cand (remoteAddress rx) s (remoteCandidates s) of
        Some r \<Rightarrow> (r, s) | None \<Rightarrow> (length (cands s), with_peer rx s))"

lemma handleIncomingCheck_cases:
  assumes "handleIncomingCheck n rx s = Ret s'" and "learn_peer rx s = (r, t)"
  obtains "s' = s"
    | l c where "find_check l r t (checkList t) = Some c" "triggered_known n rx c t = Ret s'"
    | l where "find_cand (localAddress rx) t (localCandidates t) = Some l" "s' = triggered_new rx l r t"
proof -
  let ?go = "case find_cand (localAddress rx) t (localCandidates t) of
      None \<Rightarrow> Panic NilDereference
    | Some l \<Rightarrow> (case find_check l r t (checkList t) of
         Some c \<Rightarrow> triggered_known n rx c t | None \<Rightarrow> Ret (triggered_new rx l r t))"
  have "s' = s \<or> ?go = Ret s'"
  proof (cases "find_cand (remoteAddress rx) s (remoteCandidates s)")
    case None
    then have rt: "r = length (cands s)" "t = with_peer rx s" using assms(2) by (auto simp: learn_peer_def)
    show ?thesis using assms(1) None unfolding rt
      by (simp add: handleIncomingCheck_def Let_def new_cand_def split: if_splits)
  next
    case (Some k)
    then have rt: "r = k" "t = s" using assms(2) by (simp_all add: learn_peer_def)
    show ?thesis using assms(1) Some unfolding rt by (simp add: handleIncomingCheck_def Let_def)
  qed
  then show thesis using that by (auto split: option.splits)
qed

lemma handleIncomingCheck_advances:
  assumes "handleIncomingCheck n rx s = Ret s'" shows "advances s s'"
proof (rule advances_assume)
  assume inv: "session_inv s"
  obtain r t where rt: "learn_peer rx s = (r, t)" by fastforce
  have st: "advances s t" and "r \<in> set (remoteCandidates t)"
    using rt by (auto simp: learn_peer_def split: option.splits intro!: add_cand_advances dest: find_cand_mem)
  then have "refs_ok t" using inv by (auto simp: advances_def session_inv_on_def)
  then have r: "r < length (cands t)" using \<open>r \<in> _\<close> by (auto simp: refs_ok_def)
  from assms rt show "advances s s'"
  proof (cases rule: handleIncomingCheck_cases)
    case 2
    then show ?thesis using st triggered_known_advances find_check_mem advances_trans by blast
  next
    case (3 l)
    then have "l < length (cands t)" using \<open>refs_ok t\<close> by (auto simp: refs_ok_def dest!: find_cand_mem)
    then show ?thesis using 3 st triggered_new_advances r advances_trans by blast
  qed simp
qed

section \<open>Check responses\<close>

lemma valid_pair_mark_advances:
  assumes vp: "valid_pair l c s = (v, s1)" and l: "l < length (cands s)" and c: "c \<in> set (checkList s)"
  shows "advances s (markValidAndNonimated v s1)"
proof (cases "find_check l (remoteCandidate (the_check s c)) s (validCheckList s)")
  case (Some w)
  then have "v = w" "s1 = upd_check w (\<lambda>x. x\<lparr>nominated := nominated (the_check s c)\<rparr>) s"
    using vp by (auto simp: valid_pair_def Let_def)
  then show ?thesis using flag_mark_advances find_check_mem [OF Some] by simp
next
  case None
  define ch where "ch = \<lparr>localCandidate = l, remoteCandidate = remoteCandidate (the_check s c),
    key = check_key (the_cand s l) (the_cand s (remoteCandidate (the_check s c))),
    priority = calcPairPriority (role s) (the_cand s l) (the_cand s (remoteCandidate (the_check s c))),
    state = checkStateSucced, nominated = nominated (the_check s c), err = None\<rparr>"
  define vl where "vl = sort_checks (checks s @ [ch]) (validCheckList s @ [length (checks s)])"
  have v: "v = length (checks s)" and s1: "s1 = s\<lparr>checks := checks s @ [ch], validCheckList := vl\<rparr>"
    using vp None by (auto simp: valid_pair_def Let_def new_check_def ch_def vl_def)
  have vl: "set vl = insert (length (checks s)) (set (validCheckList s))"
    using sort_checks_perm [of "checks s @ [ch]" "validCheckList s @ [length (checks s)]"]
    by (metis vl_def Un_insert_right list.simps(15) set_append set_empty2 set_mset_mset sup_bot_right)
  show ?thesis
    unfolding advances_def
  proof
    assume inv: "session_inv s"
    have r: "remoteCandidate (the_check s c) < length (cands s)"
      using refs_ok_pair(2) session_invD(1) [OF inv] c by blast
    have new: "session_inv_on (set (validCheckList s)) s1 \<and> grows s s1"
      by (rule add_valid_inv_on [OF inv, of s1 ch]) (simp_all add: s1 vl l r ch_def)
    have "session_inv (markValidAndNonimated v s1) \<and> grows s1 (markValidAndNonimated v s1)"
      by (rule mark_restores [OF conjunct1 [OF new]]) (simp_all add: s1 vl v)
    then show "session_inv (markValidAndNonimated v s1) \<and> grows s (markValidAndNonimated v s1)"
      using new grows_trans by blast
  qed
qed

lemma valid_pair_checkList: "valid_pair l c s = (v, s1) \<Longrightarrow> checkList s1 = checkList s"
  by (auto simp: valid_pair_def Let_def new_check_def split: option.splits)

text \<open>The local candidate of a response, known or learnt, and the session with it.\<close>

definition learn_local :: "string \<Rightarrow> nat \<Rightarrow> session \<Rightarrow> nat \<times> session" where
  "learn_local a check s =
     (case local_for a (baseAddr (local_of s check)) s (localCandidates s) of
        Some i \<Rightarrow> (i, s)
      | None \<Rightarrow> (length (cands s), s\<lparr>cands := cands s @ [reflexive_candidate a (local_of s check)],
                    localCandidates := localCandidates s @ [length (cands s)]\<rparr>))"

lemma check_succeeded_eq:
  "check_succeeded n check xaddr s =
     (case learn_local (addr_String xaddr) check s of (l, s) \<Rightarrow>
        case valid_pair l check s of (v, s) \<Rightarrow>
          go_bind (changeCheckState check checkStateSucced None (markValidAndNonimated v s)) (try_complete n check))"
  by (simp add: check_succeeded_def learn_local_def new_cand_def Let_def split: option.splits)

lemma check_succeeded_advances:
  assumes "check_succeeded n c x s = Ret s'" and c: "c \<in> set (checkList s)"
  shows "advances s s'"
proof (rule advances_assume)
  assume inv: "session_inv s"
  obtain l t where lt: "learn_local (addr_String x) c s = (l, t)" by fastforce
  obtain v u where vu: "valid_pair l c t = (v, u)" by fastforce
  obtain w where w: "changeCheckState c checkStateSucced None (markValidAndNonimated v u) = Ret w"
    and s': "try_complete n c w = Ret s'"
    using assms(1) lt vu by (auto simp: check_succeeded_eq go_bind_Ret_iff)
  have st: "advances s t" and ct: "checkList t = checkList s" and "l \<in> set (localCandidates t)"
    using lt by (auto simp: learn_local_def split: option.splits intro!: add_cand_advances dest: local_for_mem)
  have "refs_ok t" using st inv by (auto simp: advances_def session_inv_on_def)
  then have "l < length (cands t)" using \<open>l \<in> _\<close> by (auto simp: refs_ok_def)
  then have "advances t (markValidAndNonimated v u)" using valid_pair_mark_advances [OF vu] c ct by simp
  moreover have "c \<in> set (checkList (markValidAndNonimated v u))"
    using valid_pair_checkList [OF vu] ct c by simp
  then have "advances (markValidAndNonimated v u) w" using changeCheckState_advances [OF w] by blast
  ultimately show "advances s s'" using st try_complete_advances [OF s'] advances_trans by blast
qed

lemma error_response_advances:
  assumes "error_response n c res s = Ret s'" and "c \<in> set (checkList s)"
  shows "advances s s'"
proof -
  have v: "advances s (s\<lparr>role := r\<rparr>)" for r by (rule view_advances) (simp add: view_def)
  consider e where "fail_check n c e s = Ret s'" | t where "retryOneCheck c t = Ret s'" "advances s t"
    using assms(1) v by (force simp: error_response_def go_bind_Ret_iff split: if_splits)
  then show ?thesis
    using fail_check_advances assms(2) retryOneCheck_advances advances_trans by cases blast+
qed

lemma check_credentials_advances:
  assumes "check_credentials n c res s = Ret s'" and "c \<in> set (checkList s)"
  shows "advances s s' \<and> checkList s' = checkList s"
  using assms fail_check_advances by (auto simp: check_credentials_def go_bind_Ret_iff split: if_splits)

lemma handleCheckResponse_advances:
  assumes "handleCheckResponse n past c from res s = Ret s'" and c: "c \<in> set (checkList s)"
  shows "advances s s'"
proof -
  consider "s' = s" | "error_response n c res s = Ret s'"
    | t e x where "check_credentials n c res s = Ret t" "fail_check n c e t = Ret s' \<or> check_succeeded n c x t = Ret s'"
    using assms(1) by (fastforce simp: handleCheckResponse_def go_bind_Ret_iff split: if_splits)
  then show ?thesis
  proof cases
    case (3 t e x)
    then have "advances s t" "c \<in> set (checkList t)" using check_credentials_advances c by auto
    then show ?thesis using 3(2) fail_check_advances check_succeeded_advances advances_trans by blast
  qed (use c error_response_advances in auto)
qed

lemma processBindingResponse_advances:
  assumes "processBindingResponse n past la ra m s = Ret s'" shows "advances s s'"
proof (rule advances_assume)
  assume "session_inv s"
  then have "ran (msg2Check s) \<subseteq> set (checkList s)" using session_invD(1) unfolding refs_ok_def by blast
  then have "c \<in> set (checkList s)" if "msg2Check s tid = Some c" for c tid
    using that ranI by fastforce
  then show "advances s s'"
    using assms handleCheckResponse_advances
    by (auto simp: processBindingResponse_def getMsgCheck_def split: option.splits if_splits)
qed

section \<open>Binding requests\<close>

lemma sendResponse_advances: "sendResponse la fa req code s = Ret s' \<Longrightarrow> advances s s'"
proof -
  have "advances s t" if "send_built must setters sc la fa s = Ret t" for must setters sc t
    using that emit_advances [of "SendStun _ _ la fa" s]
    by (auto simp: send_built_def go_bind_Ret_iff split: if_splits option.splits)
  then show "sendResponse la fa req code s = Ret s' \<Longrightarrow> advances s s'"
    by (auto simp: sendResponse_def Let_def split: sum.splits if_splits)
qed

lemma accept_request_advances:
  assumes "accept_request n la fa req u rx s = Ret s'" shows "advances s s'"
proof -
  obtain t where t: "sendResponse la fa req 0 s = Ret t" and
    s': "s' = t \<or> view s' = view t \<or> (\<exists>rx w. view w = view t \<and> handleIncomingCheck n rx w = Ret s')"
    using assms by (auto simp: accept_request_def Let_def go_bind_Ret_iff view_def split: if_splits)
  then have "advances t s'"
    using view_advances [of t] handleIncomingCheck_advances advances_trans by (metis advances_refl)
  then show ?thesis using sendResponse_advances [OF t] advances_trans by blast
qed

lemma changeRole_advances: "advances s (changeRole r s)"
  by (rule view_advances) (simp add: view_def changeRole_def)

lemma changeRole_twice_advances: "advances s (changeRole r' (changeRole r s))"
  by (rule advances_trans [OF changeRole_advances changeRole_advances])

lemma authenticated_request_cases:
  assumes "authenticated_request n la fa req u prio s = Ret s'"
  obtains t code where "t = s \<or> (\<exists>r. t = changeRole r s) \<or> (\<exists>r r'. t = changeRole r' (changeRole r s))"
      "sendResponse la fa req code t = Ret s'"
  | r r' rx where "accept_request n la fa req u rx (changeRole r' (changeRole r s)) = Ret s'"
proof (cases "if Message_Contains req AttrICEControlling
    then resolve SessionRoleControlled (tie_of IceControlling_GetFrom req) s else Some (role s)")
  case None
  then have "sendResponse la fa req CodeRoleConflict s = Ret s'"
    using assms unfolding authenticated_request_def Let_def by simp
  then show thesis using that(1) by blast
next
  case (Some r)
  let ?t = "changeRole r s"
  show thesis
  proof (cases "if Message_Contains req AttrICEControlled
      then resolve SessionRoleControlling (tie_of IceControlled_GetFrom req) ?t else Some (role ?t)")
    case None
    then have "sendResponse la fa req CodeRoleConflict ?t = Ret s'"
      using assms Some unfolding authenticated_request_def Let_def by simp
    then show thesis using that(1) by blast
  next
    case (Some r')
    have "sendResponse la fa req CodeUnauthorised (changeRole r' ?t) = Ret s' \<or>
        (\<exists>rx. accept_request n la fa req u rx (changeRole r' ?t) = Ret s')"
      using assms \<open>_ = Some r\<close> Some unfolding authenticated_request_def Let_def
      by (simp only: option.case) (auto split: if_splits)
    then show thesis using that by blast
  qed
qed

lemma authenticated_request_advances:
  assumes "authenticated_request n la fa req u prio s = Ret s'" shows "advances s s'"
  using assms
proof (cases rule: authenticated_request_cases)
  case (1 t code)
  have "advances s t" using 1(1) changeRole_advances [of s] changeRole_twice_advances [of s] by auto
  then show ?thesis by (rule advances_trans) (rule sendResponse_advances [OF 1(2)])
next
  case (2 r r' rx)
  then show ?thesis by (rule advances_trans [OF changeRole_twice_advances accept_request_advances])
qed

lemma processBindingRequest_advances:
  assumes "processBindingRequest n la fa req s = Ret s'" shows "advances s s'"
  using assms sendResponse_advances authenticated_request_advances
  by (auto simp: processBindingRequest_def go_bind_Ret_iff split: if_splits)

lemma processStunMessage_advances: "processStunMessage n past la ra m s = Ret s' \<Longrightarrow> advances s s'"
  using processBindingRequest_advances processBindingResponse_advances
  by (auto simp: processStunMessage_def split: if_splits)

section \<open>Starting\<close>

lemma make_channels_view: "view (make_channels cs s) = view s"
  by (induction cs arbitrary: s) (simp_all add: view_def)

lemma first_of_foundation_advances:
  "first_of_foundation fm cs s = Ret s' \<Longrightarrow> set cs \<subseteq> set (checkList s) \<Longrightarrow>
   advances s s' \<and> checkList s' = checkList s"
proof (induction fm cs s rule: first_of_foundation.induct)
  case (2 fm c cs s)
  let ?f = "Foundation (local_of s c)"
  show ?case
  proof (cases "?f \<in> fm")
    case True
    then show ?thesis using 2 by (simp add: Let_def)
  next
    case False
    then obtain t where t: "changeCheckState c checkStateWaiting None s = Ret t"
      "first_of_foundation (insert ?f fm) cs t = Ret s'"
      using 2(3) by (auto simp: Let_def go_bind_Ret_iff)
    then have "advances s t" "checkList t = checkList s"
      using 2(4) changeCheckState_advances changeCheckState_checkList by auto
    moreover have "advances t s' \<and> checkList s' = checkList t"
      using 2(2) [OF refl False t(2)] 2(4) \<open>checkList t = checkList s\<close> by simp
    ultimately show ?thesis using advances_trans by auto
  qed
qed simp

lemma start_in_state_advances: "start_in_state st c s = Ret s' \<Longrightarrow> c \<in> set (checkList s) \<Longrightarrow> advances s s'"
  using go_onecheck_advances by (auto simp: start_in_state_def go_map_Ret split: if_splits)

lemma start_in_state_checkList: "start_in_state st c s = Ret s' \<Longrightarrow> checkList s' = checkList s"
  using changeCheckState_checkList
  by (auto simp: start_in_state_def go_map_Ret emit_def split: if_splits)

text \<open>An incoming check leaves the checks that are on the list there.\<close>

lemma early_checks_advances: "early_checks n rxs s = Ret s' \<Longrightarrow> advances s s'"
proof (induction rxs arbitrary: s)
  case (Cons rx rxs)
  then show ?case
    using handleIncomingCheck_advances advances_trans by (auto simp: go_bind_Ret_iff) blast
qed simp

lemma advances_listed: "advances s t \<Longrightarrow> session_inv s \<Longrightarrow> set (checkList s) \<subseteq> set (checkList t) \<and> session_inv t"
  by (auto simp: advances_def grows_def)

lemma allcheck_advances:
  assumes "allcheck n cs s = Ret s'" and cs: "set cs \<subseteq> set (checkList s)"
  shows "advances s s'"
proof (rule advances_assume)
  assume inv: "session_inv s"
  let ?m = "make_channels cs s"
  obtain t u v where t: "first_of_foundation {} cs ?m = Ret t" and u: "early_checks n (earlyCheckList t) t = Ret u"
    and v: "for_checks cs (start_in_state checkStateWaiting) u = Ret v"
    and s': "for_checks cs (start_in_state checkStateFrozen) v = Ret s'"
    using assms(1) by (auto simp: allcheck_def go_bind_Ret_iff)
  have m: "advances s ?m" "checkList ?m = checkList s"
    using make_channels_view [of cs s] by (auto intro: view_advances simp: view_def)
  have "advances ?m t" using first_of_foundation_advances [OF t] cs m(2) by simp
  then have su: "advances s u" using m(1) early_checks_advances [OF u] advances_trans by blast
  moreover have "advances ?m u" using \<open>advances ?m t\<close> early_checks_advances [OF u] advances_trans by blast
  then have csu: "set cs \<subseteq> set (checkList u)" using cs advances_listed [OF su inv] by blast
  have "advances u v \<and> checkList v = checkList u"
    by (rule for_checks_advances [OF v csu start_in_state_advances start_in_state_checkList])
  moreover from this have "advances v s'"
    using for_checks_advances [OF s' _ start_in_state_advances start_in_state_checkList] csu by auto
  ultimately show "advances s s'" using advances_trans by blast
qed

lemma startCheck_advances:
  assumes "startCheck n s = Ret (e, s')" shows "advances s s'"
proof -
  define t where "t = (if aggresive s \<and> role s = SessionRoleControlling then s\<lparr>isNominating := True\<rparr> else s)"
  have st: "advances s t" by (rule view_advances) (simp add: view_def t_def)
  have eq: "startCheck n s =
      (case checkList t of [] \<Rightarrow> Panic IndexOutOfRange
       | c # _ \<Rightarrow> if state (the_check t c) \<noteq> checkStateFrozen
                 then Ret (Some (Errorf ''already start another check''), t)
                 else go_map (Pair None) (allcheck n (checkList t) t))"
    unfolding startCheck_def t_def Let_def by (rule refl)
  have "s' = t \<or> allcheck n (checkList t) t = Ret s'"
    using assms [unfolded eq] by (cases "checkList t") (auto simp: go_map_Ret split: if_splits)
  then show ?thesis using st allcheck_advances [of n "checkList t" t s'] advances_trans by blast
qed

section \<open>The check list is made\<close>

lemma append_remotes_advances:
  "advances s (append_remotes cs s) \<and> checks (append_remotes cs s) = checks s \<and>
   checkList (append_remotes cs s) = checkList s \<and> msg2Check (append_remotes cs s) = msg2Check s \<and>
   out (append_remotes cs s) = out s"
proof (induction cs arbitrary: s)
  case (Cons c cs)
  let ?t = "s\<lparr>cands := cands s @ [c], remoteCandidates :=
    (if ComponentID c \<noteq> 1 then remoteCandidates s else remoteCandidates s @ [length (cands s)])\<rparr>"
  have "advances s ?t" by (rule add_cand_advances [where cs = "[c]"]) auto
  moreover have "append_remotes (c # cs) s = append_remotes cs ?t" by (simp add: new_cand_def Let_def)
  ultimately show ?case using Cons.IH [of ?t] advances_trans by auto
qed simp

lemma append_checks_advances:
  assumes "\<And>l r. (l, r) \<in> set ps \<Longrightarrow> l < length (cands s) \<and> r < length (cands s)"
  shows "advances s (append_checks ps s) \<and> msg2Check (append_checks ps s) = msg2Check s \<and>
    out (append_checks ps s) = out s"
  using assms
proof (induction ps arbitrary: s)
  case (Cons p ps)
  obtain l r where p: "p = (l, r)" by fastforce
  let ?t = "s\<lparr>checks := checks s @ [frozen_check l r s], checkList := checkList s @ [length (checks s)]\<rparr>"
  have "l < length (cands s)" "r < length (cands s)" using Cons.prems p by auto
  then have "advances s ?t"
    by (intro add_check_advances [where ch = "frozen_check l r s"]) (simp_all add: frozen_check_def)
  moreover have "append_checks (p # ps) s = append_checks ps ?t" by (simp add: p new_check_def Let_def)
  moreover have "advances ?t (append_checks ps ?t) \<and> msg2Check (append_checks ps ?t) = msg2Check ?t \<and>
      out (append_checks ps ?t) = out ?t"
    by (rule Cons.IH) (use Cons.prems in auto)
  ultimately show ?case using advances_trans by auto
qed simp

text \<open>Before the first check runs the list may be cut down.\<close>

lemma relist:
  assumes "advances s t" and "checkList s = []" "msg2Check t = msg2Check s" "out t = out s"
    and cl: "set cl \<subseteq> set (checkList t)"
  shows "advances s (t\<lparr>checkList := cl\<rparr>)"
proof (rule advancesI)
  let ?u = "t\<lparr>checkList := cl\<rparr>"
  assume inv: "session_inv s"
  then have t: "session_inv t" "grows s t" using assms(1) by (auto simp: advances_def)
  note i = session_invD [OF t(1)]
  have "ran (msg2Check t) = {}" "\<forall>c b. GoOnecheck c b \<notin> set (out t)"
    using session_invD(1) [OF inv] assms(2-4) by (auto simp: refs_ok_def)
  then show "refs_ok ?u" using i(1) cl unfolding refs_ok_def by auto
  show "component_ok (set (validCheckList ?u)) ?u" using i(2) by (simp add: component_ok_def top_of_def)
  show "notified_ok ?u" using i(3) by (simp add: notified_ok_def notifications_def)
  show "grows s ?u" using t(2) assms(2) by (simp add: grows_def)
qed

lemma createCheckList_advances:
  assumes "createCheckList sd s = (e, s')" and "checkList s = []"
  shows "advances s s'"
proof (rule advances_assume)
  assume inv: "session_inv s"
  define a where "a = s\<lparr>txUserName := sd_user sd @ '':'' @ rxUserFrag s, rxUserName := rxUserFrag s @ '':'' @ sd_user sd,
    txPassword := sd_password sd, txCrendientials := NewShortTermIntegrity (sd_password sd)\<rparr>"
  define b where "b = append_remotes (sd_candidates sd) a"
  define c where "c = append_checks [(l, r). l \<leftarrow> localCandidates b, r \<leftarrow> remoteCandidates b] b"
  have "advances s a" by (rule view_advances) (simp add: view_def a_def)
  then have sb: "advances s b" using append_remotes_advances [of a] advances_trans unfolding b_def by blast
  then have "refs_ok b" using inv by (auto simp: advances_def session_inv_on_def)
  then have "advances b c \<and> msg2Check c = msg2Check b \<and> out c = out b"
    unfolding c_def by (intro append_checks_advances) (auto simp: refs_ok_def)
  moreover have "msg2Check b = msg2Check s" "out b = out s"
    using append_remotes_advances [of a "sd_candidates sd"] by (simp_all add: b_def a_def)
  ultimately have sc: "advances s c" "msg2Check c = msg2Check s" "out c = out s"
    using sb advances_trans by auto
  have sub: "set (prune k {} (sort_checks h (checkList c))) \<subseteq> set (checkList c)" for k h
    using prune_subset sort_checks_perm [of h "checkList c"] by (metis set_mset_mset)
  have eq: "createCheckList sd s =
      (if length (sd_candidates sd) > maxCandidates then (Some errTooManyCandidates, s)
       else if checkList c = [] then (Some (Errorf ''no matched candidate found''), c)
       else (None, pruneCheckList (c\<lparr>checkList := sort_checks (checks c) (checkList c)\<rparr>)))"
    unfolding createCheckList_def Let_def c_def b_def a_def by (rule refl)
  let ?cl = "prune (\<lambda>x. prune_key (cands c) (the_check c x)) {} (sort_checks (checks c) (checkList c))"
  have "pruneCheckList (c\<lparr>checkList := sort_checks (checks c) (checkList c)\<rparr>) = c\<lparr>checkList := ?cl\<rparr>"
    by (simp add: pruneCheckList_def)
  then have "s' = s \<or> s' = c \<or> s' = c\<lparr>checkList := ?cl\<rparr>"
    using assms(1) [unfolded eq] by (simp split: if_splits)
  moreover have "advances s (c\<lparr>checkList := ?cl\<rparr>)" by (rule relist [OF sc(1) assms(2) sc(2,3) sub])
  ultimately show "advances s s'" using sc(1) advances_refl by blast
qed

section \<open>Every step\<close>

lemma refs_ok_started: "session_inv s \<Longrightarrow> GoOnecheck c b \<in> set (out s) \<Longrightarrow> c \<in> set (checkList s)"
  using session_invD(1) unfolding refs_ok_def by blast

lemma onecheck_start_advances:
  assumes "onecheck_start c b s = (sk, s')" and "c \<in> set (checkList s)"
  shows "advances s s'"
proof -
  let ?n = "upd_check c (\<lambda>ch. ch\<lparr>nominated := True\<rparr>) s"
  have "advances s ?n" using assms(2) by (intro upd_check_advances) (simp_all add: pair_of_def)
  moreover have "s' = s \<or> s' = ?n"
    using assms(1) by (auto simp: onecheck_start_def Let_def split: sum.splits if_splits)
  ultimately show ?thesis by auto
qed

lemma msg2Check_advances:
  assumes "ran m \<subseteq> set (checkList s)" and "view s' = view (s\<lparr>msg2Check := m\<rparr>)"
  shows "advances s s'"
proof -
  have "advances s (s\<lparr>msg2Check := m\<rparr>)"
    using assms(1) by (simp add: advances_def session_inv_on_def refs_ok_def component_ok_def top_of_def
        notified_ok_def notifications_def grows_def)
  then show ?thesis using view_advances [OF assms(2) [symmetric]] advances_trans by blast
qed

lemma onecheck_attempt_advances:
  assumes "onecheck_attempt sk req c s = Ret s'" and c: "c \<in> set (checkList s)"
  shows "advances s s'"
proof (rule advances_assume)
  assume "session_inv s"
  then have "ran (msg2Check s) \<subseteq> set (checkList s)" using session_invD(1) unfolding refs_ok_def by blast
  then have "ran ((msg2Check s)(msg_TransactionID req \<mapsto> c)) \<subseteq> set (checkList s)"
    using c by (auto simp: ran_def)
  then have "advances s (addMsgCheck (msg_TransactionID req) c s)"
    by (rule msg2Check_advances) (simp add: addMsgCheck_def)
  moreover have "advances t (emit (SendStun k m a b) t)" for t k m a b by (rule emit_advances) simp_all
  ultimately show "advances s s'"
    using assms(1) advances_trans by (auto simp: onecheck_attempt_def Let_def split: option.splits)
qed

lemma onecheck_end_advances: "advances s (onecheck_end req s)"
proof (rule advances_assume)
  assume "session_inv s"
  then have "ran (msg2Check s) \<subseteq> set (checkList s)" using session_invD(1) unfolding refs_ok_def by blast
  then have "ran ((msg2Check s)(msg_TransactionID req := None)) \<subseteq> set (checkList s)"
    by (auto simp: ran_def split: if_splits)
  then show "advances s (onecheck_end req s)"
    by (rule msg2Check_advances) (simp add: onecheck_end_def deleteMsgCheck_def)
qed

lemma onecheck_receive_advances: "advances s (onecheck_receive k s)"
  by (rule view_advances) (simp add: onecheck_receive_def view_def split: option.splits chan.splits)

lemma session_Stop_advances:
  assumes "session_Stop order s = Ret s'" shows "advances s s'"
proof -
  have "view s' = view (s\<lparr>out := out s @ map (\<lambda>a. CloseSock (the (serverSocks s a)))
      (filter (\<lambda>a. serverSocks s a \<noteq> None) order)\<rparr>)"
    using assms by (auto simp: session_Stop_def Let_def view_def split: if_splits)
  then show ?thesis by (rule out_append_advances [rotated]) auto
qed

lemma session_step_advances:
  assumes "session_step s e s'" shows "advances s s'"
proof (rule advances_assume)
  assume inv: "session_inv s"
  note started = refs_ok_started [OF inv]
  from assms show "advances s s'"
  proof cases
    case (step_TryFail c b n)
    then show ?thesis using check_timed_out_advances started by blast
  next
    case (step_OnecheckStart c b sk)
    then show ?thesis using onecheck_start_advances started by blast
  next
    case (step_OnecheckAttempt c b sk req)
    then show ?thesis using onecheck_attempt_advances started by blast
  qed (auto intro: processStunMessage_advances nomination_timeout_advances onecheck_receive_advances
        onecheck_end_advances createCheckList_advances startCheck_advances session_Stop_advances)
qed

interpretation ice: monotone_machine session_step session_inv grows
  by unfold_locales (use session_step_advances grows_refl grows_trans in \<open>auto simp: advances_def\<close>)

lemma newIceSession_inv: "session_inv (newIceSession r ls frag pwd tie)"
  by (auto simp: newIceSession_def session_inv_on_def refs_ok_def component_ok_def top_of_def
      notified_ok_def notifications_def)

section \<open>What the invariant says\<close>

lemma session_inv_nominated:
  assumes "session_inv s" and "nominatedCheck s = Some d"
  shows "d \<in> set (validCheckList s)" "state (the_check s d) = checkStateSucced"
    "\<And>v. v \<in> set (validCheckList s) \<Longrightarrow> nominated (the_check s v) \<Longrightarrow>
       priority (the_check s v) \<le> priority (the_check s d)"
  using session_invD(2) [OF assms(1)] assms(2) by (auto simp: component_ok_def top_of_def)

lemma session_inv_valid:
  assumes "session_inv s" and "v \<in> set (validCheckList s)"
  shows "\<exists>d\<in>set (validCheckList s). validCheck s = Some d \<and> priority (the_check s v) \<le> priority (the_check s d)"
  using session_invD(2) [OF assms(1)] assms(2) by (auto simp: component_ok_def top_of_def)

lemma session_inv_notifications: "session_inv s \<Longrightarrow> notifications s \<le> 1"
  using session_invD(3) [of s] by (auto simp: notified_ok_def split: if_splits)

section \<open>The list that is made\<close>

lemma append_checks_spec:
  "checks (append_checks ps s) = checks s @ map (\<lambda>(l, r). frozen_check l r s) ps \<and>
   checkList (append_checks ps s) = checkList s @ [length (checks s)..<length (checks s) + length ps] \<and>
   cands (append_checks ps s) = cands s \<and> role (append_checks ps s) = role s"
proof (induction ps arbitrary: s)
  case (Cons p ps)
  obtain l r where p: "p = (l, r)" by fastforce
  let ?t = "s\<lparr>checks := checks s @ [frozen_check l r s], checkList := checkList s @ [length (checks s)]\<rparr>"
  have t: "append_checks (p # ps) s = append_checks ps ?t" by (simp add: p new_check_def Let_def)
  have "frozen_check l' r' ?t = frozen_check l' r' s" for l' r' by (simp add: frozen_check_def)
  moreover have "[n..<n + length (p # ps)] = n # [Suc n..<Suc n + length ps]" for n
    by (simp add: upt_conv_Cons del: upt_Suc)
  ultimately show ?case unfolding t using Cons.IH [of ?t] by (simp add: p del: upt_Suc)
qed simp

text \<open>
  A check list made from scratch: in the order of the priorities, without two pairs of the
  same foundation and remote address, and for each pair of candidates there is a check with its
  foundation and remote address and at least its priority.
\<close>

definition covers :: "session \<Rightarrow> nat \<Rightarrow> nat \<Rightarrow> nat \<Rightarrow> bool" where
  "covers s c l r \<longleftrightarrow>
     prune_key (cands s) (the_check s c) = itoa (Foundation (the_cand s l)) @ cd_addr (the_cand s r) \<and>
     calcPairPriority (role s) (the_cand s l) (the_cand s r) \<le> priority (the_check s c)"

lemma createCheckList_None:
  assumes "createCheckList sd s = (None, s')" and "checkList s = []"
  obtains b ps where "ps = [(l, r). l \<leftarrow> localCandidates b, r \<leftarrow> remoteCandidates b]"
    and "s' = (append_checks ps b)\<lparr>checkList :=
      prune (\<lambda>c. prune_key (cands b) (the_check (append_checks ps b) c)) {}
        (sort_checks (checks (append_checks ps b)) (checkList (append_checks ps b)))\<rparr>"
    and "checkList b = []"
proof -
  define a where "a = s\<lparr>txUserName := sd_user sd @ '':'' @ rxUserFrag s, rxUserName := rxUserFrag s @ '':'' @ sd_user sd,
    txPassword := sd_password sd, txCrendientials := NewShortTermIntegrity (sd_password sd)\<rparr>"
  define b where "b = append_remotes (sd_candidates sd) a"
  define ps where "ps = [(l, r). l \<leftarrow> localCandidates b, r \<leftarrow> remoteCandidates b]"
  let ?c = "append_checks ps b"
  have eq: "createCheckList sd s =
      (if length (sd_candidates sd) > maxCandidates then (Some errTooManyCandidates, s)
       else if checkList ?c = [] then (Some (Errorf ''no matched candidate found''), ?c)
       else (None, pruneCheckList (?c\<lparr>checkList := sort_checks (checks ?c) (checkList ?c)\<rparr>)))"
    unfolding createCheckList_def Let_def ps_def b_def a_def by (rule refl)
  have "s' = pruneCheckList (?c\<lparr>checkList := sort_checks (checks ?c) (checkList ?c)\<rparr>)"
    using assms(1) [unfolded eq] by (simp split: if_splits)
  moreover have "checkList b = []"
    using append_remotes_advances [of a "sd_candidates sd"] assms(2) by (simp add: b_def a_def)
  ultimately show thesis
    using that [OF ps_def] append_checks_spec [of ps b] by (simp add: pruneCheckList_def)
qed

lemma append_checks_lists [simp]:
  "localCandidates (append_checks ps s) = localCandidates s" "remoteCandidates (append_checks ps s) = remoteCandidates s"
  by (induction ps arbitrary: s) (auto simp: new_check_def Let_def)

lemma createCheckList_spec:
  assumes "createCheckList sd s = (None, s')" and "checkList s = []"
  shows "sorted_wrt (\<lambda>c d. priority (the_check s' d) \<le> priority (the_check s' c)) (checkList s')"
    and "distinct (map (\<lambda>c. prune_key (cands s') (the_check s' c)) (checkList s'))"
    and "\<And>l r. l \<in> set (localCandidates s') \<Longrightarrow> r \<in> set (remoteCandidates s') \<Longrightarrow> \<exists>c\<in>set (checkList s'). covers s' c l r"
    and "\<And>c. c \<in> set (checkList s') \<Longrightarrow> state (the_check s' c) = checkStateFrozen"
proof -
  obtain b ps where ps: "ps = [(l, r). l \<leftarrow> localCandidates b, r \<leftarrow> remoteCandidates b]"
    and s': "s' = (append_checks ps b)\<lparr>checkList :=
      prune (\<lambda>c. prune_key (cands b) (the_check (append_checks ps b) c)) {}
        (sort_checks (checks (append_checks ps b)) (checkList (append_checks ps b)))\<rparr>"
    and b: "checkList b = []"
    using createCheckList_None [OF assms] by blast
  let ?c = "append_checks ps b" and ?n = "length (checks b)"
  let ?k = "\<lambda>c. prune_key (cands b) (the_check ?c c)"
  let ?R = "\<lambda>c d. priority (the_check ?c d) \<le> priority (the_check ?c c)"
  let ?sl = "sort_checks (checks ?c) (checkList ?c)"
  have c: "checks ?c = checks b @ map (\<lambda>(l, r). frozen_check l r b) ps"
    "checkList ?c = [?n..<?n + length ps]" "cands ?c = cands b" "role ?c = role b"
    using append_checks_spec [of ps b] b by simp_all
  have nth: "the_check ?c (?n + i) = frozen_check (fst (ps ! i)) (snd (ps ! i)) b" if "i < length ps" for i
    using that by (simp add: c(1) nth_append split_beta)
  have sl: "set ?sl = {?n..<?n + length ps}"
    using sort_checks_perm [of "checks ?c" "checkList ?c"] c(2) by (metis set_mset_mset set_upt)
  have sorted: "sorted_wrt ?R ?sl" by (rule sort_checks_sorted)
  then show "sorted_wrt (\<lambda>c d. priority (the_check s' d) \<le> priority (the_check s' c)) (checkList s')"
    unfolding s' by (simp add: prune_sorted)
  show "distinct (map (\<lambda>c. prune_key (cands s') (the_check s' c)) (checkList s'))"
    unfolding s' using prune_distinct [of ?k "{}"] by (simp add: c(3))
  show "state (the_check s' d) = checkStateFrozen" if "d \<in> set (checkList s')" for d
  proof -
    have "d \<in> set ?sl" using that prune_subset [of ?k "{}" ?sl] unfolding s' by auto
    then obtain i where "d = ?n + i" "i < length ps" unfolding sl by (auto simp: le_iff_add)
    then show ?thesis unfolding s' using nth by (simp add: frozen_check_def)
  qed
  show "\<exists>d\<in>set (checkList s'). covers s' d l r" if l: "l \<in> set (localCandidates s')" and r: "r \<in> set (remoteCandidates s')" for l r
  proof -
    have "(l, r) \<in> set ps" using l r unfolding s' ps by auto
    then obtain i where i: "i < length ps" "ps ! i = (l, r)" by (auto simp: in_set_conv_nth)
    then have "?n + i \<in> set ?sl" unfolding sl by simp
    then obtain d where "d \<in> set (prune ?k {} ?sl)" "?k d = ?k (?n + i)" "?R d (?n + i)"
      using prune_covers [OF sorted, of "?n + i" ?k "{}"] by (auto simp: reflp_def)
    then show ?thesis
      unfolding s' covers_def using nth [OF i(1)] i(2) c(3,4)
      by (auto simp: frozen_check_def prune_key_def)
  qed
qed

end
