(* ===== verification/Ice_Completion.thy ===== *)
theory Ice_Completion
  imports Ice_Invariant
begin

text \<open>
  How a negotiation ends: the last check that finishes takes the session out of
  \<open>sessionNotComplete\<close>, what the upper layer is told, and the calls that panic instead.
\<close>

definition all_finished :: "session \<Rightarrow> bool" where
  "all_finished s \<longleftrightarrow> (\<forall>c\<in>set (checkList s). checkStateSucced \<le> state (the_check s c))"

lemma not_finished_iff:
  "list_ex (\<lambda>c. state (the_check s c) < checkStateSucced) (checkList s) \<longleftrightarrow> \<not> all_finished s"
  by (auto simp: all_finished_def list_ex_iff not_le)

section \<open>Nothing to do\<close>

lemma for_checks_idle: "(\<And>c. c \<in> set cs \<Longrightarrow> f c s = Ret s) \<Longrightarrow> for_checks cs f s = Ret s"
  by (induction cs) auto

lemma finished_idle:
  assumes "all_finished s" and "c \<in> set (checkList s)"
  shows "unfreeze k c s = Ret s" "cancel_lower k c s = Ret s"
proof -
  have "checkStateSucced \<le> state (the_check s c)" using assms by (simp add: all_finished_def)
  then show "unfreeze k c s = Ret s" "cancel_lower k c s = Ret s"
    by (auto simp: unfreeze_def cancel_lower_def state_order_defs)
qed

text \<open>The last part of \<open>tryCompleteCheck\<close>, which decides.\<close>

definition decide :: "net \<Rightarrow> session \<Rightarrow> (bool \<times> session) go" where
  "decide n s =
     (if nominatedCheck s \<noteq> None then go_map (Pair True) (iceComplete n None (all_finished s) s)
      else if all_finished s then
        (if role s = SessionRoleControlled then
           (if validCheck s = None
            then go_map (Pair True) (iceComplete n (Some (Errorf ''no valid check'')) True s)
            else go_map (\<lambda>s. (False, emit WaitNomination s)) (changeCompleteResult sessionCheckComplete s))
         else if isNominating s
         then go_map (Pair True) (iceComplete n (Some (Errorf ''controlling no nominated '')) True s)
         else Panic (ExplicitPanic ''not implemented''))
      else Ret (False, s))"

lemma tryCompleteCheck_decide:
  "tryCompleteCheck n check s =
     go_bind (if err (the_check s check) = None then for_checks (checkList s) (unfreeze check) s else Ret s)
       (\<lambda>s. go_bind (if err (the_check s check) = None \<and> nominated (the_check s check)
                     then for_checks (checkList s) (cancel_lower check) s else Ret s) (decide n))"
  unfolding tryCompleteCheck_def decide_def Let_def not_finished_iff by (simp only: not_not)

lemma tryCompleteCheck_finished: "all_finished s \<Longrightarrow> tryCompleteCheck n c s = decide n s"
  by (simp add: tryCompleteCheck_decide for_checks_idle finished_idle)

section \<open>The end is reached\<close>

lemma iceComplete_result:
  assumes "iceComplete n result allc s = Ret s'" shows "sessionCompleteSuccess \<le> completeResult s'"
proof (cases result)
  case (Some e)
  then show ?thesis
    using assms by (auto simp: iceComplete_def Let_def go_map_Ret changeCompleteResult_iff emit_def result_order_defs)
next
  case None
  then obtain s1 b s2 where "advance_result allc s = Ret s1" "use_nominated n allc s1 = Ret (b, s2)"
    and "completeResult s' = completeResult s2"
    using assms by (auto simp: iceComplete_def Let_def go_map_Ret go_bind_Ret_iff emit_def split: if_splits)
  then show ?thesis
    using advance_result_raises use_nominated_quiet quiet_keeps(2) by (metis raises_def)
qed

lemma decide_nominated:
  assumes "decide n s = Ret (b, s')" and "all_finished s" and "nominatedCheck s \<noteq> None"
  shows "b \<and> completeResult s' = sessionAllCompleteSuccess"
proof -
  obtain s1 k s2 where s1: "advance_result True s = Ret s1" "use_nominated n True s1 = Ret (k, s2)"
      "completeResult s' = completeResult s2" and b: b
    using assms by (auto simp: decide_def iceComplete_def Let_def go_map_Ret go_bind_Ret_iff emit_def split: if_splits)
  then show ?thesis
    using use_nominated_quiet [OF s1(2)] quiet_keeps(2) [of s1 s2]
    by (auto simp: advance_result_def go_bind_Ret_iff changeCompleteResult_iff split: if_splits)
qed

text \<open>Without a nominated check the decision is the valid check of a controlled agent.\<close>

lemma decide_unnominated:
  assumes "all_finished s" and "nominatedCheck s = None" and "completeResult s < sessionCheckComplete"
  shows "decide n s =
    (if role s = SessionRoleControlled \<and> validCheck s \<noteq> None
     then Ret (False, s\<lparr>completeResult := sessionCheckComplete, out := out s @ [WaitNomination]\<rparr>)
     else if role s = SessionRoleControlled
     then Ret (True, s\<lparr>completeResult := sessionCompleteFailure, out := out s @ [OnIceComplete (Some (Errorf ''no valid check''))]\<rparr>)
     else if isNominating s
     then Ret (True, s\<lparr>completeResult := sessionCompleteFailure,
            out := out s @ [OnIceComplete (Some (Errorf ''controlling no nominated ''))]\<rparr>)
     else Panic (ExplicitPanic ''not implemented''))"
  using assms
  by (auto simp: decide_def iceComplete_def changeCompleteResult_def emit_def Let_def result_order_defs)

text \<open>A failure, or the first success, is told to the upper layer.\<close>

lemma iceComplete_failure_told:
  assumes "iceComplete n (Some e) allc s = Ret s'" and "completeResult s < sessionCompleteSuccess"
  shows "out s' = out s @ [OnIceComplete (Some e)]"
  using assms by (auto simp: iceComplete_def Let_def go_map_Ret changeCompleteResult_iff emit_def)

lemma use_nominated_told:
  assumes "use_nominated n allc s = Ret (b, s')"
  shows "b \<or> (\<exists>c. nominatedCheck s = Some c \<and> cd_Type (local_of s c) = CandidateRelay \<and>
    channelBind n (cd_addr (remote_of s c)) \<noteq> None)"
proof -
  have "local_of (closeUselessServerSock o1 (s\<lparr>nominatedServerSock := k\<rparr>)) c = local_of s c"
    "remote_of (closeUselessServerSock o1 (s\<lparr>nominatedServerSock := k\<rparr>)) c = remote_of s c" for o1 k c
    by (simp_all add: closeUselessServerSock_def Let_def)
  then show ?thesis
    using assms by (auto simp: use_nominated_def Let_def split: option.splits sum.splits if_splits)
qed

lemma iceComplete_success_told:
  assumes "iceComplete n None allc s = Ret s'" and "completeResult s < sessionCompleteSuccess"
    and "\<And>a. channelBind n a = None"
  shows "\<exists>es. out s' = out s @ es @ [OnIceComplete None]"
proof -
  obtain s1 b s2 where s1: "advance_result allc s = Ret s1" and s2: "use_nominated n allc s1 = Ret (b, s2)"
    and s': "s' = (if b then emit (OnIceComplete None) s2 else s2)"
    using assms(1,2) by (auto simp: iceComplete_def Let_def go_map_Ret go_bind_Ret_iff)
  have b using use_nominated_told [OF s2] by (simp add: assms(3))
  have "out s1 = out s"
    using s1 by (auto simp: advance_result_def go_bind_Ret_iff changeCompleteResult_iff split: if_splits)
  moreover obtain es where "out s2 = out s1 @ es"
    using use_nominated_quiet [OF s2] by (auto simp: quiet_def view_def)
  ultimately show ?thesis using s' \<open>b\<close> by (simp add: emit_def)
qed

section \<open>A second end\<close>

text \<open>
  A controlled agent that waits for its nomination and is asked once more, by a request that
  nominates nothing, to complete.
\<close>

lemma decide_waits_again:
  assumes "all_finished s" and "role s = SessionRoleControlled" and "nominatedCheck s = None"
    and "validCheck s \<noteq> None" and "sessionCheckComplete \<le> completeResult s"
  shows "decide n s = Panic (ExplicitPanic ''complete result must increase only'')"
  using assms by (auto simp: decide_def changeCompleteResult_def)

lemma triggered_known_waits_again:
  assumes "all_finished s" and "role s = SessionRoleControlled" and "nominatedCheck s = None"
    and "validCheck s \<noteq> None" and "sessionCheckComplete \<le> completeResult s"
    and "state (the_check s c) = checkStateSucced" and "\<not> userCandidate rx" and "c < length (checks s)"
  shows "triggered_known n rx c s = Panic (ExplicitPanic ''complete result must increase only'')"
proof -
  let ?u = "upd_check c (\<lambda>ch. ch\<lparr>nominated := userCandidate rx \<or> nominated ch\<rparr>) s"
  have "(\<lambda>ch. ch\<lparr>nominated := userCandidate rx \<or> nominated ch\<rparr>) = (\<lambda>ch. ch :: sessionCheck)"
    using assms(7) by simp
  then have u: "?u = s" by (simp add: upd_check_def)
  show ?thesis
    unfolding triggered_known_def Let_def u using assms decide_waits_again [OF assms(1-5)]
    by (simp add: try_complete_def tryCompleteCheck_finished)
qed

end
