(* ===== verification/Go_Text.thy ===== *)
theory Go_Text
  imports Go_Net
begin

text \<open>
  What the SDP package uses of \<^verbatim>\<open>unicode/utf8\<close>, \<^verbatim>\<open>strings\<close>, \<^verbatim>\<open>bytes\<close> and
  \<^verbatim>\<open>strconv\<close>. Text is a list of bytes, written as characters; a \<open>rune\<close> is an \<open>int\<close>.

  \<^item> \<open>DecodeRune\<close> and \<open>EncodeRune\<close> follow the table of well-formed byte sequences: an
    ill-formed sequence decodes as U+FFFD, and a value that is no code point is encoded so.
  \<^item> \<open>TrimSpace\<close> removes the encodings of the code points of \<open>unicode.IsSpace\<close> on both
    sides. No such encoding is a proper prefix of another and continuation bytes start no
    rune, so comparing with the encodings finds what decoding the first or last rune finds.
  \<^item> \<open>split_on\<close> is \<open>Split\<close> with a separator of one byte, \<open>join_with\<close> is \<open>Join\<close>.
\<close>

section \<open>Runes\<close>

definition RuneError :: int where "RuneError = 0xFFFD"

definition code :: "char \<Rightarrow> int" where "code c = int (of_char c)"
definition chr :: "int \<Rightarrow> char" where "chr i = char_of (nat i)"

definition cont :: "int \<Rightarrow> bool" where "cont b \<longleftrightarrow> 0x80 \<le> b \<and> b \<le> 0xBF"

text \<open>The rune at the front of a byte slice.\<close>

definition DecodeRune :: "string \<Rightarrow> int" where
  "DecodeRune s =
     (case map code (take 4 s) of
        [] \<Rightarrow> RuneError
      | b0 # bs \<Rightarrow>
          if b0 < 0x80 then b0
          else if 0xC2 \<le> b0 \<and> b0 \<le> 0xDF then
            (case bs of b1 # _ \<Rightarrow> if cont b1 then (b0 - 0xC0) * 64 + (b1 - 0x80) else RuneError
             | _ \<Rightarrow> RuneError)
          else if 0xE0 \<le> b0 \<and> b0 \<le> 0xEF then
            (case bs of b1 # b2 # _ \<Rightarrow>
               if cont b1 \<and> cont b2 \<and> (b0 = 0xE0 \<longrightarrow> 0xA0 \<le> b1) \<and> (b0 = 0xED \<longrightarrow> b1 \<le> 0x9F)
               then (b0 - 0xE0) * 4096 + (b1 - 0x80) * 64 + (b2 - 0x80) else RuneError
             | _ \<Rightarrow> RuneError)
          else if 0xF0 \<le> b0 \<and> b0 \<le> 0xF4 then
            (case bs of b1 # b2 # b3 # _ \<Rightarrow>
               if cont b1 \<and> cont b2 \<and> cont b3 \<and> (b0 = 0xF0 \<longrightarrow> 0x90 \<le> b1) \<and> (b0 = 0xF4 \<longrightarrow> b1 \<le> 0x8F)
               then (b0 - 0xF0) * 262144 + (b1 - 0x80) * 4096 + (b2 - 0x80) * 64 + (b3 - 0x80)
               else RuneError
             | _ \<Rightarrow> RuneError)
          else RuneError)"

definition EncodeRune :: "int \<Rightarrow> string" where
  "EncodeRune r =
     (let r = (if r < 0 \<or> 0x10FFFF < r \<or> 0xD800 \<le> r \<and> r \<le> 0xDFFF then RuneError else r)
      in if r \<le> 0x7F then [chr r]
         else if r \<le> 0x7FF then [chr (0xC0 + r div 64), chr (0x80 + r mod 64)]
         else if r \<le> 0xFFFF then
           [chr (0xE0 + r div 4096), chr (0x80 + r div 64 mod 64), chr (0x80 + r mod 64)]
         else [chr (0xF0 + r div 262144), chr (0x80 + r div 4096 mod 64), chr (0x80 + r div 64 mod 64),
               chr (0x80 + r mod 64)])"

section \<open>White space\<close>

definition space_runes :: "string list" where
  "space_runes = map EncodeRune
     ([0x20, 0x09, 0x0A, 0x0B, 0x0C, 0x0D, 0x85, 0xA0, 0x1680] @ [0x2000..0x200A] @
      [0x2028, 0x2029, 0x202F, 0x205F, 0x3000])"

function trim_front :: "string list \<Rightarrow> string \<Rightarrow> string" where
  "trim_front seps s =
     (case find (\<lambda>e. e \<noteq> [] \<and> take (length e) s = e) seps of
        None \<Rightarrow> s
      | Some e \<Rightarrow> trim_front seps (drop (length e) s))"
  by pat_completeness auto
termination
proof (relation "measure (length \<circ> snd)")
  fix seps :: "string list" and s e :: string
  assume "find (\<lambda>e. e \<noteq> [] \<and> take (length e) s = e) seps = Some e"
  then have "e \<noteq> [] \<and> take (length e) s = e" by (auto simp: find_Some_iff)
  then have "0 < length e" "s \<noteq> []" by auto
  then show "((seps, drop (length e) s), (seps, s)) \<in> measure (length \<circ> snd)" by simp
qed simp

declare trim_front.simps [simp del]

definition TrimSpace :: "string \<Rightarrow> string" where
  "TrimSpace s = rev (trim_front (map rev space_runes) (rev (trim_front space_runes s)))"

section \<open>Splitting and joining\<close>

fun split_on :: "char \<Rightarrow> string \<Rightarrow> string list" where
  "split_on d [] = [[]]"
| "split_on d (x # xs) =
     (if x = d then [] # split_on d xs
      else case split_on d xs of [] \<Rightarrow> [[x]] | p # ps \<Rightarrow> (x # p) # ps)"

fun join_with :: "char \<Rightarrow> string list \<Rightarrow> string" where
  "join_with d [] = []"
| "join_with d [p] = p"
| "join_with d (p # q # ps) = p @ d # join_with d (q # ps)"

text \<open>\<open>strings.ToUpper\<close> on the ASCII text that \<open>IP.String\<close> gives.\<close>

definition upper_char :: "char \<Rightarrow> char" where
  "upper_char c = (if 97 \<le> code c \<and> code c \<le> 122 then chr (code c - 32) else c)"

section \<open>Laws\<close>

lemma code_chr: "0 \<le> i \<Longrightarrow> i < 256 \<Longrightarrow> code (chr i) = i"
  by (simp add: code_def chr_def nat_less_iff)

lemma code_range: "0 \<le> code c" "code c < 256"
  by (simp_all add: code_def of_char_def)

lemma chr_code [simp]: "chr (code c) = c"
  by (simp add: code_def chr_def)

lemma EncodeRune_ascii: "0 \<le> r \<Longrightarrow> r \<le> 0x7F \<Longrightarrow> EncodeRune r = [chr r]"
  by (simp add: EncodeRune_def)

lemma DecodeRune_ascii: "0 \<le> r \<Longrightarrow> r \<le> 0x7F \<Longrightarrow> DecodeRune (chr r # s) = r"
  by (simp add: DecodeRune_def code_chr)

definition valid_rune :: "int \<Rightarrow> bool" where
  "valid_rune r \<longleftrightarrow> 0 \<le> r \<and> r \<le> 0x10FFFF \<and> \<not> (0xD800 \<le> r \<and> r \<le> 0xDFFF)"

text \<open>The bytes of a rune, as functions of its groups of six bits.\<close>

lemma decode_2:
  "2 \<le> x \<Longrightarrow> x \<le> 31 \<Longrightarrow> 0 \<le> y \<Longrightarrow> y < 64 \<Longrightarrow>
   DecodeRune (chr (0xC0 + x) # chr (0x80 + y) # s) = x * 64 + y"
  by (simp add: DecodeRune_def code_chr cont_def)

lemma decode_3:
  "0 \<le> x \<Longrightarrow> x \<le> 15 \<Longrightarrow> 0 \<le> y \<Longrightarrow> y < 64 \<Longrightarrow> 0 \<le> z \<Longrightarrow> z < 64 \<Longrightarrow> (x = 0 \<longrightarrow> 32 \<le> y) \<Longrightarrow> (x = 13 \<longrightarrow> y \<le> 31) \<Longrightarrow>
   DecodeRune (chr (0xE0 + x) # chr (0x80 + y) # chr (0x80 + z) # s) = x * 4096 + y * 64 + z"
  by (simp add: DecodeRune_def code_chr cont_def)

lemma decode_4:
  "0 \<le> w \<Longrightarrow> w \<le> 4 \<Longrightarrow> 0 \<le> x \<Longrightarrow> x < 64 \<Longrightarrow> 0 \<le> y \<Longrightarrow> y < 64 \<Longrightarrow> 0 \<le> z \<Longrightarrow> z < 64 \<Longrightarrow>
   (w = 0 \<longrightarrow> 16 \<le> x) \<Longrightarrow> (w = 4 \<longrightarrow> x \<le> 15) \<Longrightarrow>
   DecodeRune (chr (0xF0 + w) # chr (0x80 + x) # chr (0x80 + y) # chr (0x80 + z) # s) =
     w * 262144 + x * 4096 + y * 64 + z"
  by (simp add: DecodeRune_def code_chr cont_def)

lemma six_bit_groups:
  "r div 4096 * 4096 + r div 64 mod 64 * 64 + r mod 64 = (r :: int)"
  "r div 262144 * 262144 + r div 4096 mod 64 * 4096 + r div 64 mod 64 * 64 + r mod 64 = (r :: int)"
proof -
  have "r div 4096 = r div 64 div 64" "r div 262144 = r div 4096 div 64"
    using zdiv_zmult2_eq [of 64 r 64] zdiv_zmult2_eq [of 64 r 4096] by simp_all
  then have "r div 64 = r div 4096 * 64 + r div 64 mod 64" "r div 4096 = r div 262144 * 64 + r div 4096 mod 64"
    using div_mult_mod_eq [of "r div 64" 64] div_mult_mod_eq [of "r div 4096" 64] by simp_all
  moreover have "r = r div 64 * 64 + r mod 64" by simp
  ultimately show "r div 4096 * 4096 + r div 64 mod 64 * 64 + r mod 64 = r"
    "r div 262144 * 262144 + r div 4096 mod 64 * 4096 + r div 64 mod 64 * 64 + r mod 64 = r"
    by linarith+
qed

lemma EncodeRune_valid:
  "valid_rune r \<Longrightarrow> EncodeRune r =
     (if r \<le> 0x7F then [chr r]
      else if r \<le> 0x7FF then [chr (0xC0 + r div 64), chr (0x80 + r mod 64)]
      else if r \<le> 0xFFFF then
        [chr (0xE0 + r div 4096), chr (0x80 + r div 64 mod 64), chr (0x80 + r mod 64)]
      else [chr (0xF0 + r div 262144), chr (0x80 + r div 4096 mod 64), chr (0x80 + r div 64 mod 64),
            chr (0x80 + r mod 64)])"
proof -
  assume "valid_rune r"
  then have "\<not> (r < 0 \<or> 0x10FFFF < r \<or> 0xD800 \<le> r \<and> r \<le> 0xDFFF)" by (auto simp: valid_rune_def)
  then show ?thesis by (simp only: EncodeRune_def Let_def if_False)
qed

lemma DecodeRune_EncodeRune:
  assumes "valid_rune r"
  shows "DecodeRune (EncodeRune r @ s) = r"
proof -
  have range: "0 \<le> r" "r \<le> 0x10FFFF" "\<not> (0xD800 \<le> r \<and> r \<le> 0xDFFF)"
    using assms by (simp_all add: valid_rune_def)
  consider (a) "r \<le> 0x7F" | (b) "0x7F < r" "r \<le> 0x7FF" | (c) "0x7FF < r" "r \<le> 0xFFFF" | (d) "0xFFFF < r"
    by linarith
  then show ?thesis
  proof cases
    case a
    then show ?thesis using range by (simp add: EncodeRune_ascii DecodeRune_ascii)
  next
    case b
    have "DecodeRune (EncodeRune r @ s) = (r div 64) * 64 + r mod 64"
      using b decode_2 [of "r div 64" "r mod 64" s] by (simp add: EncodeRune_valid [OF assms])
    then show ?thesis by simp
  next
    case c
    define x y z where "x = r div 4096" and "y = r div 64 mod 64" and "z = r mod 64"
    have r: "r = x * 4096 + y * 64 + z" unfolding x_def y_def z_def by (rule six_bit_groups(1) [symmetric])
    have bounds: "0 \<le> x" "x \<le> 15" "0 \<le> y" "y < 64" "0 \<le> z" "z < 64"
      using c unfolding x_def y_def z_def by simp_all
    have "x = 0 \<longrightarrow> 32 \<le> y" "x = 13 \<longrightarrow> y \<le> 31" using r bounds c range(3) by linarith+
    then have "DecodeRune (chr (0xE0 + x) # chr (0x80 + y) # chr (0x80 + z) # s) = r"
      using decode_3 [OF bounds] r by simp
    then show ?thesis using c unfolding x_def y_def z_def by (simp add: EncodeRune_valid [OF assms])
  next
    case d
    define w x y z where "w = r div 262144" and "x = r div 4096 mod 64" and "y = r div 64 mod 64" and "z = r mod 64"
    have r: "r = w * 262144 + x * 4096 + y * 64 + z" unfolding w_def x_def y_def z_def by (rule six_bit_groups(2) [symmetric])
    have bounds: "0 \<le> w" "w \<le> 4" "0 \<le> x" "x < 64" "0 \<le> y" "y < 64" "0 \<le> z" "z < 64"
      using d range(2) unfolding w_def x_def y_def z_def by simp_all
    have "w = 0 \<longrightarrow> 16 \<le> x" "w = 4 \<longrightarrow> x \<le> 15" using r bounds d range(2) by linarith+
    then have "DecodeRune (chr (0xF0 + w) # chr (0x80 + x) # chr (0x80 + y) # chr (0x80 + z) # s) = r"
      using decode_4 [OF bounds] r by simp
    then show ?thesis using d unfolding w_def x_def y_def z_def by (simp add: EncodeRune_valid [OF assms])
  qed
qed

lemma EncodeRune_bytes:
  assumes "valid_rune r" and "0x7F < r" and "c \<in> set (EncodeRune r)"
  shows "0x80 \<le> code c"
proof -
  have "r div 262144 \<le> 15" "r \<le> 0xFFFF \<longrightarrow> r div 4096 \<le> 15" "r \<le> 0x7FF \<longrightarrow> r div 64 \<le> 31"
    using assms(1) unfolding valid_rune_def by linarith+
  then show ?thesis
    using assms(2,3) assms(1) [unfolded valid_rune_def]
    by (auto simp: EncodeRune_valid [OF assms(1)] code_chr split: if_splits)
qed

lemma EncodeRune_nonempty [simp]: "EncodeRune r \<noteq> []"
  by (simp add: EncodeRune_def Let_def)

text \<open>Trimming stops at once where no separator is found.\<close>

lemma trim_front_none:
  assumes "\<And>e. e \<in> set seps \<Longrightarrow> e \<noteq> [] \<Longrightarrow> take (length e) s \<noteq> e"
  shows "trim_front seps s = s"
proof -
  have "find (\<lambda>e. e \<noteq> [] \<and> take (length e) s = e) seps = None" using assms by (auto simp: find_None_iff)
  then show ?thesis by (subst trim_front.simps) simp
qed

definition is_space_rune :: "int \<Rightarrow> bool" where
  "is_space_rune r \<longleftrightarrow> EncodeRune r \<in> set space_runes"

lemma space_runes_valid: "e \<in> set space_runes \<Longrightarrow> \<exists>q. e = EncodeRune q \<and> valid_rune q \<and> q \<noteq> 61"
  unfolding space_runes_def valid_rune_def by auto

lemma trim_front_rune:
  assumes "valid_rune r" and "\<not> is_space_rune r"
  shows "trim_front space_runes (EncodeRune r @ s) = EncodeRune r @ s"
proof (rule trim_front_none)
  fix e
  assume e: "e \<in> set space_runes"
  then obtain q where q: "e = EncodeRune q" "valid_rune q" using space_runes_valid by blast
  show "take (length e) (EncodeRune r @ s) \<noteq> e"
  proof
    assume "take (length e) (EncodeRune r @ s) = e"
    then have "EncodeRune r @ s = EncodeRune q @ drop (length e) (EncodeRune r @ s)"
      using q(1) append_take_drop_id by metis
    then have "r = q" using DecodeRune_EncodeRune assms(1) q(2) by metis
    with e q(1) assms(2) show False by (simp add: is_space_rune_def)
  qed
qed

definition ends_in_space :: "string \<Rightarrow> bool" where
  "ends_in_space s \<longleftrightarrow> list_ex (\<lambda>e. take (length e) (rev s) = rev e) space_runes"

lemma space_rune_no_eq: "e \<in> set space_runes \<Longrightarrow> CHR ''='' \<notin> set e"
proof
  assume e: "e \<in> set space_runes" "CHR ''='' \<in> set e"
  then obtain q where q: "e = EncodeRune q" "valid_rune q" "q \<noteq> 61" using space_runes_valid by blast
  show False
  proof (cases "q \<le> 0x7F")
    case True
    then have "e = [chr q]" "0 \<le> q" using q by (simp_all add: EncodeRune_ascii valid_rune_def)
    then have "code (CHR ''='') = q" using e(2) True by (simp add: code_chr)
    then show False using q(3) by (simp add: code_def)
  next
    case False
    then show False using EncodeRune_bytes [of q "CHR ''=''"] e(2) q by (simp add: code_def)
  qed
qed

lemma TrimSpace_line:
  assumes "valid_rune r" and "\<not> is_space_rune r" and "\<not> ends_in_space v"
  shows "TrimSpace (EncodeRune r @ CHR ''='' # v) = EncodeRune r @ CHR ''='' # v"
proof -
  let ?l = "EncodeRune r @ CHR ''='' # v"
  have "trim_front (map rev space_runes) (rev ?l) = rev ?l"
  proof (rule trim_front_none)
    fix e assume "e \<in> set (map rev space_runes)"
    then obtain f where f: "f \<in> set space_runes" "e = rev f" by auto
    show "take (length e) (rev ?l) \<noteq> e"
    proof
      assume a: "take (length e) (rev ?l) = e"
      show False
      proof (cases "length f \<le> length v")
        case True
        then have "take (length f) (rev v) = rev f" using a f(2) by simp
        then show False using assms(3) f(1) by (auto simp: ends_in_space_def list_ex_iff)
      next
        case False
        then have "CHR ''='' \<in> set (take (length e) (rev ?l))"
          using f(2) by (simp add: take_Cons')
        then have "CHR ''='' \<in> set f" unfolding a using f(2) by simp
        then show False using f(1) space_rune_no_eq by blast
      qed
    qed
  qed
  then show ?thesis using trim_front_rune [OF assms(1,2)] by (simp add: TrimSpace_def)
qed

lemma index_of_None: "index_of c s = None \<longleftrightarrow> c \<notin> set s"
  by (simp add: index_of_def)

lemma index_of_part: "c \<notin> set p \<Longrightarrow> index_of c (p @ c # s) = Some (length p)"
  by (induction p) (auto simp: index_of_def)

lemma index_of_SomeD: "index_of c s = Some i \<Longrightarrow> \<exists>p q. s = p @ c # q \<and> c \<notin> set p \<and> i = length p"
  by (metis index_of_None index_of_part option.distinct(1) option.inject split_list_first)

lemma split_on_nonempty [simp]: "split_on d s \<noteq> []"
  by (induction s) (auto split: list.splits)

lemma split_on_plain: "d \<notin> set p \<Longrightarrow> split_on d p = [p]"
  by (induction p) auto

lemma split_on_part: "d \<notin> set p \<Longrightarrow> split_on d (p @ d # s) = p # split_on d s"
  by (induction p) auto

lemma split_on_join:
  "ps \<noteq> [] \<Longrightarrow> list_all (\<lambda>p. d \<notin> set p) ps \<Longrightarrow> split_on d (join_with d ps) = ps"
  by (induction d ps rule: join_with.induct) (simp_all add: split_on_plain split_on_part)

lemma join_with_Cons: "ps \<noteq> [] \<Longrightarrow> join_with d (p # ps) = p @ d # join_with d ps"
  by (cases ps) simp_all

lemma join_split_on: "join_with d (split_on d s) = s"
proof (induction s)
  case (Cons x s)
  then show ?case by (cases "split_on d s"; cases "tl (split_on d s)") (auto simp: join_with_Cons)
qed simp

lemma split_on_parts: "list_all (\<lambda>p. d \<notin> set p) (split_on d s)"
  by (induction s) (auto split: list.splits)

end
