(* ===== verification/Go_Time.thy ===== *)
theory Go_Time
  imports Go_Text Complex_Main "HOL-Library.Log_Nat"
begin

text \<open>
  What the SDP package uses of \<^verbatim>\<open>time\<close>. A \<open>Time\<close> is a number of seconds since 1970, kept in
  64 bits, and the nanoseconds within the second; a \<open>Duration\<close> is a number of nanoseconds.
  \<open>Duration.Seconds\<close> returns a floating-point number: the sum of the seconds and of the
  fraction is rounded to 53 significant bits, ties to even, so a fraction close to one may
  count as a whole second before \<open>int\<close> truncates it. The numbers at hand are all in the
  normal range of \<open>float64\<close>.
\<close>

section \<open>Times\<close>

record Time =
  tm_unix :: u64
  tm_nsec :: nat

text \<open>\<open>time.Time{}\<close>: the first of January of the year 1.\<close>

definition zero_Time :: Time where
  "zero_Time = \<lparr>tm_unix = - 62135596800, tm_nsec = 0\<rparr>"

definition IsZero :: "Time \<Rightarrow> bool" where
  "IsZero t \<longleftrightarrow> tm_unix t = - 62135596800 \<and> tm_nsec t = 0"

definition time_Unix :: "u64 \<Rightarrow> Time" where
  "time_Unix sec = \<lparr>tm_unix = sec, tm_nsec = 0\<rparr>"

section \<open>Durations\<close>

definition time_Second :: int where "time_Second = 1000000000"
definition time_Minute :: int where "time_Minute = 60 * time_Second"

definition time_Hour :: int where "time_Hour = 60 * time_Minute"

text \<open>
  Round to nearest, ties to even, with 53 significant bits: the result of a double-precision
  operation whose exact value is \<open>x\<close>. Exponents stay far inside the range of the format.
\<close>

definition round_even :: "rat \<Rightarrow> int" where
  "round_even x =
     (let f = \<lfloor>x\<rfloor>; r = x - of_int f
      in if r < 1/2 then f else if r > 1/2 then f + 1 else if even f then f else f + 1)"

definition f64_exponent :: "rat \<Rightarrow> int" where
  "f64_exponent x =
     (if 1 \<le> \<bar>x\<bar> then int (floorlog 2 (nat \<lfloor>\<bar>x\<bar>\<rfloor>)) - 1
      else - int (floorlog 2 (nat \<lceil>1 / \<bar>x\<bar>\<rceil> - 1)))"

definition f64_ulp :: "rat \<Rightarrow> rat" where
  "f64_ulp x = (let e = f64_exponent x - 52 in if 0 \<le> e then 2 ^ nat e else 1 / 2 ^ nat (- e))"

definition f64 :: "rat \<Rightarrow> rat" where
  "f64 x = (if x = 0 then 0 else of_int (round_even (x / f64_ulp x)) * f64_ulp x)"

text \<open>\<open>float64(d / Second) + float64(d % Second)/1e9\<close>\<close>

definition Duration_Seconds :: "int \<Rightarrow> rat" where
  "Duration_Seconds d =
     f64 (f64 (of_int (go_quot d time_Second)) + f64 (f64 (of_int (go_rem d time_Second)) / 1000000000))"

definition truncate :: "rat \<Rightarrow> int" where
  "truncate y = (if y < 0 then \<lceil>y\<rceil> else \<lfloor>y\<rfloor>)"

text \<open>\<open>int(d.Seconds())\<close>\<close>

definition whole_seconds :: "int \<Rightarrow> int" where
  "whole_seconds d = truncate (Duration_Seconds d)"

section \<open>Laws\<close>

lemma round_even_of_int [simp]: "round_even (of_int i) = i"
  by (simp add: round_even_def Let_def)

text \<open>Integers below \<open>2^53\<close> are represented exactly.\<close>

lemma f64_of_int:
  assumes "\<bar>i\<bar> < 2 ^ 53"
  shows "f64 (of_int i) = of_int i"
proof (cases "i = 0")
  case False
  define e where "e = int (floorlog 2 (nat \<bar>i\<bar>)) - 1 - 52"
  have "1 \<le> \<bar>i\<bar>" using False by simp
  then have "1 \<le> \<bar>rat_of_int i\<bar>" by (simp flip: of_int_abs)
  moreover have "\<lfloor>\<bar>rat_of_int i\<bar>\<rfloor> = \<bar>i\<bar>" by (simp flip: of_int_abs)
  ultimately have exp: "f64_exponent (of_int i) - 52 = e"
    by (simp add: f64_exponent_def e_def)
  have "floorlog 2 (nat \<bar>i\<bar>) \<le> 53"
    using assms by (intro floorlog_leI) (simp_all add: nat_less_iff)
  then have "e \<le> 0" by (simp add: e_def)
  then have ulp: "f64_ulp (of_int i) = 1 / 2 ^ nat (- e)"
    by (cases "e = 0") (simp_all add: f64_ulp_def Let_def exp)
  have "(of_int i :: rat) / f64_ulp (of_int i) = of_int (i * 2 ^ nat (- e))"
    by (simp add: ulp)
  then show ?thesis
    using False by (simp only: f64_def round_even_of_int) (simp add: ulp)
qed (simp add: f64_def)

lemma go_quot_exact:
  assumes "0 < b"
  shows "go_quot (k * b) b = k" "go_rem (k * b) b = 0"
proof -
  have "sgn (k * b) * sgn b * (\<bar>k * b\<bar> div \<bar>b\<bar>) = sgn k * \<bar>k\<bar>"
    using assms by (simp add: abs_mult sgn_mult)
  then show "go_quot (k * b) b = k" by (simp add: go_quot_def mult_sgn_abs)
  then show "go_rem (k * b) b = 0" by (simp add: go_rem_def)
qed

lemma go_rem_dvd: "0 < b \<Longrightarrow> go_rem a b = 0 \<longleftrightarrow> b dvd a"
  using go_quot_exact(2) [of b] by (auto simp: go_rem_def dvd_def mult.commute)

lemma whole_seconds_exact:
  assumes "\<bar>k\<bar> < 2 ^ 53"
  shows "whole_seconds (k * time_Second) = k"
proof -
  have "f64 0 = 0" by (simp add: f64_def)
  then have "Duration_Seconds (k * time_Second) = of_int k"
    using f64_of_int [OF assms] by (simp add: Duration_Seconds_def go_quot_exact time_Second_def)
  then show ?thesis by (simp add: whole_seconds_def truncate_def)
qed

end
