(* ===== verification/Turn_Attrs.thy ===== *)
theory Turn_Attrs
  imports Stun_Addr Go_Time
begin

text \<open>
  The TURN attributes and message types: every file of \<^verbatim>\<open>src/turn/\<close>, and ChannelData.

  Each attribute is an instance of \<open>attribute_codec\<close>; what a value becomes on the way
  (a channel number is cut to 16 bits, a lifetime to whole seconds) is the \<open>norm\<close> of the
  instance. \<open>time.Duration\<close> is an integer of nanoseconds and \<open>Duration.Seconds\<close> is computed
  in IEEE double precision, as written out in \<open>Go_Time\<close>.
\<close>

section \<open>Message types\<close>

definition AllocateRequest :: MessageType where
  "AllocateRequest = NewType MethodAllocate ClassRequest"
definition CreatePermissionRequest :: MessageType where
  "CreatePermissionRequest = NewType MethodCreatePermission ClassRequest"
definition CreatePermissionResponse :: MessageType where
  "CreatePermissionResponse = NewType MethodCreatePermission ClassSuccessResponse"
definition SendIndication :: MessageType where
  "SendIndication = NewType MethodSend ClassIndication"
definition DataIndication :: MessageType where
  "DataIndication = NewType MethodData ClassIndication"
definition ChannelBindRequest :: MessageType where
  "ChannelBindRequest = NewType MethodChannelBind ClassRequest"
definition RefreshRequest :: MessageType where
  "RefreshRequest = NewType MethodRefresh ClassRequest"
definition ChannelDataRequest :: MessageType where
  "ChannelDataRequest = NewType MethodChannelData ClassRequest"
definition RefreshResponse :: MessageType where
  "RefreshResponse = NewType MethodRefresh ClassSuccessResponse"

section \<open>CHANNEL-NUMBER\<close>

definition channelNumberSize :: nat where "channelNumberSize = 4"

definition ChannelNumber_AddTo :: "int \<Rightarrow> Setter" where
  "ChannelNumber_AddTo n m =
     (let v = replicate channelNumberSize 0;
          v = put_at 0 (put_u16 (of_int n)) v
      in add_ok (Message_Add m AttrChannelNumber v))"

definition ChannelNumber_GetFrom :: "int \<Rightarrow> Message \<Rightarrow> (go_error option \<times> int) go" where
  "ChannelNumber_GetFrom n m =
     (case Message_Get m AttrChannelNumber of
        Inl e \<Rightarrow> Ret (Some e, n)
      | Inr v \<Rightarrow>
          if length v \<noteq> channelNumberSize
          then Ret (Some (BadAttrLength AttrChannelNumber (int (length v)) (int channelNumberSize)), n)
          else Ret (None, uint (be_get (subslice 0 2 v) :: u16)))"

section \<open>ChannelData\<close>

definition MinChannelNumber :: u16 where "MinChannelNumber = 0x4000"
definition MaxChannelNumber :: u16 where "MaxChannelNumber = 0x7fff"

record ChannelData =
  cd_ChannelNumber :: u16
  cd_Data :: bytes

definition bad_channel :: "u16 \<Rightarrow> go_error" where
  "bad_channel n = Errorf (''channel number is invalid :'' @ show_dec (unat n))"

definition ChannelData_AddTo :: "ChannelData \<Rightarrow> Setter" where
  "ChannelData_AddTo c m =
     (if mt_Method (msg_Type m) \<noteq> MethodChannelData then
        go_map (\<lambda>s. (Some (Errorf (''channel data works only on channelData method, now is '' @ s)), m))
          (MessageType_String (msg_Type m))
      else if cd_ChannelNumber c < MinChannelNumber \<or> cd_ChannelNumber c > MaxChannelNumber
      then Ret (Some (bad_channel (cd_ChannelNumber c)), m)
      else Ret (None, m\<lparr>msg_Raw := put_u16 (cd_ChannelNumber c) @
                          put_u16 (of_nat (length (cd_Data c))) @ cd_Data c,
                        msg_Spare := []\<rparr>))"

text \<open>
  \<open>binary.Read\<close> of \<open>n\<close> bytes from a \<open>bytes.Buffer\<close>: the bytes and the rest, or the error
  of \<open>io.ReadFull\<close>.
\<close>

definition read_full :: "nat \<Rightarrow> bytes \<Rightarrow> go_error + (bytes \<times> bytes)" where
  "read_full n buf =
     (if n \<le> length buf then Inr (take n buf, drop n buf)
      else if buf = [] then Inl EOF else Inl ErrUnexpectedEOF)"

text \<open>\<open>m.String()\<close>, which only goes into an error text, is the argument \<open>str\<close>.\<close>

definition ChannelData_GetFrom ::
  "(Message \<Rightarrow> string) \<Rightarrow> ChannelData \<Rightarrow> Message \<Rightarrow> go_error option \<times> ChannelData" where
  "ChannelData_GetFrom str c m =
     (if mt_Method (msg_Type m) \<noteq> MethodChannelData
      then (Some (Errorf (''expect MethodChannelData,but got '' @ str m)), c)
      else case read_full 2 (msg_Raw m) of
        Inl e \<Rightarrow> (Some e, c)
      | Inr (b, buf) \<Rightarrow>
          let c = c\<lparr>cd_ChannelNumber := be_get b\<rparr> in
          if cd_ChannelNumber c < MinChannelNumber \<or> cd_ChannelNumber c > MaxChannelNumber
          then (Some (bad_channel (cd_ChannelNumber c)), c)
          else case read_full 2 buf of
            Inl e \<Rightarrow> (Some e, c)
          | Inr (b, buf) \<Rightarrow>
              let len = unat (be_get b :: u16);
                  c = c\<lparr>cd_Data := replicate len 0\<rparr>
              in case read_full len buf of
                   Inl e \<Rightarrow> (Some e, c)
                 | Inr (b, buf) \<Rightarrow> (None, c\<lparr>cd_Data := b\<rparr>))"

section \<open>DATA and DONT-FRAGMENT\<close>

definition Data_AddTo :: "bytes \<Rightarrow> Setter" where
  "Data_AddTo d m = add_ok (Message_Add m AttrData d)"

definition Data_GetFrom :: "bytes \<Rightarrow> Message \<Rightarrow> (go_error option \<times> bytes) go" where
  "Data_GetFrom d m =
     (case Message_Get m AttrData of Inl e \<Rightarrow> Ret (Some e, d) | Inr v \<Rightarrow> Ret (None, v))"

definition DontFragmentAttr_AddTo :: Setter where
  "DontFragmentAttr_AddTo m = add_ok (Message_Add m AttrDontFragment [])"

definition DontFragmentAttr_IsSet :: "Message \<Rightarrow> bool" where
  "DontFragmentAttr_IsSet m = (case Message_Get m AttrDontFragment of Inl e \<Rightarrow> False | Inr v \<Rightarrow> True)"

section \<open>EVEN-PORT\<close>

definition evenPortSize :: nat where "evenPortSize = 1"
definition firstBitSet :: byte where "firstBitSet = 255"

record EvenPort =
  ReservePort :: bool

definition EvenPort_String :: "EvenPort \<Rightarrow> string" where
  "EvenPort_String p = (if ReservePort p then ''reserve: true'' else ''reserve: false'')"

definition EvenPort_AddTo :: "EvenPort \<Rightarrow> Setter" where
  "EvenPort_AddTo p m =
     (let v = replicate evenPortSize 0;
          v = (if ReservePort p then v[0 := firstBitSet] else v)
      in add_ok (Message_Add m AttrEvenPort v))"

definition EvenPort_GetFrom :: "EvenPort \<Rightarrow> Message \<Rightarrow> (go_error option \<times> EvenPort) go" where
  "EvenPort_GetFrom p m =
     (case Message_Get m AttrEvenPort of
        Inl e \<Rightarrow> Ret (Some e, p)
      | Inr v \<Rightarrow>
          if length v \<noteq> evenPortSize
          then Ret (Some (BadAttrLength AttrEvenPort (int (length v)) (int evenPortSize)), p)
          else if v ! 0 AND firstBitSet > 0 then Ret (None, p\<lparr>ReservePort := True\<rparr>)
          else Ret (None, p))"

section \<open>LIFETIME\<close>

text \<open>\<open>uint32(f)\<close> on amd64: truncate to a 64-bit integer, keep the low half.\<close>

definition u32_of_float :: "rat \<Rightarrow> u32" where
  "u32_of_float x = of_int (if x < 0 then \<lceil>x\<rceil> else \<lfloor>x\<rfloor>)"

definition DefaultLifetime :: int where "DefaultLifetime = time_Minute * 10"
definition lifetimeSize :: nat where "lifetimeSize = 4"

definition Lifetime_AddTo :: "int \<Rightarrow> Setter" where
  "Lifetime_AddTo l m =
     (let v = replicate lifetimeSize 0;
          v = put_at 0 (put_u32 (u32_of_float (Duration_Seconds l))) v
      in add_ok (Message_Add m AttrLifetime v))"

definition Lifetime_GetFrom :: "int \<Rightarrow> Message \<Rightarrow> (go_error option \<times> int) go" where
  "Lifetime_GetFrom l m =
     (case Message_Get m AttrLifetime of
        Inl e \<Rightarrow> Ret (Some e, l)
      | Inr v \<Rightarrow>
          if length v \<noteq> lifetimeSize
          then Ret (Some (BadAttrLength AttrLifetime (int (length v)) (int lifetimeSize)), l)
          else let seconds = be_get v :: u32
               in Ret (None, sint (of_int time_Second * ucast seconds :: 64 word)))"

definition ZeroLifetime :: Setter where "ZeroLifetime = Lifetime_AddTo 0"

section \<open>XOR-PEER-ADDRESS and XOR-RELAYED-ADDRESS\<close>

type_synonym PeerAddress = MappedAddress
type_synonym RelayedAddress = MappedAddress

definition PeerAddress_AddTo :: "PeerAddress \<Rightarrow> Setter" where
  "PeerAddress_AddTo a = XORMappedAddress_AddToAs a AttrXORPeerAddress"

definition PeerAddress_GetFrom ::
  "bytes \<Rightarrow> PeerAddress \<Rightarrow> Message \<Rightarrow> (go_error option \<times> PeerAddress) go" where
  "PeerAddress_GetFrom past a m = XORMappedAddress_GetFromAs past a m AttrXORPeerAddress"

definition RelayedAddress_AddTo :: "RelayedAddress \<Rightarrow> Setter" where
  "RelayedAddress_AddTo a = XORMappedAddress_AddToAs a AttrXORRelayedAddress"

definition RelayedAddress_GetFrom ::
  "bytes \<Rightarrow> RelayedAddress \<Rightarrow> Message \<Rightarrow> (go_error option \<times> RelayedAddress) go" where
  "RelayedAddress_GetFrom past a m = XORMappedAddress_GetFromAs past a m AttrXORRelayedAddress"

section \<open>REQUESTED-TRANSPORT\<close>

type_synonym Protocol = byte

definition ProtoUDP :: Protocol where "ProtoUDP = 17"

definition Protocol_String :: "Protocol \<Rightarrow> string" where
  "Protocol_String p = (if p = ProtoUDP then ''UDP'' else itoa (uint p))"

record RequestedTransport =
  rt_Protocol :: Protocol

definition RequestedTransport_String :: "RequestedTransport \<Rightarrow> string" where
  "RequestedTransport_String t = ''protocol: '' @ Protocol_String (rt_Protocol t)"

definition requestedTransportSize :: nat where "requestedTransportSize = 4"

definition RequestedTransport_AddTo :: "RequestedTransport \<Rightarrow> Setter" where
  "RequestedTransport_AddTo t m =
     (let v = replicate requestedTransportSize 0;
          v = v[0 := rt_Protocol t]
      in add_ok (Message_Add m AttrRequestedTransport v))"

definition RequestedTransport_GetFrom ::
  "RequestedTransport \<Rightarrow> Message \<Rightarrow> (go_error option \<times> RequestedTransport) go" where
  "RequestedTransport_GetFrom t m =
     (case Message_Get m AttrRequestedTransport of
        Inl e \<Rightarrow> Ret (Some e, t)
      | Inr v \<Rightarrow>
          if length v \<noteq> requestedTransportSize
          then Ret (Some (BadAttrLength AttrRequestedTransport (int (length v)) (int requestedTransportSize)), t)
          else Ret (None, t\<lparr>rt_Protocol := v ! 0\<rparr>))"

definition RequestedTransportUDP :: Setter where
  "RequestedTransportUDP = RequestedTransport_AddTo \<lparr>rt_Protocol = ProtoUDP\<rparr>"

section \<open>RESERVATION-TOKEN\<close>

definition reservationTokenSize :: nat where "reservationTokenSize = 8"

definition ReservationToken_AddTo :: "bytes \<Rightarrow> Setter" where
  "ReservationToken_AddTo t m =
     (if length t \<noteq> reservationTokenSize
      then Ret (Some (BadAttrLength AttrReservationToken (int (length t)) (int reservationTokenSize)), m)
      else add_ok (Message_Add m AttrReservationToken t))"

definition ReservationToken_GetFrom :: "bytes \<Rightarrow> Message \<Rightarrow> (go_error option \<times> bytes) go" where
  "ReservationToken_GetFrom t m =
     (case Message_Get m AttrReservationToken of
        Inl e \<Rightarrow> Ret (Some e, t)
      | Inr v \<Rightarrow>
          if length v \<noteq> reservationTokenSize
          then Ret (Some (BadAttrLength AttrReservationToken (int (length v)) (int reservationTokenSize)), t)
          else Ret (None, v))"

section \<open>The attributes are codecs\<close>

interpretation peer_addr: attribute_codec AttrXORPeerAddress xor_encode
  PeerAddress_AddTo "PeerAddress_GetFrom past" valid_addr "\<lambda>_. True" wire_addr
  for past
  by unfold_locales
    (simp_all add: PeerAddress_AddTo_def PeerAddress_GetFrom_def XORMappedAddress_AddToAs_eq
      XORMappedAddress_GetFromAs_eq, simp add: XORMappedAddress_GetFromAs_def)

interpretation relayed_addr: attribute_codec AttrXORRelayedAddress xor_encode
  RelayedAddress_AddTo "RelayedAddress_GetFrom past" valid_addr "\<lambda>_. True" wire_addr
  for past
  by unfold_locales
    (simp_all add: RelayedAddress_AddTo_def RelayedAddress_GetFrom_def XORMappedAddress_AddToAs_eq
      XORMappedAddress_GetFromAs_eq, simp add: XORMappedAddress_GetFromAs_def)

interpretation turn_data: attribute_codec AttrData "\<lambda>_ v. v" Data_AddTo Data_GetFrom
  "\<lambda>_. True" "\<lambda>_. True" "\<lambda>v. v"
  by unfold_locales (simp_all add: Data_AddTo_def Data_GetFrom_def)

interpretation reservation_token: attribute_codec AttrReservationToken "\<lambda>_ v. v"
  ReservationToken_AddTo ReservationToken_GetFrom "\<lambda>t. length t = reservationTokenSize" "\<lambda>_. True" "\<lambda>v. v"
  by unfold_locales (simp_all add: ReservationToken_AddTo_def ReservationToken_GetFrom_def)

interpretation requested_transport: attribute_codec AttrRequestedTransport "\<lambda>_ t. [rt_Protocol t, 0, 0, 0]"
  RequestedTransport_AddTo RequestedTransport_GetFrom "\<lambda>_. True" "\<lambda>_. True" "\<lambda>t. t"
  by unfold_locales
    (simp_all add: RequestedTransport_AddTo_def RequestedTransport_GetFrom_def requestedTransportSize_def
      numeral_eq_Suc)

definition channel_number_encode :: "int \<Rightarrow> bytes" where
  "channel_number_encode n = put_u16 (of_int n) @ [0, 0]"

lemma replicate_2: "replicate 2 x = [x, x]"
  by (simp add: numeral_2_eq_2)

interpretation channel_number: attribute_codec AttrChannelNumber "\<lambda>_. channel_number_encode"
  ChannelNumber_AddTo ChannelNumber_GetFrom "\<lambda>_. True" "\<lambda>_. True" "\<lambda>n. n mod 65536"
  by unfold_locales
    (simp_all add: ChannelNumber_AddTo_def ChannelNumber_GetFrom_def channelNumberSize_def
      channel_number_encode_def put_at_def replicate_2 subslice_def unsigned_of_int take_bit_eq_mod)

text \<open>
  \<open>GetFrom\<close> of EVEN-PORT sets the flag but never clears it, so it decodes only into a
  receiver whose flag is clear.
\<close>

definition even_port_encode :: "EvenPort \<Rightarrow> bytes" where
  "even_port_encode p = [if ReservePort p then firstBitSet else 0]"

interpretation even_port: attribute_codec AttrEvenPort "\<lambda>_. even_port_encode"
  EvenPort_AddTo EvenPort_GetFrom "\<lambda>_. True" "\<lambda>p. \<not> ReservePort p" "\<lambda>p. p"
  by unfold_locales
    (auto simp: EvenPort_AddTo_def EvenPort_GetFrom_def evenPortSize_def firstBitSet_def even_port_encode_def)

lemma EvenPort_GetFrom_sticky:
  assumes "Message_Get m AttrEvenPort = Inr (even_port_encode q)" and "ReservePort p"
  shows "EvenPort_GetFrom p m = Ret (None, p)"
  using assms by (simp add: EvenPort_GetFrom_def evenPortSize_def even_port_encode_def)

section \<open>ChannelData on the wire\<close>

definition valid_channel_data :: "ChannelData \<Rightarrow> bool" where
  "valid_channel_data c \<longleftrightarrow> MinChannelNumber \<le> cd_ChannelNumber c \<and>
     cd_ChannelNumber c \<le> MaxChannelNumber \<and> length (cd_Data c) \<le> 65531"

definition channel_data_encode :: "ChannelData \<Rightarrow> bytes" where
  "channel_data_encode c =
     put_u16 (cd_ChannelNumber c) @ put_u16 (of_nat (length (cd_Data c))) @ cd_Data c"

lemma channel_number_first_byte:
  assumes "MinChannelNumber \<le> n" and "n \<le> MaxChannelNumber"
  shows "ucast (drop_bit 8 n) AND (0x40 :: byte) = 0x40"
proof -
  have n: "0x4000 \<le> uint n" "uint n \<le> 0x7fff"
    using assms by (simp_all add: MinChannelNumber_def MaxChannelNumber_def word_le_def)
  then have top: "0x40 \<le> uint n div 256" "uint n div 256 \<le> 0x7f" by linarith+
  have "uint (drop_bit 8 n) = uint n div 256"
    by (simp add: drop_bit_eq_div uint_div)
  then have "uint (ucast (drop_bit 8 n) :: byte) = uint n div 256"
    using top by (simp only: unsigned_ucast_eq) (simp add: take_bit_int_eq_self)
  moreover have "odd (uint n div 256 div 64)"
  proof -
    have "uint n div 256 div 64 = 1" using top by linarith
    then show ?thesis by simp
  qed
  ultimately have "bit (uint (ucast (drop_bit 8 n) :: byte)) 6"
    by (simp only: bit_iff_odd) simp
  then have "bit (ucast (drop_bit 8 n) :: byte) 6"
    by (simp only: bit_uint_iff)
  then show ?thesis
    by (intro bit_word_eqI) (simp only: bit_and_iff byte_type_bits, auto)
qed

text \<open>What \<open>AddTo\<close> writes is accepted by \<open>Decode\<close> and read back by \<open>GetFrom\<close>.\<close>

lemma ChannelData_AddTo_eq:
  assumes "valid_channel_data c" and "mt_Method (msg_Type m) = MethodChannelData"
  shows "ChannelData_AddTo c m = Ret (None, m\<lparr>msg_Raw := channel_data_encode c, msg_Spare := []\<rparr>)"
  using assms by (simp add: ChannelData_AddTo_def valid_channel_data_def channel_data_encode_def not_less)

lemma Message_Decode_channel_data:
  assumes valid: "valid_channel_data c" and raw: "msg_Raw r = channel_data_encode c"
  shows "Message_Decode r = Ret (None,
    r\<lparr>msg_Type := \<lparr>mt_Method = MethodChannelData, mt_Class = ClassSuccessResponse\<rparr>\<rparr>)"
proof -
  let ?b0 = "ucast (drop_bit 8 (cd_ChannelNumber c)) :: byte" and ?n = "length (cd_Data c)"
  have b0: "?b0 AND 0x40 = 0x40"
    using valid by (intro channel_number_first_byte) (simp_all add: valid_channel_data_def)
  have hd: "msg_Raw r = ?b0 # tl (msg_Raw r)"
    unfolding raw by (simp add: channel_data_encode_def numeral_eq_Suc)
  have len: "length (msg_Raw r) = 4 + ?n" by (simp add: raw channel_data_encode_def)
  have sub: "subslice 2 4 (msg_Raw r @ msg_Spare r) = put_u16 (of_nat ?n)"
    by (simp add: raw channel_data_encode_def subslice_def)
  have "unat (of_nat ?n + 4 :: u16) = unat (of_nat (?n + 4) :: u16)" by simp
  also have "\<dots> = ?n + 4"
    using valid by (simp only: unat_of_nat) (simp add: valid_channel_data_def take_bit_nat_eq_self)
  finally have size: "unat (of_nat ?n + 4 :: u16) = length (msg_Raw r)" using len by simp
  show ?thesis
    unfolding Message_Decode_def Let_def
    using len size b0 by (subst hd) (simp add: sub Message_cap_def)
qed

lemma ChannelData_GetFrom_encode:
  assumes valid: "valid_channel_data c" and "msg_Raw m = channel_data_encode c"
    and "mt_Method (msg_Type m) = MethodChannelData"
  shows "ChannelData_GetFrom str c0 m = (None, c)"
proof -
  have "unat (of_nat (length (cd_Data c)) :: u16) = length (cd_Data c)"
    using valid by (simp only: unat_of_nat) (simp add: valid_channel_data_def take_bit_nat_eq_self)
  then show ?thesis
    using assms
    by (simp add: ChannelData_GetFrom_def read_full_def channel_data_encode_def valid_channel_data_def
        not_less Let_def)
qed

section \<open>Lifetimes are whole seconds\<close>

definition lifetime_seconds :: "int \<Rightarrow> u32" where
  "lifetime_seconds l = u32_of_float (Duration_Seconds l)"

lemma lifetime_seconds_whole:
  assumes "0 \<le> s" and "s < 2 ^ 32"
  shows "uint (lifetime_seconds (time_Second * s)) = s"
proof -
  have "go_quot (time_Second * s) time_Second = s" "go_rem (time_Second * s) time_Second = 0"
    using assms by (simp_all add: go_quot_nonneg go_rem_nonneg time_Second_def)
  moreover have "f64 (of_int s) = of_int s" using assms by (intro f64_of_int) simp
  moreover have "f64 0 = 0" by (simp add: f64_def)
  ultimately have "lifetime_seconds (time_Second * s) = of_int s"
    using assms by (simp add: lifetime_seconds_def Duration_Seconds_def u32_of_float_def)
  then show ?thesis using assms by (simp add: unsigned_of_int take_bit_int_eq_self)
qed

lemma seconds_no_overflow: "sint (of_int time_Second * ucast (w :: u32) :: 64 word) = time_Second * uint w"
proof -
  have "uint w < 2 ^ 32" using uint_lt2p [of w] by simp
  then have bound: "0 \<le> time_Second * uint w" "time_Second * uint w < 2 ^ 63"
    by (simp_all add: time_Second_def)
  have "(of_int time_Second * ucast w :: 64 word) = of_int (time_Second * uint w)"
    by (simp only: of_int_mult) (simp add: of_int_uint)
  moreover have "sint (of_int k :: 64 word) = k" if "0 \<le> k" "k < 2 ^ 63" for k
    using that by (simp only: signed_of_int) (simp add: signed_take_bit_int_eq_self)
  ultimately show ?thesis using bound by (simp only:)
qed

lemma Lifetime_AddTo_eq: "Lifetime_AddTo l m = add_ok (Message_Add m AttrLifetime (put_u32 (lifetime_seconds l)))"
  by (simp add: Lifetime_AddTo_def lifetimeSize_def lifetime_seconds_def put_at_def)

lemma Lifetime_GetFrom_encode:
  "Message_Get m AttrLifetime = Inr (put_u32 w) \<Longrightarrow> Lifetime_GetFrom l m = Ret (None, time_Second * uint w)"
  by (simp only: Lifetime_GetFrom_def sum.case length_be_put lifetimeSize_def be_get_put_u32
      seconds_no_overflow Let_def) simp

interpretation lifetime: attribute_codec AttrLifetime "\<lambda>_ l. put_u32 (lifetime_seconds l)"
  Lifetime_AddTo Lifetime_GetFrom "\<lambda>_. True" "\<lambda>_. True" "\<lambda>l. time_Second * uint (lifetime_seconds l)"
  by unfold_locales
    (rule Lifetime_AddTo_eq, rule Lifetime_GetFrom_encode, assumption, simp add: Lifetime_GetFrom_def)

end
