(* ===== verification/Ice_Sock.thy ===== *)
theory Ice_Sock
  imports Ice_Candidate Turn_Attrs Go_Machine
begin

text \<open>
  The sockets of an ICE session: \<^verbatim>\<open>src/ice/stunserversock.go\<close>.

  A socket is a record: its mode, the two channel maps, the waiters of synchronous requests
  and the cache of responses, both as association lists in the order a range loop visits
  them. What it does to the outside is appended to \<open>sk_out\<close>: packets handed to the writer
  goroutine, answers handed to a waiter, waiters closed, and calls of the callback. The
  callback is an argument, since it is either the session, which only queues the
  call (\<open>to_session\<close>), or a TURN socket, which may call back into this socket.

  A waiter's channel has no buffer. The goroutine that waits on it takes the answer or gives up
  after a while; a send to a channel nobody waits on any more blocks for ever.
\<close>

section \<open>State\<close>

datatype serverSockMode = stageNegotiation | stunModeData | turnModeData

record cachedResponse =
  cacheTime :: int
  cr_msg :: Message

datatype waiter = Waiting | Abandoned

datatype sock_up =
    UpMessage string string Message
  | UpData string string bytes

datatype sock_event =
    Written bytes "bytes \<times> int"
  | Answered TransactionID Message string
  | WaiterClosed TransactionID
  | Up sock_up

record stunServerSock =
  sk_Addr :: string
  sk_mode :: serverSockMode
  sk_channelNumber2Address :: "int \<rightharpoonup> string"
  sk_address2ChannelNumber :: "string \<rightharpoonup> int"
  sk_waiters :: "(TransactionID \<times> waiter) list"
  sk_cachedResponse :: "(TransactionID \<times> cachedResponse) list"
  sk_stoped :: bool
  sk_sendchan_closed :: bool
  sk_out :: "sock_event list"

type_synonym sock_cb = "sock_up \<Rightarrow> stunServerSock \<Rightarrow> stunServerSock go"

definition sk_emit :: "sock_event \<Rightarrow> stunServerSock \<Rightarrow> stunServerSock" where
  "sk_emit e s = s\<lparr>sk_out := sk_out s @ [e]\<rparr>"

definition to_session :: sock_cb where
  "to_session up s = Ret (sk_emit (Up up) s)"

definition stunResponseCacheDuration :: int where "stunResponseCacheDuration = 10 * time_Second"

definition errTimeout :: go_error where "errTimeout = Errorf ''timed out''"
definition errDuplicateWaiter :: go_error where "errDuplicateWaiter = Errorf ''waiter with uid already exists''"
definition errWaiterClosed :: go_error where "errWaiterClosed = Errorf ''waiter closed''"

text \<open>\<open>newStunServerSock\<close>: what listening on the address returns is an argument.\<close>

definition newStunServerSock :: "go_error option \<Rightarrow> string \<Rightarrow> go_error + stunServerSock" where
  "newStunServerSock listen bindAddr =
     (case listen of
        Some e \<Rightarrow> Inl e
      | None \<Rightarrow> Inr \<lparr>sk_Addr = bindAddr, sk_mode = stageNegotiation, sk_channelNumber2Address = Map.empty,
                    sk_address2ChannelNumber = Map.empty, sk_waiters = [], sk_cachedResponse = [],
                    sk_stoped = False, sk_sendchan_closed = False, sk_out = []\<rparr>)"

section \<open>Sending\<close>

definition stunServerSock_sendData :: "bytes \<Rightarrow> string \<Rightarrow> string \<Rightarrow> stunServerSock \<Rightarrow> stunServerSock go" where
  "stunServerSock_sendData data fromaddr toaddr s =
     (if sk_Addr s \<noteq> fromaddr then
        Panic (ExplicitPanic (''each binding..., me='' @ sk_Addr s @ '',got='' @ fromaddr))
      else if sk_stoped s then Ret s
      else if sk_sendchan_closed s then Panic SendOnClosedChannel
      else Ret (sk_emit (Written data (addrToUDPAddr toaddr)) s))"

definition stunServerSock_sendStunMessageAsync ::
  "int \<Rightarrow> Message \<Rightarrow> string \<Rightarrow> string \<Rightarrow> stunServerSock \<Rightarrow> stunServerSock go" where
  "stunServerSock_sendStunMessageAsync now msg fromaddr toaddr s =
     (let s = (if mt_Class (msg_Type msg) = ClassSuccessResponse \<or> mt_Class (msg_Type msg) = ClassErrorResponse
               then s\<lparr>sk_cachedResponse :=
                      AList.update (msg_TransactionID msg) \<lparr>cacheTime = now, cr_msg = msg\<rparr> (sk_cachedResponse s)\<rparr>
               else s)
      in stunServerSock_sendData (msg_Raw msg) fromaddr toaddr s)"

section \<open>Waiters\<close>

definition stunServerSock_addWaiter ::
  "TransactionID \<Rightarrow> stunServerSock \<Rightarrow> go_error option \<times> stunServerSock" where
  "stunServerSock_addWaiter k s =
     (if map_of (sk_waiters s) k \<noteq> None then (Some errDuplicateWaiter, s)
      else (None, s\<lparr>sk_waiters := AList.update k Waiting (sk_waiters s)\<rparr>))"

definition stunServerSock_getAndRemoveWaiter ::
  "TransactionID \<Rightarrow> stunServerSock \<Rightarrow> waiter option \<times> stunServerSock" where
  "stunServerSock_getAndRemoveWaiter k s =
     (case map_of (sk_waiters s) k of
        None \<Rightarrow> (None, s)
      | Some w \<Rightarrow> (Some w, s\<lparr>sk_waiters := AList.delete k (sk_waiters s)\<rparr>))"

text \<open>
  \<open>sendStunMessageSync\<close> up to its wait. The wait ends with the answer (\<open>Answered\<close>), with the
  closing of the channel (\<open>WaiterClosed\<close>, the error \<open>errWaiterClosed\<close>) or with a timeout.
\<close>

definition stunServerSock_sendStunMessageSync ::
  "int \<Rightarrow> Message \<Rightarrow> string \<Rightarrow> string \<Rightarrow> stunServerSock \<Rightarrow> (go_error option \<times> stunServerSock) go" where
  "stunServerSock_sendStunMessageSync now msg fromaddr toaddr s =
     (case stunServerSock_addWaiter (msg_TransactionID msg) s of
        (Some e, s) \<Rightarrow> Ret (Some e, s)
      | (None, s) \<Rightarrow> go_map (\<lambda>s. (None, s)) (stunServerSock_sendStunMessageAsync now msg fromaddr toaddr s))"

text \<open>The timeout branch of \<open>wait\<close>: nobody receives on the channel any more; it stays in the map.\<close>

definition stunServerSock_wait :: "TransactionID \<Rightarrow> stunServerSock \<Rightarrow> go_error \<times> stunServerSock" where
  "stunServerSock_wait k s =
     (errTimeout,
      if map_of (sk_waiters s) k = None then s
      else s\<lparr>sk_waiters := AList.update k Abandoned (sk_waiters s)\<rparr>)"

definition stunServerSock_sendStunMessageWithResult ::
  "int \<Rightarrow> Message \<Rightarrow> string \<Rightarrow> string \<Rightarrow> stunServerSock \<Rightarrow>
     (go_error option \<times> waiter option \<times> stunServerSock) go" where
  "stunServerSock_sendStunMessageWithResult now msg fromaddr toaddr s =
     (case stunServerSock_addWaiter (msg_TransactionID msg) s of
        (Some e, s) \<Rightarrow> Ret (Some e, None, s)
      | (None, s) \<Rightarrow>
          go_map (\<lambda>s. (None, map_of (sk_waiters s) (msg_TransactionID msg), s))
            (stunServerSock_sendStunMessageAsync now msg fromaddr toaddr s))"

section \<open>Receiving\<close>

definition stunServerSock_dataReceived :: "sock_cb \<Rightarrow> string \<Rightarrow> bytes \<Rightarrow> stunServerSock \<Rightarrow> stunServerSock go" where
  "stunServerSock_dataReceived cb peerAddr data s = cb (UpData (sk_Addr s) peerAddr data) s"

definition stunServerSock_checkCachedResponse ::
  "int \<Rightarrow> Message \<Rightarrow> string \<Rightarrow> stunServerSock \<Rightarrow> (bool \<times> stunServerSock) go" where
  "stunServerSock_checkCachedResponse now req from s =
     (if sk_cachedResponse s = [] then Ret (False, s)
      else
        let s = s\<lparr>sk_cachedResponse :=
              filter (\<lambda>(tid, c). \<not> cacheTime c + stunResponseCacheDuration < now) (sk_cachedResponse s)\<rparr>
        in case find (\<lambda>(tid, c). mt_Method (msg_Type (cr_msg c)) = mt_Method (msg_Type req) \<and>
                        msg_TransactionID (cr_msg c) = msg_TransactionID req) (sk_cachedResponse s) of
             Some (tid, c) \<Rightarrow>
               go_map (\<lambda>s. (True, s)) (stunServerSock_sendData (msg_Raw (cr_msg c)) (sk_Addr s) from s)
           | None \<Rightarrow> Ret (False, s))"

text \<open>The end of \<open>stunMessageReceived\<close>: a waiter, the cache, the callback.\<close>

definition deliver :: "sock_cb \<Rightarrow> int \<Rightarrow> string \<Rightarrow> string \<Rightarrow> Message \<Rightarrow> stunServerSock \<Rightarrow> stunServerSock go" where
  "deliver cb now localaddr from msg s =
     (case stunServerSock_getAndRemoveWaiter (msg_TransactionID msg) s of
        (Some Waiting, s) \<Rightarrow> Ret (sk_emit (Answered (msg_TransactionID msg) msg from) s)
      | (Some Abandoned, s) \<Rightarrow> Panic BlockedSend
      | (None, s) \<Rightarrow>
          go_bind (stunServerSock_checkCachedResponse now msg from s)
            (\<lambda>(cached, s). if cached then Ret s else cb (UpMessage localaddr from msg) s))"

definition stunServerSock_stunMessageReceived ::
  "sock_cb \<Rightarrow> int \<Rightarrow> string \<Rightarrow> string \<Rightarrow> Message \<Rightarrow> stunServerSock \<Rightarrow> stunServerSock go" where
  "stunServerSock_stunMessageReceived cb now localaddr from msg s =
     (if mt_Method (msg_Type msg) = MethodChannelData then
        (case sk_mode s of
           stageNegotiation \<Rightarrow> Ret s
         | stunModeData \<Rightarrow> stunServerSock_dataReceived cb from (msg_Raw msg) s
         | turnModeData \<Rightarrow>
             (case ChannelData_GetFrom (\<lambda>_. []) \<lparr>cd_ChannelNumber = 0, cd_Data = []\<rparr> msg of
                (Some e, _) \<Rightarrow> Ret s
              | (None, data) \<Rightarrow>
                  (case sk_channelNumber2Address s (uint (cd_ChannelNumber data)) of
                     None \<Rightarrow> Ret s
                   | Some peer \<Rightarrow>
                       go_bind (stunServerSock_dataReceived cb peer (cd_Data data) s)
                         (deliver cb now localaddr from msg))))
      else deliver cb now localaddr from msg s)"

text \<open>
  One packet. The buffer has 1024 bytes, a longer packet is cut. \<open>addr.String()\<close> of a UDP
  address puts an IPv6 address in brackets, \<open>udpAddrToAddr\<close> does not.
\<close>

definition UDPAddr_String :: "bytes \<times> int \<Rightarrow> string" where
  "UDPAddr_String a = JoinHostPort (if fst a = [] then [] else IP_String (fst a)) (itoa (snd a))"

definition stunServerSock_serveConn ::
  "sock_cb \<Rightarrow> int \<Rightarrow> bytes \<Rightarrow> bytes \<times> int \<Rightarrow> stunServerSock \<Rightarrow> stunServerSock go" where
  "stunServerSock_serveConn cb now packet addr s =
     (let raw = take 1024 packet
      in go_bind (Message_Write raw zero_Message)
           (\<lambda>(n, err, req).
              if err \<noteq> None then stunServerSock_dataReceived cb (udpAddrToAddr addr) raw s
              else if msg_Type req = BindingIndication \<or> msg_Type req = SendIndication then Ret s
              else stunServerSock_stunMessageReceived cb now (sk_Addr s) (UDPAddr_String addr) req s))"

text \<open>The reading loop of \<open>Serve\<close>, over the packets that arrive before the connection fails.\<close>

fun stunServerSock_Serve :: "sock_cb \<Rightarrow> (int \<times> bytes \<times> (bytes \<times> int)) list \<Rightarrow> stunServerSock \<Rightarrow> stunServerSock go" where
  "stunServerSock_Serve cb [] s = Ret s"
| "stunServerSock_Serve cb ((now, packet, addr) # ps) s =
     go_bind (stunServerSock_serveConn cb now packet addr s) (stunServerSock_Serve cb ps)"

section \<open>Modes, channels, closing\<close>

definition stunServerSock_SetChannelNumber :: "int \<Rightarrow> string \<Rightarrow> stunServerSock \<Rightarrow> stunServerSock" where
  "stunServerSock_SetChannelNumber channelNumber addr s =
     s\<lparr>sk_channelNumber2Address := (sk_channelNumber2Address s)(channelNumber \<mapsto> addr),
       sk_address2ChannelNumber := (sk_address2ChannelNumber s)(addr \<mapsto> channelNumber)\<rparr>"

definition stunServerSock_FinishNegotiation :: "serverSockMode \<Rightarrow> stunServerSock \<Rightarrow> stunServerSock" where
  "stunServerSock_FinishNegotiation mode s = s\<lparr>sk_mode := mode\<rparr>"

definition stunServerSock_Close :: "stunServerSock \<Rightarrow> stunServerSock go" where
  "stunServerSock_Close s =
     (if sk_sendchan_closed s then Panic CloseOfClosedChannel
      else Ret (s\<lparr>sk_stoped := True, sk_sendchan_closed := True, sk_waiters := [],
                  sk_out := sk_out s @ map (WaiterClosed \<circ> fst) (sk_waiters s)\<rparr>))"

section \<open>Runs of a socket\<close>

text \<open>
  The operations the session calls and the packets that arrive, in any order, with the error
  returned. The callbacks are a set: a TURN socket's depends on the time.
\<close>

datatype sock_op =
    SockAsync int Message string string
  | SockSync int Message string string
  | SockWait TransactionID
  | SockPacket int bytes "bytes \<times> int"
  | SockSetChannel int string
  | SockFinish serverSockMode
  | SockClose

inductive sock_step :: "sock_cb set \<Rightarrow> stunServerSock \<Rightarrow> sock_op \<times> go_error option \<Rightarrow> stunServerSock \<Rightarrow> bool"
  for cbs where
  sock_Async: "stunServerSock_sendStunMessageAsync now msg from to s = Ret s' \<Longrightarrow> sock_step cbs s (SockAsync now msg from to, None) s'"
| sock_Sync: "stunServerSock_sendStunMessageSync now msg from to s = Ret (e, s') \<Longrightarrow> sock_step cbs s (SockSync now msg from to, e) s'"
| sock_Wait: "stunServerSock_wait tid s = (e, s') \<Longrightarrow> sock_step cbs s (SockWait tid, Some e) s'"
| sock_Packet: "cb \<in> cbs \<Longrightarrow> stunServerSock_serveConn cb now packet addr s = Ret s' \<Longrightarrow> sock_step cbs s (SockPacket now packet addr, None) s'"
| sock_SetChannel: "sock_step cbs s (SockSetChannel n a, None) (stunServerSock_SetChannelNumber n a s)"
| sock_Finish: "sock_step cbs s (SockFinish mode, None) (stunServerSock_FinishNegotiation mode s)"
| sock_Close: "stunServerSock_Close s = Ret s' \<Longrightarrow> sock_step cbs s (SockClose, None) s'"

definition sock_inv :: "stunServerSock \<Rightarrow> bool" where
  "sock_inv s \<longleftrightarrow> distinct (map fst (sk_waiters s)) \<and> distinct (map fst (sk_cachedResponse s)) \<and>
     (\<forall>(tid, c)\<in>set (sk_cachedResponse s). msg_TransactionID (cr_msg c) = tid) \<and>
     sk_sendchan_closed s = sk_stoped s"

definition ended_waits :: "sock_event list \<Rightarrow> TransactionID multiset" where
  "ended_waits es = \<Sum>\<^sub># (mset (map (\<lambda>e. case e of Answered tid _ _ \<Rightarrow> {#tid#} | WaiterClosed tid \<Rightarrow> {#tid#} | _ \<Rightarrow> {#}) es))"

definition pending_waits :: "stunServerSock \<Rightarrow> TransactionID multiset" where
  "pending_waits s = mset (map fst (sk_waiters s))"

definition started_wait :: "sock_op \<times> go_error option \<Rightarrow> TransactionID multiset" where
  "started_wait l = (case l of (SockSync _ msg _ _, None) \<Rightarrow> {#msg_TransactionID msg#} | _ \<Rightarrow> {#})"

text \<open>What a part of an operation may do: keep the invariant and the balance of the waits.\<close>

definition balanced :: "TransactionID multiset \<Rightarrow> stunServerSock \<Rightarrow> stunServerSock \<Rightarrow> bool" where
  "balanced d s s' \<longleftrightarrow> sock_inv s' \<and>
     ended_waits (sk_out s') + pending_waits s' = ended_waits (sk_out s) + pending_waits s + d"

lemma ended_waits_append [simp]: "ended_waits (a @ b) = ended_waits a + ended_waits b"
  by (simp add: ended_waits_def)

lemma ended_waits_simps [simp]:
  "ended_waits [] = {#}" "ended_waits [Written b a] = {#}" "ended_waits [Up u] = {#}"
  "ended_waits [Answered tid m f] = {#tid#}" "ended_waits (map (WaiterClosed \<circ> fst) ws) = mset (map fst ws)"
  by (simp_all add: ended_waits_def) (induction ws; simp)

lemma balanced_refl: "sock_inv s \<Longrightarrow> balanced {#} s s"
  by (simp add: balanced_def)

lemma balanced_trans: "balanced a s t \<Longrightarrow> balanced b t u \<Longrightarrow> balanced (a + b) s u"
  by (auto simp: balanced_def ac_simps)

lemma balanced_trans0: "balanced {#} s t \<Longrightarrow> balanced {#} t u \<Longrightarrow> balanced {#} s u"
  using balanced_trans by fastforce

lemma sendData_balanced:
  "stunServerSock_sendData data from to s = Ret s' \<Longrightarrow> sock_inv s \<Longrightarrow> balanced {#} s s'"
  by (auto simp: stunServerSock_sendData_def sk_emit_def balanced_def sock_inv_def pending_waits_def split: if_splits)

lemma sendStunMessageAsync_balanced:
  assumes "stunServerSock_sendStunMessageAsync now msg from to s = Ret s'" and "sock_inv s"
  shows "balanced {#} s s'"
proof -
  let ?u = "s\<lparr>sk_cachedResponse :=
      AList.update (msg_TransactionID msg) \<lparr>cacheTime = now, cr_msg = msg\<rparr> (sk_cachedResponse s)\<rparr>"
  have "balanced {#} s ?u"
    using assms(2) by (auto simp: balanced_def sock_inv_def pending_waits_def distinct_update dest!: update_mem)
  moreover have "stunServerSock_sendData (msg_Raw msg) from to ?u = Ret s' \<or> stunServerSock_sendData (msg_Raw msg) from to s = Ret s'"
    using assms(1) by (auto simp: stunServerSock_sendStunMessageAsync_def Let_def split: if_splits)
  ultimately show ?thesis
    using sendData_balanced balanced_trans0 assms(2) by (metis balanced_def)
qed

lemma addWaiter_balanced:
  "stunServerSock_addWaiter tid s = (None, s') \<Longrightarrow> sock_inv s \<Longrightarrow> balanced {#tid#} s s'"
  by (auto simp: stunServerSock_addWaiter_def balanced_def sock_inv_def pending_waits_def update_new
      map_of_eq_None_iff split: if_splits)

lemma checkCachedResponse_balanced:
  assumes "stunServerSock_checkCachedResponse now req from s = Ret (b, s')" and "sock_inv s"
  shows "balanced {#} s s'"
proof -
  let ?u = "s\<lparr>sk_cachedResponse := filter (\<lambda>(tid, c). \<not> cacheTime c + stunResponseCacheDuration < now) (sk_cachedResponse s)\<rparr>"
  have u: "balanced {#} s ?u"
    using assms(2) by (auto simp: balanced_def sock_inv_def pending_waits_def distinct_map_filter)
  consider "s' = s" | "s' = ?u" | d where "stunServerSock_sendData d (sk_Addr ?u) from ?u = Ret s'"
    using assms(1) unfolding stunServerSock_checkCachedResponse_def Let_def
    by (fastforce simp: go_map_Ret split: if_splits option.splits)
  then show ?thesis
  proof cases
    case 3
    then show ?thesis using sendData_balanced u balanced_trans0 unfolding balanced_def by blast
  qed (use u balanced_refl assms(2) in auto)
qed

lemma to_session_balanced: "to_session up s = Ret s' \<Longrightarrow> sock_inv s \<Longrightarrow> balanced {#} s s'"
  by (auto simp: to_session_def sk_emit_def balanced_def sock_inv_def pending_waits_def)

lemma removeWaiter_balanced:
  assumes "map_of (sk_waiters s) tid = Some w" and "sock_inv s"
  shows "balanced {#} s (sk_emit (Answered tid m f) (s\<lparr>sk_waiters := AList.delete tid (sk_waiters s)\<rparr>))"
proof -
  have k: "tid \<in> set (map fst (sk_waiters s))" using assms(1) by (force dest: map_of_SomeD)
  have "mset (map fst (AList.delete tid (sk_waiters s))) = mset (map fst (sk_waiters s)) - {#tid#}"
    using assms(2) by (simp add: delete_keys sock_inv_def flip: distinct_remove1_removeAll)
  then show ?thesis
    using k assms(2) by (auto simp: balanced_def sk_emit_def sock_inv_def pending_waits_def distinct_delete)
qed

text \<open>
  The contract of a callback: it keeps the balance. The session's and the TURN socket's do, so
  receiving keeps it on both kinds of socket.
\<close>

locale sock_callback =
  fixes cb :: sock_cb
  assumes cb_balanced: "cb up s = Ret s' \<Longrightarrow> sock_inv s \<Longrightarrow> balanced {#} s s'"
begin

lemma deliver_balanced:
  assumes "deliver cb now l from msg s = Ret s'" and "sock_inv s"
  shows "balanced {#} s s'"
proof (cases "map_of (sk_waiters s) (msg_TransactionID msg)")
  case None
  then obtain b t where c: "stunServerSock_checkCachedResponse now msg from s = Ret (b, t)"
      "if b then s' = t else cb (UpMessage l from msg) t = Ret s'"
    using assms(1) by (auto simp: deliver_def stunServerSock_getAndRemoveWaiter_def go_bind_Ret_iff split: if_splits)
  have "balanced {#} s t" using checkCachedResponse_balanced [OF c(1) assms(2)] .
  then show ?thesis
    using c(2) cb_balanced [of "UpMessage l from msg" t s'] balanced_trans0 unfolding balanced_def by (auto split: if_splits)
next
  case (Some w)
  then show ?thesis
    using assms removeWaiter_balanced [OF Some assms(2)]
    by (cases w) (auto simp: deliver_def stunServerSock_getAndRemoveWaiter_def)
qed

lemma data_then_deliver_balanced:
  assumes "go_bind (stunServerSock_dataReceived cb peer d s) (deliver cb now l from msg) = Ret s'" and "sock_inv s"
  shows "balanced {#} s s'"
proof -
  obtain t where t: "cb (UpData (sk_Addr s) peer d) s = Ret t" "deliver cb now l from msg t = Ret s'"
    using assms(1) by (auto simp: go_bind_Ret_iff stunServerSock_dataReceived_def)
  have b: "balanced {#} s t" using cb_balanced t(1) assms(2) by blast
  then show ?thesis using deliver_balanced [OF t(2)] balanced_trans0 unfolding balanced_def by blast
qed

lemma stunMessageReceived_balanced:
  assumes "stunServerSock_stunMessageReceived cb now l from msg s = Ret s'" and "sock_inv s"
  shows "balanced {#} s s'"
proof (cases "mt_Method (msg_Type msg) = MethodChannelData")
  case False
  then show ?thesis using assms deliver_balanced by (simp add: stunServerSock_stunMessageReceived_def)
next
  case True
  note r = assms(1) [unfolded stunServerSock_stunMessageReceived_def if_P [OF True]]
  show ?thesis
  proof (cases "sk_mode s")
    case stageNegotiation
    then show ?thesis using r assms(2) balanced_refl by simp
  next
    case stunModeData
    then show ?thesis using r assms(2) cb_balanced by (simp add: stunServerSock_dataReceived_def)
  next
    case turnModeData
    obtain e data where g: "ChannelData_GetFrom (\<lambda>_. []) \<lparr>cd_ChannelNumber = 0, cd_Data = []\<rparr> msg = (e, data)"
      by fastforce
    show ?thesis
      using r assms(2) balanced_refl data_then_deliver_balanced unfolding turnModeData g
      by (cases e; cases "sk_channelNumber2Address s (uint (cd_ChannelNumber data))") auto
  qed
qed

lemma serveConn_balanced:
  assumes "stunServerSock_serveConn cb now packet addr s = Ret s'" and "sock_inv s"
  shows "balanced {#} s s'"
proof -
  consider "s' = s" | up where "cb up s = Ret s'"
    | l fr req where "stunServerSock_stunMessageReceived cb now l fr req s = Ret s'"
    using assms(1) unfolding stunServerSock_serveConn_def stunServerSock_dataReceived_def Let_def
    by (auto simp: go_bind_Ret_iff split: if_splits)
  then show ?thesis
    by cases (use assms(2) balanced_refl cb_balanced stunMessageReceived_balanced in blast)+
qed

end

interpretation session_cb: sock_callback to_session
  by unfold_locales (rule to_session_balanced)

text \<open>Every set of callbacks that keep the balance makes the socket a table of waits.\<close>

locale sock_callbacks =
  fixes cbs :: "sock_cb set"
  assumes callbacks: "cb \<in> cbs \<Longrightarrow> sock_callback cb"
begin

lemma step_balanced:
  assumes "sock_step cbs s l s'" and "sock_inv s"
  shows "balanced (started_wait l) s s'"
  using assms(1)
proof cases
  case (sock_Sync now msg fr to e)
  then show ?thesis
  proof (cases "stunServerSock_addWaiter (msg_TransactionID msg) s")
    case (Pair e' t)
    show ?thesis
    proof (cases e')
      case None
      then have t: "balanced {#msg_TransactionID msg#} s t" using Pair addWaiter_balanced assms(2) by simp
      have "e = None" "stunServerSock_sendStunMessageAsync now msg fr to t = Ret s'"
        using sock_Sync(2) Pair None by (auto simp: stunServerSock_sendStunMessageSync_def go_map_Ret)
      then show ?thesis
        using t sendStunMessageAsync_balanced [of now msg fr to t s'] balanced_trans [OF t, of "{#}" s'] sock_Sync(1)
        by (simp add: started_wait_def balanced_def)
    next
      case (Some x)
      then have "s' = s" "e \<noteq> None"
        using sock_Sync(2) Pair by (auto simp: stunServerSock_sendStunMessageSync_def stunServerSock_addWaiter_def split: if_splits)
      then show ?thesis using assms(2) sock_Sync(1) by (auto simp: started_wait_def balanced_refl)
    qed
  qed
next
  case (sock_Wait tid e)
  show ?thesis
  proof (cases "map_of (sk_waiters s) tid")
    case (Some w)
    then have "map fst (sk_waiters s') = map fst (sk_waiters s)" "sk_cachedResponse s' = sk_cachedResponse s"
      "sk_sendchan_closed s' = sk_sendchan_closed s" "sk_stoped s' = sk_stoped s" "sk_out s' = sk_out s"
      using sock_Wait(2) by (auto simp: stunServerSock_wait_def update_present)
    then show ?thesis
      using assms(2) sock_Wait(1) by (simp add: balanced_def sock_inv_def pending_waits_def started_wait_def flip: mset_map)
  qed (use sock_Wait assms(2) balanced_refl in \<open>auto simp: stunServerSock_wait_def started_wait_def\<close>)
qed (use assms(2) sendStunMessageAsync_balanced sock_callback.serveConn_balanced [OF callbacks] in
  \<open>auto simp: started_wait_def balanced_def sock_inv_def pending_waits_def stunServerSock_SetChannelNumber_def
    stunServerSock_FinishNegotiation_def stunServerSock_Close_def split: if_splits\<close>)

end

sublocale sock_callbacks \<subseteq> transaction_table "sock_step cbs" sock_inv
  "\<lambda>s. pending_waits s + ended_waits (sk_out s)" started_wait "\<lambda>_. {#}"
proof unfold_locales
  fix s l s'
  assume "sock_step cbs s l s'" "sock_inv s"
  then show "sock_inv s'"
    "pending_waits s + ended_waits (sk_out s) + started_wait l = pending_waits s' + ended_waits (sk_out s') + {#}"
    using step_balanced [of s l s'] by (simp_all add: balanced_def ac_simps)
qed

lemma newStunServerSock_inv:
  "newStunServerSock None a = Inr s \<Longrightarrow> sock_inv s \<and> pending_waits s = {#} \<and> sk_out s = []"
  by (auto simp: newStunServerSock_def sock_inv_def pending_waits_def)

context sock_callbacks
begin

lemma waits_balance:
  assumes "newStunServerSock None a = Inr s" and "path (sock_step cbs) s ls s'"
  shows "\<Sum>\<^sub># (mset (map started_wait ls)) = pending_waits s' + ended_waits (sk_out s')"
  using path_balance [OF assms(2)] newStunServerSock_inv [OF assms(1)] by (simp flip: mset_map)

end

interpretation session_sock: sock_callbacks "{to_session}"
  by unfold_locales (use to_session_balanced in simp)

section \<open>Retransmissions and late answers\<close>

text \<open>A message of the session that is no channel data goes to \<open>deliver\<close>.\<close>

lemma serveConn_message:
  assumes "Message_Write (take 1024 packet) zero_Message = Ret (n, None, req)"
    and "mt_Method (msg_Type req) \<noteq> MethodChannelData" and "mt_Class (msg_Type req) \<noteq> ClassIndication"
  shows "stunServerSock_serveConn cb now packet addr s = deliver cb now (sk_Addr s) (UDPAddr_String addr) req s"
proof -
  have "msg_Type req \<noteq> BindingIndication" "msg_Type req \<noteq> SendIndication"
    using assms(3) by (auto simp: BindingIndication_def SendIndication_def NewType_def)
  then show ?thesis
    using assms by (simp add: stunServerSock_serveConn_def stunServerSock_stunMessageReceived_def)
qed

text \<open>The cache finds the response of a transaction, as its keys are the transactions.\<close>

lemma find_cached:
  assumes "sock_inv s" and "(tid, c) \<in> set (sk_cachedResponse s)" and "P c" and "msg_TransactionID (cr_msg c) = tid"
  shows "find (\<lambda>(t, x). P x \<and> msg_TransactionID (cr_msg x) = tid) (sk_cachedResponse s) = Some (tid, c)"
proof -
  have inv: "distinct (map fst (sk_cachedResponse s))" "\<forall>(t, x)\<in>set (sk_cachedResponse s). msg_TransactionID (cr_msg x) = t"
    using assms(1) by (simp_all add: sock_inv_def)
  have "find (\<lambda>(t, x). P x \<and> msg_TransactionID (cr_msg x) = tid) xs = Some (tid, c)"
    if "distinct (map fst xs)" "\<forall>(t, x)\<in>set xs. msg_TransactionID (cr_msg x) = t" "(tid, c) \<in> set xs" for xs
    using that
  proof (induction xs)
    case (Cons a xs)
    then show ?case using assms(3,4) by (cases a) (auto simp: image_iff split: if_splits)
  qed simp
  then show ?thesis using inv assms(2) by blast
qed

lemma deliver_cached:
  assumes "sock_inv s" and "\<not> sk_stoped s" and "map_of (sk_waiters s) (msg_TransactionID req) = None"
    and "(msg_TransactionID req, c) \<in> set (sk_cachedResponse s)" and "now \<le> cacheTime c + stunResponseCacheDuration"
    and "mt_Method (msg_Type (cr_msg c)) = mt_Method (msg_Type req)"
  shows "\<exists>s'. deliver cb now l from req s = Ret s' \<and>
    sk_out s' = sk_out s @ [Written (msg_Raw (cr_msg c)) (addrToUDPAddr from)]"
proof -
  let ?u = "s\<lparr>sk_cachedResponse := filter (\<lambda>(tid, c). \<not> cacheTime c + stunResponseCacheDuration < now) (sk_cachedResponse s)\<rparr>"
  have u: "sock_inv ?u" using assms(1) by (auto simp: sock_inv_def distinct_map_filter)
  have tid: "msg_TransactionID (cr_msg c) = msg_TransactionID req" using assms(1,4) by (auto simp: sock_inv_def)
  have "find (\<lambda>(t, x). mt_Method (msg_Type (cr_msg x)) = mt_Method (msg_Type req) \<and>
      msg_TransactionID (cr_msg x) = msg_TransactionID req) (sk_cachedResponse ?u) = Some (msg_TransactionID req, c)"
    using find_cached [OF u, of "msg_TransactionID req" c "\<lambda>x. mt_Method (msg_Type (cr_msg x)) = mt_Method (msg_Type req)"]
      assms(4-6) tid by simp
  moreover have "sk_cachedResponse s \<noteq> []" using assms(4) by auto
  ultimately have "stunServerSock_checkCachedResponse now req from s =
      go_map (\<lambda>s. (True, s)) (stunServerSock_sendData (msg_Raw (cr_msg c)) (sk_Addr ?u) from ?u)"
    by (simp add: stunServerSock_checkCachedResponse_def)
  moreover have "\<not> sk_sendchan_closed s" using assms(1,2) by (simp add: sock_inv_def)
  ultimately show ?thesis
    using assms(2,3)
    by (simp add: deliver_def stunServerSock_getAndRemoveWaiter_def stunServerSock_sendData_def sk_emit_def)
qed

text \<open>What sending a response leaves in the cache.\<close>

lemma sendStunMessageAsync_caches:
  assumes "stunServerSock_sendStunMessageAsync t0 res from to s = Ret s1"
    and "mt_Class (msg_Type res) = ClassSuccessResponse \<or> mt_Class (msg_Type res) = ClassErrorResponse"
  shows "(msg_TransactionID res, \<lparr>cacheTime = t0, cr_msg = res\<rparr>) \<in> set (sk_cachedResponse s1) \<and>
    sk_waiters s1 = sk_waiters s \<and> sk_stoped s1 = sk_stoped s"
proof -
  let ?c = "AList.update (msg_TransactionID res) \<lparr>cacheTime = t0, cr_msg = res\<rparr> (sk_cachedResponse s)"
  have "map_of ?c (msg_TransactionID res) = Some \<lparr>cacheTime = t0, cr_msg = res\<rparr>" by (simp add: update_conv')
  then have "(msg_TransactionID res, \<lparr>cacheTime = t0, cr_msg = res\<rparr>) \<in> set ?c" by (rule map_of_SomeD)
  then show ?thesis
    using assms by (auto simp: stunServerSock_sendStunMessageAsync_def stunServerSock_sendData_def sk_emit_def Let_def split: if_splits)
qed

text \<open>
  The cache over a run: a response stays in it for its time, unless the socket sends another
  response with the same id, and whatever packets arrive meanwhile, retransmissions included.
\<close>

definition is_response :: "Message \<Rightarrow> bool" where
  "is_response m \<longleftrightarrow> mt_Class (msg_Type m) = ClassSuccessResponse \<or> mt_Class (msg_Type m) = ClassErrorResponse"

fun leaves_cached :: "TransactionID \<Rightarrow> int \<Rightarrow> sock_op \<Rightarrow> bool" where
  "leaves_cached tid until (SockAsync now m from to) = (is_response m \<longrightarrow> msg_TransactionID m \<noteq> tid)"
| "leaves_cached tid until (SockSync now m from to) = (is_response m \<longrightarrow> msg_TransactionID m \<noteq> tid)"
| "leaves_cached tid until (SockPacket now packet addr) = (now \<le> until)"
| "leaves_cached tid until _ = True"

lemma sendData_cache: "stunServerSock_sendData d from to s = Ret s' \<Longrightarrow> sk_cachedResponse s' = sk_cachedResponse s"
  by (auto simp: stunServerSock_sendData_def sk_emit_def split: if_splits)

lemma sendAsync_cache:
  assumes "stunServerSock_sendStunMessageAsync now m from to s = Ret s'" and "is_response m \<longrightarrow> msg_TransactionID m \<noteq> tid"
  shows "map_of (sk_cachedResponse s') tid = map_of (sk_cachedResponse s) tid"
  using assms sendData_cache
  by (fastforce simp: stunServerSock_sendStunMessageAsync_def is_response_def Let_def update_conv' split: if_splits)

lemma checkCachedResponse_cache:
  assumes "stunServerSock_checkCachedResponse now req from s = Ret (b, s')" and "distinct (map fst (sk_cachedResponse s))"
    and "map_of (sk_cachedResponse s) tid = Some c" and "now \<le> cacheTime c + stunResponseCacheDuration"
  shows "map_of (sk_cachedResponse s') tid = Some c"
proof -
  let ?P = "\<lambda>(tid, c). \<not> cacheTime c + stunResponseCacheDuration < now"
  have "(tid, c) \<in> set (filter ?P (sk_cachedResponse s))" using assms(3,4) by (auto dest: map_of_SomeD)
  then have "map_of (filter ?P (sk_cachedResponse s)) tid = Some c"
    using assms(2) by (intro map_of_is_SomeI distinct_map_filter)
  then show ?thesis
    using assms(1,3) sendData_cache
    by (fastforce simp: stunServerSock_checkCachedResponse_def Let_def go_map_Ret split: if_splits option.splits)
qed

lemma deliver_cache:
  assumes "deliver to_session now l from req s = Ret s'" and "distinct (map fst (sk_cachedResponse s))"
    and "map_of (sk_cachedResponse s) tid = Some c" and "now \<le> cacheTime c + stunResponseCacheDuration"
  shows "map_of (sk_cachedResponse s') tid = Some c"
proof (cases "map_of (sk_waiters s) (msg_TransactionID req)")
  case None
  then obtain b t where t: "stunServerSock_checkCachedResponse now req from s = Ret (b, t)"
      "if b then s' = t else to_session (UpMessage l from req) t = Ret s'"
    using assms(1) by (auto simp: deliver_def stunServerSock_getAndRemoveWaiter_def go_bind_Ret_iff split: if_splits)
  then show ?thesis
    using checkCachedResponse_cache [OF t(1) assms(2-4)] by (auto simp: to_session_def sk_emit_def split: if_splits)
next
  case (Some w)
  then show ?thesis
    using assms(1,3) by (cases w) (auto simp: deliver_def stunServerSock_getAndRemoveWaiter_def sk_emit_def)
qed

lemma to_session_cache: "to_session x s = Ret s' \<Longrightarrow> sk_cachedResponse s' = sk_cachedResponse s"
  by (auto simp: to_session_def sk_emit_def)

lemma stunMessageReceived_cache:
  assumes "stunServerSock_stunMessageReceived to_session now l from req s = Ret s'" and "distinct (map fst (sk_cachedResponse s))"
    and "map_of (sk_cachedResponse s) tid = Some c" and "now \<le> cacheTime c + stunResponseCacheDuration"
  shows "map_of (sk_cachedResponse s') tid = Some c"
proof (cases "mt_Method (msg_Type req) = MethodChannelData")
  case False
  then show ?thesis using assms deliver_cache by (simp add: stunServerSock_stunMessageReceived_def)
next
  case True
  note r = assms(1) [unfolded stunServerSock_stunMessageReceived_def if_P [OF True] stunServerSock_dataReceived_def]
  show ?thesis
  proof (cases "sk_mode s")
    case turnModeData
    obtain e data where g: "ChannelData_GetFrom (\<lambda>_. []) \<lparr>cd_ChannelNumber = 0, cd_Data = []\<rparr> req = (e, data)"
      by fastforce
    show ?thesis
    proof (cases "e = None \<and> sk_channelNumber2Address s (uint (cd_ChannelNumber data)) \<noteq> None")
      case True
      then obtain x t where "to_session x s = Ret t" "deliver to_session now l from req t = Ret s'"
        using r unfolding turnModeData g by (auto simp: go_bind_Ret_iff)
      then show ?thesis using to_session_cache deliver_cache [of now l "from" req t s' tid c] assms(2-4) by simp
    next
      case False
      then have "s' = s" using r unfolding turnModeData g by (auto split: option.splits)
      then show ?thesis using assms(3) by simp
    qed
  next
    case stunModeData
    then show ?thesis using r to_session_cache assms(3) by simp
  qed (use r assms(3) in simp)
qed

lemma serveConn_cache:
  assumes "stunServerSock_serveConn to_session now packet addr s = Ret s'" and "distinct (map fst (sk_cachedResponse s))"
    and "map_of (sk_cachedResponse s) tid = Some c" and "now \<le> cacheTime c + stunResponseCacheDuration"
  shows "map_of (sk_cachedResponse s') tid = Some c"
proof -
  consider "s' = s" | up where "to_session up s = Ret s'"
    | l fr req where "stunServerSock_stunMessageReceived to_session now l fr req s = Ret s'"
    using assms(1) unfolding stunServerSock_serveConn_def stunServerSock_dataReceived_def Let_def
    by (auto simp: go_bind_Ret_iff split: if_splits)
  then show ?thesis
    by cases (use assms(2-4) to_session_cache stunMessageReceived_cache in auto)
qed

lemma sock_step_cache:
  assumes "sock_step {to_session} s l s'" and "sock_inv s" and "map_of (sk_cachedResponse s) tid = Some c"
    and "leaves_cached tid (cacheTime c + stunResponseCacheDuration) (fst l)"
  shows "map_of (sk_cachedResponse s') tid = Some c"
  using assms(1)
proof cases
  case (sock_Sync now msg fr to e)
  obtain x t where a: "stunServerSock_addWaiter (msg_TransactionID msg) s = (x, t)" by fastforce
  then have "sk_cachedResponse t = sk_cachedResponse s" by (auto simp: stunServerSock_addWaiter_def split: if_splits)
  then show ?thesis
    using sock_Sync a sendAsync_cache [of now msg fr to t s' tid] assms(3,4)
    by (auto simp: stunServerSock_sendStunMessageSync_def go_map_Ret split: option.splits)
next
  case (sock_Packet cb now packet addr)
  then show ?thesis using serveConn_cache [of now packet addr s s' tid c] assms(2-4) by (auto simp: sock_inv_def)
qed (use assms(3,4) sendAsync_cache in \<open>auto simp: stunServerSock_wait_def stunServerSock_SetChannelNumber_def
    stunServerSock_FinishNegotiation_def stunServerSock_Close_def split: if_splits\<close>)

lemma path_cache:
  assumes "path (sock_step {to_session}) s ls s'" and "sock_inv s" and "map_of (sk_cachedResponse s) tid = Some c"
    and "\<forall>l\<in>set ls. leaves_cached tid (cacheTime c + stunResponseCacheDuration) (fst l)"
  shows "map_of (sk_cachedResponse s') tid = Some c"
  using assms
proof (induction rule: path.induct)
  case (path_snoc s ls s' l s'')
  then show ?case using sock_step_cache session_sock.path_inv by fastforce
qed simp

lemma retransmission_answered:
  assumes inv: "sock_inv s"
    and sent: "stunServerSock_sendStunMessageAsync t0 res from to s = Ret s1" "is_response res"
    and run: "path (sock_step {to_session}) s1 ls s2"
      "\<forall>l\<in>set ls. leaves_cached (msg_TransactionID res) (t0 + stunResponseCacheDuration) (fst l)"
    and again: "\<not> sk_stoped s2" "map_of (sk_waiters s2) (msg_TransactionID req) = None"
      "msg_TransactionID res = msg_TransactionID req" "mt_Method (msg_Type res) = mt_Method (msg_Type req)"
      "now \<le> t0 + stunResponseCacheDuration"
    and packet: "Message_Write (take 1024 packet) zero_Message = Ret (n, None, req)"
      "mt_Method (msg_Type req) \<noteq> MethodChannelData" "mt_Class (msg_Type req) \<noteq> ClassIndication"
  shows "\<exists>s3. stunServerSock_serveConn cb now packet addr s2 = Ret s3 \<and>
    sk_out s3 = sk_out s2 @ [Written (msg_Raw res) (addrToUDPAddr (UDPAddr_String addr))]"
proof -
  let ?c = "\<lparr>cacheTime = t0, cr_msg = res\<rparr>"
  have i1: "sock_inv s1" using sendStunMessageAsync_balanced [OF sent(1) inv] by (simp add: balanced_def)
  have "map_of (sk_cachedResponse s1) (msg_TransactionID res) = Some ?c"
    using sendStunMessageAsync_caches [OF sent(1)] sent(2) i1
    by (auto simp: is_response_def sock_inv_def intro: map_of_is_SomeI)
  then have "map_of (sk_cachedResponse s2) (msg_TransactionID res) = Some ?c"
    using path_cache [OF run(1) i1, of "msg_TransactionID res" ?c] run(2) by simp
  then have "(msg_TransactionID req, ?c) \<in> set (sk_cachedResponse s2)" using again(3) by (auto dest: map_of_SomeD)
  then show ?thesis
    unfolding serveConn_message [OF packet]
    using deliver_cached [of s2 req ?c now cb "sk_Addr s2" "UDPAddr_String addr"] again session_sock.path_inv [OF run(1) i1]
    by simp
qed
text \<open>An answer that comes after the wait has timed out is sent to a channel nobody receives from.\<close>

lemma late_answer_blocks:
  assumes "map_of (sk_waiters s) (msg_TransactionID req) \<noteq> None"
    and "Message_Write (take 1024 packet) zero_Message = Ret (n, None, req)"
    and "mt_Method (msg_Type req) \<noteq> MethodChannelData" and "mt_Class (msg_Type req) \<noteq> ClassIndication"
  shows "stunServerSock_serveConn cb now packet addr (snd (stunServerSock_wait (msg_TransactionID req) s)) = Panic BlockedSend"
  unfolding serveConn_message [OF assms(2-4)] using assms(1)
  by (auto simp: stunServerSock_wait_def deliver_def stunServerSock_getAndRemoveWaiter_def update_conv')

lemma empty_packet_panics: "stunServerSock_serveConn cb now [] addr s = Panic IndexOutOfRange"
  by (simp add: stunServerSock_serveConn_def Message_Write_def Message_Decode_def raw_append_def zero_Message_def)

end
