(* ===== verification/Ice_Requests.thy ===== *)
theory Ice_Requests
  imports Ice_Session
begin

text \<open>
  The messages two agents exchange, and what a session does with them: the request one agent
  builds is decoded and authenticated by the other when the credentials were exchanged, a
  request that is not authenticated changes nothing, and how a conflict of roles ends.
\<close>

section \<open>Messages that end with integrity and fingerprint\<close>

text \<open>\<open>m'\<close> is \<open>m\<close>, still well-formed, with more attributes.\<close>

definition extends :: "Message \<Rightarrow> RawAttribute list \<Rightarrow> Message \<Rightarrow> bool" where
  "extends m as m' \<longleftrightarrow> msg_wf m' \<and> msg_Type m' = msg_Type m \<and> msg_TransactionID m' = msg_TransactionID m \<and>
     msg_Attributes m' = msg_Attributes m @ as"

lemma extends_trans: "extends m as m' \<Longrightarrow> extends m' bs m'' \<Longrightarrow> extends m (as @ bs) m''"
  by (simp add: extends_def)

lemma msg_wf_size: "msg_wf m \<Longrightarrow> unat (msg_Length m) = length (enc_attrs (msg_Attributes m))"
  by (simp add: msg_wf_def)

lemma signed_tail:
  assumes wf: "msg_wf m" and small: "length (enc_attrs (msg_Attributes m)) + 32 < 65536"
    and no: "\<not> Message_Contains m AttrFingerprint" "\<not> Message_Contains m AttrMessageIntegrity"
  shows "\<exists>mi fp m'. run_setters [MessageIntegrity_AddTo i, Fingerprint_AddTo] m = Ret (None, m') \<and>
    extends m [mk_attr AttrMessageIntegrity mi, mk_attr AttrFingerprint fp] m' \<and>
    (\<forall>m2. extends m' [] m2 \<longrightarrow> MessageIntegrity_Check i m2 = Ret (None, m2))"
proof -
  let ?mi = "newHMAC i (signed_prefix m (msg_Attributes m) 24)"
  have pad: "nearestPaddedValueLength 20 = 20" "nearestPaddedValueLength 4 = 4"
    by (simp_all add: nearestPaddedValueLength_aligned)
  have "\<not> has_fingerprint (msg_Attributes m)" using no(1) by (auto simp: has_fingerprint_iff Message_Contains_iff)
  moreover have "fits m messageIntegritySize"
    using small msg_wf_size [OF wf] by (simp add: fits_def messageIntegritySize_def pad size_defs)
  ultimately obtain m1 where m1: "MessageIntegrity_AddTo i m = Ret (None, m1)" "msg_wf m1"
      "msg_Type m1 = msg_Type m" "msg_TransactionID m1 = msg_TransactionID m"
      "msg_Attributes m1 = msg_Attributes m @ [mk_attr AttrMessageIntegrity ?mi]"
    using MessageIntegrity_AddTo_eq [OF wf] by blast
  have l20: "length ?mi = 20" by (simp add: newHMAC_def)
  then have "fits m1 fingerprintSize"
    using small m1(5) msg_wf_size [OF m1(2)] by (simp add: fits_def fingerprintSize_def pad size_defs)
  then obtain m' fp where m': "Fingerprint_AddTo m1 = Ret (None, m')" "msg_wf m'"
      "msg_Type m' = msg_Type m1" "msg_TransactionID m' = msg_TransactionID m1"
      "msg_Attributes m' = msg_Attributes m1 @ [mk_attr AttrFingerprint fp]"
    using Fingerprint_AddTo_eq [OF m1(2)] by blast
  have "MessageIntegrity_Check i m2 = Ret (None, m2)" if "extends m' [] m2" for m2
    using MessageIntegrity_Check_eq [of m2 "msg_Attributes m" "mk_attr AttrMessageIntegrity ?mi"
        "[mk_attr AttrFingerprint fp]" i] that no(2) m1 m' l20
    by (auto simp: extends_def Message_Contains_iff signed_prefix_def messageIntegritySize_def)
  then show ?thesis
    using m1 m' by (intro exI [of _ ?mi] exI [of _ fp] exI [of _ m']) (simp add: extends_def)
qed

lemma run_setters_adds_extends:
  assumes "list_all (\<lambda>(s, t, e). adds s t e) ss" and "msg_wf m"
    and "length (enc_attrs (msg_Attributes m)) + length (enc_attrs (adding_attrs (msg_TransactionID m) ss)) < 65536"
  shows "\<exists>m'. run_setters (map fst ss) m = Ret (None, m') \<and> extends m (adding_attrs (msg_TransactionID m) ss) m'"
  using run_setters_adds [OF assms(1,2)] assms(3) msg_wf_size [OF assms(2)] by (auto simp: extends_def)

text \<open>The type and the id of a message that has room for its header.\<close>

lemma type_tid_setters:
  assumes "msg_wf m" and "length tid = TransactionIDSize"
  shows "\<exists>m'. run_setters [MessageType_AddTo t, transactionIDSetter_AddTo (tid, None)] m = Ret (None, m') \<and>
    msg_wf m' \<and> msg_Type m' = t \<and> msg_TransactionID m' = tid \<and> msg_Attributes m' = msg_Attributes m"
proof -
  obtain m1 where m1: "Message_SetType t m = Ret m1" "msg_wf m1" "msg_Type m1 = t" "msg_Attributes m1 = msg_Attributes m"
    using Message_SetType_wf [OF assms(1)] by blast
  have "put_at 0 tid (msg_TransactionID m1) = tid"
    using m1(2) assms(2) by (simp add: put_at_def msg_wf_def)
  then show ?thesis
    using Message_WriteTransactionID_wf [OF m1(2) assms(2)] m1
    by (auto simp: MessageType_AddTo_def transactionIDSetter_AddTo_def Message_NewTransactionID_def add_ok_def)
qed

section \<open>The request\<close>

lemma enc_attrs_append: "enc_attrs (as @ bs) = enc_attrs as @ enc_attrs bs"
  by simp

lemma software_ok: "text_ok softwareRawMaxB software"
  by (simp add: text_ok_def software_def bytes_of_string_def softwareRawMaxB_def)

text \<open>The attributes of a request in front of its integrity.\<close>

definition control_attr :: "session \<Rightarrow> RawAttribute" where
  "control_attr s = mk_attr (if role s = SessionRoleControlling then AttrICEControlling else AttrICEControlled)
     (put_u64 (tieBreaker s))"

definition request_attrs :: "nat \<Rightarrow> session \<Rightarrow> RawAttribute list" where
  "request_attrs c s =
     (if nominated (the_check s c) \<and> role s = SessionRoleControlling then [mk_attr AttrUseCandidate []] else []) @
     [mk_attr AttrPriority (put_u32 (of_int (calcCandidatePriority CandidatePeerReflexive defaultPreference 1))),
      control_attr s, mk_attr AttrSoftware software, mk_attr AttrUsername (bytes_of_string (txUserName s))]"

lemma software_length: "length software = 17"
  by (simp add: software_def bytes_of_string_def)

lemma request_attrs_size:
  assumes "length (txUserName s) \<le> 513"
  shows "length (enc_attrs (request_attrs c s)) < 600"
proof -
  have "nearestPaddedValueLength (length (txUserName s)) < 517"
    using nearestPaddedValueLength_bounds(2) [of "length (txUserName s)"] assms by simp
  then show ?thesis
    by (simp add: request_attrs_def control_attr_def software_length nearestPaddedValueLength_eq)
qed

lemma buildBindingRequest_ok:
  assumes tid: "length tid = TransactionIDSize" and user: "length (txUserName s) \<le> 513"
  shows "\<exists>req mi fp. buildBindingRequest (tid, None) c s = Ret req \<and> msg_wf req \<and> msg_Type req = BindingRequest \<and>
    msg_TransactionID req = tid \<and>
    msg_Attributes req = request_attrs c s @ [mk_attr AttrMessageIntegrity mi, mk_attr AttrFingerprint fp] \<and>
    (\<forall>m2. extends req [] m2 \<longrightarrow> MessageIntegrity_Check (txCrendientials s) m2 = Ret (None, m2))"
proof -
  let ?nom = "nominated (the_check s c) \<and> role s = SessionRoleControlling"
  let ?u = "if ?nom then [(UseCandidate_AddTo, AttrUseCandidate, \<lambda>_. [])] else [] :: adding list"
  let ?p = "of_int (calcCandidatePriority CandidatePeerReflexive defaultPreference 1) :: u32"
  let ?control = "if role s = SessionRoleControlling then IceControlling_AddTo (tieBreaker s)
    else IceControlled_AddTo (tieBreaker s)"
  let ?ss = "[(Priority_AddTo ?p, AttrPriority, \<lambda>_. put_u32 ?p),
    (?control, attr_Type (control_attr s), \<lambda>_. put_u64 (tieBreaker s)),
    (Software_AddTo software, AttrSoftware, \<lambda>_. software),
    (Username_AddTo (bytes_of_string (txUserName s)), AttrUsername, \<lambda>_. bytes_of_string (txUserName s))] :: adding list"
  have uc: "adds UseCandidate_AddTo AttrUseCandidate (\<lambda>_. [])" by (simp add: adds_def UseCandidate_AddTo_def)
  have okU: "list_all (\<lambda>(s, t, e). adds s t e) ?u" using uc by simp
  have "text_ok maxUsernameB (bytes_of_string (txUserName s))" using user by (simp add: text_ok_def maxUsernameB_def)
  then have okS: "list_all (\<lambda>(s, t, e). adds s t e) ?ss"
    using priority.AddTo_adds ice_controlling.AddTo_adds ice_controlled.AddTo_adds
      software.AddTo_adds [OF software_ok] username.AddTo_adds
    by (simp add: control_attr_def)
  have split: "request_attrs c s = adding_attrs t1 ?u @ adding_attrs t2 ?ss" for t1 t2
    by (simp add: request_attrs_def adding_attrs_def control_attr_def)
  have size: "length (enc_attrs (request_attrs c s)) < 600" by (rule request_attrs_size [OF user])
  have sizeU: "length (enc_attrs (adding_attrs t ?u)) < 65536" for t
    using size unfolding split [of t t] enc_attrs_append by simp
  have sameU: "adding_attrs t1 ?u = adding_attrs t2 ?u" for t1 t2 by (simp add: adding_attrs_def)
  obtain m0 where m0: "Message_WriteHeader (Message_Reset zero_Message) = Ret m0" "msg_wf m0" "msg_Attributes m0 = []"
    using Message_WriteHeader_Reset [of zero_Message] by (auto simp: zero_Message_def size_defs)
  obtain m1 where m1: "run_setters (map fst ?u) m0 = Ret (None, m1)" "msg_wf m1" "msg_Attributes m1 = adding_attrs tid ?u"
    using run_setters_adds_extends [OF okU m0(2)] m0(3) sizeU sameU [of "msg_TransactionID m0" tid]
    by (simp only: extends_def) auto
  obtain m2 where m2: "run_setters [MessageType_AddTo BindingRequest, transactionIDSetter_AddTo (tid, None)] m1 = Ret (None, m2)"
      "msg_wf m2" "msg_Type m2 = BindingRequest" "msg_TransactionID m2 = tid" "msg_Attributes m2 = msg_Attributes m1"
    using type_tid_setters [OF m1(2) tid] by blast
  obtain m3 where m3: "run_setters (map fst ?ss) m2 = Ret (None, m3)" "extends m2 (adding_attrs tid ?ss) m3"
    using run_setters_adds_extends [OF okS m2(2)] size split [of tid tid] m1(3) m2(4,5) by auto
  have as: "msg_Attributes m3 = request_attrs c s" using m1(3) m2(5) m3(2) split by (simp add: extends_def)
  have "\<not> Message_Contains m3 AttrFingerprint" "\<not> Message_Contains m3 AttrMessageIntegrity"
    by (auto simp: Message_Contains_iff as request_attrs_def control_attr_def attr_type_defs)
  then obtain mi fp req where req: "run_setters [MessageIntegrity_AddTo (txCrendientials s), Fingerprint_AddTo] m3 = Ret (None, req)"
      "extends m3 [mk_attr AttrMessageIntegrity mi, mk_attr AttrFingerprint fp] req"
      "\<forall>m2. extends req [] m2 \<longrightarrow> MessageIntegrity_Check (txCrendientials s) m2 = Ret (None, m2)"
    using signed_tail [of m3 "txCrendientials s"] m3(2) size as by (auto simp: extends_def)
  have "Message_Build (map fst ?u @ [MessageType_AddTo BindingRequest, transactionIDSetter_AddTo (tid, None)] @ map fst ?ss @
      [MessageIntegrity_AddTo (txCrendientials s), Fingerprint_AddTo]) zero_Message = Ret (None, req)"
    unfolding Message_Build_def m0(1) using m1(1) m2(1) m3(1) req(1)
    by (simp only: run_setters_append go_bind.simps prod.case simp_thms if_False)
  then have "buildBindingRequest (tid, None) c s = Ret req"
    by (auto simp: buildBindingRequest_def Let_def split: if_splits)
  with req(2,3) m2 m3(2) as show ?thesis by (auto simp: extends_def)
qed

section \<open>The request is authenticated\<close>

text \<open>What the username and the integrity of a request must be for \<open>processBindingRequest\<close> to go on.\<close>

definition authenticated :: "session \<Rightarrow> Message \<Rightarrow> bool" where
  "authenticated s req \<longleftrightarrow>
     (\<exists>u. Username_GetFrom [] req = Ret (None, u) \<and> (rxUserName s = [] \<or> string_of_bytes u = rxUserName s)) \<and>
     (\<exists>r. MessageIntegrity_Check (rxCrendientials s) req = Ret (None, r))"

lemma Username_GetFrom_cases:
  obtains u where "Username_GetFrom v m = Ret (None, u)" | e w where "Username_GetFrom v m = Ret (Some e, w)"
  by (cases "Message_Get m AttrUsername") (auto simp: Username_GetFrom_def TextAttribute_GetFromAs_def)

lemma sendResponse_only_sends:
  assumes "sendResponse la fa req code s = Ret s'"
  shows "s' = s \<or> (\<exists>sk res. s' = emit (SendStun sk res la fa) s)"
  using assms
  by (auto simp: sendResponse_def send_built_def Let_def go_bind_Ret_iff split: sum.splits if_splits option.splits)

lemma processBindingRequest_unauthenticated:
  assumes "processBindingRequest n la fa req s = Ret s'" and "\<not> authenticated s req"
  shows "s' = s \<or> (\<exists>sk res. s' = emit (SendStun sk res la fa) s)"
proof -
  have "s' = s \<or> (\<exists>r. sendResponse la fa r CodeUnauthorised s = Ret s')"
    using assms
    by (cases rule: Username_GetFrom_cases [of "[]" req])
      (auto simp: processBindingRequest_def authenticated_def go_bind_Ret_iff split: if_splits)
  then show ?thesis using sendResponse_only_sends by blast
qed

lemma processBindingRequest_authenticated:
  assumes "Priority_GetFrom 0 req = Ret (None, prio)" and "Username_GetFrom [] req = Ret (None, u)"
    and "rxUserName s = [] \<or> string_of_bytes u = rxUserName s"
    and "MessageIntegrity_Check (rxCrendientials s) req = Ret (None, req)"
  shows "processBindingRequest n la fa req s = authenticated_request n la fa req u prio s"
  using assms by (auto simp: processBindingRequest_def)

text \<open>The rx check a request of the other role leads to.\<close>

lemma authenticated_request_agreed:
  assumes "Message_Contains req AttrICEControlling" "\<not> Message_Contains req AttrICEControlled"
    and "role s = SessionRoleControlled"
  shows "authenticated_request n la fa req u prio s =
    accept_request n la fa req u \<lparr>componentID = 0, remoteAddress = [], localAddress = [], userCandidate = False,
      rx_priority = uint prio, rx_role = SessionRoleControlling\<rparr> s"
proof -
  have "changeRole (role s) s = s" by (simp add: changeRole_def)
  then show ?thesis using assms by (simp add: authenticated_request_def resolve_def Let_def)
qed

lemma request_get:
  assumes "msg_Attributes m = request_attrs c s @ as"
  shows "Message_Get m AttrPriority =
      Inr (put_u32 (of_int (calcCandidatePriority CandidatePeerReflexive defaultPreference 1)))"
    and "Message_Get m AttrUsername = Inr (bytes_of_string (txUserName s))"
  by (simp_all add: Message_Get_def assms request_attrs_def control_attr_def attr_type_defs)

lemma decode_extends:
  assumes "msg_wf m" and "valid_MessageType (msg_Type m)" and "msg_Raw r = msg_Raw m"
  shows "\<exists>r'. Message_Decode r = Ret (None, r') \<and> extends m [] r'"
  using Message_Decode_wf [OF assms] assms(1,3) by (auto simp: extends_def msg_wf_def)

lemma BindingRequest_type: "valid_MessageType BindingRequest"
  by (simp add: valid_MessageType_def BindingRequest_def NewType_def MethodBinding_def ClassRequest_def)

lemma exchanged_credentials_authenticate:
  assumes tid: "length tid = TransactionIDSize" and user: "length (txUserName s) \<le> 513"
    and cred: "rxCrendientials p = txCrendientials s" and name: "rxUserName p = [] \<or> rxUserName p = txUserName s"
  shows "\<exists>req. buildBindingRequest (tid, None) c s = Ret req \<and>
    (\<forall>r. msg_Raw r = msg_Raw req \<longrightarrow>
       (\<exists>r'. Message_Decode r = Ret (None, r') \<and> authenticated p r' \<and>
          processBindingRequest n la fa r' p =
            authenticated_request n la fa r' (bytes_of_string (txUserName s))
              (of_int (calcCandidatePriority CandidatePeerReflexive defaultPreference 1)) p \<and>
          (Message_Contains r' AttrICEControlling \<longleftrightarrow> role s = SessionRoleControlling) \<and>
          (Message_Contains r' AttrICEControlled \<longleftrightarrow> role s \<noteq> SessionRoleControlling) \<and>
          (Message_Contains r' AttrUseCandidate \<longleftrightarrow> nominated (the_check s c) \<and> role s = SessionRoleControlling)))"
proof -
  obtain req mi fp where req: "buildBindingRequest (tid, None) c s = Ret req" "msg_wf req" "msg_Type req = BindingRequest"
      "msg_Attributes req = request_attrs c s @ [mk_attr AttrMessageIntegrity mi, mk_attr AttrFingerprint fp]"
    and check: "\<forall>m2. extends req [] m2 \<longrightarrow> MessageIntegrity_Check (txCrendientials s) m2 = Ret (None, m2)"
    using buildBindingRequest_ok [OF tid user] by blast
  have "\<exists>r'. Message_Decode r = Ret (None, r') \<and> extends req [] r'" if "msg_Raw r = msg_Raw req" for r
    using decode_extends [OF req(2) _ that] req(3) BindingRequest_type by simp
  moreover have "authenticated p r' \<and> processBindingRequest n la fa r' p =
      authenticated_request n la fa r' (bytes_of_string (txUserName s))
        (of_int (calcCandidatePriority CandidatePeerReflexive defaultPreference 1)) p \<and>
      (Message_Contains r' AttrICEControlling \<longleftrightarrow> role s = SessionRoleControlling) \<and>
      (Message_Contains r' AttrICEControlled \<longleftrightarrow> role s \<noteq> SessionRoleControlling) \<and>
      (Message_Contains r' AttrUseCandidate \<longleftrightarrow> nominated (the_check s c) \<and> role s = SessionRoleControlling)"
    if ext: "extends req [] r'" for r'
  proof -
    have as: "msg_Attributes r' = request_attrs c s @ [mk_attr AttrMessageIntegrity mi, mk_attr AttrFingerprint fp]"
      using ext req(4) by (simp add: extends_def)
    note get = request_get [OF as]
    have "Priority_GetFrom 0 r' = Ret (None, of_int (calcCandidatePriority CandidatePeerReflexive defaultPreference 1))"
      by (rule priority.GetFrom_encode [OF TrueI TrueI get(1)])
    moreover have "Username_GetFrom [] r' = Ret (None, bytes_of_string (txUserName s))"
      by (simp add: Username_GetFrom_def TextAttribute_GetFromAs_def get(2))
    moreover have "MessageIntegrity_Check (rxCrendientials p) r' = Ret (None, r')" using check ext cred by simp
    ultimately show ?thesis
      using name processBindingRequest_authenticated
      by (auto simp: authenticated_def Message_Contains_iff as request_attrs_def control_attr_def attr_type_defs)
  qed
  ultimately show ?thesis using req(1) by blast
qed

section \<open>The answers\<close>

lemma tid_type_setters:
  assumes "msg_wf m" and "length tid = TransactionIDSize"
  shows "\<exists>m'. run_setters [transactionIDValueSetter_AddTo tid, MessageType_AddTo t] m = Ret (None, m') \<and>
    msg_wf m' \<and> msg_Type m' = t \<and> msg_TransactionID m' = tid \<and> msg_Attributes m' = msg_Attributes m"
proof -
  obtain m1 where m1: "Message_WriteTransactionID (m\<lparr>msg_TransactionID := tid\<rparr>) = Ret m1" "msg_wf m1"
      "msg_TransactionID m1 = tid" "msg_Attributes m1 = msg_Attributes m"
    using Message_WriteTransactionID_wf [OF assms] by blast
  then show ?thesis
    using Message_SetType_wf [OF m1(2), of t]
    by (auto simp: MessageType_AddTo_def transactionIDValueSetter_AddTo_def add_ok_def)
qed

text \<open>
  An answer is built from the id of the request, a type, some attributes, integrity and
  fingerprint.
\<close>

lemma answer_built:
  assumes ss: "list_all (\<lambda>(s, t, e). adds s t e) ss" and tid: "length tid = TransactionIDSize"
    and small: "length (enc_attrs (adding_attrs tid ss)) + 32 < 65536"
    and no: "\<forall>(s, t, e)\<in>set ss. t \<noteq> AttrFingerprint \<and> t \<noteq> AttrMessageIntegrity"
  shows "\<exists>res mi fp. Message_Build ([transactionIDValueSetter_AddTo tid, MessageType_AddTo t] @ map fst ss @
      [MessageIntegrity_AddTo i, Fingerprint_AddTo]) zero_Message = Ret (None, res) \<and> msg_wf res \<and> msg_Type res = t \<and>
    msg_TransactionID res = tid \<and>
    msg_Attributes res = adding_attrs tid ss @ [mk_attr AttrMessageIntegrity mi, mk_attr AttrFingerprint fp] \<and>
    (\<forall>m2. extends res [] m2 \<longrightarrow> MessageIntegrity_Check i m2 = Ret (None, m2))"
proof -
  obtain m0 where m0: "Message_WriteHeader (Message_Reset zero_Message) = Ret m0" "msg_wf m0" "msg_Attributes m0 = []"
    using Message_WriteHeader_Reset [of zero_Message] by (auto simp: zero_Message_def size_defs)
  obtain m2 where m2: "run_setters [transactionIDValueSetter_AddTo tid, MessageType_AddTo t] m0 = Ret (None, m2)"
      "msg_wf m2" "msg_Type m2 = t" "msg_TransactionID m2 = tid" "msg_Attributes m2 = []"
    using tid_type_setters [OF m0(2) tid] m0(3) by metis
  obtain m3 where m3: "run_setters (map fst ss) m2 = Ret (None, m3)" "extends m2 (adding_attrs tid ss) m3"
    using run_setters_adds_extends [OF ss m2(2)] small m2(4,5) by auto
  have as: "msg_Attributes m3 = adding_attrs tid ss" using m2(5) m3(2) by (simp add: extends_def)
  have "\<not> Message_Contains m3 AttrFingerprint" "\<not> Message_Contains m3 AttrMessageIntegrity"
    using no by (auto simp: Message_Contains_iff as adding_attrs_def)
  then obtain mi fp res where res: "run_setters [MessageIntegrity_AddTo i, Fingerprint_AddTo] m3 = Ret (None, res)"
      "extends m3 [mk_attr AttrMessageIntegrity mi, mk_attr AttrFingerprint fp] res"
      "\<forall>m2. extends res [] m2 \<longrightarrow> MessageIntegrity_Check i m2 = Ret (None, m2)"
    using signed_tail [of m3 i] m3(2) small as by (auto simp: extends_def)
  have "Message_Build ([transactionIDValueSetter_AddTo tid, MessageType_AddTo t] @ map fst ss @
      [MessageIntegrity_AddTo i, Fingerprint_AddTo]) zero_Message = Ret (None, res)"
    unfolding Message_Build_def m0(1) using m2(1) m3(1) res(1)
    by (simp only: run_setters_append go_bind.simps prod.case simp_thms if_False)
  then show ?thesis using res(2,3) m2 m3(2) as by (auto simp: extends_def)
qed

lemma xor_encode_size: "valid_addr a \<Longrightarrow> length (xor_encode tid a) \<le> 20"
  by (auto simp: xor_encode_def valid_addr_def wire_ip_def subslice_def IPv4len_def IPv6len_def)

lemma padded_le: "k \<le> 20 \<Longrightarrow> nearestPaddedValueLength k \<le> 20"
  by (simp add: nearestPaddedValueLength_eq)

lemma padded_17: "nearestPaddedValueLength 17 = 20"
  by (simp add: nearestPaddedValueLength_eq)

text \<open>
  A request is answered with success when the socket of the local address is there and the
  peer's address is an IP address and port: the answer has the id of the request, carries the
  address, and passes the integrity check under the same credentials.
\<close>

definition answers :: "session \<Rightarrow> Message \<Rightarrow> MappedAddress \<Rightarrow> Message \<Rightarrow> bool" where
  "answers s req a res \<longleftrightarrow> msg_wf res \<and> msg_TransactionID res = msg_TransactionID req \<and>
     Message_Get res AttrXORMappedAddress = Inr (xor_encode (msg_TransactionID req) a) \<and>
     (\<forall>m2. extends res [] m2 \<longrightarrow> MessageIntegrity_Check (txCrendientials s) m2 = Ret (None, m2))"

lemma sendResponse_success:
  assumes sk: "getSenderServerSock la s = Inr (Some sk)" and tid: "length (msg_TransactionID req) = TransactionIDSize"
    and addr: "addrToUDPAddr fa = (ip, port)" and valid: "valid_addr \<lparr>addr_IP = ip, addr_Port = port\<rparr>"
  shows "\<exists>res. sendResponse la fa req 0 s = Ret (emit (SendStun sk res la fa) s) \<and>
    msg_Type res = NewType MethodBinding ClassSuccessResponse \<and> answers s req \<lparr>addr_IP = ip, addr_Port = port\<rparr> res"
proof -
  let ?a = "\<lparr>addr_IP = ip, addr_Port = port\<rparr>" and ?tid = "msg_TransactionID req"
  let ?ss = "[(Software_AddTo software, AttrSoftware, \<lambda>_. software),
    (XORMappedAddress_AddTo ?a, AttrXORMappedAddress, \<lambda>tid. xor_encode tid ?a)] :: adding list"
  have ok: "list_all (\<lambda>(s, t, e). adds s t e) ?ss"
    using software.AddTo_adds [OF software_ok] xor_mapped_addr.AddTo_adds [OF valid] by simp
  have small: "length (enc_attrs (adding_attrs ?tid ?ss)) + 32 < 65536"
    using padded_le [OF xor_encode_size [OF valid], of ?tid] by (simp add: adding_attrs_def software_length padded_17)
  have no: "\<forall>(s, t, e)\<in>set ?ss. t \<noteq> AttrFingerprint \<and> t \<noteq> AttrMessageIntegrity" by (simp add: attr_type_defs)
  obtain res mi fp where res: "Message_Build ([transactionIDValueSetter_AddTo ?tid,
      MessageType_AddTo (NewType MethodBinding ClassSuccessResponse)] @ map fst ?ss @
      [MessageIntegrity_AddTo (txCrendientials s), Fingerprint_AddTo]) zero_Message = Ret (None, res)"
      "msg_wf res" "msg_Type res = NewType MethodBinding ClassSuccessResponse" "msg_TransactionID res = ?tid"
      "msg_Attributes res = adding_attrs ?tid ?ss @ [mk_attr AttrMessageIntegrity mi, mk_attr AttrFingerprint fp]"
      "\<forall>m2. extends res [] m2 \<longrightarrow> MessageIntegrity_Check (txCrendientials s) m2 = Ret (None, m2)"
    using answer_built [OF ok tid small no] by blast
  have "sendResponse la fa req 0 s = Ret (emit (SendStun sk res la fa) s)"
    using res(1) by (simp add: sendResponse_def sk send_built_def addr_setter_def addr)
  moreover have "Message_Get res AttrXORMappedAddress = Inr (xor_encode ?tid ?a)"
    by (simp add: Message_Get_def res(5) adding_attrs_def attr_type_defs)
  ultimately show ?thesis using res(2-6) by (auto simp: answers_def)
qed

section \<open>Conflicts of roles\<close>

lemma conflict_role_none:
  assumes "\<not> Message_Contains res AttrICEControlled" "\<not> Message_Contains res AttrICEControlling"
  shows "conflict_role res = SessionRoleUnkown"
proof -
  have "Message_Get res t = Inl ErrAttributeNotFound" if "\<not> Message_Contains res t" for t
    using that Message_Get_found [of res t]
    by (auto simp: Message_Get_def Let_def split: prod.splits if_splits)
  then show ?thesis using assms by (simp add: conflict_role_def)
qed

text \<open>
  The answer to a conflicting request has the error code but no role attribute, so the agent
  that gets it is left without a role.
\<close>

lemma error_response_no_role:
  assumes "\<And>z. ErrorCodeAttribute_GetFrom z res = Ret (None, ec)" and "conflict_role res = r"
    and "ec_Code ec = CodeRoleConflict"
  shows "error_response n c res p = retryOneCheck c (p\<lparr>role := r\<rparr>)"
proof -
  have "error_response n c res p = retryOneCheck c (if r \<noteq> role p then p\<lparr>role := r\<rparr> else p)"
    using assms by (simp add: error_response_def)
  also have "(if r \<noteq> role p then p\<lparr>role := r\<rparr> else p) = p\<lparr>role := r\<rparr>" by simp
  finally show ?thesis .
qed

lemma sendResponse_conflict:
  assumes sk: "getSenderServerSock la s = Inr (Some sk)" and tid: "length (msg_TransactionID req) = TransactionIDSize"
    and addr: "addrToUDPAddr fa = (ip, port)" and valid: "valid_addr \<lparr>addr_IP = ip, addr_Port = port\<rparr>"
  shows "\<exists>res. sendResponse la fa req CodeRoleConflict s = Ret (emit (SendStun sk res la fa) s) \<and>
    mt_Class (msg_Type res) = ClassErrorResponse \<and>
    (\<forall>n c p. error_response n c res p = retryOneCheck c (p\<lparr>role := SessionRoleUnkown\<rparr>))"
proof -
  let ?a = "\<lparr>addr_IP = ip, addr_Port = port\<rparr>" and ?tid = "msg_TransactionID req"
  obtain reason where reason: "errorReasons CodeRoleConflict = Some reason" and rl: "length reason \<le> 100"
    by (simp add: errorReasons_def code_defs bytes_of_string_def)
  define ec where "ec = \<lparr>ec_Code = CodeRoleConflict, ec_Reason = reason\<rparr>"
  let ?ss = "[(Software_AddTo software, AttrSoftware, \<lambda>_. software),
    (ErrorCode_AddTo CodeRoleConflict, AttrErrorCode, \<lambda>_. error_code_encode ec),
    (XORMappedAddress_AddTo ?a, AttrXORMappedAddress, \<lambda>tid. xor_encode tid ?a)] :: adding list"
  have "adds (ErrorCode_AddTo CodeRoleConflict) AttrErrorCode (\<lambda>_. error_code_encode ec)"
    by (simp add: adds_def ErrorCode_AddTo_eq reason ec_def)
  then have ok: "list_all (\<lambda>(s, t, e). adds s t e) ?ss"
    using software.AddTo_adds [OF software_ok] xor_mapped_addr.AddTo_adds [OF valid] by simp
  have "length (error_code_encode ec) \<le> 104" using rl by (simp add: length_error_code_encode ec_def)
  then have "nearestPaddedValueLength (length (error_code_encode ec)) < 108"
    using nearestPaddedValueLength_bounds(2) [of "length (error_code_encode ec)"] by linarith
  then have small: "length (enc_attrs (adding_attrs ?tid ?ss)) + 32 < 65536"
    using padded_le [OF xor_encode_size [OF valid], of ?tid] by (simp add: adding_attrs_def software_length padded_17)
  have no: "\<forall>(s, t, e)\<in>set ?ss. t \<noteq> AttrFingerprint \<and> t \<noteq> AttrMessageIntegrity" by (simp add: attr_type_defs)
  obtain res mi fp where res: "Message_Build ([transactionIDValueSetter_AddTo ?tid,
      MessageType_AddTo (NewType MethodBinding ClassErrorResponse)] @ map fst ?ss @
      [MessageIntegrity_AddTo (txCrendientials s), Fingerprint_AddTo]) zero_Message = Ret (None, res)"
      "msg_Type res = NewType MethodBinding ClassErrorResponse"
      "msg_Attributes res = adding_attrs ?tid ?ss @ [mk_attr AttrMessageIntegrity mi, mk_attr AttrFingerprint fp]"
    using answer_built [OF ok tid small no] by blast
  have "CodeRoleConflict \<noteq> 0" by (simp add: code_defs)
  then have "sendResponse la fa req CodeRoleConflict s = Ret (emit (SendStun sk res la fa) s)"
    using res(1) by (simp add: sendResponse_def sk send_built_def addr_setter_def addr)
  moreover have "conflict_role res = SessionRoleUnkown"
    by (rule conflict_role_none) (auto simp: Message_Contains_iff res(3) adding_attrs_def attr_type_defs)
  moreover have "Message_Get res AttrErrorCode = Inr (error_code_encode ec)"
    by (simp add: Message_Get_def res(3) adding_attrs_def attr_type_defs)
  then have "ErrorCodeAttribute_GetFrom z res = Ret (None, ec)" for z
    using error_code.GetFrom_encode errorReasons_valid [OF reason] by (simp add: ec_def)
  then have "error_response n c res p = retryOneCheck c (p\<lparr>role := SessionRoleUnkown\<rparr>)" for n c p
    using \<open>conflict_role res = _\<close> by (rule error_response_no_role) (simp add: ec_def)
  ultimately show ?thesis using res(2) by (auto simp: NewType_def)
qed

text \<open>Between two agents that claim the same role, the one with the smaller tie breaker yields.\<close>

lemma resolve_one_yields:
  assumes "role a \<noteq> r" and "role b \<noteq> r" and "tieBreaker a \<noteq> tieBreaker b"
  shows "(resolve r (tieBreaker b) a = Some r) \<noteq> (resolve r (tieBreaker a) b = Some r)"
    and "resolve r (tieBreaker b) a = Some r \<longleftrightarrow> resolve r (tieBreaker a) b = None"
  using assms by (auto simp: resolve_def)

end
