(* ===== verification/Ice_Relay.thy ===== *)
theory Ice_Relay
  imports Ice_Sock Ice_Requests
begin

text \<open>
  The socket that talks through a TURN server: \<^verbatim>\<open>src/ice/turnserversock.go\<close>.

  It wraps a \<open>stunServerSock\<close> and is its callback. What the server relays arrives as a
  DATA indication or as channel data; the socket takes the packet out and hands it to the inner
  socket again, as if it had come to the relayed address. A packet inside a packet is shorter,
  so this recursion ends (\<open>turn_cb\<close>). What is sent from the relayed address is wrapped in a
  SEND indication or in channel data.

  Requests to the server that wait for the answer are cut at the wait: the operation up to the
  sending, and what it does with the answer. Random bytes, the time and the bytes behind an
  attribute in the receive buffer are arguments. A panic text that prints a message has only its
  fixed part.
\<close>

section \<open>State\<close>

record turnServerSockConfig =
  tc_user :: string
  tc_password :: string
  tc_nonce :: string
  tc_realm :: string
  tc_credentials :: MessageIntegrity
  tc_lifetime :: int
  tc_relayAddress :: string
  tc_serverAddr :: string

datatype refresher = KeepAliveLoop | RefreshLoop | ReleaseAllocation

record turnServerSock =
  ts_s :: stunServerSock
  ts_cfg :: turnServerSockConfig
  ts_stopchan_closed :: bool
  ts_goroutines :: "refresher list"

definition newTurnServerSockWrapper ::
  "go_error option \<Rightarrow> string \<Rightarrow> turnServerSockConfig \<Rightarrow> go_error + turnServerSock" where
  "newTurnServerSockWrapper listen bindAddr cfg =
     (case newStunServerSock listen bindAddr of
        Inl e \<Rightarrow> Inl e
      | Inr s \<Rightarrow> Inr \<lparr>ts_s = s, ts_cfg = cfg, ts_stopchan_closed = False, ts_goroutines = []\<rparr>)"

abbreviation with_sock :: "turnServerSock \<Rightarrow> stunServerSock go \<Rightarrow> turnServerSock go" where
  "with_sock ts r \<equiv> go_map (\<lambda>s. ts\<lparr>ts_s := s\<rparr>) r"

section \<open>Receiving\<close>

text \<open>The bytes of the attribute values of a message, and of what a callback is given.\<close>

definition value_size :: "Message \<Rightarrow> nat" where
  "value_size m = sum_list (map (length \<circ> attr_Value) (msg_Attributes m))"

fun up_size :: "sock_up \<Rightarrow> nat" where
  "up_size (UpMessage l r m) = value_size m"
| "up_size (UpData l p d) = length d"

lemma is_tlvs_size: "is_tlvs as b \<Longrightarrow> sum_list (map (length \<circ> attr_Value) as) \<le> length b"
proof (induction as arbitrary: b)
  case (Cons a as)
  let ?n = "nearestPaddedValueLength (length (attr_Value a))"
  have "length (attr_Value a) \<le> ?n" using nearestPaddedValueLength_bounds(1) .
  moreover have "4 + ?n \<le> length b" "is_tlvs as (drop (4 + ?n) b)" using Cons(2) by (simp_all add: Let_def)
  ultimately show ?case using Cons(1) [of "drop (4 + ?n) b"] by simp
qed simp

lemma Message_Write_size:
  assumes "Message_Write d zero_Message = Ret (n, None, m)" and "mt_Method (msg_Type m) \<noteq> MethodChannelData"
  shows "value_size m < length d"
proof -
  let ?r = "raw_append d (zero_Message\<lparr>msg_Raw := [], msg_Spare := []\<rparr>)"
  have dec: "Message_Decode ?r = Ret (None, m)"
    using assms(1) by (auto simp: Message_Write_def go_map_Ret zero_Message_def)
  have raw: "msg_Raw ?r = d" by (simp add: raw_append_def)
  have "d \<noteq> []" using dec raw by (auto simp: Message_Decode_def)
  moreover have "hd d AND 0x40 \<noteq> 0x40"
    using dec raw assms(2) \<open>d \<noteq> []\<close> by (cases d) (auto simp: Message_Decode_def Let_def split: if_splits)
  ultimately obtain t l tid as where w: "wire_message d t l tid as" "m = decoded ?r t l tid as"
    using dec Message_Decode_iff_wire [of ?r m] raw by auto
  have "messageHeaderSize + unat l \<le> length d" "is_tlvs as (subslice messageHeaderSize (messageHeaderSize + unat l) d)"
    using w(1) unfolding wire_message_def by blast+
  moreover have "msg_Attributes m = as" using w(2) by (simp add: decoded_def)
  ultimately show ?thesis
    using is_tlvs_size [of as] by (fastforce simp: value_size_def length_subslice messageHeaderSize_def)
qed

lemma Message_Get_size: "Message_Get m t = Inr v \<Longrightarrow> length v \<le> value_size m"
proof -
  have "length (attr_Value (fst (Attributes_Get as t))) \<le> sum_list (map (length \<circ> attr_Value) as)"
    if "snd (Attributes_Get as t)" for as
    using that by (induction as) (auto split: if_splits)
  then show "Message_Get m t = Inr v \<Longrightarrow> length v \<le> value_size m"
    by (fastforce simp: Message_Get_def value_size_def Let_def case_prod_unfold split: if_splits)
qed

lemma Data_GetFrom_size: "Data_GetFrom [] msg = Ret (None, d) \<Longrightarrow> length d \<le> value_size msg"
  using Message_Get_size by (auto simp: Data_GetFrom_def split: sum.splits)

lemma go_bind_cong [fundef_cong]:
  "x = x' \<Longrightarrow> (\<And>y. x' = Ret y \<Longrightarrow> f y = g y) \<Longrightarrow> go_bind x f = go_bind x' g"
  by (cases x') auto

text \<open>The calls \<open>stunMessageReceived\<close> may make: data only out of channel data.\<close>

definition may_call :: "string \<Rightarrow> string \<Rightarrow> Message \<Rightarrow> sock_up \<Rightarrow> bool" where
  "may_call l from msg up \<longleftrightarrow>
     up = UpMessage l from msg \<or> (mt_Method (msg_Type msg) = MethodChannelData \<and> (\<exists>a p d. up = UpData a p d))"

lemma stunMessageReceived_cong [fundef_cong]:
  assumes "now = now'" "l = l'" "from = from'" "msg = msg'" "s = s'"
    and cb: "\<And>up t. may_call l' from' msg' up \<Longrightarrow> cb up t = cb' up t"
  shows "stunServerSock_stunMessageReceived cb now l from msg s = stunServerSock_stunMessageReceived cb' now' l' from' msg' s'"
proof -
  have up: "cb (UpMessage l' from' msg') = cb' (UpMessage l' from' msg')" by (rule ext) (simp add: cb may_call_def)
  have "deliver cb now' l' from' msg' = deliver cb' now' l' from' msg'" by (rule ext) (simp only: deliver_def up)
  then show ?thesis
    unfolding stunServerSock_stunMessageReceived_def stunServerSock_dataReceived_def assms(1-5)
    using cb by (auto simp: may_call_def split: option.splits serverSockMode.splits prod.splits)
qed

function turn_cb :: "turnServerSockConfig \<Rightarrow> bytes \<Rightarrow> int \<Rightarrow> sock_cb" where
  "turn_cb cfg past now (UpMessage localAddr remoteAddr msg) s =
     (if msg_Type msg = DataIndication then
        if remoteAddr \<noteq> tc_serverAddr cfg then Panic (ExplicitPanic ''data indication from unkown address'')
        else go_bind (Data_GetFrom [] msg) (\<lambda>(err, data).
          if err \<noteq> None then Panic (ExplicitPanic ''unexpected message.. '')
          else if length data \<le> 0 then Panic (ExplicitPanic ''unexpected message.. '')
          else go_bind (PeerAddress_GetFrom past \<lparr>addr_IP = [], addr_Port = 0\<rparr> msg) (\<lambda>(err2, peer).
            if err2 \<noteq> None then Panic (ExplicitPanic ''unexpected message.. '')
            else go_bind (Message_Write data zero_Message) (\<lambda>(n, err3, res).
              if err3 \<noteq> None \<or> mt_Method (msg_Type res) = MethodChannelData
              then to_session (UpData localAddr (addr_String peer) data) s
              else if msg_Type res = BindingSuccess \<or> msg_Type res \<noteq> BindingError \<or> msg_Type res \<noteq> BindingRequest
              then stunServerSock_stunMessageReceived (\<lambda>up t. turn_cb cfg past now up t) now
                     (tc_relayAddress cfg) (addr_String peer) res s
              else Panic (ExplicitPanic ''data indication must carry bind response''))))
      else to_session (UpMessage localAddr remoteAddr msg) s)"
| "turn_cb cfg past now (UpData localAddr peerAddr data) s =
     go_bind (Message_Write data zero_Message) (\<lambda>(n, err, msg2).
       if err = None \<and> mt_Method (msg_Type msg2) \<noteq> MethodChannelData
       then stunServerSock_stunMessageReceived (\<lambda>up t. turn_cb cfg past now up t) now
              (tc_relayAddress cfg) peerAddr msg2 s
       else to_session (UpData localAddr peerAddr data) s)"
  by pat_completeness auto
termination
  by (relation "measure (\<lambda>(cfg, past, now, up, s). up_size up)")
    (auto simp: may_call_def dest!: Message_Write_size Data_GetFrom_size)

declare turn_cb.simps [simp del]

text \<open>The two methods of the callback, and a packet that arrives on the socket.\<close>

definition turnServerSock_RecieveStunMessage ::
  "bytes \<Rightarrow> int \<Rightarrow> string \<Rightarrow> string \<Rightarrow> Message \<Rightarrow> turnServerSock \<Rightarrow> turnServerSock go" where
  "turnServerSock_RecieveStunMessage past now localAddr remoteAddr msg ts =
     with_sock ts (turn_cb (ts_cfg ts) past now (UpMessage localAddr remoteAddr msg) (ts_s ts))"

definition turnServerSock_ReceiveData ::
  "bytes \<Rightarrow> int \<Rightarrow> string \<Rightarrow> string \<Rightarrow> bytes \<Rightarrow> turnServerSock \<Rightarrow> turnServerSock go" where
  "turnServerSock_ReceiveData past now localAddr peerAddr data ts =
     with_sock ts (turn_cb (ts_cfg ts) past now (UpData localAddr peerAddr data) (ts_s ts))"

definition turn_packet ::
  "bytes \<Rightarrow> int \<Rightarrow> bytes \<Rightarrow> bytes \<times> int \<Rightarrow> turnServerSock \<Rightarrow> turnServerSock go" where
  "turn_packet past now packet addr ts =
     with_sock ts (stunServerSock_serveConn (turn_cb (ts_cfg ts) past now) now packet addr (ts_s ts))"

section \<open>Sending\<close>

definition peer_of :: "string \<Rightarrow> PeerAddress" where
  "peer_of toaddr = (let (ip, port) = addrToUDPAddr toaddr in \<lparr>addr_IP = ip, addr_Port = port\<rparr>)"

definition turnServerSock_wrapperStunMessage ::
  "bytes \<times> go_error option \<Rightarrow> string \<Rightarrow> string \<Rightarrow> Message \<Rightarrow> turnServerSock \<Rightarrow> (Message \<times> string \<times> string) go" where
  "turnServerSock_wrapperStunMessage rnd fromaddr toaddr msg ts =
     (if fromaddr = sk_Addr (ts_s ts) then Ret (msg, fromaddr, toaddr)
      else if fromaddr \<noteq> tc_relayAddress (ts_cfg ts) then
        Panic (ExplicitPanic (''sendData from unkonw address.. ts.s.Addr='' @ sk_Addr (ts_s ts) @ '',fromaddr='' @
          fromaddr @ '',relay='' @ tc_relayAddress (ts_cfg ts)))
      else go_map (\<lambda>(err, msg2). (msg2, sk_Addr (ts_s ts), tc_serverAddr (ts_cfg ts)))
        (Message_Build [transactionIDSetter_AddTo rnd, MessageType_AddTo SendIndication,
           PeerAddress_AddTo (peer_of toaddr), Data_AddTo (msg_Raw msg), Fingerprint_AddTo] zero_Message))"

definition turnServerSock_sendStunMessageAsync ::
  "bytes \<times> go_error option \<Rightarrow> int \<Rightarrow> Message \<Rightarrow> string \<Rightarrow> string \<Rightarrow> turnServerSock \<Rightarrow> turnServerSock go" where
  "turnServerSock_sendStunMessageAsync rnd now msg fromaddr toaddr ts =
     go_bind (turnServerSock_wrapperStunMessage rnd fromaddr toaddr msg ts) (\<lambda>(msg2, fromaddr2, toaddr2).
       with_sock ts (stunServerSock_sendStunMessageAsync now msg2 fromaddr2 toaddr2 (ts_s ts)))"

definition turnServerSock_sendStunMessageSync ::
  "bytes \<times> go_error option \<Rightarrow> int \<Rightarrow> Message \<Rightarrow> string \<Rightarrow> string \<Rightarrow> turnServerSock \<Rightarrow>
     (go_error option \<times> turnServerSock) go" where
  "turnServerSock_sendStunMessageSync rnd now msg fromaddr toaddr ts =
     (case stunServerSock_addWaiter (msg_TransactionID msg) (ts_s ts) of
        (Some e, s) \<Rightarrow> Ret (Some e, ts\<lparr>ts_s := s\<rparr>)
      | (None, s) \<Rightarrow>
          go_bind (turnServerSock_wrapperStunMessage rnd fromaddr toaddr msg (ts\<lparr>ts_s := s\<rparr>))
            (\<lambda>(msg2, fromaddr2, toaddr2).
               go_map (\<lambda>s. (None, ts\<lparr>ts_s := s\<rparr>)) (stunServerSock_sendStunMessageAsync now msg2 fromaddr2 toaddr2 s)))"

definition turnServerSock_sendStunMessageWithResult ::
  "bytes \<times> go_error option \<Rightarrow> int \<Rightarrow> Message \<Rightarrow> string \<Rightarrow> string \<Rightarrow> turnServerSock \<Rightarrow>
     (go_error option \<times> waiter option \<times> turnServerSock) go" where
  "turnServerSock_sendStunMessageWithResult rnd now msg fromaddr toaddr ts =
     (case stunServerSock_addWaiter (msg_TransactionID msg) (ts_s ts) of
        (Some e, s) \<Rightarrow> Ret (Some e, None, ts\<lparr>ts_s := s\<rparr>)
      | (None, s) \<Rightarrow>
          go_map (\<lambda>ts. (None, map_of (sk_waiters (ts_s ts)) (msg_TransactionID msg), ts))
            (turnServerSock_sendStunMessageAsync rnd now msg fromaddr toaddr (ts\<lparr>ts_s := s\<rparr>)))"

text \<open>
  \<open>sendData\<close>: from the relayed address in channel data when the peer has a channel, else in a SEND
  indication; from the socket's own address directly. What the inner socket returns for relayed
  data is dropped. \<open>number\<close> is 0 for an address without a channel.
\<close>

definition turnServerSock_sendData ::
  "bytes \<times> go_error option \<Rightarrow> int \<Rightarrow> bytes \<Rightarrow> string \<Rightarrow> string \<Rightarrow> turnServerSock \<Rightarrow> turnServerSock go" where
  "turnServerSock_sendData rnd now data fromaddr toaddr ts =
     (let s = ts_s ts; cfg = ts_cfg ts
      in if fromaddr = tc_relayAddress cfg then
           let number = (case sk_address2ChannelNumber s toaddr of None \<Rightarrow> 0 | Some n \<Rightarrow> n)
           in if uint MinChannelNumber \<le> number \<and> number \<le> uint MaxChannelNumber then
                go_bind (Build [MessageType_AddTo ChannelDataRequest]) (\<lambda>(_, r).
                go_bind (ChannelData_AddTo \<lparr>cd_ChannelNumber = of_int number, cd_Data = data\<rparr> r) (\<lambda>(err, r).
                  if err \<noteq> None then Panic (ExplicitPanic ''turn.channeldata error'')
                  else with_sock ts (stunServerSock_sendData (msg_Raw r) (sk_Addr s) (tc_serverAddr cfg) s)))
              else
                go_bind (Build [transactionIDSetter_AddTo rnd, MessageType_AddTo SendIndication, Data_AddTo data,
                                PeerAddress_AddTo (peer_of toaddr), Fingerprint_AddTo]) (\<lambda>(err, r).
                  if err \<noteq> None then Panic (ExplicitPanic ''build error'')
                  else with_sock ts (stunServerSock_sendStunMessageAsync now r (sk_Addr s) (tc_serverAddr cfg) s))
         else with_sock ts (stunServerSock_sendData data fromaddr toaddr s))"

section \<open>Requests to the server\<close>

definition credential_setters :: "turnServerSockConfig \<Rightarrow> Setter list" where
  "credential_setters cfg = [Username_AddTo (bytes_of_string (tc_user cfg)), Realm_AddTo (bytes_of_string (tc_realm cfg)),
     Nonce_AddTo (bytes_of_string (tc_nonce cfg))]"

definition server_request :: "int \<Rightarrow> Message \<Rightarrow> turnServerSock \<Rightarrow> (go_error option \<times> turnServerSock) go" where
  "server_request now req ts =
     go_map (\<lambda>(e, s). (e, ts\<lparr>ts_s := s\<rparr>))
       (stunServerSock_sendStunMessageSync now req (sk_Addr (ts_s ts)) (tc_serverAddr (ts_cfg ts)) (ts_s ts))"

text \<open>Errors while building are only logged; the request goes out with what was added.\<close>

fun add_peers :: "Candidate list \<Rightarrow> Message \<Rightarrow> Message go" where
  "add_peers [] req = Ret req"
| "add_peers (c # cs) req =
     (case SplitHostPort (cd_addr c) of
        Inl e \<Rightarrow> add_peers cs req
      | Inr (host, port) \<Rightarrow>
          go_bind (PeerAddress_AddTo \<lparr>addr_IP = ParseIP host, addr_Port = Atoi_value port\<rparr> req)
            (\<lambda>(err, req). add_peers cs req))"

definition turnServerSock_createPermission ::
  "bytes \<times> go_error option \<Rightarrow> int \<Rightarrow> Candidate list \<Rightarrow> turnServerSock \<Rightarrow> (go_error option \<times> turnServerSock) go" where
  "turnServerSock_createPermission rnd now remotes ts =
     (let cfg = ts_cfg ts
      in go_bind (Message_Build [transactionIDSetter_AddTo rnd, MessageType_AddTo CreatePermissionRequest,
             Realm_AddTo (bytes_of_string (tc_realm cfg)), Nonce_AddTo (bytes_of_string (tc_nonce cfg)),
             Username_AddTo (bytes_of_string (tc_user cfg))] zero_Message) (\<lambda>(_, req).
         go_bind (add_peers remotes req) (\<lambda>req.
         go_bind (MessageIntegrity_AddTo (tc_credentials cfg) req) (\<lambda>(_, req).
         go_bind (Fingerprint_AddTo req) (\<lambda>(_, req). server_request now req ts)))))"

definition turnServerSock_channelBind ::
  "bytes \<times> go_error option \<Rightarrow> int \<Rightarrow> string \<Rightarrow> turnServerSock \<Rightarrow> (go_error option \<times> turnServerSock) go" where
  "turnServerSock_channelBind rnd now addr ts =
     go_bind (Build ([transactionIDSetter_AddTo rnd, MessageType_AddTo ChannelBindRequest,
         ChannelNumber_AddTo (uint MinChannelNumber), PeerAddress_AddTo (peer_of addr)] @
         credential_setters (ts_cfg ts) @ [MessageIntegrity_AddTo (tc_credentials (ts_cfg ts))]))
       (\<lambda>(err, req). if err \<noteq> None then Panic (ExplicitPanic ''....'') else server_request now req ts)"

text \<open>What \<open>channelBind\<close> does with the answer: both the method and the class have to be wrong to fail.\<close>

definition channel_bound :: "string \<Rightarrow> Message \<Rightarrow> turnServerSock \<Rightarrow> go_error option \<times> turnServerSock" where
  "channel_bound addr res ts =
     (if mt_Method (msg_Type res) \<noteq> MethodChannelBind \<and> mt_Class (msg_Type res) \<noteq> ClassSuccessResponse
      then (Some (Errorf ''channel bind error''), ts)
      else (None, ts\<lparr>ts_s := stunServerSock_SetChannelNumber (uint MinChannelNumber) addr (ts_s ts)\<rparr>))"

definition turnServerSock_refreshRequest ::
  "bytes \<times> go_error option \<Rightarrow> int \<Rightarrow> int \<Rightarrow> turnServerSock \<Rightarrow> (go_error option \<times> turnServerSock) go" where
  "turnServerSock_refreshRequest rnd now lifetime ts =
     go_bind (Build ([transactionIDSetter_AddTo rnd, MessageType_AddTo RefreshRequest] @
         credential_setters (ts_cfg ts) @ [Lifetime_AddTo lifetime, MessageIntegrity_AddTo (tc_credentials (ts_cfg ts))]))
       (\<lambda>(err, req). if err \<noteq> None then Panic (ExplicitPanic ''....'') else server_request now req ts)"

definition refresh_answered :: "int \<Rightarrow> Message \<Rightarrow> turnServerSock \<Rightarrow> turnServerSock go" where
  "refresh_answered lifetime res ts =
     (if msg_Type res \<noteq> RefreshResponse then
        go_map (\<lambda>_. ts) (ErrorCodeAttribute_GetFrom \<lparr>ec_Code = 0, ec_Reason = []\<rparr> res)
      else go_map (\<lambda>(err, l). if err \<noteq> None then ts else ts\<lparr>ts_cfg := (ts_cfg ts)\<lparr>tc_lifetime := l\<rparr>\<rparr>)
        (Lifetime_GetFrom lifetime res))"

definition turnServerSock_keepAlive ::
  "bytes \<times> go_error option \<Rightarrow> int \<Rightarrow> turnServerSock \<Rightarrow> turnServerSock go" where
  "turnServerSock_keepAlive rnd now ts =
     go_bind (Build [transactionIDSetter_AddTo rnd, MessageType_AddTo BindingIndication]) (\<lambda>(_, req).
       with_sock ts (stunServerSock_sendStunMessageAsync now req (sk_Addr (ts_s ts)) (tc_serverAddr (ts_cfg ts)) (ts_s ts)))"

text \<open>The goroutines \<open>StartRefresh\<close> starts; the two loops run until \<open>stopchan\<close> is closed.\<close>

definition turnServerSock_StartRefresh :: "turnServerSock \<Rightarrow> turnServerSock" where
  "turnServerSock_StartRefresh ts =
     ts\<lparr>ts_goroutines := ts_goroutines ts @
         [KeepAliveLoop, if sk_mode (ts_s ts) = turnModeData then RefreshLoop else ReleaseAllocation]\<rparr>"

definition turnServerSock_FinishNegotiation :: "serverSockMode \<Rightarrow> turnServerSock \<Rightarrow> turnServerSock" where
  "turnServerSock_FinishNegotiation mode ts =
     turnServerSock_StartRefresh (ts\<lparr>ts_s := (ts_s ts)\<lparr>sk_mode := mode\<rparr>\<rparr>)"

definition turnServerSock_Close :: "turnServerSock \<Rightarrow> turnServerSock go" where
  "turnServerSock_Close ts =
     (if ts_stopchan_closed ts then Panic CloseOfClosedChannel
      else with_sock (ts\<lparr>ts_stopchan_closed := True\<rparr>) (stunServerSock_Close (ts_s ts)))"

section \<open>The relay keeps the accounts of the inner socket\<close>

lemma stunMessageReceived_guarded:
  assumes "\<And>up t t'. may_call l from msg up \<Longrightarrow> cb up t = Ret t' \<Longrightarrow> sock_inv t \<Longrightarrow> balanced {#} t t'"
    and "stunServerSock_stunMessageReceived cb now l from msg s = Ret s'" and "sock_inv s"
  shows "balanced {#} s s'"
proof -
  let ?cb = "\<lambda>up t. if may_call l from msg up then cb up t else to_session up t"
  have "sock_callback ?cb"
    using assms(1) to_session_balanced by unfold_locales (auto split: if_splits)
  moreover have "stunServerSock_stunMessageReceived ?cb now l from msg s = Ret s'"
    using assms(2) stunMessageReceived_cong [of now now l l "from" "from" msg msg s s cb ?cb] by simp
  ultimately show ?thesis using sock_callback.stunMessageReceived_balanced assms(3) by blast
qed

text \<open>What an unwrapped message may call back with is smaller than what it was in.\<close>

lemma may_call_smaller:
  assumes "may_call l from res up" and "Message_Write d zero_Message = Ret (n, None, res)"
    and "mt_Method (msg_Type res) \<noteq> MethodChannelData"
  shows "up_size up < length d"
  using assms Message_Write_size [OF assms(2,3)] by (auto simp: may_call_def)

lemma turn_cb_outcomes:
  assumes "turn_cb cfg past now up s = Ret s'"
  obtains (session) up' where "to_session up' s = Ret s'"
  | (inner) d n res fr where "Message_Write d zero_Message = Ret (n, None, res)"
      "mt_Method (msg_Type res) \<noteq> MethodChannelData" "length d \<le> up_size up"
      "stunServerSock_stunMessageReceived (turn_cb cfg past now) now (tc_relayAddress cfg) fr res s = Ret s'"
proof (cases up)
  case (UpMessage l r msg)
  show thesis
  proof (cases "to_session (UpMessage l r msg) s = Ret s' \<or> (\<exists>a p d. to_session (UpData a p d) s = Ret s')")
    case False
    then obtain d peer n res where "Data_GetFrom [] msg = Ret (None, d)"
        "Message_Write d zero_Message = Ret (n, None, res)" "mt_Method (msg_Type res) \<noteq> MethodChannelData"
        "stunServerSock_stunMessageReceived (turn_cb cfg past now) now (tc_relayAddress cfg) (addr_String peer) res s = Ret s'"
      using assms unfolding UpMessage by (subst (asm) turn_cb.simps) (auto simp: go_bind_Ret_iff split: if_splits)
    then show thesis using inner UpMessage Data_GetFrom_size by simp
  qed (use session in blast)
next
  case (UpData l p d)
  then show thesis
    using assms session inner [of d _ _ p] by (auto simp: turn_cb.simps(2) go_bind_Ret_iff split: if_splits)
qed

lemma turn_cb_balanced:
  "turn_cb cfg past now up s = Ret s' \<Longrightarrow> sock_inv s \<Longrightarrow> balanced {#} s s'"
proof (induction "up_size up" arbitrary: up s s' rule: less_induct)
  case less
  from less(2) show ?case
  proof (cases rule: turn_cb_outcomes)
    case (session up')
    then show ?thesis using to_session_balanced less(3) by blast
  next
    case (inner d n res fr)
    then show ?thesis
      using less(1) less(3) may_call_smaller [OF _ inner(1,2)]
      by (intro stunMessageReceived_guarded [OF _ inner(4)]) (fastforce intro: less_le_trans)+
  qed
qed

interpretation turn_sock: sock_callback "turn_cb cfg past now" for cfg past now
  by unfold_locales (rule turn_cb_balanced)

definition turn_callbacks :: "turnServerSockConfig \<Rightarrow> sock_cb set" where
  "turn_callbacks cfg = {turn_cb cfg past now | past now. True}"

interpretation turn_sockets: sock_callbacks "turn_callbacks cfg" for cfg
  by unfold_locales (use turn_cb_balanced in \<open>auto simp: turn_callbacks_def\<close>)

section \<open>What is wrapped comes out again\<close>

text \<open>A message of the given attributes and a fingerprint, as every indication is built.\<close>

lemma random_tid:
  "length tid = TransactionIDSize \<Longrightarrow> length (msg_TransactionID m) = TransactionIDSize \<Longrightarrow>
     transactionIDSetter_AddTo (tid, None) m = transactionIDValueSetter_AddTo tid m"
  by (simp add: transactionIDSetter_AddTo_def Message_NewTransactionID_def transactionIDValueSetter_AddTo_def put_at_def)

lemma indication_built:
  assumes ss: "list_all (\<lambda>(s, t, e). adds s t e) ss" and tid: "length tid = TransactionIDSize"
    and small: "length (enc_attrs (adding_attrs tid ss)) + 8 < 65536"
  shows "\<exists>res fp. Message_Build ([transactionIDSetter_AddTo (tid, None), MessageType_AddTo t] @ map fst ss @
      [Fingerprint_AddTo]) zero_Message = Ret (None, res) \<and> msg_wf res \<and> msg_Type res = t \<and>
    msg_TransactionID res = tid \<and> msg_Attributes res = adding_attrs tid ss @ [mk_attr AttrFingerprint fp]"
proof -
  obtain m0 where m0: "Message_WriteHeader (Message_Reset zero_Message) = Ret m0" "msg_wf m0" "msg_Attributes m0 = []"
    using Message_WriteHeader_Reset [of zero_Message] by (auto simp: zero_Message_def size_defs)
  have t0: "transactionIDSetter_AddTo (tid, None) m0 = transactionIDValueSetter_AddTo tid m0"
    using random_tid [OF tid] m0(2) by (simp add: msg_wf_def)
  obtain m2 where m2: "run_setters [transactionIDSetter_AddTo (tid, None), MessageType_AddTo t] m0 = Ret (None, m2)"
      "msg_wf m2" "msg_Type m2 = t" "msg_TransactionID m2 = tid" "msg_Attributes m2 = []"
    using tid_type_setters [OF m0(2) tid] m0(3) by (auto simp: t0)
  obtain m3 where m3: "run_setters (map fst ss) m2 = Ret (None, m3)" "extends m2 (adding_attrs tid ss) m3"
    using run_setters_adds_extends [OF ss m2(2)] small m2(4,5) by auto
  have "fits m3 fingerprintSize"
    using m3(2) m2(5) small msg_wf_size [of m3] by (simp add: extends_def fits_def size_defs fingerprintSize_def nearestPaddedValueLength_eq)
  then obtain res fp where res: "Fingerprint_AddTo m3 = Ret (None, res)" "extends m3 [mk_attr AttrFingerprint fp] res"
    using Fingerprint_AddTo_eq [of m3] m3(2) by (auto simp: extends_def)
  have "Message_Build ([transactionIDSetter_AddTo (tid, None), MessageType_AddTo t] @ map fst ss @
      [Fingerprint_AddTo]) zero_Message = Ret (None, res)"
    unfolding Message_Build_def m0(1) using m2(1) m3(1) res(1)
    by (simp only: run_setters_append run_setters.simps go_bind.simps prod.case simp_thms if_False)
  then show ?thesis using res(2) m2 m3(2) by (auto simp: extends_def)
qed

text \<open>The attributes of an indication: a peer address and data.\<close>

definition indication_attrs :: "TransactionID \<Rightarrow> PeerAddress \<Rightarrow> bytes \<Rightarrow> RawAttribute list" where
  "indication_attrs tid peer d = [mk_attr AttrXORPeerAddress (xor_encode tid peer), mk_attr AttrData d]"

lemma indication_get:
  assumes "msg_Attributes m = indication_attrs (msg_TransactionID m) peer d @ as" and "valid_addr peer"
  shows "Data_GetFrom d0 m = Ret (None, d)" and "PeerAddress_GetFrom past p0 m = Ret (None, wire_addr peer)"
proof -
  have "Message_Get m AttrData = Inr d" "Message_Get m AttrXORPeerAddress = Inr (xor_encode (msg_TransactionID m) peer)"
    by (simp_all add: Message_Get_def assms(1) indication_attrs_def attr_type_defs)
  then show "Data_GetFrom d0 m = Ret (None, d)" "PeerAddress_GetFrom past p0 m = Ret (None, wire_addr peer)"
    using turn_data.GetFrom_encode peer_addr.GetFrom_encode assms(2) by auto
qed

lemma wrapped_message:
  assumes tid: "length tid = TransactionIDSize" and "fromaddr = tc_relayAddress (ts_cfg ts)"
    and "fromaddr \<noteq> sk_Addr (ts_s ts)" and valid: "valid_addr (peer_of toaddr)" and "length (msg_Raw msg) < 65000"
  shows "\<exists>msg2. turnServerSock_wrapperStunMessage (tid, None) fromaddr toaddr msg ts =
      Ret (msg2, sk_Addr (ts_s ts), tc_serverAddr (ts_cfg ts)) \<and> msg_wf msg2 \<and> msg_Type msg2 = SendIndication \<and>
    msg_TransactionID msg2 = tid \<and> (\<exists>fp. msg_Attributes msg2 = indication_attrs tid (peer_of toaddr) (msg_Raw msg) @
      [mk_attr AttrFingerprint fp])"
proof -
  let ?ss = "[(PeerAddress_AddTo (peer_of toaddr), AttrXORPeerAddress, \<lambda>tid. xor_encode tid (peer_of toaddr)),
    (Data_AddTo (msg_Raw msg), AttrData, \<lambda>_. msg_Raw msg)]"
  have adds: "list_all (\<lambda>(s, t, e). adds s t e) ?ss"
    using peer_addr.AddTo_adds [OF valid] turn_data.AddTo_adds by simp
  have attrs: "adding_attrs tid ?ss = indication_attrs tid (peer_of toaddr) (msg_Raw msg)"
    by (simp add: adding_attrs_def indication_attrs_def)
  have "nearestPaddedValueLength (length (xor_encode tid (peer_of toaddr))) \<le> 20"
    using padded_le xor_encode_size [OF valid] by blast
  moreover have "nearestPaddedValueLength (length (msg_Raw msg)) < length (msg_Raw msg) + 4"
    by (rule nearestPaddedValueLength_bounds(2))
  ultimately have "length (enc_attrs (adding_attrs tid ?ss)) + 8 < 65536"
    using assms(5) by (simp add: attrs indication_attrs_def)
  from indication_built [OF adds tid this, of SendIndication]
  show ?thesis using assms(2,3) by (auto simp: turnServerSock_wrapperStunMessage_def attrs)
qed

lemma Message_Write_wf:
  assumes "msg_wf m" and "valid_MessageType (msg_Type m)"
  shows "\<exists>m'. Message_Write (msg_Raw m) zero_Message = Ret (length (msg_Raw m), None, m') \<and> extends m [] m' \<and>
    msg_Raw m' = msg_Raw m"
proof -
  let ?r = "raw_append (msg_Raw m) (zero_Message\<lparr>msg_Raw := [], msg_Spare := []\<rparr>)"
  have "msg_Raw ?r = msg_Raw m" by (simp add: raw_append_def)
  then show ?thesis
    using Message_Decode_wf [OF assms, of ?r] assms(1)
    by (auto simp: Message_Write_def zero_Message_def extends_def msg_wf_def raw_append_def)
qed

text \<open>A DATA indication of the server hands its message to the inner socket, at the relayed address.\<close>

lemma unwrapped_message:
  assumes ind: "msg_Type ind = DataIndication" "msg_Attributes ind = indication_attrs (msg_TransactionID ind) peer (msg_Raw msg) @ as"
    and "valid_addr peer" and msg: "msg_wf msg" "valid_MessageType (msg_Type msg)" "mt_Method (msg_Type msg) \<noteq> MethodChannelData"
  shows "\<exists>msg'. extends msg [] msg' \<and> msg_Raw msg' = msg_Raw msg \<and>
    turnServerSock_RecieveStunMessage past now la (tc_serverAddr (ts_cfg ts)) ind ts =
      with_sock ts (stunServerSock_stunMessageReceived (turn_cb (ts_cfg ts) past now) now (tc_relayAddress (ts_cfg ts))
        (addr_String (wire_addr peer)) msg' (ts_s ts))"
proof -
  obtain msg' where w: "Message_Write (msg_Raw msg) zero_Message = Ret (length (msg_Raw msg), None, msg')"
      "extends msg [] msg'" "msg_Raw msg' = msg_Raw msg"
    using Message_Write_wf [OF msg(1,2)] by blast
  have "msg_Raw msg \<noteq> []" using msg_wf_length_Raw [OF msg(1)] by (auto simp: size_defs)
  then have "turn_cb (ts_cfg ts) past now (UpMessage la (tc_serverAddr (ts_cfg ts)) ind) (ts_s ts) =
      stunServerSock_stunMessageReceived (turn_cb (ts_cfg ts) past now) now (tc_relayAddress (ts_cfg ts))
        (addr_String (wire_addr peer)) msg' (ts_s ts)"
    using ind(1) indication_get [OF ind(2) assms(3)] w msg(3)
    by (subst turn_cb.simps) (auto simp: extends_def BindingError_def BindingRequest_def NewType_def class_defs)
  then show ?thesis using w(2,3) by (auto simp: turnServerSock_RecieveStunMessage_def)
qed

section \<open>Channel data\<close>

lemma channel_data_sent:
  assumes "fromaddr = tc_relayAddress (ts_cfg ts)" and "sk_address2ChannelNumber (ts_s ts) toaddr = Some (uint n)"
    and valid: "valid_channel_data \<lparr>cd_ChannelNumber = n, cd_Data = data\<rparr>"
    and "\<not> sk_stoped (ts_s ts)" "\<not> sk_sendchan_closed (ts_s ts)"
  shows "turnServerSock_sendData rnd now data fromaddr toaddr ts =
    Ret (ts\<lparr>ts_s := sk_emit (Written (channel_data_encode \<lparr>cd_ChannelNumber = n, cd_Data = data\<rparr>)
      (addrToUDPAddr (tc_serverAddr (ts_cfg ts)))) (ts_s ts)\<rparr>)"
proof -
  have n: "uint MinChannelNumber \<le> uint n" "uint n \<le> uint MaxChannelNumber"
    using valid by (simp_all add: valid_channel_data_def word_le_def)
  obtain m0 where "Message_WriteHeader (Message_Reset zero_Message) = Ret m0" "msg_wf m0"
    using Message_WriteHeader_Reset [of zero_Message] by (auto simp: zero_Message_def size_defs)
  then obtain r where r: "Build [MessageType_AddTo ChannelDataRequest] = Ret (None, r)" "msg_Type r = ChannelDataRequest"
    using Message_SetType_wf [of m0 ChannelDataRequest]
    by (auto simp: Build_def Message_Build_def MessageType_AddTo_def add_ok_def)
  then have "ChannelData_AddTo \<lparr>cd_ChannelNumber = n, cd_Data = data\<rparr> r =
      Ret (None, r\<lparr>msg_Raw := channel_data_encode \<lparr>cd_ChannelNumber = n, cd_Data = data\<rparr>, msg_Spare := []\<rparr>)"
    by (intro ChannelData_AddTo_eq [OF valid]) (simp add: ChannelDataRequest_def NewType_def)
  then show ?thesis
    using assms n r(1) by (simp add: turnServerSock_sendData_def Let_def stunServerSock_sendData_def)
qed

text \<open>
  Received channel data goes up as data of the peer that has the channel; the code has no
  return there, so the message itself goes up too, behind it.
\<close>

lemma deliver_unknown:
  assumes "map_of (sk_waiters s) (msg_TransactionID msg) = None"
    and "\<forall>(t, c)\<in>set (sk_cachedResponse s). mt_Method (msg_Type (cr_msg c)) \<noteq> mt_Method (msg_Type msg)"
  shows "\<exists>cache. deliver cb now l from msg s = cb (UpMessage l from msg) (s\<lparr>sk_cachedResponse := cache\<rparr>)"
proof -
  have "find (\<lambda>(t, c). mt_Method (msg_Type (cr_msg c)) = mt_Method (msg_Type msg) \<and>
      msg_TransactionID (cr_msg c) = msg_TransactionID msg) (filter P (sk_cachedResponse s)) = None" for P
    using assms(2) by (auto simp: find_None_iff)
  then have "\<exists>cache. stunServerSock_checkCachedResponse now msg from s = Ret (False, s\<lparr>sk_cachedResponse := cache\<rparr>)"
    by (auto simp: stunServerSock_checkCachedResponse_def Let_def intro: exI [of _ "sk_cachedResponse s"])
  then show ?thesis
    using assms(1) by (auto simp: deliver_def stunServerSock_getAndRemoveWaiter_def)
qed

text \<open>
  What comes out of a channel is first written to a message. Data that is no STUN message makes
  this an error or channel data, and goes to the session; empty data is a panic.
\<close>

lemma data_not_stun:
  assumes "data \<noteq> []" and "4 \<le> length data \<or> hd data AND 0x40 \<noteq> 0x40" and "\<nexists>t l tid as. wire_message data t l tid as"
  shows "\<exists>k err m. Message_Write data zero_Message = Ret (k, err, m) \<and> (err \<noteq> None \<or> mt_Method (msg_Type m) = MethodChannelData)"
proof -
  let ?r = "raw_append data (zero_Message\<lparr>msg_Raw := [], msg_Spare := []\<rparr>)"
  have raw: "msg_Raw ?r = data" "Message_cap ?r = length data" by (simp_all add: raw_append_def Message_cap_def)
  then have "returns (Message_Decode ?r)" using assms(1,2) by (auto simp: Message_Decode_returns)
  then obtain err m where r: "Message_Decode ?r = Ret (err, m)" by (cases "Message_Decode ?r") auto
  moreover have "err \<noteq> None \<or> mt_Method (msg_Type m) = MethodChannelData"
  proof (cases "hd data AND 0x40 = 0x40")
    case True
    then show ?thesis using r assms(1) raw by (cases data) (auto simp: Message_Decode_def Let_def split: if_splits)
  next
    case False
    then show ?thesis using Message_Decode_iff_wire [of ?r] raw r assms(1,3) by (cases err) auto
  qed
  ultimately show ?thesis by (auto simp: Message_Write_def zero_Message_def)
qed

lemma turn_cb_data:
  assumes "data = [] \<or> 4 \<le> length data \<or> hd data AND 0x40 \<noteq> 0x40" and "\<nexists>t l tid as. wire_message data t l tid as"
  shows "turn_cb cfg past now (UpData l peer data) s =
    (if data = [] then Panic IndexOutOfRange else Ret (sk_emit (Up (UpData l peer data)) s))"
proof (cases "data = []")
  case True
  then show ?thesis
    by (simp add: turn_cb.simps(2) Message_Write_def Message_Decode_def raw_append_def zero_Message_def)
next
  case False
  with assms(1) have "4 \<le> length data \<or> hd data AND 0x40 \<noteq> 0x40" by simp
  from data_not_stun [OF False this assms(2)] show ?thesis using False by (auto simp: turn_cb.simps(2) to_session_def)
qed

lemma channel_data_received:
  assumes valid: "valid_channel_data \<lparr>cd_ChannelNumber = n, cd_Data = data\<rparr>" and "length data \<le> 1020"
    and s: "sk_mode (ts_s ts) = turnModeData" "sk_channelNumber2Address (ts_s ts) (uint n) = Some peer"
      "map_of (sk_waiters (ts_s ts)) (replicate TransactionIDSize 0) = None"
      "\<forall>(t, c)\<in>set (sk_cachedResponse (ts_s ts)). mt_Method (msg_Type (cr_msg c)) \<noteq> MethodChannelData"
    and plain: "data = [] \<or> 4 \<le> length data \<or> hd data AND 0x40 \<noteq> 0x40" "\<nexists>t l tid as. wire_message data t l tid as"
  shows "if data = [] then turn_packet past now (channel_data_encode \<lparr>cd_ChannelNumber = n, cd_Data = data\<rparr>) addr ts =
      Panic IndexOutOfRange
    else \<exists>ts' msg. turn_packet past now (channel_data_encode \<lparr>cd_ChannelNumber = n, cd_Data = data\<rparr>) addr ts = Ret ts' \<and>
      mt_Method (msg_Type msg) = MethodChannelData \<and>
      sk_out (ts_s ts') = sk_out (ts_s ts) @ [Up (UpData (sk_Addr (ts_s ts)) peer data),
        Up (UpMessage (sk_Addr (ts_s ts)) (UDPAddr_String addr) msg)]"
proof -
  let ?c = "\<lparr>cd_ChannelNumber = n, cd_Data = data\<rparr>" and ?cb = "turn_cb (ts_cfg ts) past now"
  let ?m = "(raw_append (channel_data_encode ?c) (zero_Message\<lparr>msg_Raw := [], msg_Spare := []\<rparr>))
    \<lparr>msg_Type := \<lparr>mt_Method = MethodChannelData, mt_Class = ClassSuccessResponse\<rparr>\<rparr>"
  let ?l = "sk_Addr (ts_s ts)" and ?f = "UDPAddr_String addr"
  have len: "take 1024 (channel_data_encode ?c) = channel_data_encode ?c" using assms(2) by (simp add: channel_data_encode_def)
  have w: "Message_Write (channel_data_encode ?c) zero_Message = Ret (length (channel_data_encode ?c), None, ?m)"
    using Message_Decode_channel_data [OF valid, of "raw_append (channel_data_encode ?c) (zero_Message\<lparr>msg_Raw := [], msg_Spare := []\<rparr>)"]
    by (simp add: Message_Write_def zero_Message_def raw_append_def)
  have g: "ChannelData_GetFrom str c0 ?m = (None, ?c)" for str c0
    by (rule ChannelData_GetFrom_encode [OF valid]) (simp_all add: raw_append_def)
  have d: "?cb (UpData ?l peer data) (ts_s ts) =
      (if data = [] then Panic IndexOutOfRange else Ret (sk_emit (Up (UpData ?l peer data)) (ts_s ts)))"
    by (rule turn_cb_data [OF plain])
  let ?s1 = "sk_emit (Up (UpData ?l peer data)) (ts_s ts)"
  have tid: "msg_TransactionID ?m = replicate TransactionIDSize 0" by (simp add: raw_append_def zero_Message_def)
  obtain cache where dl: "deliver ?cb now ?l ?f ?m ?s1 = ?cb (UpMessage ?l ?f ?m) (?s1\<lparr>sk_cachedResponse := cache\<rparr>)"
    using deliver_unknown [of ?s1 ?m ?cb now ?l ?f] s(3,4) tid by (auto simp: sk_emit_def)
  have up: "?cb (UpMessage ?l ?f ?m) t = Ret (sk_emit (Up (UpMessage ?l ?f ?m)) t)" for t
    by (simp add: turn_cb.simps(1) to_session_def DataIndication_def NewType_def MethodData_def MethodChannelData_def)
  have "stunServerSock_serveConn ?cb now (channel_data_encode ?c) addr (ts_s ts) =
      (if data = [] then Panic IndexOutOfRange else Ret (sk_emit (Up (UpMessage ?l ?f ?m)) (?s1\<lparr>sk_cachedResponse := cache\<rparr>)))"
    unfolding stunServerSock_serveConn_def len w Let_def
    using s(1,2) g d dl up
    by (simp add: stunServerSock_stunMessageReceived_def stunServerSock_dataReceived_def BindingIndication_def
        SendIndication_def NewType_def class_defs)
  then show ?thesis by (auto simp: turn_packet_def sk_emit_def)
qed

end
