(* ===== verification/Sdp_Session.thy ===== *)
theory Sdp_Session
  imports Go_Text
begin

text \<open>
  SDP lines and sessions: \<^verbatim>\<open>src/sdp/sdp.go\<close>.

  A session is a list of lines; the printer writes them with a newline between two, and the
  scanner cuts a text at newlines, trims each piece and skips the blank ones. The code
  reuses the value slices beyond the length of the session it is given; a line only ever
  writes the slice it holds, so this is visible only to a caller who keeps a longer view of
  the same array, and values are plain lists here.
\<close>

section \<open>Errors\<close>

text \<open>\<open>DecodeError\<close>, errors of \<^verbatim>\<open>strconv\<close> and \<^verbatim>\<open>io\<close>, and what \<open>errors.Wrap\<close> puts around them.\<close>

record DecodeError =
  de_Reason :: string
  de_Place :: string

datatype sdp_error =
    Decode_error DecodeError
  | Strconv_error string
  | UnexpectedEOF
  | Wrap sdp_error string

definition DecodeError_Error :: "DecodeError \<Rightarrow> string" where
  "DecodeError_Error e = ''DecodeError in '' @ de_Place e @ '': '' @ de_Reason e"

definition newDecodeError :: "string \<Rightarrow> string \<Rightarrow> DecodeError" where
  "newDecodeError place reason = \<lparr>de_Reason = reason, de_Place = place\<rparr>"

section \<open>Lines\<close>

definition lineDelimiter :: char where "lineDelimiter = CHR ''=''"
definition newLine :: char where "newLine = CHR 0x0A"

record Line =
  ln_Type :: int
  ln_Value :: string

definition Line_Equal :: "Line \<Rightarrow> Line \<Rightarrow> bool" where
  "Line_Equal l b = (if ln_Type l \<noteq> ln_Type b then False else ln_Value l = ln_Value b)"

definition Line_Decode :: "string \<Rightarrow> Line \<Rightarrow> sdp_error option \<times> Line" where
  "Line_Decode b l =
     (case index_of lineDelimiter b of
        None \<Rightarrow>
          (Some (Wrap (Decode_error (newDecodeError ''line'' ''delimiter \"=\" not found'')) ''failed to decode''), l)
      | Some delimiter \<Rightarrow>
          if length b < delimiter + 1 then
            (Some (Wrap (Decode_error (newDecodeError ''line''
               (''len(b) '' @ show_dec (length b) @ '' < ('' @ show_dec delimiter @ '' + 1), no value found after delimiter'')))
               ''failed to decode''), l)
          else (None, \<lparr>ln_Type = DecodeRune (take delimiter b),
                       ln_Value = ln_Value l @ drop (delimiter + 1) b\<rparr>))"

definition appendRune :: "string \<Rightarrow> int \<Rightarrow> string" where
  "appendRune b r = b @ EncodeRune r"

definition Type_appendTo :: "int \<Rightarrow> string \<Rightarrow> string" where
  "Type_appendTo t b = appendRune b t"

definition Line_AppendTo :: "Line \<Rightarrow> string \<Rightarrow> string" where
  "Line_AppendTo l b = appendRune (Type_appendTo (ln_Type l) b) (code lineDelimiter) @ ln_Value l"

definition TypeProtocolVersion :: int where "TypeProtocolVersion = code CHR ''v''"
definition TypeOrigin :: int where "TypeOrigin = code CHR ''o''"
definition TypeSessionName :: int where "TypeSessionName = code CHR ''s''"
definition TypeSessionInformation :: int where "TypeSessionInformation = code CHR ''i''"
definition TypeURI :: int where "TypeURI = code CHR ''u''"
definition TypeEmail :: int where "TypeEmail = code CHR ''e''"
definition TypePhone :: int where "TypePhone = code CHR ''p''"
definition TypeConnectionData :: int where "TypeConnectionData = code CHR ''c''"
definition TypeBandwidth :: int where "TypeBandwidth = code CHR ''b''"
definition TypeTiming :: int where "TypeTiming = code CHR ''t''"
definition TypeRepeatTimes :: int where "TypeRepeatTimes = code CHR ''r''"
definition TypeTimeZones :: int where "TypeTimeZones = code CHR ''z''"
definition TypeEncryptionKey :: int where "TypeEncryptionKey = code CHR ''k''"
definition TypeAttribute :: int where "TypeAttribute = code CHR ''a''"
definition TypeMediaDescription :: int where "TypeMediaDescription = code CHR ''m''"

lemmas Type_defs =
  TypeProtocolVersion_def TypeOrigin_def TypeSessionName_def TypeSessionInformation_def TypeURI_def
  TypeEmail_def TypePhone_def TypeConnectionData_def TypeBandwidth_def TypeTiming_def
  TypeRepeatTimes_def TypeTimeZones_def TypeEncryptionKey_def TypeAttribute_def TypeMediaDescription_def

definition Type_String :: "int \<Rightarrow> string" where
  "Type_String t =
     (if t = TypeAttribute then ''attribute''
      else if t = TypePhone then ''phone''
      else if t = TypeEmail then ''email''
      else if t = TypeConnectionData then ''connection data''
      else if t = TypeURI then ''uri''
      else if t = TypeSessionName then ''session name''
      else if t = TypeOrigin then ''origin''
      else if t = TypeProtocolVersion then ''version''
      else if t = TypeTiming then ''timing''
      else if t = TypeBandwidth then ''bandwidth''
      else if t = TypeSessionInformation then ''session info''
      else if t = TypeRepeatTimes then ''repeat times''
      else if t = TypeTimeZones then ''time zones''
      else if t = TypeEncryptionKey then ''encryption keys''
      else if t = TypeMediaDescription then ''media description''
      else EncodeRune t)"

definition Line_String :: "Line \<Rightarrow> string" where
  "Line_String l = Type_String (ln_Type l) @ '': '' @ ln_Value l"

section \<open>Sessions\<close>

type_synonym Session = "Line list"

definition Session_reset :: "Session \<Rightarrow> Session" where
  "Session_reset s = []"

fun Session_AppendTo :: "Session \<Rightarrow> string \<Rightarrow> string" where
  "Session_AppendTo [] b = b"
| "Session_AppendTo [l] b = Line_AppendTo l b"
| "Session_AppendTo (l # l2 # ls) b =
     Session_AppendTo (l2 # ls) (appendRune (Line_AppendTo l b) (code newLine))"

fun lines_equal :: "Session \<Rightarrow> Session \<Rightarrow> bool" where
  "lines_equal (l # s) (k # b) = (if \<not> Line_Equal l k then False else lines_equal s b)"
| "lines_equal _ _ = True"

definition Session_Equal :: "Session \<Rightarrow> Session \<Rightarrow> bool" where
  "Session_Equal s b = (if length s \<noteq> length b then False else lines_equal s b)"

definition getLine :: "int \<Rightarrow> Line" where
  "getLine t = \<lparr>ln_Type = t, ln_Value = []\<rparr>"

definition Session_append :: "Session \<Rightarrow> int \<Rightarrow> string \<Rightarrow> Session" where
  "Session_append s t v = (let line = getLine t in s @ [line\<lparr>ln_Value := ln_Value line @ v\<rparr>])"

definition Session_appendString :: "Session \<Rightarrow> int \<Rightarrow> string \<Rightarrow> Session" where
  "Session_appendString s t v = (let line = getLine t in s @ [line\<lparr>ln_Value := ln_Value line @ v\<rparr>])"

section \<open>The scanner\<close>

record sliceScanner =
  ss_pos :: nat
  ss_end :: nat
  ss_v :: string
  ss_line :: string

definition newScanner :: "string \<Rightarrow> sliceScanner" where
  "newScanner v = \<lparr>ss_pos = 0, ss_end = 0, ss_v = v, ss_line = []\<rparr>"

text \<open>The end of the piece that starts at \<open>pos\<close>: after the next newline, else the end of the text.\<close>

definition piece_end :: "string \<Rightarrow> nat \<Rightarrow> nat" where
  "piece_end v pos =
     (case index_of newLine (drop pos v) of None \<Rightarrow> length v | Some newLinePos \<Rightarrow> pos + newLinePos + 1)"

lemma piece_end_bounds: "pos < length v \<Longrightarrow> pos < piece_end v pos \<and> piece_end v pos \<le> length v"
proof -
  assume pos: "pos < length v"
  show ?thesis
  proof (cases "index_of newLine (drop pos v)")
    case (Some i)
    then obtain p q where "drop pos v = p @ newLine # q" "i = length p" by (auto dest!: index_of_SomeD)
    then have "i < length (drop pos v)" by simp
    then show ?thesis using Some pos by (simp add: piece_end_def)
  qed (use pos in \<open>simp add: piece_end_def\<close>)
qed

function Scan :: "sliceScanner \<Rightarrow> bool \<times> sliceScanner" where
  "Scan s =
     (let pos = ss_end s
      in if pos \<ge> length (ss_v s) then (False, s\<lparr>ss_pos := pos, ss_line := [], ss_v := []\<rparr>)
         else
           let e = piece_end (ss_v s) pos;
               line = TrimSpace (subslice pos e (ss_v s));
               s' = s\<lparr>ss_pos := pos, ss_end := e, ss_line := line\<rparr>
           in if line = [] then Scan s' else (True, s'))"
  by pat_completeness auto
termination
proof (relation "measure (\<lambda>s. length (ss_v s) - ss_end s)")
  fix s :: sliceScanner and pos e line s'
  assume "pos = ss_end s" "\<not> length (ss_v s) \<le> pos" "e = piece_end (ss_v s) pos"
    "s' = s\<lparr>ss_pos := pos, ss_end := e, ss_line := line\<rparr>"
  then show "(s', s) \<in> measure (\<lambda>s. length (ss_v s) - ss_end s)"
    using piece_end_bounds [of pos "ss_v s"] by (simp add: diff_less_mono2)
qed simp

declare Scan.simps [simp del]

lemma Scan_progress:
  "fst (Scan s) \<Longrightarrow> ss_v (snd (Scan s)) = ss_v s \<and> ss_end s < ss_end (snd (Scan s)) \<and>
     ss_end (snd (Scan s)) \<le> length (ss_v s)"
proof (induction s rule: Scan.induct)
  case (1 s)
  show ?case
  proof (cases "length (ss_v s) \<le> ss_end s")
    case True
    then show ?thesis using 1 by (subst (asm) Scan.simps) simp
  next
    case False
    let ?e = "piece_end (ss_v s) (ss_end s)"
    let ?l = "TrimSpace (subslice (ss_end s) ?e (ss_v s))"
    let ?s' = "s\<lparr>ss_pos := ss_end s, ss_end := ?e, ss_line := ?l\<rparr>"
    have e: "ss_end s < ?e" "?e \<le> length (ss_v s)" using piece_end_bounds False by auto
    have scan: "Scan s = (if ?l = [] then Scan ?s' else (True, ?s'))"
      using False by (subst Scan.simps) (simp add: Let_def)
    show ?thesis
    proof (cases "?l = []")
      case True
      then show ?thesis using 1(1) [OF refl False refl refl refl True] 1(2) e scan by simp
    next
      case False
      then show ?thesis using e scan by simp
    qed
  qed
qed

text \<open>
  The loop of \<open>DecodeSession\<close>. Every line is decoded into an empty value: \<open>line.Value\<close> is nil
  or a reused slice of length zero. A failed line ends the loop and keeps the lines so far.
\<close>

function decode_lines :: "sliceScanner \<Rightarrow> Line \<Rightarrow> Session \<Rightarrow> Session \<times> sdp_error option" where
  "decode_lines sc line s =
     (case Scan sc of
        (False, _) \<Rightarrow> (s, None)
      | (True, sc') \<Rightarrow>
          (case Line_Decode (ss_line sc') line of
             (Some err, _) \<Rightarrow> (s, Some err)
           | (None, line) \<Rightarrow> decode_lines sc' (line\<lparr>ln_Value := []\<rparr>) (s @ [line])))"
  by pat_completeness auto
termination
proof (relation "measure (\<lambda>(sc, _). length (ss_v sc) - ss_end sc)", goal_cases)
  case (2 sc line s ok sc' err line')
  then have "Scan sc = (True, sc')" by simp
  then show ?case using Scan_progress [of sc] by auto
qed simp

declare decode_lines.simps [simp del]

definition DecodeSession :: "string \<Rightarrow> Session \<Rightarrow> Session \<times> sdp_error option" where
  "DecodeSession b s = decode_lines (newScanner b) \<lparr>ln_Type = 0, ln_Value = []\<rparr> s"

section \<open>What the scanner finds\<close>

lemma newline_space_rune: "e \<in> set space_runes \<Longrightarrow> newLine \<in> set e \<Longrightarrow> e = [newLine]"
proof -
  assume e: "e \<in> set space_runes" "newLine \<in> set e"
  then obtain q where q: "e = EncodeRune q" "valid_rune q" using space_runes_valid by blast
  have "q \<le> 0x7F" using EncodeRune_bytes [of q newLine] e(2) q by (force simp: code_def newLine_def)
  then have "e = [chr q]" using q by (simp add: EncodeRune_ascii valid_rune_def)
  then show ?thesis using e(2) by simp
qed

lemma newline_is_space: "[newLine] \<in> set space_runes"
proof -
  have "[newLine] = EncodeRune 0x0A" using chr_code [of newLine] by (simp add: EncodeRune_ascii code_def newLine_def)
  then show ?thesis by (simp add: space_runes_def)
qed

lemma find_newline:
  assumes "seps = space_runes \<or> seps = map rev space_runes"
  shows "find (\<lambda>e. e \<noteq> [] \<and> take (length e) (newLine # s) = e) seps = Some [newLine]"
proof -
  have mem: "[newLine] \<in> set seps" using assms newline_is_space by force
  have only: "e = [newLine]" if "e \<in> set seps" "newLine \<in> set e" for e
    using assms that newline_space_rune [of e] newline_space_rune [of "rev e"] by auto
  have eq: "e \<noteq> [] \<and> take (length e) (newLine # s) = e \<longleftrightarrow> e = [newLine]" if "e \<in> set seps" for e
  proof
    assume "e \<noteq> [] \<and> take (length e) (newLine # s) = e"
    then have "newLine \<in> set e" by (cases e) auto
    then show "e = [newLine]" using only that by blast
  qed simp
  have "find (\<lambda>e. e \<noteq> [] \<and> take (length e) (newLine # s) = e) seps = find (\<lambda>e. e = [newLine]) seps"
    by (rule find_cong [OF refl]) (rule eq)
  also have "\<dots> = Some [newLine]" using mem by (induction seps) auto
  finally show ?thesis .
qed

lemma trim_front_newline: "trim_front space_runes (p @ [newLine]) =
    (if trim_front space_runes p = [] then [] else trim_front space_runes p @ [newLine])"
proof (induction "length p" arbitrary: p rule: less_induct)
  case less
  show ?case
  proof (cases "p = []")
    case True
    have "trim_front space_runes [newLine] = []"
      by (subst trim_front.simps) (simp add: find_newline trim_front_none)
    then show ?thesis using True by (simp add: trim_front_none)
  next
    case False
    have same: "(take (length e) (p @ [newLine]) = e) = (take (length e) p = e)" if e: "e \<in> set space_runes" for e
    proof (cases "length e \<le> length p")
      case False
      have "take (length e) (p @ [newLine]) \<noteq> e"
      proof
        assume t: "take (length e) (p @ [newLine]) = e"
        then have "p @ [newLine] = e" using False by simp
        then have "e = [newLine]" using newline_space_rune [OF e] by auto
        then show False using \<open>p @ [newLine] = e\<close> \<open>p \<noteq> []\<close> by simp
      qed
      moreover have "take (length e) p \<noteq> e"
      proof
        assume "take (length e) p = e"
        then have "length (take (length e) p) = length e" by simp
        then show False using False by simp
      qed
      ultimately show ?thesis by simp
    qed simp
    have find: "find (\<lambda>e. e \<noteq> [] \<and> take (length e) (p @ [newLine]) = e) space_runes =
        find (\<lambda>e. e \<noteq> [] \<and> take (length e) p = e) space_runes"
      by (rule find_cong [OF refl]) (simp only: same)
    show ?thesis
    proof (cases "find (\<lambda>e. e \<noteq> [] \<and> take (length e) p = e) space_runes")
      case None
      then have "trim_front space_runes (p @ [newLine]) = p @ [newLine]" "trim_front space_runes p = p"
        using find by (subst trim_front.simps, simp)+
      then show ?thesis using False by simp
    next
      case (Some e)
      then have e: "e \<noteq> []" "take (length e) p = e" by (auto simp: find_Some_iff)
      then have len: "length e \<le> length p" by (metis length_take min.cobounded1)
      have "trim_front space_runes (p @ [newLine]) = trim_front space_runes (drop (length e) p @ [newLine])"
        "trim_front space_runes p = trim_front space_runes (drop (length e) p)"
        using find Some len by (subst trim_front.simps, simp)+
      then show ?thesis using less [of "drop (length e) p"] e False by simp
    qed
  qed
qed

lemma TrimSpace_newline: "TrimSpace (p @ [newLine]) = TrimSpace p"
proof (cases "trim_front space_runes p = []")
  case True
  then show ?thesis by (simp add: TrimSpace_def trim_front_newline)
next
  case False
  have "trim_front (map rev space_runes) (newLine # rev (trim_front space_runes p)) =
      trim_front (map rev space_runes) (rev (trim_front space_runes p))"
    by (subst trim_front.simps) (simp add: find_newline)
  then show ?thesis using False by (simp add: TrimSpace_def trim_front_newline)
qed

lemma TrimSpace_Nil [simp]: "TrimSpace [] = []"
  by (simp add: TrimSpace_def trim_front_none)

text \<open>The reference: the trimmed pieces between newlines that are not blank.\<close>

definition sdp_pieces :: "string \<Rightarrow> string list" where
  "sdp_pieces b = filter (\<lambda>p. p \<noteq> []) (map TrimSpace (split_on newLine b))"

fun decode_pieces :: "string list \<Rightarrow> Session \<Rightarrow> Session \<times> sdp_error option" where
  "decode_pieces [] s = (s, None)"
| "decode_pieces (p # ps) s =
     (case Line_Decode p \<lparr>ln_Type = 0, ln_Value = []\<rparr> of
        (Some e, _) \<Rightarrow> (s, Some e)
      | (None, l) \<Rightarrow> decode_pieces ps (s @ [l]))"

lemma sdp_pieces_step:
  assumes "pos < length v"
  shows "sdp_pieces (drop pos v) =
    (let l = TrimSpace (subslice pos (piece_end v pos) v); rest = sdp_pieces (drop (piece_end v pos) v)
     in if l = [] then rest else l # rest)"
proof (cases "index_of newLine (drop pos v)")
  case None
  then have "split_on newLine (drop pos v) = [drop pos v]" by (simp add: index_of_None split_on_plain)
  then show ?thesis using None by (simp add: sdp_pieces_def piece_end_def subslice_def)
next
  case (Some i)
  then obtain p q where pq: "drop pos v = p @ newLine # q" "newLine \<notin> set p" "i = length p"
    by (auto dest!: index_of_SomeD)
  have e: "piece_end v pos = pos + length p + 1" using Some pq(3) by (simp add: piece_end_def)
  have "subslice pos (piece_end v pos) v = p @ [newLine]" by (simp add: e subslice_def pq(1))
  moreover have "drop (piece_end v pos) v = q"
    using pq(1) drop_drop [of "length p + 1" pos v] by (simp add: e add.commute add.left_commute)
  ultimately show ?thesis
    by (simp add: pq(1) sdp_pieces_def split_on_part pq(2) TrimSpace_newline Let_def)
qed

lemma Scan_pieces:
  "case sdp_pieces (drop (ss_end sc) (ss_v sc)) of
     [] \<Rightarrow> \<not> fst (Scan sc)
   | p # ps \<Rightarrow> fst (Scan sc) \<and> ss_line (snd (Scan sc)) = p \<and>
       sdp_pieces (drop (ss_end (snd (Scan sc))) (ss_v (snd (Scan sc)))) = ps"
proof (induction sc rule: Scan.induct)
  case (1 sc)
  show ?case
  proof (cases "length (ss_v sc) \<le> ss_end sc")
    case True
    then show ?thesis by (subst Scan.simps) (simp add: sdp_pieces_def)
  next
    case False
    let ?e = "piece_end (ss_v sc) (ss_end sc)"
    let ?l = "TrimSpace (subslice (ss_end sc) ?e (ss_v sc))"
    let ?s' = "sc\<lparr>ss_pos := ss_end sc, ss_end := ?e, ss_line := ?l\<rparr>"
    have scan: "Scan sc = (if ?l = [] then Scan ?s' else (True, ?s'))"
      using False by (subst Scan.simps) (simp add: Let_def)
    have step: "sdp_pieces (drop (ss_end sc) (ss_v sc)) =
        (if ?l = [] then sdp_pieces (drop ?e (ss_v sc)) else ?l # sdp_pieces (drop ?e (ss_v sc)))"
      using False by (simp add: sdp_pieces_step Let_def)
    show ?thesis
    proof (cases "?l = []")
      case True
      have scan': "Scan sc = Scan ?s'" and step': "sdp_pieces (drop (ss_end sc) (ss_v sc)) = sdp_pieces (drop ?e (ss_v sc))"
        using True by (simp_all add: scan step)
      show ?thesis using 1 [OF refl False refl refl refl True] unfolding scan' step' by simp
    next
      case False
      then show ?thesis by (simp add: scan step)
    qed
  qed
qed

lemma decode_lines_pieces:
  "ln_Value line = [] \<Longrightarrow> decode_lines sc line s = decode_pieces (sdp_pieces (drop (ss_end sc) (ss_v sc))) s"
proof (induction sc line s rule: decode_lines.induct)
  case (1 sc line s)
  have same: "Line_Decode b line = (case Line_Decode b \<lparr>ln_Type = 0, ln_Value = []\<rparr> of
      (Some e, _) \<Rightarrow> (Some e, line) | (None, l) \<Rightarrow> (None, l))" for b
    using 1(2) by (auto simp: Line_Decode_def split: option.splits)
  show ?case
  proof (cases "sdp_pieces (drop (ss_end sc) (ss_v sc))")
    case Nil
    then have "\<not> fst (Scan sc)" using Scan_pieces [of sc] by simp
    then show ?thesis using Nil by (subst decode_lines.simps) (simp add: case_prod_unfold)
  next
    case (Cons p ps)
    then obtain sc' where sc': "Scan sc = (True, sc')" "ss_line sc' = p" "sdp_pieces (drop (ss_end sc') (ss_v sc')) = ps"
      using Scan_pieces [of sc] by (cases "Scan sc") auto
    show ?thesis
    proof (cases "Line_Decode p \<lparr>ln_Type = 0, ln_Value = []\<rparr>")
      case (Pair err l)
      show ?thesis
      proof (cases err)
        case None
        then have d: "Line_Decode (ss_line sc') line = (None, l)" using Pair sc'(2) same by simp
        have "decode_lines sc' (l\<lparr>ln_Value := []\<rparr>) (s @ [l]) = decode_pieces ps (s @ [l])"
          using 1(1) [OF sc'(1) [symmetric] refl d [symmetric] refl] sc'(3) by simp
        then show ?thesis using Cons Pair None d sc'(1) by (subst decode_lines.simps) simp
      next
        case (Some e)
        then show ?thesis using Cons Pair sc'(1,2) same by (subst decode_lines.simps) simp
      qed
    qed
  qed
qed

lemma DecodeSession_pieces: "DecodeSession b s = decode_pieces (sdp_pieces b) s"
  by (simp add: DecodeSession_def decode_lines_pieces newScanner_def)

section \<open>Printing and scanning\<close>

text \<open>A line that survives: its type is a code point that is no white space and not the
  delimiter, its value has no newline and does not end in white space.\<close>

definition good_line :: "Line \<Rightarrow> bool" where
  "good_line l \<longleftrightarrow>
     valid_rune (ln_Type l) \<and> \<not> is_space_rune (ln_Type l) \<and> ln_Type l \<noteq> code lineDelimiter \<and>
     newLine \<notin> set (ln_Value l) \<and> \<not> ends_in_space (ln_Value l)"

definition line_text :: "Line \<Rightarrow> string" where
  "line_text l = EncodeRune (ln_Type l) @ CHR ''='' # ln_Value l"

lemma EncodeRune_char: "(of_char c :: nat) < 0x80 \<Longrightarrow> EncodeRune (code c) = [c]"
  using EncodeRune_ascii [of "code c"] by (simp add: code_def chr_def)

lemma Line_AppendTo_text: "Line_AppendTo l b = b @ line_text l"
  by (simp add: Line_AppendTo_def Type_appendTo_def appendRune_def line_text_def lineDelimiter_def
      EncodeRune_char)

lemma Session_AppendTo_text: "Session_AppendTo ls b = b @ join_with newLine (map line_text ls)"
  by (induction ls b rule: Session_AppendTo.induct)
     (simp_all add: Line_AppendTo_text appendRune_def EncodeRune_char newLine_def)

lemma EncodeRune_avoids:
  assumes "valid_rune r" and "code c < 0x80" and "r \<noteq> code c"
  shows "c \<notin> set (EncodeRune r)"
proof (cases "r \<le> 0x7F")
  case True
  then have "EncodeRune r = [chr r]" "0 \<le> r" using assms(1) by (simp_all add: EncodeRune_ascii valid_rune_def)
  then show ?thesis using assms(3) True by (auto simp: code_chr)
next
  case False
  then show ?thesis using EncodeRune_bytes [of r c] assms by force
qed

lemma good_line_text:
  assumes "good_line l"
  shows "newLine \<notin> set (line_text l)" "TrimSpace (line_text l) = line_text l" "line_text l \<noteq> []"
    "Line_Decode (line_text l) \<lparr>ln_Type = 0, ln_Value = []\<rparr> = (None, l)"
proof -
  have nl: "ln_Type l \<noteq> code newLine"
  proof
    assume "ln_Type l = code newLine"
    then have "EncodeRune (ln_Type l) = [newLine]" by (simp add: EncodeRune_char newLine_def)
    then show False using assms newline_is_space by (simp add: good_line_def is_space_rune_def)
  qed
  then have "newLine \<notin> set (EncodeRune (ln_Type l))"
    using assms EncodeRune_avoids [of "ln_Type l" newLine] by (simp add: good_line_def code_def newLine_def)
  then show "newLine \<notin> set (line_text l)" using assms by (simp add: line_text_def good_line_def newLine_def)
  show "TrimSpace (line_text l) = line_text l" using assms by (simp add: line_text_def good_line_def TrimSpace_line)
  show "line_text l \<noteq> []" by (simp add: line_text_def)
  have "CHR ''='' \<notin> set (EncodeRune (ln_Type l))"
    using assms EncodeRune_avoids [of "ln_Type l" "CHR ''=''"] by (simp add: good_line_def code_def lineDelimiter_def)
  then have "index_of lineDelimiter (line_text l) = Some (length (EncodeRune (ln_Type l)))"
    by (simp add: line_text_def lineDelimiter_def index_of_part)
  moreover have "DecodeRune (EncodeRune (ln_Type l)) = ln_Type l"
    using assms DecodeRune_EncodeRune [of "ln_Type l" "[]"] by (simp add: good_line_def)
  ultimately show "Line_Decode (line_text l) \<lparr>ln_Type = 0, ln_Value = []\<rparr> = (None, l)"
    by (simp add: Line_Decode_def line_text_def)
qed

lemma decode_pieces_good:
  "list_all good_line ls \<Longrightarrow> decode_pieces (map line_text ls) s = (s @ ls, None)"
  by (induction ls arbitrary: s) (simp_all add: good_line_text)

lemma sdp_pieces_good:
  "list_all good_line ls \<Longrightarrow> filter (\<lambda>p. p \<noteq> []) (map TrimSpace (map line_text ls)) = map line_text ls"
  by (induction ls) (simp_all add: good_line_text)

lemma DecodeSession_AppendTo:
  assumes "list_all good_line ls"
  shows "DecodeSession (Session_AppendTo ls []) s = (s @ ls, None)"
proof (cases "ls = []")
  case True
  then show ?thesis by (simp add: DecodeSession_pieces sdp_pieces_def)
next
  case False
  have "list_all (\<lambda>p. newLine \<notin> set p) (map line_text ls)"
    using assms by (auto simp: list_all_iff good_line_text)
  then have "split_on newLine (Session_AppendTo ls []) = map line_text ls"
    using False by (simp add: Session_AppendTo_text split_on_join)
  then have "sdp_pieces (Session_AppendTo ls []) = map line_text ls"
    using sdp_pieces_good [OF assms] by (simp add: sdp_pieces_def)
  then show ?thesis using decode_pieces_good [OF assms] by (simp add: DecodeSession_pieces)
qed

section \<open>Plain lines\<close>

text \<open>A line is good when its type and the last character of its value are printable ASCII.\<close>

definition plain_char :: "char \<Rightarrow> bool" where
  "plain_char c \<longleftrightarrow> 0x21 \<le> (of_char c :: nat) \<and> (of_char c :: nat) < 0x7F"

definition plain_line :: "Line \<Rightarrow> bool" where
  "plain_line l \<longleftrightarrow> 0x21 \<le> ln_Type l \<and> ln_Type l < 0x7F \<and> ln_Type l \<noteq> 61 \<and>
     newLine \<notin> set (ln_Value l) \<and> (ln_Value l = [] \<or> plain_char (last (ln_Value l)))"

lemma space_rune_chars:
  assumes "e \<in> set space_runes" and "c \<in> set e"
  shows "\<not> plain_char c"
proof
  assume p: "plain_char c"
  obtain q where q: "e = EncodeRune q" "q \<in> {0x20, 0x09, 0x0A, 0x0B, 0x0C, 0x0D} \<or> 0x85 \<le> q" "valid_rune q"
    using assms(1) by (auto simp: space_runes_def valid_rune_def)
  have "q \<le> 0x7F" using EncodeRune_bytes [of q c] assms(2) p q(1,3) by (force simp: code_def plain_char_def)
  then have "e = [chr q]" "0 \<le> q" using q by (simp_all add: EncodeRune_ascii valid_rune_def)
  then have "(of_char c :: nat) = nat q" using assms(2) \<open>q \<le> 0x7F\<close> by (simp add: chr_def)
  then show False using p q(2) \<open>q \<le> 0x7F\<close> by (auto simp: plain_char_def)
qed

lemma space_rune_nonempty: "e \<in> set space_runes \<Longrightarrow> e \<noteq> []"
  using space_runes_valid [of e] EncodeRune_nonempty by auto

lemma plain_good:
  assumes "plain_line l"
  shows "good_line l"
proof -
  have t: "EncodeRune (ln_Type l) = [chr (ln_Type l)]" "plain_char (chr (ln_Type l))"
    using assms by (simp_all add: plain_line_def plain_char_def EncodeRune_ascii chr_def nat_less_iff nat_le_iff le_nat_iff)
  have "\<not> is_space_rune (ln_Type l)"
    unfolding is_space_rune_def t(1) using space_rune_chars [of "[chr (ln_Type l)]"] t(2) by auto
  moreover have "\<not> ends_in_space (ln_Value l)"
  proof
    assume "ends_in_space (ln_Value l)"
    then obtain e where e: "e \<in> set space_runes" "take (length e) (rev (ln_Value l)) = rev e"
      by (auto simp: ends_in_space_def list_ex_iff)
    then have "e \<noteq> []" using space_rune_nonempty by blast
    then have "ln_Value l \<noteq> []" using e(2) by auto
    moreover have "last (ln_Value l) = last e"
      using arg_cong [OF e(2), of hd] \<open>e \<noteq> []\<close> by (simp add: hd_rev)
    ultimately show False using assms space_rune_chars [OF e(1), of "last e"] \<open>e \<noteq> []\<close> by (simp add: plain_line_def)
  qed
  ultimately show ?thesis
    using assms by (auto simp: good_line_def plain_line_def valid_rune_def code_def lineDelimiter_def)
qed

lemma plain_lines_good: "list_all plain_line ls \<Longrightarrow> list_all good_line ls"
  by (auto simp: list_all_iff plain_good)

end
