(* ===== verification/Ice_Transport.thy ===== *)
theory Ice_Transport
  imports Ice_Completion Ice_Relay Sdp_Session
begin

text \<open>
  The transport an application uses: \<^verbatim>\<open>src/ice/icestreamtransport.go\<close>, and of
  \<^verbatim>\<open>src/ice/icesession.go\<close> the opening of the sockets and the TURN permission.

  A transport owns at most one session. It exchanges session descriptions as text, starts the
  negotiation, and is told once by the session how it ended (\<open>onIceComplete\<close>). What opening a
  socket, gathering candidates, or the TURN server's answer gives is an argument. Calls of the
  application's callback are appended to \<open>tr_out\<close>.
\<close>

section \<open>Scanning\<close>

text \<open>
  What \<open>fmt.Sscanf\<close> does with the two formats of \<open>decodeSession\<close>, on text without a newline: a
  literal, a space of the format (at least one in the input, or its end), an integer, a word.
  A word is read rune by rune, so an ill-formed byte becomes U+FFFD.
\<close>

definition starts_with_space :: "string \<Rightarrow> bool" where
  "starts_with_space s \<longleftrightarrow> list_ex (\<lambda>e. take (length e) s = e) space_runes"

definition scan_literal :: "string \<Rightarrow> string \<Rightarrow> string option" where
  "scan_literal p s = (if take (length p) s = p then Some (drop (length p) s) else None)"

definition scan_blank :: "string \<Rightarrow> string option" where
  "scan_blank s = (if s = [] \<or> starts_with_space s then Some (trim_front space_runes s) else None)"

definition scan_int :: "string \<Rightarrow> int option" where
  "scan_int s =
     (let s = trim_front space_runes s;
          (sg, s) = (if s \<noteq> [] \<and> hd s \<in> set ''+-'' then ([hd s], tl s) else ([], s));
          digits = takeWhile is_digit s
      in if digits = [] then None else Atoi (sg @ digits))"

definition rune_len :: "string \<Rightarrow> nat" where
  "rune_len s = (let e = EncodeRune (DecodeRune s) in if take (length e) s = e then length e else 1)"

lemma rune_len_pos: "0 < rune_len s"
  by (simp add: rune_len_def Let_def)

function word_runes :: "string \<Rightarrow> string" where
  "word_runes s =
     (if s = [] \<or> starts_with_space s then []
      else EncodeRune (DecodeRune s) @ word_runes (drop (rune_len s) s))"
  by pat_completeness auto
termination
  by (relation "measure length") (use rune_len_pos in auto)

declare word_runes.simps [simp del]

definition scan_word :: "string \<Rightarrow> string option" where
  "scan_word s = (let s = trim_front space_runes s in if s = [] then None else Some (word_runes s))"

text \<open>\<open>"audio %d RTP/"\<close> and \<open>"IN IP4 %s"\<close>: what is stored, if anything is.\<close>

definition scan_audio_port :: "string \<Rightarrow> int option" where
  "scan_audio_port v =
     (case scan_literal ''audio'' v of
        None \<Rightarrow> None
      | Some v \<Rightarrow> (case scan_blank v of None \<Rightarrow> None | Some v \<Rightarrow> scan_int v))"

definition scan_connection_IP :: "string \<Rightarrow> string option" where
  "scan_connection_IP v =
     (case scan_literal ''IN'' v of
        None \<Rightarrow> None
      | Some v \<Rightarrow>
          (case scan_blank v of
             None \<Rightarrow> None
           | Some v \<Rightarrow>
               (case scan_literal ''IP4'' v of
                  None \<Rightarrow> None
                | Some v \<Rightarrow> (case scan_blank v of None \<Rightarrow> None | Some v \<Rightarrow> scan_word v))))"

section \<open>Session descriptions\<close>

datatype transport_error =
    SdpError sdp_error
  | CandidateError cand_error
  | TransportError go_error

definition decode_line :: "Line \<Rightarrow> sessionDescription \<Rightarrow> transport_error + sessionDescription" where
  "decode_line line sd =
     (let v = ln_Value line
      in if ln_Type line = TypeAttribute then
           let ss = split_on CHR '':'' v
           in if length ss \<noteq> 2 then Inl (TransportError (Errorf (''attribute error :'' @ v)))
              else if ss ! 0 = ''ice-ufrag'' then Inr (sd\<lparr>sd_user := ss ! 1\<rparr>)
              else if ss ! 0 = ''ice-pwd'' then Inr (sd\<lparr>sd_password := ss ! 1\<rparr>)
              else if ss ! 0 = ''candidate'' then
                (case candidateParser_parse v zero_Candidate of
                   (Some e, _) \<Rightarrow> Inl (CandidateError e)
                 | (None, c) \<Rightarrow> Inr (sd\<lparr>sd_candidates := sd_candidates sd @ [c]\<rparr>))
              else Inr sd
         else if ln_Type line = TypeMediaDescription then
           Inr (case scan_audio_port v of None \<Rightarrow> sd | Some p \<Rightarrow> sd\<lparr>sd_defaultPort := p\<rparr>)
         else if ln_Type line = TypeConnectionData then
           Inr (case scan_connection_IP v of None \<Rightarrow> sd | Some ip \<Rightarrow> sd\<lparr>sd_defaultIP := ip\<rparr>)
         else Inr sd)"

fun decode_description :: "Line list \<Rightarrow> sessionDescription \<Rightarrow> transport_error + sessionDescription" where
  "decode_description [] sd = Inr sd"
| "decode_description (l # ls) sd =
     (case decode_line l sd of Inl e \<Rightarrow> Inl e | Inr sd \<Rightarrow> decode_description ls sd)"

fun default_index :: "string \<Rightarrow> nat \<Rightarrow> Candidate list \<Rightarrow> nat option" where
  "default_index a i [] = None"
| "default_index a i (c # cs) = (if cd_addr c = a then Some i else default_index a (Suc i) cs)"

definition zero_sessionDescription :: sessionDescription where
  "zero_sessionDescription = \<lparr>sd_user = [], sd_password = [], sd_defaultPort = 0, sd_defaultIP = [],
     sd_candidates = [], sd_defautCandidate = None\<rparr>"

definition decodeSession :: "string \<Rightarrow> transport_error + sessionDescription" where
  "decodeSession str =
     (case DecodeSession str [] of
        (_, Some e) \<Rightarrow> Inl (SdpError e)
      | (s, None) \<Rightarrow>
          (case decode_description s zero_sessionDescription of
             Inl e \<Rightarrow> Inl e
           | Inr sd \<Rightarrow>
               if sd_user sd = [] \<or> sd_password sd = [] \<or> sd_defaultIP sd = [] \<or> sd_candidates sd = [] then
                 Inl (TransportError (Errorf (''remote session description error '' @ str)))
               else
                 let s2 = sd_defaultIP sd @ '':'' @ itoa (sd_defaultPort sd)
                 in (case default_index s2 0 (sd_candidates sd) of
                       None \<Rightarrow> Inl (TransportError (Errorf (''no default candidate found '' @ s2)))
                     | Some i \<Rightarrow> Inr (sd\<lparr>sd_defautCandidate := Some i\<rparr>))))"

section \<open>Configuration\<close>

record TransportConfig =
  StunSever :: string
  TurnSever :: string
  TurnUserName :: string
  TurnPassword :: string
  ComponentNumber :: int

definition NewTransportConfigHostonly :: TransportConfig where
  "NewTransportConfigHostonly =
     \<lparr>StunSever = [], TurnSever = [], TurnUserName = [], TurnPassword = [], ComponentNumber = 1\<rparr>"

definition NewTransportConfigWithStun :: "string \<Rightarrow> TransportConfig" where
  "NewTransportConfigWithStun stunServer =
     \<lparr>StunSever = stunServer, TurnSever = [], TurnUserName = [], TurnPassword = [], ComponentNumber = 1\<rparr>"

definition NewTransportConfigWithTurn :: "string \<Rightarrow> string \<Rightarrow> string \<Rightarrow> TransportConfig" where
  "NewTransportConfigWithTurn turnServer turnUser turnPass =
     \<lparr>StunSever = [], TurnSever = turnServer, TurnUserName = turnUser, TurnPassword = turnPass, ComponentNumber = 1\<rparr>"

section \<open>The transport\<close>

datatype transportState =
    TransportStateReady | TransportStateSessionReady | TransportStateNegotiation
  | TransportStateRunning | TransportStateFailed | TransportStateStopped

definition transportState_String :: "transportState \<Rightarrow> string" where
  "transportState_String s =
     (case s of TransportStateReady \<Rightarrow> ''Candidate Gathering Complete''
      | TransportStateSessionReady \<Rightarrow> ''Session Initialized''
      | TransportStateNegotiation \<Rightarrow> ''Negotiation In Progress''
      | TransportStateRunning \<Rightarrow> ''Negotiation Success''
      | TransportStateFailed \<Rightarrow> ''Negotiation Failed''
      | TransportStateStopped \<Rightarrow> ''stopped'')"

record transportComponent =
  tc_componentID :: int
  tc_candidates :: "Candidate list"
  tc_defaultCandidate :: "Candidate option"

datatype transporter = StunSocket | TurnSock | HostOnlySocket

datatype callback =
    OnReceiveData bytes "bytes \<times> int"
  | CbOnIceComplete "go_error option"

record StreamTransport =
  tr_cfg :: TransportConfig
  tr_transporter :: transporter
  tr_component :: transportComponent
  tr_State :: transportState
  tr_session :: "session option"
  tr_cb :: bool
  tr_out :: "callback list"

definition newTransportComponent :: "int \<Rightarrow> transportComponent" where
  "newTransportComponent i = \<lparr>tc_componentID = i, tc_candidates = [], tc_defaultCandidate = None\<rparr>"

definition transportComponent_GetCandidates ::
  "go_error + Candidate list \<Rightarrow> transportComponent \<Rightarrow> (go_error option \<times> transportComponent) go" where
  "transportComponent_GetCandidates gathered t =
     (case gathered of
        Inl e \<Rightarrow> Ret (Some e, t)
      | Inr cs \<Rightarrow>
          let cs = map (\<lambda>c. c\<lparr>ComponentID := tc_componentID t,
                             Priority := calcCandidatePriority (cd_Type c) defaultPreference (tc_componentID t),
                             transport := TransportUDP\<rparr>) cs
          in if cs = [] then Panic IndexOutOfRange
             else Ret (None, t\<lparr>tc_candidates := cs, tc_defaultCandidate := Some (last cs)\<rparr>))"

definition NewIceStreamTransport ::
  "(transporter \<Rightarrow> go_error option) \<Rightarrow> (transporter \<Rightarrow> go_error + Candidate list) \<Rightarrow> TransportConfig \<Rightarrow>
     (go_error option \<times> StreamTransport) go" where
  "NewIceStreamTransport open_sock gather cfg =
     (let (k, err) = (if length (StunSever cfg) > 0 then (StunSocket, open_sock StunSocket)
                      else if length (TurnSever cfg) > 0 then (TurnSock, open_sock TurnSock)
                      else (HostOnlySocket, None));
          it = \<lparr>tr_cfg = cfg, tr_transporter = k, tr_component = newTransportComponent 1, tr_State = TransportStateReady,
                tr_session = None, tr_cb = False, tr_out = []\<rparr>
      in case err of
           Some e \<Rightarrow> Ret (Some e, it)
         | None \<Rightarrow> go_map (\<lambda>(e, comp). (e, it\<lparr>tr_component := comp\<rparr>))
                    (transportComponent_GetCandidates (gather k) (tr_component it)))"

text \<open>
  \<open>StartServer\<close> opens a socket for every address to listen on, the first through the TURN server
  if there is one. A socket's name is its position. When one cannot be opened, those that are
  open are closed, in the order of \<open>order\<close>.
\<close>

fun listen_all :: "(string \<Rightarrow> go_error option) \<Rightarrow> nat \<Rightarrow> string list \<Rightarrow> session \<Rightarrow> go_error option \<times> session" where
  "listen_all listen i [] s = (None, s)"
| "listen_all listen i (a # as) s =
     (case listen a of
        Some e \<Rightarrow> (Some e, s)
      | None \<Rightarrow> listen_all listen (Suc i) as (s\<lparr>serverSocks := (serverSocks s)(a \<mapsto> i)\<rparr>))"

definition close_socks :: "string list \<Rightarrow> session \<Rightarrow> session" where
  "close_socks order s =
     s\<lparr>out := out s @ map (\<lambda>a. CloseSock (the (serverSocks s a))) (filter (\<lambda>a. serverSocks s a \<noteq> None) order)\<rparr>"

definition session_StartServer ::
  "(string \<Rightarrow> go_error option) \<Rightarrow> bool \<Rightarrow> string list \<Rightarrow> string list \<Rightarrow> session \<Rightarrow> (go_error option \<times> session) go" where
  "session_StartServer listen hasRelay addrs order s =
     (if hasRelay \<and> addrs = [] then Panic IndexOutOfRange
      else
        let (err, s) =
          (if hasRelay then
             (case listen (addrs ! 0) of
                Some e \<Rightarrow> (Some e, s\<lparr>turnServerSock := Some 0\<rparr>)
              | None \<Rightarrow> listen_all listen 1 (tl addrs)
                          (s\<lparr>turnServerSock := Some 0, serverSocks := (serverSocks s)(addrs ! 0 \<mapsto> 0)\<rparr>))
           else listen_all listen 0 addrs s)
        in Ret (err, if err = None then s else close_socks order s))"

definition session_createTurnPermissionIfNeeded :: "go_error + Message \<Rightarrow> session \<Rightarrow> go_error option" where
  "session_createTurnPermissionIfNeeded reply s =
     (if turnServerSock s \<noteq> None then
        (case reply of
           Inl e \<Rightarrow> Some e
         | Inr res \<Rightarrow> if msg_Type res \<noteq> CreatePermissionResponse then Some (Errorf ''Create permission error'') else None)
      else None)"

definition StreamTransport_InitIce ::
  "string \<Rightarrow> string \<Rightarrow> u64 \<Rightarrow> (string \<Rightarrow> go_error option) \<Rightarrow> string list \<Rightarrow> string list \<Rightarrow> SessionRole \<Rightarrow>
     StreamTransport \<Rightarrow> (go_error option \<times> StreamTransport) go" where
  "StreamTransport_InitIce frag pwd tie listen addrs order r t =
     go_map (\<lambda>(err, s). if err \<noteq> None then (err, t\<lparr>tr_session := Some s\<rparr>)
                        else (None, t\<lparr>tr_session := Some s, tr_State := TransportStateSessionReady\<rparr>))
       (session_StartServer listen (tr_transporter t = TurnSock) addrs order
          (newIceSession r (tc_candidates (tr_component t)) frag pwd tie))"

definition StreamTransport_SetCallBack :: "bool \<Rightarrow> StreamTransport \<Rightarrow> StreamTransport" where
  "StreamTransport_SetCallBack cb t = t\<lparr>tr_cb := cb\<rparr>"

definition StreamTransport_onIceComplete :: "go_error option \<Rightarrow> StreamTransport \<Rightarrow> StreamTransport go" where
  "StreamTransport_onIceComplete result t =
     (if tr_State t \<noteq> TransportStateNegotiation then Panic (ExplicitPanic ''only finish once'')
      else Ret (t\<lparr>tr_State := (if result \<noteq> None then TransportStateFailed else TransportStateRunning),
                  tr_out := tr_out t @ (if tr_cb t then [CbOnIceComplete result] else [])\<rparr>))"

text \<open>The session calls \<open>onIceComplete\<close> while it handles an event; the calls are what it added to \<open>out\<close>.\<close>

fun notify_all :: "effect list \<Rightarrow> StreamTransport \<Rightarrow> StreamTransport go" where
  "notify_all [] t = Ret t"
| "notify_all (OnIceComplete r # es) t = go_bind (StreamTransport_onIceComplete r t) (notify_all es)"
| "notify_all (e # es) t = notify_all es t"

definition take_session :: "session \<Rightarrow> session \<Rightarrow> StreamTransport \<Rightarrow> StreamTransport go" where
  "take_session s s' t = notify_all (drop (length (out s)) (out s')) (t\<lparr>tr_session := Some s'\<rparr>)"

definition StreamTransport_StartNegotiation ::
  "net \<Rightarrow> go_error + Message \<Rightarrow> string \<Rightarrow> StreamTransport \<Rightarrow> (transport_error option \<times> StreamTransport) go" where
  "StreamTransport_StartNegotiation n reply remoteSDP t =
     (case tr_session t of
        None \<Rightarrow> Ret (Some (TransportError (Errorf ''no session'')), t)
      | Some s \<Rightarrow>
          if tr_State t \<noteq> TransportStateSessionReady then Ret (Some (TransportError (Errorf ''no session'')), t)
          else
            let t = t\<lparr>tr_State := TransportStateNegotiation\<rparr>
            in case decodeSession remoteSDP of
                 Inl e \<Rightarrow> Ret (Some e, t)
               | Inr sd \<Rightarrow>
                   (case createCheckList sd s of
                      (Some e, s') \<Rightarrow> Ret (Some (TransportError e), t\<lparr>tr_session := Some s'\<rparr>)
                    | (None, s1) \<Rightarrow>
                        (case session_createTurnPermissionIfNeeded reply s1 of
                           Some e \<Rightarrow> Ret (Some (TransportError e), t\<lparr>tr_session := Some s1\<rparr>)
                         | None \<Rightarrow>
                             go_bind (startCheck n s1) (\<lambda>(e, s').
                               go_map (\<lambda>t. (map_option TransportError e, t)) (take_session s1 s' t)))))"

definition StreamTransport_EncodeSession :: "StreamTransport \<Rightarrow> (go_error + string) go" where
  "StreamTransport_EncodeSession t =
     (case tr_session t of
        None \<Rightarrow> Ret (Inl (Errorf ''no session''))
      | Some s \<Rightarrow>
          (case tc_defaultCandidate (tr_component t) of
             None \<Rightarrow> Panic NilDereference
           | Some dc \<Rightarrow>
               let (ip, port) = addrToUDPAddr (cd_addr dc); nl = [newLine]
               in Ret (Inr (''v=0'' @ nl @ ''o=- 3414953978 3414953978 IN IP4 localhost'' @ nl @ ''s=ice'' @ nl @ ''t=0 0'' @ nl @
                    ''a=ice-ufrag:'' @ rxUserFrag s @ nl @ ''a=ice-pwd:'' @ rxPassword s @ nl @
                    ''m=audio '' @ itoa port @ '' RTP/AVP 0'' @ nl @ ''c=IN IP4 '' @ IP_String ip @ nl @
                    concat (map (\<lambda>c. Candidate_String c @ nl) (tc_candidates (tr_component t)))))))"

definition StreamTransport_Stop :: "string list \<Rightarrow> StreamTransport \<Rightarrow> StreamTransport go" where
  "StreamTransport_Stop order t =
     (if tr_State t = TransportStateStopped then Ret t
      else
        let t = t\<lparr>tr_State := TransportStateFailed\<rparr>
        in case tr_session t of
             None \<Rightarrow> Ret t
           | Some s \<Rightarrow> go_map (\<lambda>s. t\<lparr>tr_session := Some s\<rparr>) (session_Stop order s))"

definition StreamTransport_SendData :: "StreamTransport \<Rightarrow> (go_error + (sock \<times> string \<times> string)) go" where
  "StreamTransport_SendData t =
     (if tr_State t \<noteq> TransportStateRunning then Ret (Inl (Errorf ''transport not running''))
      else case tr_session t of None \<Rightarrow> Panic NilDereference | Some s \<Rightarrow> SendData s)"

definition StreamTransport_onRxData :: "bytes \<Rightarrow> string \<Rightarrow> StreamTransport \<Rightarrow> StreamTransport" where
  "StreamTransport_onRxData data from t =
     (if tr_cb t then t\<lparr>tr_out := tr_out t @ [OnReceiveData data (addrToUDPAddr from)]\<rparr> else t)"

end
