(* ===== verification/Ice_Lifecycle.thy ===== *)
theory Ice_Lifecycle
  imports Ice_Transport Ice_Requests
begin

text \<open>
  The life of a transport together with its session: the calls of the application
  (\<open>InitIce\<close>, \<open>SetCallBack\<close>, \<open>StartNegotiation\<close>), the events of the session's goroutines and
  received data, interleaved in any order. The invariant ties the state of the transport to
  what the session has reported, so that \<open>onIceComplete\<close> never finds the transport in a wrong
  state; \<open>Stop\<close> is outside of it, and breaks it.
\<close>

section \<open>Steps\<close>

datatype life =
    CallInitIce SessionRole
  | CallSetCallBack bool
  | CallStartNegotiation string
  | SessionEvent event
  | DataEvent bytes

text \<open>The events of the session's own goroutines; the others are calls of the transport.\<close>

fun own_event :: "event \<Rightarrow> bool" where
  "own_event (CreateCheckList _) = False"
| "own_event (StartCheck _) = False"
| "own_event (StopSession _) = False"
| "own_event _ = True"

inductive transport_step :: "StreamTransport \<Rightarrow> life \<Rightarrow> StreamTransport \<Rightarrow> bool" where
  life_Init: "tr_session t = None \<Longrightarrow> StreamTransport_InitIce frag pwd tie listen addrs order r t = Ret (e, t') \<Longrightarrow>
    transport_step t (CallInitIce r) t'"
| life_SetCallBack: "transport_step t (CallSetCallBack b) (StreamTransport_SetCallBack b t)"
| life_Start: "StreamTransport_StartNegotiation n reply sdp t = Ret (e, t') \<Longrightarrow>
    transport_step t (CallStartNegotiation sdp) t'"
| life_Session: "tr_session t = Some s \<Longrightarrow> own_event ev \<Longrightarrow> session_step s ev s' \<Longrightarrow> take_session s s' t = Ret t' \<Longrightarrow>
    transport_step t (SessionEvent ev) t'"
| life_Data: "transport_step t (DataEvent d) (StreamTransport_onRxData d a t)"

inductive_cases transport_stepE: "transport_step t l t'"

section \<open>A session before its checks\<close>

text \<open>
  Until \<open>startCheck\<close> a session only answers requests and keeps them for later: it has no
  channel, no request under way, and has started no check.
\<close>

fun is_answer :: "effect \<Rightarrow> bool" where
  "is_answer (SendStun _ _ _ _) = True"
| "is_answer (CloseSock _) = True"
| "is_answer _ = False"

definition idle :: "session \<Rightarrow> bool" where
  "idle s \<longleftrightarrow> Mapping.is_empty (checkMap s) \<and> completeResult s = sessionNotComplete \<and> msg2Check s = Map.empty \<and>
     checkList s = [] \<and> list_all is_answer (out s)"

lemma sendResponse_idle: "sendResponse la fa req k s = Ret s' \<Longrightarrow> idle s \<Longrightarrow> idle s'"
  using sendResponse_only_sends by (fastforce simp: idle_def emit_def)

lemma accept_request_idle: "accept_request n la fa req u rx s = Ret s' \<Longrightarrow> idle s \<Longrightarrow> idle s'"
proof -
  assume a: "accept_request n la fa req u rx s = Ret s'" and i: "idle s"
  obtain t where t: "sendResponse la fa req 0 s = Ret t" using a by (auto simp: accept_request_def go_bind_Ret_iff)
  then have "idle t" using sendResponse_idle i by blast
  then show ?thesis using a t by (auto simp: accept_request_def Let_def idle_def split: if_splits)
qed

lemma changeRole_idle: "idle s \<Longrightarrow> idle (changeRole r s)"
  by (simp add: idle_def changeRole_def)

lemma authenticated_request_idle:
  assumes "authenticated_request n la fa req u prio s = Ret s'" and "idle s" shows "idle s'"
  using assms(1)
  by (cases rule: authenticated_request_cases)
    (use assms(2) changeRole_idle sendResponse_idle accept_request_idle in blast)+

lemma processStunMessage_idle:
  assumes "processStunMessage n past la ra m s = Ret s'" and "idle s" shows "idle s'"
proof -
  have "idle s'" if "processBindingRequest n la ra m s = Ret s'"
    using that assms(2) sendResponse_idle authenticated_request_idle
    by (auto simp: processBindingRequest_def go_bind_Ret_iff split: if_splits)
  moreover have "s' = s" if "processBindingResponse n past la ra m s = Ret s'"
    using that assms(2) by (simp add: processBindingResponse_def getMsgCheck_def idle_def)
  ultimately show ?thesis using assms by (auto simp: processStunMessage_def split: if_splits)
qed

lemma idle_no_checks: "idle s \<Longrightarrow> GoOnecheck c b \<notin> set (out s)" "idle s \<Longrightarrow> WaitNomination \<notin> set (out s)"
  by (fastforce simp: idle_def list_all_iff)+

lemma own_event_idle:
  assumes "session_step s ev s'" "own_event ev" "idle s" shows "idle s'"
  using assms(1)
proof cases
  case (step_RxStun n past l r m)
  then show ?thesis using processStunMessage_idle assms(3) by blast
next
  case (step_OnecheckReceive k)
  moreover have "Mapping.lookup (checkMap s) k = None"
    using assms(3) by (simp add: idle_def Mapping.is_empty_def keys_dom_lookup)
  ultimately show ?thesis using assms(3) by (simp add: onecheck_receive_def)
next
  case (step_OnecheckEnd req)
  then show ?thesis using assms(3) by (simp add: onecheck_end_def deleteMsgCheck_def idle_def)
qed (use assms idle_no_checks in auto)

section \<open>The invariant\<close>

definition reports :: "session \<Rightarrow> effect list" where
  "reports s = filter is_notification (out s)"

lemma reports_length: "length (reports s) = notifications s"
  by (simp add: reports_def notifications_def)

lemma idle_reports: "idle s \<Longrightarrow> reports s = []"
proof -
  have "\<not> is_notification e" if "is_answer e" for e using that by (cases e) simp_all
  then show "idle s \<Longrightarrow> reports s = []" by (auto simp: reports_def idle_def list_all_iff filter_empty_conv)
qed

definition told :: "StreamTransport \<Rightarrow> (go_error option) list" where
  "told t = List.map_filter (\<lambda>c. case c of CbOnIceComplete r \<Rightarrow> Some r | _ \<Rightarrow> None) (tr_out t)"

text \<open>The state of the transport is the report of its session, and the application was told at most once.\<close>

definition transport_inv :: "StreamTransport \<Rightarrow> bool" where
  "transport_inv t \<longleftrightarrow>
     (case tr_session t of
        None \<Rightarrow> tr_State t = TransportStateReady \<and> told t = []
      | Some s \<Rightarrow>
          session_inv s \<and> (told t = [] \<or> map OnIceComplete (told t) = reports s) \<and>
          (case tr_State t of
             TransportStateReady \<Rightarrow> idle s
           | TransportStateSessionReady \<Rightarrow> idle s
           | TransportStateNegotiation \<Rightarrow> reports s = []
           | TransportStateRunning \<Rightarrow> reports s = [OnIceComplete None]
           | TransportStateFailed \<Rightarrow> (\<exists>e. reports s = [OnIceComplete (Some e)])
           | TransportStateStopped \<Rightarrow> False))"

lemma notify_all_filter: "notify_all es t = notify_all (filter is_notification es) t"
proof (induction es arbitrary: t)
  case (Cons e es)
  have "notify_all es = notify_all (filter is_notification es)" using Cons by blast
  then show ?case by (cases e) simp_all
qed simp

lemma take_session_inv:
  assumes "session_inv s'" "prefix (out s) (out s')" "transport_inv (t\<lparr>tr_session := Some s\<rparr>)"
    and st: "tr_State t = TransportStateNegotiation \<or> tr_State t = TransportStateRunning \<or> tr_State t = TransportStateFailed"
  shows "\<exists>t'. take_session s s' t = Ret t' \<and> transport_inv t' \<and>
    (reports s \<noteq> [] \<longrightarrow> tr_State t' = tr_State t)"
proof -
  obtain es where out: "out s' = out s @ es" using assms(2) by (auto simp: prefix_def)
  define new where "new = filter is_notification es"
  have take: "take_session s s' t = notify_all new (t\<lparr>tr_session := Some s'\<rparr>)"
    unfolding take_session_def new_def using notify_all_filter [of es] by (simp add: out)
  have rep: "reports s' = reports s @ new" by (simp add: reports_def out new_def)
  then have len: "length (reports s) + length new \<le> 1"
    using session_inv_notifications [OF assms(1)] reports_length [of s'] by simp
  show ?thesis
  proof (cases new)
    case Nil
    then show ?thesis using take rep assms(1,3) st by (auto simp: transport_inv_def told_def)
  next
    case (Cons e rest)
    then have one: "new = [e]" "reports s = []" using len by auto
    then obtain r where e: "e = OnIceComplete r"
      using new_def by (cases e) (auto simp: filter_eq_Cons_iff)
    have "tr_State t = TransportStateNegotiation" "told t = []"
      using st assms(3) one(2) by (auto simp: transport_inv_def told_def)
    then show ?thesis
      using take rep one e assms(1)
      by (cases r) (auto simp: transport_inv_def told_def StreamTransport_onIceComplete_def List.map_filter_def)
  qed
qed

lemma quiet_told:
  "told (StreamTransport_onRxData d a t) = told t" "told (StreamTransport_SetCallBack b t) = told t"
  "told (t\<lparr>tr_State := st\<rparr>) = told t" "told (t\<lparr>tr_session := ss\<rparr>) = told t"
  by (simp_all add: told_def StreamTransport_onRxData_def StreamTransport_SetCallBack_def List.map_filter_def)

lemma transport_inv_cong:
  "tr_session t = tr_session t' \<Longrightarrow> tr_State t = tr_State t' \<Longrightarrow> told t = told t' \<Longrightarrow> transport_inv t = transport_inv t'"
  by (simp only: transport_inv_def)

lemma quiet_sel [simp]:
  "tr_session (StreamTransport_onRxData d a t) = tr_session t" "tr_State (StreamTransport_onRxData d a t) = tr_State t"
  "tr_session (StreamTransport_SetCallBack b t) = tr_session t" "tr_State (StreamTransport_SetCallBack b t) = tr_State t"
  by (simp_all add: StreamTransport_onRxData_def StreamTransport_SetCallBack_def)

lemma onRxData_inv: "transport_inv (StreamTransport_onRxData d a t) = transport_inv t"
  by (rule transport_inv_cong) (simp_all add: quiet_told)

lemma SetCallBack_inv: "transport_inv (StreamTransport_SetCallBack b t) = transport_inv t"
  by (rule transport_inv_cong) (simp_all add: quiet_told)

lemma same_session_inv: "tr_session t = Some s \<Longrightarrow> transport_inv (t\<lparr>tr_session := Some s\<rparr>) = transport_inv t"
  by (rule transport_inv_cong) (simp_all add: quiet_told)

lemma listen_all_frame: "listen_all l i as s = (e, s') \<Longrightarrow> \<exists>m. s' = s\<lparr>serverSocks := m\<rparr>"
proof (induction as arbitrary: i s)
  case (Cons a as)
  show ?case
  proof (cases "l a")
    case None
    then show ?thesis using Cons by fastforce
  next
    case (Some x)
    then show ?thesis using Cons.prems by (auto intro: exI [of _ "serverSocks s"])
  qed
next
  case Nil
  then show ?case by (intro exI [of _ "serverSocks s"]) simp
qed

lemma StartServer_frame:
  assumes "session_StartServer listen relay addrs order s = Ret (e, s')"
  shows "\<exists>m k cl. s' = s\<lparr>serverSocks := m, turnServerSock := k, out := out s @ map CloseSock cl\<rparr>"
proof -
  define res where "res =
    (if relay then
       (case listen (addrs ! 0) of
          Some e \<Rightarrow> (Some e, s\<lparr>turnServerSock := Some 0\<rparr>)
        | None \<Rightarrow> listen_all listen 1 (tl addrs)
                    (s\<lparr>turnServerSock := Some 0, serverSocks := (serverSocks s)(addrs ! 0 \<mapsto> 0)\<rparr>))
     else listen_all listen 0 addrs s)"
  obtain x u where u: "res = (x, u)" by fastforce
  have s': "s' = u \<or> s' = close_socks order u"
    using assms u unfolding session_StartServer_def res_def [symmetric] by (auto split: if_splits)
  have "\<exists>m k. u = s\<lparr>serverSocks := m, turnServerSock := k\<rparr>"
  proof (cases relay)
    case True
    show ?thesis
    proof (cases "listen (addrs ! 0)")
      case None
      then obtain m where "u = s\<lparr>turnServerSock := Some 0, serverSocks := m\<rparr>"
        using listen_all_frame [of listen 1 "tl addrs"] u True by (fastforce simp: res_def)
      then show ?thesis by (intro exI [of _ m] exI [of _ "Some 0"]) simp
    next
      case (Some y)
      then show ?thesis
        using u True by (intro exI [of _ "serverSocks s"] exI [of _ "Some 0"]) (simp add: res_def)
    qed
  next
    case False
    then obtain m where "u = s\<lparr>serverSocks := m\<rparr>" using listen_all_frame u by (fastforce simp: res_def)
    then show ?thesis by (intro exI [of _ m] exI [of _ "turnServerSock s"]) simp
  qed
  then obtain m k where m: "u = s\<lparr>serverSocks := m, turnServerSock := k\<rparr>" by blast
  from s' show ?thesis
  proof
    assume "s' = u"
    then show ?thesis using m by (intro exI [of _ m] exI [of _ k] exI [of _ "[]"]) simp
  next
    assume "s' = close_socks order u"
    then show ?thesis
      using m
      by (intro exI [of _ m] exI [of _ k] exI [of _ "map (\<lambda>a. the (serverSocks u a)) (filter (\<lambda>a. serverSocks u a \<noteq> None) order)"])
        (simp add: close_socks_def comp_def)
  qed
qed

lemma InitIce_inv:
  assumes "StreamTransport_InitIce frag pwd tie listen addrs order r t = Ret (e, t')"
    and "tr_session t = None" "transport_inv t"
  shows "transport_inv t'"
proof -
  let ?s = "newIceSession r (tc_candidates (tr_component t)) frag pwd tie"
  obtain s where s: "session_StartServer listen (tr_transporter t = TurnSock) addrs order ?s = Ret (e, s)"
    and t': "t' = t\<lparr>tr_session := Some s\<rparr> \<or> t' = t\<lparr>tr_session := Some s, tr_State := TransportStateSessionReady\<rparr>"
    using assms(1) by (auto simp: StreamTransport_InitIce_def go_map_Ret split: if_splits)
  obtain m k cl where s': "s = ?s\<lparr>serverSocks := m, turnServerSock := k, out := out ?s @ map CloseSock cl\<rparr>"
    using StartServer_frame [OF s] by blast
  have "idle s" unfolding s' by (simp add: idle_def newIceSession_def list_all_iff Mapping.is_empty_empty)
  moreover have "advances ?s s" by (rule out_append_advances [of "map CloseSock cl"]) (auto simp: s' view_def)
  then have "session_inv s" using newIceSession_inv by (simp add: advances_def)
  ultimately show ?thesis using t' assms(2,3) by (auto simp: transport_inv_def quiet_told)
qed

lemma append_checks_out: "out (append_checks ps s) = out s"
  by (induction ps arbitrary: s) (auto simp: new_check_def Let_def)

lemma createCheckList_out: "createCheckList sd s = (e, s') \<Longrightarrow> out s' = out s"
  using append_remotes_advances
  by (auto simp: createCheckList_def Let_def pruneCheckList_def append_checks_out split: if_splits)

lemma StartNegotiation_inv:
  assumes "StreamTransport_StartNegotiation n reply sdp t = Ret (e, t')" and "transport_inv t"
  shows "transport_inv t'"
proof (cases "tr_session t \<noteq> None \<and> tr_State t = TransportStateSessionReady")
  case True
  then obtain s where s: "tr_session t = Some s" "tr_State t = TransportStateSessionReady" by auto
  then have i: "session_inv s" "idle s" "told t = []" using assms(2) idle_reports by (auto simp: transport_inv_def)
  let ?t = "t\<lparr>tr_State := TransportStateNegotiation\<rparr>"
  have start: "transport_inv (?t\<lparr>tr_session := Some u\<rparr>)" if "session_inv u" "out u = out s" for u
    using that i idle_reports [of s] by (simp add: transport_inv_def quiet_told reports_def)
  show ?thesis
  proof (cases "decodeSession sdp")
    case (Inl e)
    then have "t' = ?t" using assms(1) s by (simp add: StreamTransport_StartNegotiation_def)
    then show ?thesis using start [OF i(1) refl] same_session_inv [of ?t s] s(1) by simp
  next
    case (Inr sd)
    obtain e1 s1 where s1: "createCheckList sd s = (e1, s1)" by fastforce
    have "session_inv s1" using createCheckList_advances [OF s1] i by (simp add: idle_def advances_def)
    note t1 = start [OF this createCheckList_out [OF s1]]
    consider (early) "t' = ?t\<lparr>tr_session := Some s1\<rparr>"
      | (check) e2 s2 where "startCheck n s1 = Ret (e2, s2)" "take_session s1 s2 ?t = Ret t'"
      using assms(1) s Inr s1
      by (auto simp: StreamTransport_StartNegotiation_def Let_def go_bind_Ret_iff go_map_Ret split: option.splits)
    then show ?thesis
    proof cases
      case (check e2 s2)
      then have "session_inv s2" "prefix (out s1) (out s2)"
        using startCheck_advances \<open>session_inv s1\<close> by (auto simp: advances_def grows_def)
      then show ?thesis using take_session_inv [of s2 s1 ?t] t1 check(2) by auto
    qed (use t1 in simp)
  qed
next
  case False
  then show ?thesis using assms by (auto simp: StreamTransport_StartNegotiation_def split: option.splits if_splits)
qed

text \<open>Every event of the session finds a transport that takes what the session reports.\<close>

lemma session_event_taken:
  assumes "transport_inv t" "tr_session t = Some s" "own_event ev" "session_step s ev s'"
  shows "\<exists>t'. take_session s s' t = Ret t' \<and> transport_inv t' \<and> (reports s \<noteq> [] \<longrightarrow> tr_State t' = tr_State t)"
proof -
  have s: "session_inv s" using assms(1,2) by (simp add: transport_inv_def)
  then have s': "session_inv s'" "prefix (out s) (out s')"
    using session_step_advances [OF assms(4)] by (auto simp: advances_def grows_def)
  show ?thesis
  proof (cases "idle s")
    case True
    then have "idle s'" using own_event_idle assms(3,4) by blast
    have "reports s' = []" "reports s = []" using idle_reports \<open>idle s'\<close> True by auto
    then have "filter is_notification (drop (length (out s)) (out s')) = []"
      using s'(2) by (auto simp: reports_def prefix_def)
    then have "take_session s s' t = Ret (t\<lparr>tr_session := Some s'\<rparr>)"
      using notify_all_filter [of "drop (length (out s)) (out s')"] by (simp add: take_session_def)
    moreover have "transport_inv (t\<lparr>tr_session := Some s'\<rparr>)"
      using assms(1,2) s'(1) \<open>idle s'\<close> \<open>reports s' = []\<close> \<open>reports s = []\<close>
      by (auto simp: transport_inv_def quiet_told split: transportState.splits)
    ultimately show ?thesis by simp
  next
    case False
    then have "tr_State t = TransportStateNegotiation \<or> tr_State t = TransportStateRunning \<or> tr_State t = TransportStateFailed"
      using assms(1,2) by (auto simp: transport_inv_def split: transportState.splits)
    then show ?thesis using take_session_inv [OF s'] assms(1,2) same_session_inv by blast
  qed
qed

interpretation life: machine transport_step transport_inv
proof
  fix t l t'
  assume "transport_step t l t'" "transport_inv t"
  then show "transport_inv t'"
  proof (cases rule: transport_step.cases)
    case (life_Session s ev s')
    then show ?thesis using session_event_taken \<open>transport_inv t\<close> by fastforce
  qed (auto simp: onRxData_inv SetCallBack_inv intro: InitIce_inv StartNegotiation_inv)
qed

lemma NewIceStreamTransport_inv: "NewIceStreamTransport op ga cfg = Ret (e, t) \<Longrightarrow> transport_inv t"
  by (auto simp: NewIceStreamTransport_def Let_def go_map_Ret transport_inv_def told_def List.map_filter_def
      split: if_splits option.splits prod.splits)

lemma told_once: "transport_inv t \<Longrightarrow> length (told t) \<le> 1"
  using session_inv_notifications reports_length
  by (auto simp: transport_inv_def split: option.splits) (metis length_map)

lemma take_session_session:
  assumes "take_session s s' t = Ret t'" shows "tr_session t' = Some s'"
proof -
  have "notify_all es u = Ret u' \<Longrightarrow> tr_session u' = tr_session u" for es u u'
  proof (induction es u rule: notify_all.induct)
    case (2 r es u)
    then show ?case by (auto simp: go_bind_Ret_iff StreamTransport_onIceComplete_def split: if_splits)
  qed simp_all
  from this [OF assms [unfolded take_session_def]] show ?thesis by simp
qed

lemma running_iff:
  "transport_inv t \<Longrightarrow> tr_session t = Some s \<Longrightarrow> tr_State t = TransportStateRunning \<longleftrightarrow> reports s = [OnIceComplete None]"
  using idle_reports [of s] by (auto simp: transport_inv_def split: transportState.splits)

section \<open>Stopping\<close>

lemma session_Stop_again: "session_Stop order s = Ret s' \<Longrightarrow> session_Stop order' s' = Panic CloseOfClosedChannel"
  by (auto simp: session_Stop_def Let_def split: if_splits)

lemma Stop_again:
  assumes "tr_session t = Some s" and "StreamTransport_Stop order t = Ret t'" and "tr_State t \<noteq> TransportStateStopped"
  shows "StreamTransport_Stop order' t' = Panic CloseOfClosedChannel"
  using assms session_Stop_again by (auto simp: StreamTransport_Stop_def Let_def go_map_Ret)

lemma completion_after_Stop:
  assumes "tr_State t = TransportStateFailed" and "drop (length (out s)) (out s') = es" and "list_ex is_notification es"
  shows "take_session s s' t = Panic (ExplicitPanic ''only finish once'')"
proof -
  obtain r rest where "filter is_notification es = OnIceComplete r # rest"
    using assms(3) by (cases "filter is_notification es")
      (auto simp: list_ex_iff filter_empty_conv filter_eq_Cons_iff elim: is_notification.elims)
  then show ?thesis
    using notify_all_filter [of es] assms(1,2) by (simp add: take_session_def StreamTransport_onIceComplete_def)
qed

end
