(* ===== verification/Stun_Build.thy ===== *)
theory Stun_Build
  imports Stun_Text Stun_Auth Turn_Attrs Ice_Attr
begin

text \<open>
  \<open>Message.Build\<close> of \<^verbatim>\<open>src/stun/helpers.go\<close> against a specification: the datatype \<open>attribute\<close> has
  one constructor for every type of the packages \<^verbatim>\<open>stun\<close>, \<^verbatim>\<open>turn\<close> and \<^verbatim>\<open>ice/attr\<close> whose \<open>AddTo\<close> adds an
  attribute (\<open>ChannelData\<close> replaces the message and is not one), for values of any kind: those the
  setters refuse, and those they panic on, are in it too.

  \<open>written\<close> says what an attribute contributes to a message, given the attributes in front of
  it (MESSAGE-INTEGRITY and FINGERPRINT depend on them), or how its setter fails;
  \<open>build_spec\<close> adds them up to the first failure. The setters implement \<open>written\<close>, and
  \<open>Build\<close> implements \<open>build_spec\<close>.
\<close>

section \<open>Attributes and their setters\<close>

datatype attribute =
    AMappedAddress MappedAddress
  | AAlternateServer AlternateServer
  | AXORMappedAddress XORMappedAddress
  | AUsername bytes
  | ARealm bytes
  | ASoftware bytes
  | ANonce bytes
  | AUnknownAttributes "AttrType list"
  | AErrorCodeAttribute ErrorCodeAttribute
  | AErrorCode int
  | AMessageIntegrity MessageIntegrity
  | AFingerprint
  | APeerAddress PeerAddress
  | ARelayedAddress RelayedAddress
  | AData bytes
  | ADontFragment
  | AEvenPort EvenPort
  | ALifetime int
  | AChannelNumber int
  | ARequestedTransport RequestedTransport
  | AReservationToken bytes
  | APriority u32
  | AIceControlled u64
  | AIceControlling u64
  | AUseCandidate

fun AddTo_of :: "attribute \<Rightarrow> Setter" where
  "AddTo_of (AMappedAddress a) = MappedAddress_AddTo a"
| "AddTo_of (AAlternateServer a) = AlternateServer_AddTo a"
| "AddTo_of (AXORMappedAddress a) = XORMappedAddress_AddTo a"
| "AddTo_of (AUsername u) = Username_AddTo u"
| "AddTo_of (ARealm n) = Realm_AddTo n"
| "AddTo_of (ASoftware s) = Software_AddTo s"
| "AddTo_of (ANonce n) = Nonce_AddTo n"
| "AddTo_of (AUnknownAttributes a) = UnknownAttributes_AddTo a"
| "AddTo_of (AErrorCodeAttribute c) = ErrorCodeAttribute_AddTo c"
| "AddTo_of (AErrorCode c) = ErrorCode_AddTo c"
| "AddTo_of (AMessageIntegrity i) = MessageIntegrity_AddTo i"
| "AddTo_of AFingerprint = Fingerprint_AddTo"
| "AddTo_of (APeerAddress a) = PeerAddress_AddTo a"
| "AddTo_of (ARelayedAddress a) = RelayedAddress_AddTo a"
| "AddTo_of (AData d) = Data_AddTo d"
| "AddTo_of ADontFragment = DontFragmentAttr_AddTo"
| "AddTo_of (AEvenPort p) = EvenPort_AddTo p"
| "AddTo_of (ALifetime l) = Lifetime_AddTo l"
| "AddTo_of (AChannelNumber n) = ChannelNumber_AddTo n"
| "AddTo_of (ARequestedTransport t) = RequestedTransport_AddTo t"
| "AddTo_of (AReservationToken t) = ReservationToken_AddTo t"
| "AddTo_of (APriority n) = Priority_AddTo n"
| "AddTo_of (AIceControlled n) = IceControlled_AddTo n"
| "AddTo_of (AIceControlling n) = IceControlling_AddTo n"
| "AddTo_of AUseCandidate = UseCandidate_AddTo"

section \<open>What an attribute writes\<close>

type_synonym outcome = "(go_error + RawAttribute) go"

abbreviation attr_ok :: "AttrType \<Rightarrow> bytes \<Rightarrow> outcome" where
  "attr_ok t v \<equiv> Ret (Inr (mk_attr t v))"

definition written_text :: "AttrType \<Rightarrow> nat \<Rightarrow> bytes \<Rightarrow> outcome" where
  "written_text t mx v =
     (if mx < length v then Ret (Inl (AttrOverflowErr t (int mx) (int (length v)))) else attr_ok t v)"

definition written_address :: "AttrType \<Rightarrow> (MappedAddress \<Rightarrow> bytes) \<Rightarrow> MappedAddress \<Rightarrow> outcome" where
  "written_address t enc a =
     (if length (addr_IP a) = 4 \<or> length (addr_IP a) = 16 then attr_ok t (enc a) else Ret (Inl ErrBadIPLength))"

text \<open>A reason of 760 to 763 bytes passes the check of the encoder and overruns its buffer.\<close>

definition written_error :: "int \<Rightarrow> bytes \<Rightarrow> outcome" where
  "written_error c reason =
     (if 763 < length reason then Ret (Inl (AttrOverflowErr AttrErrorCode 767 (int (length reason + 4))))
      else if 759 < length reason then Panic SliceOutOfRange
      else attr_ok AttrErrorCode ([0, 0, of_int (go_quot c 100), of_int (go_rem c 100)] @ reason))"

text \<open>The message so far, as MESSAGE-INTEGRITY and FINGERPRINT see it: its length counts \<open>k\<close> bytes more.\<close>

definition digested :: "MessageType \<Rightarrow> TransactionID \<Rightarrow> RawAttribute list \<Rightarrow> nat \<Rightarrow> bytes" where
  "digested t tid as k = enc_header t (of_nat (length (enc_attrs as) + k)) tid @ enc_attrs as"

fun written :: "MessageType \<Rightarrow> TransactionID \<Rightarrow> RawAttribute list \<Rightarrow> attribute \<Rightarrow> outcome" where
  "written t tid as (AMappedAddress a) = written_address AttrMappedAddress mapped_encode a"
| "written t tid as (AAlternateServer a) = written_address AttrAlternateServer mapped_encode a"
| "written t tid as (AXORMappedAddress a) = written_address AttrXORMappedAddress (xor_encode tid) a"
| "written t tid as (AUsername v) = written_text AttrUsername 513 v"
| "written t tid as (ARealm v) = written_text AttrRealm 763 v"
| "written t tid as (ASoftware v) = written_text AttrSoftware 763 v"
| "written t tid as (ANonce v) = written_text AttrNonce 763 v"
| "written t tid as (AUnknownAttributes us) = attr_ok AttrUnknownAttributes (unknown_encode us)"
| "written t tid as (AErrorCodeAttribute c) = written_error (ec_Code c) (ec_Reason c)"
| "written t tid as (AErrorCode c) =
     (case errorReasons c of None \<Rightarrow> Ret (Inl ErrNoDefaultReason) | Some reason \<Rightarrow> written_error c reason)"
| "written t tid as (AMessageIntegrity key) =
     (if \<exists>a\<in>set as. attr_Type a = AttrFingerprint then Ret (Inl ErrFingerprintBeforeIntegrity)
      else attr_ok AttrMessageIntegrity (newHMAC key (digested t tid as 24)))"
| "written t tid as AFingerprint = attr_ok AttrFingerprint (put_u32 (FingerprintValue (digested t tid as 8)))"
| "written t tid as (APeerAddress a) = written_address AttrXORPeerAddress (xor_encode tid) a"
| "written t tid as (ARelayedAddress a) = written_address AttrXORRelayedAddress (xor_encode tid) a"
| "written t tid as (AData d) = attr_ok AttrData d"
| "written t tid as ADontFragment = attr_ok AttrDontFragment []"
| "written t tid as (AEvenPort p) = attr_ok AttrEvenPort (even_port_encode p)"
| "written t tid as (ALifetime l) = attr_ok AttrLifetime (put_u32 (lifetime_seconds l))"
| "written t tid as (AChannelNumber n) = attr_ok AttrChannelNumber (channel_number_encode n)"
| "written t tid as (ARequestedTransport p) = attr_ok AttrRequestedTransport [rt_Protocol p, 0, 0, 0]"
| "written t tid as (AReservationToken v) =
     (if length v = 8 then attr_ok AttrReservationToken v
      else Ret (Inl (BadAttrLength AttrReservationToken (int (length v)) 8)))"
| "written t tid as (APriority n) = attr_ok AttrPriority (put_u32 n)"
| "written t tid as (AIceControlled n) = attr_ok AttrICEControlled (put_u64 n)"
| "written t tid as (AIceControlling n) = attr_ok AttrICEControlling (put_u64 n)"
| "written t tid as AUseCandidate = attr_ok AttrUseCandidate []"

text \<open>The attributes written up to the end or the first failure, and the outcome.\<close>

fun build_spec ::
  "MessageType \<Rightarrow> TransactionID \<Rightarrow> RawAttribute list \<Rightarrow> attribute list \<Rightarrow> RawAttribute list \<times> go_error option go" where
  "build_spec t tid as [] = (as, Ret None)"
| "build_spec t tid as (x # xs) = (case written t tid as x of
      Panic p \<Rightarrow> (as, Panic p)
    | Ret (Inl e) \<Rightarrow> (as, Ret (Some e))
    | Ret (Inr a) \<Rightarrow> build_spec t tid (as @ [a]) xs)"

section \<open>The setters write what they should\<close>

text \<open>The result \<open>r\<close> of a setter on \<open>m\<close>, against what it should write.\<close>

definition realizes :: "(go_error option \<times> Message) go \<Rightarrow> Message \<Rightarrow> outcome \<Rightarrow> bool" where
  "realizes r m w \<longleftrightarrow> (case w of
      Panic p \<Rightarrow> r = Panic p
    | Ret (Inl e) \<Rightarrow> r = Ret (Some e, m)
    | Ret (Inr a) \<Rightarrow> length (enc_attrs (msg_Attributes m @ [a])) < 65536 \<longrightarrow>
        (\<exists>m'. r = Ret (None, m') \<and> msg_wf m' \<and> msg_Type m' = msg_Type m \<and>
          msg_TransactionID m' = msg_TransactionID m \<and> msg_Attributes m' = msg_Attributes m @ [a]))"

lemma realizes_fail [simp]: "realizes (Ret (Some e, m)) m (Ret (Inl e))" "realizes (Panic p) m (Panic p)"
  by (simp_all add: realizes_def)

lemma fits_enc_attrs:
  assumes "msg_wf m" and "length (enc_attrs (msg_Attributes m @ [mk_attr t v])) < 65536"
  shows "fits m (length v)"
  using assms by (simp add: fits_def msg_wf_def size_defs)

lemma realizes_add:
  assumes "msg_wf m"
  shows "realizes (add_ok (Message_Add m t v)) m (attr_ok t v)"
  using Message_Add_wf [OF assms fits_enc_attrs [OF assms, of t v], of t] by (fastforce simp: realizes_def add_ok_def)

lemma realizes_text:
  assumes "msg_wf m" and "0 < mx"
  shows "realizes (TextAttribute_AddToAs v t (int mx) m) m (written_text t mx v)"
  using assms realizes_add by (simp add: TextAttribute_AddToAs_def written_text_def)

lemma addr_family_bad: "\<not> valid_addr a \<Longrightarrow> addr_family (addr_IP a) = Inl ErrBadIPLength"
  by (simp add: valid_addr_def addr_family_def)

lemma valid_addr_lengths: "valid_addr a \<longleftrightarrow> length (addr_IP a) = 4 \<or> length (addr_IP a) = 16"
  by (simp add: valid_addr_def IPv4len_def IPv6len_def)

lemma realizes_address:
  assumes "msg_wf m"
  shows "realizes (MappedAddress_addAs a t m) m (written_address t mapped_encode a)"
    and "realizes (XORMappedAddress_AddToAs a t m) m (written_address t (xor_encode (msg_TransactionID m)) a)"
proof -
  have w: "written_address t enc a = (if valid_addr a then attr_ok t (enc a) else Ret (Inl ErrBadIPLength))" for enc
    by (simp add: written_address_def valid_addr_lengths)
  have bad: "MappedAddress_addAs a t m = Ret (Some ErrBadIPLength, m)"
      "XORMappedAddress_AddToAs a t m = Ret (Some ErrBadIPLength, m)" if "\<not> valid_addr a"
    using addr_family_bad [OF that] by (simp_all add: MappedAddress_addAs_def XORMappedAddress_AddToAs_def)
  show "realizes (MappedAddress_addAs a t m) m (written_address t mapped_encode a)"
    using realizes_add [OF assms, of t "mapped_encode a"] bad(1)
    by (cases "valid_addr a") (simp_all only: w MappedAddress_addAs_eq if_True if_False realizes_fail not_False_eq_True)
  show "realizes (XORMappedAddress_AddToAs a t m) m (written_address t (xor_encode (msg_TransactionID m)) a)"
    using realizes_add [OF assms, of t "xor_encode (msg_TransactionID m) a"] bad(2)
    by (cases "valid_addr a") (simp_all only: w XORMappedAddress_AddToAs_eq if_True if_False realizes_fail not_False_eq_True)
qed

lemma realizes_error:
  assumes "msg_wf m"
  shows "realizes (ErrorCodeAttribute_AddTo c m) m (written_error (ec_Code c) (ec_Reason c))"
proof -
  have "replicate (4 + length (ec_Reason c)) (0::byte) = [0, 0, 0, 0] @ replicate (length (ec_Reason c)) 0"
    by (simp add: numeral_eq_Suc)
  then show ?thesis
    using realizes_add [OF assms] by (simp add: ErrorCodeAttribute_AddTo_def written_error_def error_code_defs Let_def)
qed

lemma realizes_integrity:
  assumes "msg_wf m"
  shows "realizes (MessageIntegrity_AddTo i m) m
    (written (msg_Type m) (msg_TransactionID m) (msg_Attributes m) (AMessageIntegrity i))"
proof (cases "has_fingerprint (msg_Attributes m)")
  case True
  then show ?thesis by (simp add: MessageIntegrity_AddTo_def flip: has_fingerprint_iff)
next
  case False
  let ?v = "newHMAC i (digested (msg_Type m) (msg_TransactionID m) (msg_Attributes m) 24)"
  have v: "?v = newHMAC i (signed_prefix m (msg_Attributes m) 24)" by (simp add: digested_def signed_prefix_def)
  have "fits m messageIntegritySize" if "length (enc_attrs (msg_Attributes m @ [mk_attr AttrMessageIntegrity ?v])) < 65536"
    using fits_enc_attrs [OF assms that] by (simp add: newHMAC_def messageIntegritySize_def)
  then show ?thesis
    using False MessageIntegrity_AddTo_eq [OF assms, of i] v
    by (fastforce simp: realizes_def simp flip: has_fingerprint_iff)
qed

lemma realizes_fingerprint:
  assumes "msg_wf m"
  shows "realizes (Fingerprint_AddTo m) m (written (msg_Type m) (msg_TransactionID m) (msg_Attributes m) AFingerprint)"
proof -
  let ?v = "put_u32 (FingerprintValue (digested (msg_Type m) (msg_TransactionID m) (msg_Attributes m) 8))"
  have v: "?v = put_u32 (FingerprintValue (signed_prefix m (msg_Attributes m) 8))" by (simp add: digested_def signed_prefix_def)
  have "fits m fingerprintSize" if "length (enc_attrs (msg_Attributes m @ [mk_attr AttrFingerprint ?v])) < 65536"
    using fits_enc_attrs [OF assms that] by (simp add: fingerprintSize_def)
  then show ?thesis using Fingerprint_AddTo_eq [OF assms] v by (fastforce simp: realizes_def)
qed

lemmas attribute_setters = MappedAddress_AddTo_def AlternateServer_AddTo_def XORMappedAddress_AddTo_def
  PeerAddress_AddTo_def RelayedAddress_AddTo_def Username_AddTo_def Realm_AddTo_def Software_AddTo_def
  Nonce_AddTo_def maxUsernameB_def maxRealmB_def softwareRawMaxB_def maxNonceB_def
  DontFragmentAttr_AddTo_def UseCandidate_AddTo_def ReservationToken_AddTo_def reservationTokenSize_def
  unknown_attrs.AddTo_encode turn_data.AddTo_encode even_port.AddTo_encode Lifetime_AddTo_eq
  channel_number.AddTo_encode requested_transport.AddTo_encode priority.AddTo_encode
  ice_controlled.AddTo_encode ice_controlling.AddTo_encode

lemma realizes_AddTo_of:
  assumes "msg_wf m"
  shows "realizes (AddTo_of x m) m (written (msg_Type m) (msg_TransactionID m) (msg_Attributes m) x)"
proof (cases x)
  case (AErrorCode c)
  then show ?thesis
    using realizes_error [OF assms, of "\<lparr>ec_Code = c, ec_Reason = r\<rparr>" for r]
    by (auto simp: ErrorCode_AddTo_def split: option.splits)
qed (use realizes_text [OF assms, of 513] realizes_text [OF assms, of 763] in
    \<open>simp_all add: attribute_setters assms realizes_add realizes_address realizes_error
       realizes_integrity realizes_fingerprint del: written.simps(11,12)\<close>)

section \<open>Build implements its specification\<close>

lemma build_spec_extends: "\<exists>bs. fst (build_spec t tid as xs) = as @ bs"
proof (induction xs arbitrary: as)
  case (Cons x xs)
  have "\<exists>bs. fst (build_spec t tid (as @ [a]) xs) = as @ bs" for a
    using Cons [of "as @ [a]"] by auto
  then show ?case by (auto split: go.splits sum.splits)
qed simp

lemma run_setters_spec:
  assumes "msg_wf m" and "build_spec (msg_Type m) (msg_TransactionID m) (msg_Attributes m) xs = (as, r)"
    and "length (enc_attrs as) < 65536"
  shows "\<exists>m'. run_setters (map AddTo_of xs) m = go_map (\<lambda>e. (e, m')) r \<and> msg_wf m' \<and> msg_Type m' = msg_Type m \<and>
    msg_TransactionID m' = msg_TransactionID m \<and> msg_Attributes m' = as"
  using assms
proof (induction xs arbitrary: m)
  case (Cons x xs)
  let ?w = "written (msg_Type m) (msg_TransactionID m) (msg_Attributes m) x"
  have x: "realizes (AddTo_of x m) m ?w" by (rule realizes_AddTo_of [OF Cons.prems(1)])
  consider p where "?w = Panic p" | e where "?w = Ret (Inl e)" | a where "?w = Ret (Inr a)"
    by (metis go.exhaust sum.exhaust)
  then show ?case
  proof cases
    case 3
    have rest: "build_spec (msg_Type m) (msg_TransactionID m) (msg_Attributes m @ [a]) xs = (as, r)"
      using Cons.prems(2) 3 by simp
    then obtain bs where "as = (msg_Attributes m @ [a]) @ bs"
      using build_spec_extends [of "msg_Type m" "msg_TransactionID m" "msg_Attributes m @ [a]" xs] by auto
    then have "length (enc_attrs (msg_Attributes m @ [a])) < 65536" using Cons.prems(3) by simp
    then obtain m1 where m1: "AddTo_of x m = Ret (None, m1)" "msg_wf m1" "msg_Type m1 = msg_Type m"
        "msg_TransactionID m1 = msg_TransactionID m" "msg_Attributes m1 = msg_Attributes m @ [a]"
      using x 3 by (auto simp: realizes_def)
    then show ?thesis using Cons.IH [OF m1(2) _ Cons.prems(3)] rest by auto
  qed (use x Cons.prems in \<open>auto simp: realizes_def\<close>)
qed auto

theorem Message_Build_spec:
  assumes "length (msg_TransactionID m) = TransactionIDSize" and "length tid = TransactionIDSize"
    and "build_spec t tid [] xs = (as, r)" and "length (enc_attrs as) < 65536"
  shows "\<exists>m'. Message_Build (MessageType_AddTo t # transactionIDValueSetter_AddTo tid # map AddTo_of xs) m =
      go_map (\<lambda>e. (e, m')) r \<and> msg_wf m' \<and> msg_Type m' = t \<and> msg_TransactionID m' = tid \<and> msg_Attributes m' = as"
proof -
  obtain m3 where m3: "Message_Build [MessageType_AddTo t, transactionIDValueSetter_AddTo tid] m = Ret (None, m3)" "msg_wf m3"
      "msg_Type m3 = t" "msg_TransactionID m3 = tid" "msg_Attributes m3 = []"
    using Message_Build_adds [of "[]", OF _ assms(1,2)] by (auto simp: adding_attrs_def)
  have "run_setters (ss @ ss') m = go_bind (run_setters ss m) (\<lambda>(e, m). if e = None then run_setters ss' m else Ret (e, m))"
    for ss ss' m
    by (induction ss arbitrary: m) (auto simp: go_bind_assoc intro!: arg_cong2 [of _ _ _ _ go_bind])
  from this [of "[MessageType_AddTo t, transactionIDValueSetter_AddTo tid]" "map AddTo_of xs"]
  have "Message_Build (MessageType_AddTo t # transactionIDValueSetter_AddTo tid # map AddTo_of xs) m =
      run_setters (map AddTo_of xs) m3"
    using m3(1) by (auto simp: Message_Build_def go_bind_Ret_iff)
  then show ?thesis using run_setters_spec [OF m3(2) _ assms(4), of xs] m3(3-5) assms(3) by auto
qed

end
