(* ===== verification/Sdp_Fields.thy ===== *)
theory Sdp_Fields
  imports Sdp_Session Go_Time
begin

text \<open>
  The fields of a session description and their text: \<^verbatim>\<open>src/sdp/fields.go\<close>. Every \<open>Add\<close>
  method of \<open>Session\<close> appends one line; the helpers append the text of a number, an address,
  an interval. A nil \<open>net.IP\<close> is the empty list.
\<close>

section \<open>Numbers, strings, addresses\<close>

definition appendSpace :: "string \<Rightarrow> string" where
  "appendSpace v = appendRune v (code CHR '' '')"

text \<open>The loop of \<open>appendUint\<close>, which fills its buffer from the end; an \<open>int\<close> has at most 19 digits,
  so the 20 bytes of the buffer are enough.\<close>

function uint_buf :: "int \<Rightarrow> string \<Rightarrow> string" where
  "uint_buf n buf =
     (if n \<ge> 10 then let q = n div 10 in uint_buf q (chr (48 + (n - q * 10)) # buf)
      else chr (48 + n) # buf)"
  by pat_completeness auto
termination by (relation "measure (nat \<circ> fst)") auto

declare uint_buf.simps [simp del]

definition appendUint :: "string \<Rightarrow> int \<Rightarrow> string go" where
  "appendUint dst n =
     (if n < 0 then Panic (ExplicitPanic ''BUG: n should be positive'') else Ret (dst @ uint_buf n []))"

text \<open>Where \<open>appendUint\<close> is called below its argument is positive, or a byte, and it returns.\<close>

definition appendInt :: "string \<Rightarrow> int \<Rightarrow> string" where
  "appendInt v i =
     (if i = 0 then appendRune v (code CHR ''0'')
      else if i > 0 then v @ uint_buf i []
      else v @ itoa i)"

definition appendByte :: "string \<Rightarrow> byte \<Rightarrow> string" where
  "appendByte v i =
     (if i = 0 then appendRune v (code CHR ''0'')
      else if i > 0 then v @ uint_buf (uint i) []
      else v @ itoa (uint i))"

fun appendJoinStrings :: "string \<Rightarrow> string list \<Rightarrow> string" where
  "appendJoinStrings b [] = b"
| "appendJoinStrings b [v] = b @ v"
| "appendJoinStrings b (v # w # vs) = appendJoinStrings (appendSpace (b @ v)) (w # vs)"

definition appendIPv4 :: "string \<Rightarrow> bytes \<Rightarrow> string" where
  "appendIPv4 dst ip =
     foldl (\<lambda>dst i. (dst @ ''.'') @ uint_buf (uint (ip ! i)) []) (dst @ uint_buf (uint (ip ! 0)) []) [1..<4]"

definition appendIP :: "string \<Rightarrow> bytes \<Rightarrow> string" where
  "appendIP b ip =
     (case To4 ip of None \<Rightarrow> b @ map upper_char (IP_String ip) | Some ipV4 \<Rightarrow> appendIPv4 b ipV4)"

definition getDefault :: "string \<Rightarrow> string \<Rightarrow> string" where
  "getDefault v d = (if length v = 0 then d else v)"

section \<open>Plain lines\<close>

definition Session_AddRaw :: "Session \<Rightarrow> int \<Rightarrow> string \<Rightarrow> Session" where
  "Session_AddRaw s k v = Session_appendString s k v"

definition Session_AddLine :: "Session \<Rightarrow> int \<Rightarrow> string \<Rightarrow> Session" where
  "Session_AddLine s t v = Session_appendString s t v"

definition Session_AddVersion :: "Session \<Rightarrow> int \<Rightarrow> Session" where
  "Session_AddVersion s version = Session_append s TypeProtocolVersion (appendInt [] version)"

definition Session_AddPhone :: "Session \<Rightarrow> string \<Rightarrow> Session" where
  "Session_AddPhone s phone = Session_appendString s TypePhone phone"

definition Session_AddEmail :: "Session \<Rightarrow> string \<Rightarrow> Session" where
  "Session_AddEmail s email = Session_appendString s TypeEmail email"

definition Session_AddSessionName :: "Session \<Rightarrow> string \<Rightarrow> Session" where
  "Session_AddSessionName s name = Session_appendString s TypeSessionName name"

definition Session_AddSessionInfo :: "Session \<Rightarrow> string \<Rightarrow> Session" where
  "Session_AddSessionInfo s info = Session_appendString s TypeSessionInformation info"

definition Session_AddURI :: "Session \<Rightarrow> string \<Rightarrow> Session" where
  "Session_AddURI s uri = Session_appendString s TypeURI uri"

section \<open>Connection data\<close>

record ConnectionData =
  cn_NetworkType :: string
  cn_AddressType :: string
  cn_IP :: bytes
  cn_TTL :: byte
  cn_Addresses :: byte

definition zero_ConnectionData :: ConnectionData where
  "zero_ConnectionData =
     \<lparr>cn_NetworkType = [], cn_AddressType = [], cn_IP = [], cn_TTL = 0, cn_Addresses = 0\<rparr>"

definition ConnectionData_Equal :: "ConnectionData \<Rightarrow> ConnectionData \<Rightarrow> bool" where
  "ConnectionData_Equal c b =
     (if cn_NetworkType c \<noteq> cn_NetworkType b then False
      else if cn_AddressType c \<noteq> cn_AddressType b then False
      else if \<not> IP_Equal (cn_IP c) (cn_IP b) then False
      else if cn_TTL c \<noteq> cn_TTL b then False
      else if cn_Addresses c \<noteq> cn_Addresses b then False
      else True)"

definition ConnectionData_Blank :: "ConnectionData \<Rightarrow> bool" where
  "ConnectionData_Blank c = ConnectionData_Equal c zero_ConnectionData"

definition addrTypeIPv4 :: string where "addrTypeIPv4 = ''IP4''"
definition addrTypeIPv6 :: string where "addrTypeIPv6 = ''IP6''"
definition networkTypeInternet :: string where "networkTypeInternet = ''IN''"
definition attributesDelimiter :: char where "attributesDelimiter = CHR '':''"

definition ConnectionData_getNetworkType :: "ConnectionData \<Rightarrow> string" where
  "ConnectionData_getNetworkType c = getDefault (cn_NetworkType c) networkTypeInternet"

definition getAddressTypeIP :: "bytes \<Rightarrow> string \<Rightarrow> string" where
  "getAddressTypeIP ip addressType =
     (if length addressType \<noteq> 0 then addressType
      else if ip = [] then addrTypeIPv4
      else case To4 ip of None \<Rightarrow> addrTypeIPv6 | Some _ \<Rightarrow> addrTypeIPv4)"

text \<open>The loop of \<open>getAddressType\<close>: the first colon or dot decides.\<close>

fun addr_mark :: "string \<Rightarrow> string option" where
  "addr_mark [] = None"
| "addr_mark (s # addr) =
     (if s = CHR '':'' then Some addrTypeIPv6
      else if s = CHR ''.'' then Some addrTypeIPv4
      else addr_mark addr)"

definition getAddressType :: "string \<Rightarrow> string \<Rightarrow> string" where
  "getAddressType addr addressType =
     (if length addressType \<noteq> 0 then addressType
      else case addr_mark addr of Some t \<Rightarrow> t | None \<Rightarrow> getAddressTypeIP (ParseIP addr) addressType)"

definition ConnectionData_getAddressType :: "ConnectionData \<Rightarrow> string" where
  "ConnectionData_getAddressType c = getAddressTypeIP (cn_IP c) (cn_AddressType c)"

definition ConnectionData_ConnectionAddress :: "ConnectionData \<Rightarrow> string" where
  "ConnectionData_ConnectionAddress c =
     map upper_char (IP_String (cn_IP c)) @
     (if cn_TTL c > 0 then ''/'' @ show_dec (unat (cn_TTL c)) else []) @
     (if cn_Addresses c > 0 then ''/'' @ show_dec (unat (cn_Addresses c)) else [])"

definition ConnectionData_String :: "ConnectionData \<Rightarrow> string" where
  "ConnectionData_String c = cn_NetworkType c @ '' '' @ cn_AddressType c @ '' '' @ ConnectionData_ConnectionAddress c"

definition appendAddress :: "ConnectionData \<Rightarrow> string \<Rightarrow> string" where
  "appendAddress c v =
     (let v = appendIP v (cn_IP c);
          v = (if cn_TTL c > 0 then appendByte (appendRune v (code CHR ''/'')) (cn_TTL c) else v)
      in if cn_Addresses c > 0 then appendByte (appendRune v (code CHR ''/'')) (cn_Addresses c) else v)"

definition Session_AddConnectionData :: "Session \<Rightarrow> ConnectionData \<Rightarrow> Session" where
  "Session_AddConnectionData s data =
     (let v = appendSpace (ConnectionData_getNetworkType data);
          v = appendSpace (v @ ConnectionData_getAddressType data)
      in Session_append s TypeConnectionData (appendAddress data v))"

definition Session_AddConnectionDataIP :: "Session \<Rightarrow> bytes \<Rightarrow> Session" where
  "Session_AddConnectionDataIP s ip = Session_AddConnectionData s (zero_ConnectionData\<lparr>cn_IP := ip\<rparr>)"

section \<open>Origin\<close>

record Origin =
  og_Username :: string
  og_SessionID :: int
  og_SessionVersion :: int
  og_NetworkType :: string
  og_AddressType :: string
  og_Address :: string

definition Origin_getNetworkType :: "Origin \<Rightarrow> string" where
  "Origin_getNetworkType og = getDefault (og_NetworkType og) networkTypeInternet"

definition Origin_getAddressType :: "Origin \<Rightarrow> string" where
  "Origin_getAddressType og = getAddressType (og_Address og) (og_AddressType og)"

definition Origin_Equal :: "Origin \<Rightarrow> Origin \<Rightarrow> bool" where
  "Origin_Equal og b =
     (if og_Username og \<noteq> og_Username b then False
      else if og_SessionID og \<noteq> og_SessionID b then False
      else if og_SessionVersion og \<noteq> og_SessionVersion b then False
      else if og_NetworkType og \<noteq> og_NetworkType b then False
      else if og_AddressType og \<noteq> og_AddressType b then False
      else if og_Address og \<noteq> og_Address b then False
      else True)"

definition Session_AddOrigin :: "Session \<Rightarrow> Origin \<Rightarrow> Session" where
  "Session_AddOrigin s og =
     (let v = appendSpace (og_Username og);
          v = appendSpace (appendInt v (og_SessionID og));
          v = appendSpace (appendInt v (og_SessionVersion og));
          v = appendSpace (v @ Origin_getNetworkType og);
          v = appendSpace (v @ Origin_getAddressType og);
          v = v @ og_Address og
      in Session_append s TypeOrigin v)"

section \<open>Times and intervals\<close>

definition ntpDelta :: u64 where "ntpDelta = 2208988800"

definition TimeToNTP :: "Time \<Rightarrow> u64" where
  "TimeToNTP t = (if IsZero t then 0 else tm_unix t + ntpDelta)"

definition NTPToTime :: "u64 \<Rightarrow> Time" where
  "NTPToTime v = (if v = 0 then zero_Time else time_Unix (v - ntpDelta))"

definition appendUint64 :: "string \<Rightarrow> u64 \<Rightarrow> string" where
  "appendUint64 b v = b @ show_dec (unat v)"

definition Session_AddTiming :: "Session \<Rightarrow> Time \<Rightarrow> Time \<Rightarrow> Session" where
  "Session_AddTiming s start end1 =
     (let v = appendUint64 [] (TimeToNTP start);
          v = appendSpace v;
          v = appendUint64 v (TimeToNTP end1)
      in Session_append s TypeTiming v)"

definition Session_AddTimingNTP :: "Session \<Rightarrow> u64 \<Rightarrow> u64 \<Rightarrow> Session" where
  "Session_AddTimingNTP s start end1 = Session_AddTiming s (NTPToTime start) (NTPToTime end1)"

record durationUnit =
  du_d :: int
  du_r :: char

definition durationUnit_append :: "durationUnit \<Rightarrow> string \<Rightarrow> int \<Rightarrow> string" where
  "durationUnit_append u v b = appendRune (appendInt v (go_quot b (du_d u))) (code (du_r u))"

definition durationUnits :: "durationUnit list" where
  "durationUnits =
     [\<lparr>du_d = time_Hour * 24, du_r = CHR ''d''\<rparr>, \<lparr>du_d = time_Hour, du_r = CHR ''h''\<rparr>, \<lparr>du_d = time_Minute, du_r = CHR ''m''\<rparr>]"

definition appendIntervalCompact :: "string \<Rightarrow> int \<Rightarrow> string" where
  "appendIntervalCompact b d =
     (if d = 0 then appendRune b (code CHR ''0'')
      else case find (\<lambda>u. go_rem d (du_d u) = 0) durationUnits of
        Some u \<Rightarrow> durationUnit_append u b d
      | None \<Rightarrow> appendInt b (whole_seconds d))"

definition appendInterval :: "string \<Rightarrow> int \<Rightarrow> bool \<Rightarrow> string" where
  "appendInterval b d short =
     (if d = 0 then appendRune b (code CHR ''0'')
      else if short then appendIntervalCompact b d
      else appendInt b (whole_seconds d))"

fun append_offsets :: "bool \<Rightarrow> string \<Rightarrow> int list \<Rightarrow> string" where
  "append_offsets short v [] = v"
| "append_offsets short v [offset] = appendInterval v offset short"
| "append_offsets short v (offset # o2 # offsets) =
     append_offsets short (appendSpace (appendInterval v offset short)) (o2 # offsets)"

definition addRepeatTimes :: "Session \<Rightarrow> bool \<Rightarrow> int \<Rightarrow> int \<Rightarrow> int list \<Rightarrow> Session" where
  "addRepeatTimes s short interval duration offsets =
     (let v = appendSpace (appendInterval [] interval short);
          v = appendSpace (appendInterval v duration short)
      in Session_append s TypeRepeatTimes (append_offsets short v offsets))"

definition Session_AddRepeatTimes :: "Session \<Rightarrow> int \<Rightarrow> int \<Rightarrow> int list \<Rightarrow> Session" where
  "Session_AddRepeatTimes s interval duration offsets = addRepeatTimes s False interval duration offsets"

definition Session_AddRepeatTimesCompact :: "Session \<Rightarrow> int \<Rightarrow> int \<Rightarrow> int list \<Rightarrow> Session" where
  "Session_AddRepeatTimesCompact s interval duration offsets = addRepeatTimes s True interval duration offsets"

record TimeZone =
  tz_Start :: Time
  tz_Offset :: int

definition TimeZone_appendInterval :: "TimeZone \<Rightarrow> string \<Rightarrow> string" where
  "TimeZone_appendInterval t v = appendIntervalCompact v (tz_Offset t)"

definition TimeZone_append :: "TimeZone \<Rightarrow> string \<Rightarrow> string" where
  "TimeZone_append t v = TimeZone_appendInterval t (appendSpace (appendUint64 v (TimeToNTP (tz_Start t))))"

fun append_zones :: "string \<Rightarrow> TimeZone list \<Rightarrow> string" where
  "append_zones v [] = v"
| "append_zones v [zone] = TimeZone_append zone v"
| "append_zones v (zone # z2 # zones) = append_zones (appendSpace (TimeZone_append zone v)) (z2 # zones)"

definition Session_AddTimeZones :: "Session \<Rightarrow> TimeZone list \<Rightarrow> Session" where
  "Session_AddTimeZones s zones = Session_append s TypeTimeZones (append_zones [] zones)"

section \<open>Attributes, bandwidth, media, encryption\<close>

definition Session_AddFlag :: "Session \<Rightarrow> string \<Rightarrow> Session" where
  "Session_AddFlag s attribute = Session_append s TypeAttribute attribute"

definition Session_AddAttribute :: "Session \<Rightarrow> string \<Rightarrow> string list \<Rightarrow> Session" where
  "Session_AddAttribute s attribute values =
     (if length values = 0 then Session_AddFlag s attribute
      else Session_append s TypeAttribute
             (appendJoinStrings (appendRune attribute (code attributesDelimiter)) values))"

definition BandwidthConferenceTotal :: string where "BandwidthConferenceTotal = ''CT''"
definition BandwidthApplicationSpecific :: string where "BandwidthApplicationSpecific = ''AS''"

definition Session_AddBandwidth :: "Session \<Rightarrow> string \<Rightarrow> int \<Rightarrow> Session" where
  "Session_AddBandwidth s t bandwidth =
     Session_append s TypeBandwidth (appendInt (appendRune t (code CHR '':'')) bandwidth)"

record MediaDescription =
  md_Type :: string
  md_Port :: int
  md_PortsNumber :: int
  md_Protocol :: string
  md_Format :: string

definition Session_AddMediaDescription :: "Session \<Rightarrow> MediaDescription \<Rightarrow> Session" where
  "Session_AddMediaDescription s m =
     (let v = appendInt (appendSpace (md_Type m)) (md_Port m);
          v = (if md_PortsNumber m \<noteq> 0 then appendInt (appendRune v (code CHR ''/'')) (md_PortsNumber m) else v);
          v = appendSpace v;
          v = appendSpace (v @ md_Protocol m)
      in Session_append s TypeMediaDescription (v @ md_Format m))"

definition Session_AddEncryptionMethod :: "Session \<Rightarrow> string \<Rightarrow> Session" where
  "Session_AddEncryptionMethod s meth = Session_appendString s TypeEncryptionKey meth"

definition Session_AddEncryptionKey :: "Session \<Rightarrow> string \<Rightarrow> string \<Rightarrow> Session" where
  "Session_AddEncryptionKey s meth k =
     (if length k = 0 then Session_AddEncryptionMethod s meth
      else Session_append s TypeEncryptionKey (appendRune meth (code attributesDelimiter) @ k))"

end
