(* ===== verification/Sdp_Message.thy ===== *)
theory Sdp_Message
  imports Sdp_Fields "HOL-Library.AList"
begin

text \<open>
  SDP messages, their encoder and their decoder: \<^verbatim>\<open>src/sdp/encoder.go\<close> and
  \<^verbatim>\<open>src/sdp/decoder.go\<close>.

  A Go map is an association list with distinct keys, in some order of iteration: the
  encoder writes the entries in that order, the decoder updates an entry in place or adds
  one at the end. The decoder is a cursor over the lines with the section it is in and a
  position in the ordering of that section; its operations return the error, the cursor and
  the message, or they panic. Errors leave the message partly filled, as the code does.
\<close>

section \<open>Messages\<close>

type_synonym Attributes = "(string \<times> string list) list"
type_synonym Bandwidths = "(string \<times> int) list"

definition attr_list :: "Attributes \<Rightarrow> string \<Rightarrow> string list" where
  "attr_list a k = (case map_of a k of None \<Rightarrow> [] | Some vs \<Rightarrow> vs)"

definition SdpAttributes_Value :: "Attributes \<Rightarrow> string \<Rightarrow> string" where
  "SdpAttributes_Value a attribute =
     (if length (attr_list a attribute) = 0 then [] else attr_list a attribute ! 0)"

definition SdpAttributes_Values :: "Attributes \<Rightarrow> string \<Rightarrow> string list" where
  "SdpAttributes_Values a attribute = attr_list a attribute"

definition SdpAttributes_Flag :: "Attributes \<Rightarrow> string \<Rightarrow> bool" where
  "SdpAttributes_Flag a flag \<longleftrightarrow> length (attr_list a flag) \<noteq> 0"

definition addAttribute :: "Attributes \<Rightarrow> string \<Rightarrow> string \<Rightarrow> Attributes" where
  "addAttribute a k v = AList.update k (attr_list a k @ [v]) a"

record Timing =
  ti_Start :: Time
  ti_End :: Time
  ti_Repeat :: int
  ti_Active :: int
  ti_Offsets :: "int list"

record Encryption =
  en_Method :: string
  en_Key :: string

definition Encryption_Equal :: "Encryption \<Rightarrow> Encryption \<Rightarrow> bool" where
  "Encryption_Equal e b \<longleftrightarrow> e = b"

definition Encryption_Blank :: "Encryption \<Rightarrow> bool" where
  "Encryption_Blank e = Encryption_Equal e \<lparr>en_Method = [], en_Key = []\<rparr>"

definition Session_AddEncryption :: "Session \<Rightarrow> Encryption \<Rightarrow> Session" where
  "Session_AddEncryption s e = Session_AddEncryptionKey s (en_Method e) (en_Key e)"

record Media =
  me_Title :: string
  me_Description :: MediaDescription
  me_Connection :: ConnectionData
  me_Attributes :: Attributes
  me_Encryption :: Encryption
  me_Bandwidths :: Bandwidths

definition Media_AddAttribute :: "Media \<Rightarrow> string \<Rightarrow> string list \<Rightarrow> Media" where
  "Media_AddAttribute m k values =
     m\<lparr>me_Attributes := addAttribute (me_Attributes m) k (join_with CHR '' '' values)\<rparr>"

definition Media_AddFlag :: "Media \<Rightarrow> string \<Rightarrow> Media" where
  "Media_AddFlag m f = Media_AddAttribute m f [[]]"

definition Media_Flag :: "Media \<Rightarrow> string \<Rightarrow> bool" where
  "Media_Flag m f = SdpAttributes_Flag (me_Attributes m) f"

definition Media_Attribute :: "Media \<Rightarrow> string \<Rightarrow> string" where
  "Media_Attribute m k = SdpAttributes_Value (me_Attributes m) k"

record SdpMessage =
  sm_Version :: int
  sm_Origin :: Origin
  sm_Name :: string
  sm_Info :: string
  sm_Email :: string
  sm_Phone :: string
  sm_URI :: string
  sm_Connection :: ConnectionData
  sm_Attributes :: Attributes
  sm_Medias :: "Media list"
  sm_Encryption :: Encryption
  sm_Bandwidths :: Bandwidths
  sm_BandwidthType :: string
  sm_Timing :: "Timing list"
  sm_TZAdjustments :: "TimeZone list"

definition zero_MediaDescription :: MediaDescription where
  "zero_MediaDescription =
     \<lparr>md_Type = [], md_Port = 0, md_PortsNumber = 0, md_Protocol = [], md_Format = []\<rparr>"

definition zero_Media :: Media where
  "zero_Media = \<lparr>me_Title = [], me_Description = zero_MediaDescription, me_Connection = zero_ConnectionData,
     me_Attributes = [], me_Encryption = \<lparr>en_Method = [], en_Key = []\<rparr>, me_Bandwidths = []\<rparr>"

definition zero_SdpMessage :: SdpMessage where
  "zero_SdpMessage = \<lparr>sm_Version = 0,
     sm_Origin = \<lparr>og_Username = [], og_SessionID = 0, og_SessionVersion = 0, og_NetworkType = [],
                  og_AddressType = [], og_Address = []\<rparr>,
     sm_Name = [], sm_Info = [], sm_Email = [], sm_Phone = [], sm_URI = [],
     sm_Connection = zero_ConnectionData, sm_Attributes = [], sm_Medias = [],
     sm_Encryption = \<lparr>en_Method = [], en_Key = []\<rparr>, sm_Bandwidths = [], sm_BandwidthType = [],
     sm_Timing = [], sm_TZAdjustments = []\<rparr>"

definition SdpMessage_Start :: "SdpMessage \<Rightarrow> Time" where
  "SdpMessage_Start m = (if length (sm_Timing m) = 0 then zero_Time else ti_Start (sm_Timing m ! 0))"

definition SdpMessage_End :: "SdpMessage \<Rightarrow> Time" where
  "SdpMessage_End m = (if length (sm_Timing m) = 0 then zero_Time else ti_End (sm_Timing m ! 0))"

definition SdpMessage_Flag :: "SdpMessage \<Rightarrow> string \<Rightarrow> bool" where
  "SdpMessage_Flag m flag =
     (if length (sm_Attributes m) > 0 then SdpAttributes_Flag (sm_Attributes m) flag else False)"

definition SdpMessage_Attribute :: "SdpMessage \<Rightarrow> string \<Rightarrow> string" where
  "SdpMessage_Attribute m attribute =
     (if length (sm_Attributes m) > 0 then SdpAttributes_Value (sm_Attributes m) attribute else [])"

definition SdpMessage_AddAttribute :: "SdpMessage \<Rightarrow> string \<Rightarrow> string \<Rightarrow> SdpMessage" where
  "SdpMessage_AddAttribute m k v = m\<lparr>sm_Attributes := addAttribute (sm_Attributes m) k v\<rparr>"

definition SdpMessage_AddFlag :: "SdpMessage \<Rightarrow> string \<Rightarrow> SdpMessage" where
  "SdpMessage_AddFlag m f = SdpMessage_AddAttribute m f []"

section \<open>The encoder\<close>

definition add_values :: "Session \<Rightarrow> string \<Rightarrow> string list \<Rightarrow> Session" where
  "add_values s k v =
     foldl (\<lambda>s a. if length a = 0 then Session_AddFlag s k else Session_AddAttribute s k [a]) s v"

definition appendAttributes :: "Session \<Rightarrow> Attributes \<Rightarrow> Session" where
  "appendAttributes s attrs = foldl (\<lambda>s (k, v). add_values s k v) s attrs"

definition add_bandwidths :: "Session \<Rightarrow> Bandwidths \<Rightarrow> Session" where
  "add_bandwidths s bs = foldl (\<lambda>s (t, v). Session_AddBandwidth s t v) s bs"

definition add_timing :: "Session \<Rightarrow> Timing \<Rightarrow> Session" where
  "add_timing s t =
     (let s = Session_AddTiming s (ti_Start t) (ti_End t)
      in if length (ti_Offsets t) > 0
         then Session_AddRepeatTimesCompact s (ti_Repeat t) (ti_Active t) (ti_Offsets t) else s)"

definition append_media :: "Session \<Rightarrow> Media \<Rightarrow> Session" where
  "append_media s mm =
     (let s = Session_AddMediaDescription s (me_Description mm);
          s = (if length (me_Title mm) > 0 then Session_AddSessionInfo s (me_Title mm) else s);
          s = (if \<not> ConnectionData_Blank (me_Connection mm) then Session_AddConnectionData s (me_Connection mm) else s);
          s = add_bandwidths s (me_Bandwidths mm);
          s = (if \<not> Encryption_Blank (me_Encryption mm) then Session_AddEncryption s (me_Encryption mm) else s)
      in appendAttributes s (me_Attributes mm))"

definition SdpMessage_Append :: "SdpMessage \<Rightarrow> Session \<Rightarrow> Session" where
  "SdpMessage_Append m s =
     (let s = Session_AddVersion s (sm_Version m);
          s = Session_AddOrigin s (sm_Origin m);
          s = Session_AddSessionName s (sm_Name m);
          s = (if length (sm_Info m) > 0 then Session_AddSessionInfo s (sm_Info m) else s);
          s = (if length (sm_URI m) > 0 then Session_AddURI s (sm_URI m) else s);
          s = (if length (sm_Email m) > 0 then Session_AddEmail s (sm_Email m) else s);
          s = (if length (sm_Phone m) > 0 then Session_AddPhone s (sm_Phone m) else s);
          s = (if \<not> ConnectionData_Blank (sm_Connection m) then Session_AddConnectionData s (sm_Connection m) else s);
          s = add_bandwidths s (sm_Bandwidths m);
          s = foldl add_timing s (sm_Timing m);
          s = (if length (sm_TZAdjustments m) > 0 then Session_AddTimeZones s (sm_TZAdjustments m) else s);
          s = (if \<not> Encryption_Blank (sm_Encryption m) then Session_AddEncryption s (sm_Encryption m) else s);
          s = appendAttributes s (sm_Attributes m)
      in foldl append_media s (sm_Medias m))"

section \<open>Sections and their orderings\<close>

datatype sdp_section = sectionSession | sectionTime | sectionMedia

definition section_String :: "sdp_section \<Rightarrow> string" where
  "section_String s = (case s of sectionSession \<Rightarrow> ''s'' | sectionTime \<Rightarrow> ''t'' | sectionMedia \<Rightarrow> ''m'')"

definition orderingSession :: "int list" where
  "orderingSession = [TypeProtocolVersion, TypeOrigin, TypeSessionName, TypeSessionInformation, TypeURI,
     TypeEmail, TypePhone, TypeConnectionData, TypeBandwidth, TypeTimeZones, TypeEncryptionKey, TypeAttribute]"

definition orderingAfterTime :: nat where "orderingAfterTime = 10"

definition orderingTime :: "int list" where
  "orderingTime = [TypeTiming, TypeRepeatTimes]"

definition orderingMedia :: "int list" where
  "orderingMedia = [TypeMediaDescription, TypeSessionInformation, TypeConnectionData, TypeBandwidth,
     TypeEncryptionKey, TypeAttribute]"

definition getOrdering :: "sdp_section \<Rightarrow> int list" where
  "getOrdering s =
     (case s of sectionSession \<Rightarrow> orderingSession | sectionMedia \<Rightarrow> orderingMedia | sectionTime \<Rightarrow> orderingTime)"

definition isOptional :: "int \<Rightarrow> bool" where
  "isOptional t =
     (if t = TypeProtocolVersion \<or> t = TypeOrigin \<or> t = TypeSessionName then False
      else if t = TypeTiming then False
      else if t = TypeMediaDescription then False
      else True)"

definition isZeroOrMore :: "int \<Rightarrow> bool" where
  "isZeroOrMore t = (if t = TypeBandwidth \<or> t = TypeAttribute then True else False)"

definition newSectionDecodeError :: "sdp_section \<Rightarrow> string \<Rightarrow> sdp_error" where
  "newSectionDecodeError s m = Decode_error (newDecodeError (''section '' @ section_String s) m)"

text \<open>
  The loop over the rest of an ordering: a mandatory field that does not match does not stop
  it either.
\<close>

fun in_ordering :: "int \<Rightarrow> int list \<Rightarrow> bool" where
  "in_ordering t [] = False"
| "in_ordering t (expected # es) =
     (if expected = t then True
      else if isOptional expected then in_ordering t es
      else if isZeroOrMore expected then in_ordering t es
      else in_ordering t es)"

definition unexpected :: "int \<Rightarrow> sdp_section \<Rightarrow> nat \<Rightarrow> sdp_error" where
  "unexpected t s pos =
     Wrap (newSectionDecodeError s
             (''no matches in ordering array at '' @ section_String s @ ''['' @ show_dec pos @ '']''))
          (''field '' @ Type_String t @ '' is unexpected'')"

definition expect_rank :: "sdp_section \<Rightarrow> nat \<Rightarrow> nat" where
  "expect_rank s pos =
     (case s of sectionSession \<Rightarrow> if pos < orderingAfterTime then 4 else 2
      | sectionTime \<Rightarrow> 3 | sectionMedia \<Rightarrow> if pos \<noteq> 0 then 1 else 0)"

declare conj_cong [fundef_cong]

function isExpected :: "int \<Rightarrow> sdp_section \<Rightarrow> nat \<Rightarrow> sdp_error option" where
  "isExpected t s pos =
     (if length (getOrdering s) > pos \<and> in_ordering t (drop pos (getOrdering s)) then None
      else case s of
        sectionSession \<Rightarrow>
          if pos < orderingAfterTime \<and> isExpected t sectionTime 0 = None then None
          else if isExpected t sectionMedia 0 = None then None
          else Some (unexpected t s pos)
      | sectionTime \<Rightarrow>
          if isExpected t sectionSession orderingAfterTime = None then None
          else if isExpected t sectionMedia 0 = None then None
          else Some (unexpected t s pos)
      | sectionMedia \<Rightarrow>
          if pos \<noteq> 0 \<and> isExpected t sectionMedia 0 = None then None
          else Some (unexpected t s pos))"
  by pat_completeness auto
termination
  by (relation "measure (\<lambda>(t, s, pos). expect_rank s pos)") (auto simp: expect_rank_def orderingAfterTime_def)

declare isExpected.simps [simp del]

section \<open>The cursor\<close>

record Decoder =
  dc_s :: Session
  dc_pos :: nat
  dc_t :: int
  dc_v :: string
  dc_l :: Line
  dc_section :: sdp_section
  dc_sPos :: nat
  dc_m :: Media

definition NewDecoder :: "Session \<Rightarrow> Decoder" where
  "NewDecoder s = \<lparr>dc_s = s, dc_pos = 0, dc_t = 0, dc_v = [], dc_l = \<lparr>ln_Type = 0, ln_Value = []\<rparr>,
     dc_section = sectionSession, dc_sPos = 0, dc_m = zero_Media\<rparr>"

definition newFieldError :: "Decoder \<Rightarrow> string \<Rightarrow> sdp_error" where
  "newFieldError d msg =
     Decode_error \<lparr>de_Reason = msg,
       de_Place = section_String (dc_section d) @ ''/'' @ Type_String (dc_t d) @ '' at line '' @ show_dec (dc_pos d)\<rparr>"

definition decoder_next :: "Decoder \<Rightarrow> Decoder option" where
  "decoder_next d =
     (if dc_pos d \<ge> length (dc_s d) then None
      else let l = dc_s d ! dc_pos d
           in Some (d\<lparr>dc_l := l, dc_v := ln_Value l, dc_t := ln_Type l, dc_pos := dc_pos d + 1\<rparr>))"

end
