(* ===== verification/Sdp_Decoder.thy ===== *)
theory Sdp_Decoder
  imports Sdp_Message
begin

text \<open>
  The decoder of \<^verbatim>\<open>src/sdp/decoder.go\<close>: one function per field, and the loops over the
  session, time and media sections. A loop that finds a line of another section steps the
  cursor back and returns; the termination proofs below show that each such return has read
  at least one line, so \<open>Decode\<close> always ends.
\<close>

section \<open>Fields\<close>

type_synonym decoded = "(sdp_error option \<times> Decoder \<times> SdpMessage) go"

abbreviation dec_ok :: "Decoder \<Rightarrow> SdpMessage \<Rightarrow> decoded" where
  "dec_ok d m \<equiv> Ret (None, d, m)"

abbreviation dec_err :: "sdp_error \<Rightarrow> string \<Rightarrow> Decoder \<Rightarrow> SdpMessage \<Rightarrow> decoded" where
  "dec_err e msg d m \<equiv> Ret (Some (Wrap e msg), d, m)"

fun kv_loop :: "string \<Rightarrow> string \<Rightarrow> string \<Rightarrow> bool \<Rightarrow> string \<times> string" where
  "kv_loop [] k value isValue = (k, value)"
| "kv_loop (v # vs) k value isValue =
     (if v = CHR '':'' \<and> \<not> isValue then kv_loop vs k value True
      else if isValue then kv_loop vs k (value @ [v]) isValue
      else kv_loop vs (k @ [v]) value isValue)"

definition decodeKV :: "Decoder \<Rightarrow> string \<times> string" where
  "decodeKV d = kv_loop (dc_v d) [] [] False"

definition decodeVersion :: "Decoder \<Rightarrow> SdpMessage \<Rightarrow> decoded" where
  "decodeVersion d m =
     (case Atoi (dc_v d) of
        None \<Rightarrow> dec_err (Strconv_error (dc_v d)) ''failed to parse version'' d m
      | Some n \<Rightarrow> dec_ok d (m\<lparr>sm_Version := n\<rparr>))"

definition decodeAttribute :: "Decoder \<Rightarrow> SdpMessage \<Rightarrow> decoded" where
  "decodeAttribute d m =
     (let (k, v) = decodeKV d
      in if dc_section d = sectionMedia
         then dec_ok (d\<lparr>dc_m := (dc_m d)\<lparr>me_Attributes := addAttribute (me_Attributes (dc_m d)) k v\<rparr>\<rparr>) m
         else dec_ok d (m\<lparr>sm_Attributes := addAttribute (sm_Attributes m) k v\<rparr>))"

definition decodeSessionName :: "Decoder \<Rightarrow> SdpMessage \<Rightarrow> decoded" where
  "decodeSessionName d m = dec_ok d (m\<lparr>sm_Name := dc_v d\<rparr>)"

definition decodeSessionInfo :: "Decoder \<Rightarrow> SdpMessage \<Rightarrow> decoded" where
  "decodeSessionInfo d m =
     (if dc_section d = sectionMedia then dec_ok (d\<lparr>dc_m := (dc_m d)\<lparr>me_Title := dc_v d\<rparr>\<rparr>) m
      else dec_ok d (m\<lparr>sm_Info := dc_v d\<rparr>))"

definition decodeEmail :: "Decoder \<Rightarrow> SdpMessage \<Rightarrow> decoded" where
  "decodeEmail d m = dec_ok d (m\<lparr>sm_Email := dc_v d\<rparr>)"

definition decodePhone :: "Decoder \<Rightarrow> SdpMessage \<Rightarrow> decoded" where
  "decodePhone d m = dec_ok d (m\<lparr>sm_Phone := dc_v d\<rparr>)"

definition decodeURI :: "Decoder \<Rightarrow> SdpMessage \<Rightarrow> decoded" where
  "decodeURI d m = dec_ok d (m\<lparr>sm_URI := dc_v d\<rparr>)"

definition decodeEncryption :: "Decoder \<Rightarrow> SdpMessage \<Rightarrow> decoded" where
  "decodeEncryption d m =
     (let (k, v) = decodeKV d; e = \<lparr>en_Method = k, en_Key = v\<rparr>
      in if dc_section d = sectionMedia then dec_ok (d\<lparr>dc_m := (dc_m d)\<lparr>me_Encryption := e\<rparr>\<rparr>) m
         else dec_ok d (m\<lparr>sm_Encryption := e\<rparr>))"

definition decodeIP :: "string \<Rightarrow> bytes" where
  "decodeIP v = ParseIP v"

text \<open>\<open>strconv.ParseInt(s, 10, 16)\<close>, converted to a byte; 0 beside an error.\<close>

definition decodeByte :: "string \<Rightarrow> byte \<times> sdp_error option" where
  "decodeByte dst =
     (case Atoi dst of
        Some n \<Rightarrow> if - 32768 \<le> n \<and> n \<le> 32767 then (of_int n, None) else (0, Some (Strconv_error dst))
      | None \<Rightarrow> (0, Some (Strconv_error dst)))"

definition sdp_isIPv4 :: "bytes \<Rightarrow> bool" where
  "sdp_isIPv4 ip \<longleftrightarrow> To4 ip \<noteq> None"

text \<open>
  The two loops of \<open>decodeConnectionData\<close> that cut at a separator: three parts, and nothing
  when a character follows the third separator.
\<close>

fun three_parts :: "char \<Rightarrow> string \<Rightarrow> nat \<Rightarrow> string \<times> string \<times> string \<Rightarrow> (string \<times> string \<times> string) option" where
  "three_parts sep [] subField (a, b, c) = Some (a, b, c)"
| "three_parts sep (v # vs) subField (a, b, c) =
     (if v = sep then three_parts sep vs (Suc subField) (a, b, c)
      else if subField = 0 then three_parts sep vs subField (a @ [v], b, c)
      else if subField = 1 then three_parts sep vs subField (a, b @ [v], c)
      else if subField = 2 then three_parts sep vs subField (a, b, c @ [v])
      else None)"

definition decode_address :: "Decoder \<Rightarrow> string \<Rightarrow> string \<Rightarrow> string \<Rightarrow> string \<Rightarrow> SdpMessage \<Rightarrow> decoded" where
  "decode_address d connectionAddress base first second m =
     (let failed = ''failed to decode connection data'';
          set = (\<lambda>f m. m\<lparr>sm_Connection := f (sm_Connection m)\<rparr>);
          m = set (\<lambda>c. c\<lparr>cn_IP := decodeIP base\<rparr>) m;
          isV4 = sdp_isIPv4 (cn_IP (sm_Connection m))
      in if length second > 0 then
           (if \<not> isV4 then dec_err (newFieldError d ''unexpected TTL for IPv6'') failed d m
            else
              let (ttl, err) = decodeByte first; m = set (\<lambda>c. c\<lparr>cn_TTL := ttl\<rparr>) m
              in case err of
                   Some e \<Rightarrow> dec_err e failed d m
                 | None \<Rightarrow>
                     let (n, err) = decodeByte second; m = set (\<lambda>c. c\<lparr>cn_Addresses := n\<rparr>) m
                     in (case err of Some e \<Rightarrow> dec_err e failed d m | None \<Rightarrow> dec_ok d m))
         else if length first > 0 then
           (let (err, m) =
              (if isV4 then let (ttl, err) = decodeByte first in (err, set (\<lambda>c. c\<lparr>cn_TTL := ttl\<rparr>) m)
               else let (n, err) = decodeByte second in (err, set (\<lambda>c. c\<lparr>cn_Addresses := n\<rparr>) m))
            in case err of
                 Some e \<Rightarrow> dec_err e (''bad connection data <'' @ first @ ''> at <'' @ connectionAddress @ ''>'') d m
               | None \<Rightarrow> dec_ok d m)
         else dec_ok d m)"

definition decodeConnectionData :: "Decoder \<Rightarrow> SdpMessage \<Rightarrow> decoded" where
  "decodeConnectionData d m =
     (let failed = ''failed to decode connection data''
      in case three_parts CHR '' '' (dc_v d) 0 ([], [], []) of
           None \<Rightarrow> dec_err (newFieldError d ''unexpected subfield count'') failed d m
         | Some (netType, addressType, connectionAddress) \<Rightarrow>
             if length netType = 0 then dec_err (newFieldError d ''nettype is empty'') failed d m
             else if length addressType = 0 then dec_err (newFieldError d ''addrtype is empty'') failed d m
             else if length connectionAddress = 0 then
               dec_err (newFieldError d ''connection-address is empty'') failed d m
             else
               let m = m\<lparr>sm_Connection := (sm_Connection m)\<lparr>cn_AddressType := addressType, cn_NetworkType := netType\<rparr>\<rparr>
               in case three_parts CHR ''/'' connectionAddress 0 ([], [], []) of
                    None \<Rightarrow> dec_err (newFieldError d ''unexpected fourth element in address'') failed d m
                  | Some (base, first, second) \<Rightarrow> decode_address d connectionAddress base first second m)"

definition decodeBandwidth :: "Decoder \<Rightarrow> SdpMessage \<Rightarrow> decoded" where
  "decodeBandwidth d m =
     (let (k, v) = decodeKV d
      in if length v = 0 then
           dec_err (newSectionDecodeError (dc_section d) ''no value specified'') ''failed to decode bandwidth'' d m
         else if \<not> (k = BandwidthApplicationSpecific \<or> k = BandwidthConferenceTotal) then
           dec_err (newSectionDecodeError (dc_section d) (''bad bandwidth type '' @ k)) ''failed to decode bandwidth'' d m
         else case Atoi v of
           None \<Rightarrow> dec_err (Strconv_error v) ''failed to convert decode bandwidth'' d m
         | Some n \<Rightarrow>
             if dc_section d = sectionMedia
             then dec_ok (d\<lparr>dc_m := (dc_m d)\<lparr>me_Bandwidths := AList.update k n (me_Bandwidths (dc_m d))\<rparr>\<rparr>) m
             else dec_ok d (m\<lparr>sm_Bandwidths := AList.update k n (sm_Bandwidths m)\<rparr>))"

text \<open>\<open>strconv.ParseUint(s, 10, 64)\<close>\<close>

definition parseNTP :: "string \<Rightarrow> sdp_error + u64" where
  "parseNTP v =
     (case atoi_nat v of
        Some n \<Rightarrow> if n < 2 ^ 64 then Inr (of_nat n) else Inl (Strconv_error v)
      | None \<Rightarrow> Inl (Strconv_error v))"

fun timing_parts :: "string \<Rightarrow> string \<Rightarrow> string \<Rightarrow> bool \<Rightarrow> (string \<times> string) option" where
  "timing_parts [] startV endV isEndV = Some (startV, endV)"
| "timing_parts (v # vs) startV endV isEndV =
     (if v = CHR '' '' then (if isEndV then None else timing_parts vs startV endV True)
      else if isEndV then timing_parts vs startV (endV @ [v]) isEndV
      else timing_parts vs (startV @ [v]) endV isEndV)"

definition decodeTimingField :: "Decoder \<Rightarrow> SdpMessage \<Rightarrow> decoded" where
  "decodeTimingField d m =
     (case timing_parts (dc_v d) [] [] False of
        None \<Rightarrow>
          dec_err (newSectionDecodeError (dc_section d) ''unexpected second space in timing'') ''failed to decode timing'' d m
      | Some (startV, endV) \<Rightarrow>
          (case parseNTP startV of
             Inl e \<Rightarrow> dec_err e ''failed to parse start time'' d m
           | Inr ntpStart \<Rightarrow>
               (case parseNTP endV of
                  Inl e \<Rightarrow> dec_err e ''failed to parse end time'' d m
                | Inr ntpEnd \<Rightarrow>
                    dec_ok d (m\<lparr>sm_Timing := sm_Timing m @
                      [\<lparr>ti_Start = NTPToTime ntpStart, ti_End = NTPToTime ntpEnd, ti_Repeat = 0, ti_Active = 0,
                        ti_Offsets = []\<rparr>]\<rparr>))))"

definition subfields :: "string \<Rightarrow> string list" where
  "subfields v = split_on CHR '' '' v"

definition decodeOrigin :: "Decoder \<Rightarrow> SdpMessage \<Rightarrow> decoded" where
  "decodeOrigin d m =
     (let p = subfields (dc_v d)
      in if length p \<noteq> 6 then
           dec_err (newSectionDecodeError (dc_section d)
             (''unexpected subfields count '' @ show_dec (length p) @ '' != 6'')) ''failed to decode origin'' d m
         else case Atoi (p ! 1) of
           None \<Rightarrow> dec_err (Strconv_error (p ! 1)) ''failed to decode sess-id'' d m
         | Some sid \<Rightarrow>
             (case Atoi (p ! 2) of
                None \<Rightarrow> dec_err (Strconv_error (p ! 2)) ''failed to decode sess-version'' d m
              | Some sv \<Rightarrow>
                  dec_ok d (m\<lparr>sm_Origin := \<lparr>og_Username = p ! 0, og_SessionID = sid, og_SessionVersion = sv,
                    og_NetworkType = p ! 3, og_AddressType = p ! 4, og_Address = p ! 5\<rparr>\<rparr>)))"

text \<open>A duration out of range wraps, as the product of two \<open>int64\<close>.\<close>

definition decodeInterval :: "string \<Rightarrow> (sdp_error + int) go" where
  "decodeInterval b =
     (if length b = 1 \<and> b ! 0 = CHR ''0'' then Ret (Inr 0)
      else if b = [] then Panic IndexOutOfRange
      else
        let c = last b;
            unit = (if c = CHR ''d'' then time_Hour * 24 else if c = CHR ''h'' then time_Hour
                    else if c = CHR ''m'' then time_Minute else time_Second);
            noUnitSpecified = (c \<notin> set ''dhms'')
        in if \<not> noUnitSpecified \<and> length b < 2 then
             Ret (Inl (Wrap UnexpectedEOF ''unit without value is invalid duration''))
           else
             let b = (if \<not> noUnitSpecified then butlast b else b)
             in case Atoi b of
                  None \<Rightarrow> Ret (Inl (Wrap (Strconv_error b) ''unable to decode value''))
                | Some val \<Rightarrow> Ret (Inr (sint (of_int (val * unit) :: u64))))"

definition shouldBePositive :: "int \<Rightarrow> unit go" where
  "shouldBePositive i = (if i \<le> 0 then Panic (ExplicitPanic ''value should be positive'') else Ret ())"

fun decode_offsets :: "nat \<Rightarrow> string list \<Rightarrow> int list \<Rightarrow> (sdp_error + int list) go" where
  "decode_offsets i [] offs = Ret (Inr offs)"
| "decode_offsets i (pp # ps) offs =
     (case decodeInterval pp of
        Panic x \<Rightarrow> Panic x
      | Ret (Inl e) \<Rightarrow> Ret (Inl (Wrap e (''failed to decode offset '' @ show_dec i)))
      | Ret (Inr dd) \<Rightarrow> decode_offsets (Suc i) ps (offs @ [dd]))"

text \<open>
  \<open>decodeRepeatTimes\<close> fills in a copy \<open>t\<close> of the last timing and does not store it: the
  message is left as it was.
\<close>

definition decodeRepeatTimes :: "Decoder \<Rightarrow> SdpMessage \<Rightarrow> decoded" where
  "decodeRepeatTimes d m =
     (case shouldBePositive (int (length (sm_Timing m))) of
        Panic x \<Rightarrow> Panic x
      | Ret _ \<Rightarrow>
          let p = subfields (dc_v d)
          in if length p < 3 then
               dec_err (newSectionDecodeError (dc_section d)
                 (''unexpected subfields count '' @ show_dec (length p) @ '' < 3'')) ''failed to decode repeat'' d m
             else case decodeInterval (p ! 0) of
               Panic x \<Rightarrow> Panic x
             | Ret (Inl e) \<Rightarrow> dec_err e ''failed to decode repeat interval'' d m
             | Ret (Inr rep) \<Rightarrow>
                 (case decodeInterval (p ! 1) of
                    Panic x \<Rightarrow> Panic x
                  | Ret (Inl e) \<Rightarrow> dec_err e ''failed to decode active duration'' d m
                  | Ret (Inr act) \<Rightarrow>
                      (case decode_offsets 0 (drop 2 p) (ti_Offsets (last (sm_Timing m))) of
                         Panic x \<Rightarrow> Panic x
                       | Ret (Inl e) \<Rightarrow> Ret (Some e, d, m)
                       | Ret (Inr offs) \<Rightarrow> dec_ok d m)))"

text \<open>The loop of \<open>decodeTimeZoneAdjustments\<close>; \<open>p\<close> has an even number of elements.\<close>

fun decode_zones :: "string list \<Rightarrow> Decoder \<Rightarrow> SdpMessage \<Rightarrow> decoded" where
  "decode_zones (p0 # p1 # p) d m =
     (case parseNTP p0 of
        Inl e \<Rightarrow> dec_err e ''failed to decode adjustment start'' d m
      | Inr t \<Rightarrow>
          (case decodeInterval p1 of
             Panic x \<Rightarrow> Panic x
           | Ret (Inl e) \<Rightarrow> dec_err e ''failed to decode offset'' d m
           | Ret (Inr off) \<Rightarrow>
               decode_zones p d (m\<lparr>sm_TZAdjustments := sm_TZAdjustments m @ [\<lparr>tz_Start = NTPToTime t, tz_Offset = off\<rparr>]\<rparr>)))"
| "decode_zones _ d m = dec_ok d m"

definition decodeTimeZoneAdjustments :: "Decoder \<Rightarrow> SdpMessage \<Rightarrow> decoded" where
  "decodeTimeZoneAdjustments d m =
     (let p = subfields (dc_v d)
      in if length p mod 2 \<noteq> 0 then
           dec_err (newSectionDecodeError (dc_section d) (''unexpected subfields count '' @ show_dec (length p)))
             ''failed to decode tz-adjustments'' d m
         else decode_zones p d m)"

definition decodeMediaDescription :: "Decoder \<Rightarrow> SdpMessage \<Rightarrow> decoded" where
  "decodeMediaDescription d m =
     (let p = subfields (dc_v d)
      in if length p < 4 then
           dec_err (newSectionDecodeError (dc_section d)
             (''unexpected subfields count '' @ show_dec (length p) @ '' < 4'')) ''failed to decode media description'' d m
         else
           let pp = split_on CHR ''/'' (p ! 1)
           in case Atoi (pp ! 0) of
                None \<Rightarrow> dec_err (Strconv_error (pp ! 0)) ''failed to decode port'' d m
              | Some port \<Rightarrow>
                  (case (if length pp > 1 then Atoi (pp ! 1) else Some 0) of
                     None \<Rightarrow> dec_err (Strconv_error (pp ! 1)) ''failed to decode ports number'' d m
                   | Some n \<Rightarrow>
                       dec_ok (d\<lparr>dc_m := (dc_m d)\<lparr>me_Description :=
                         \<lparr>md_Type = p ! 0, md_Port = port, md_PortsNumber = n, md_Protocol = p ! 2,
                          md_Format = join_with CHR '' '' (drop 3 p)\<rparr>\<rparr>\<rparr>) m))"

definition decodeField :: "Decoder \<Rightarrow> SdpMessage \<Rightarrow> decoded" where
  "decodeField d m =
     (if dc_t d = TypeProtocolVersion then decodeVersion d m
      else if dc_t d = TypeAttribute then decodeAttribute d m
      else if dc_t d = TypeSessionName then decodeSessionName d m
      else if dc_t d = TypeSessionInformation then decodeSessionInfo d m
      else if dc_t d = TypeEmail then decodeEmail d m
      else if dc_t d = TypePhone then decodePhone d m
      else if dc_t d = TypeURI then decodeURI d m
      else if dc_t d = TypeEncryptionKey then decodeEncryption d m
      else if dc_t d = TypeBandwidth then decodeBandwidth d m
      else if dc_t d = TypeTiming then decodeTimingField d m
      else if dc_t d = TypeConnectionData then decodeConnectionData d m
      else if dc_t d = TypeOrigin then decodeOrigin d m
      else if dc_t d = TypeRepeatTimes then decodeRepeatTimes d m
      else if dc_t d = TypeTimeZones then decodeTimeZoneAdjustments d m
      else if dc_t d = TypeMediaDescription then decodeMediaDescription d m
      else Panic (ExplicitPanic ''unexpected field''))"

section \<open>The loops\<close>

text \<open>A field only changes the message and the media that is being filled.\<close>

definition same_place :: "Decoder \<Rightarrow> Decoder \<Rightarrow> bool" where
  "same_place d d' \<longleftrightarrow> (\<exists>x. d' = d\<lparr>dc_m := x\<rparr>)"

lemma same_place_refl [simp]: "same_place d d"
  unfolding same_place_def by (rule exI [of _ "dc_m d"]) simp

lemma same_place_m [simp]: "same_place d (d\<lparr>dc_m := x\<rparr>)"
  by (auto simp: same_place_def)

lemma same_placeD:
  "same_place d d' \<Longrightarrow> dc_s d' = dc_s d \<and> dc_pos d' = dc_pos d \<and> dc_section d' = dc_section d \<and> dc_sPos d' = dc_sPos d"
  by (auto simp: same_place_def)

lemma decode_zones_place: "decode_zones p d m = Ret (e, d', m') \<Longrightarrow> d' = d"
  by (induction p d m rule: decode_zones.induct) (auto split: sum.splits go.splits)

lemma decode_address_place: "decode_address d ca base first second m = Ret (e, d', m') \<Longrightarrow> d' = d"
  by (auto simp: decode_address_def Let_def split: if_splits prod.splits option.splits)

lemma decodeConnectionData_place: "decodeConnectionData d m = Ret (e, d', m') \<Longrightarrow> d' = d"
  by (auto simp: decodeConnectionData_def Let_def dest: decode_address_place split: if_splits option.splits)

lemma decodeRepeatTimes_place: "decodeRepeatTimes d m = Ret (e, d', m') \<Longrightarrow> d' = d"
  by (auto simp: decodeRepeatTimes_def Let_def split: if_splits go.splits sum.splits)

lemma decodeMediaDescription_place: "decodeMediaDescription d m = Ret (e, d', m') \<Longrightarrow> same_place d d'"
  by (auto simp: decodeMediaDescription_def Let_def split: if_splits option.splits)

lemma decodeOrigin_place: "decodeOrigin d m = Ret (e, d', m') \<Longrightarrow> d' = d"
  by (auto simp: decodeOrigin_def Let_def split: if_splits option.splits)

lemma decodeTimingField_place: "decodeTimingField d m = Ret (e, d', m') \<Longrightarrow> d' = d"
  by (auto simp: decodeTimingField_def Let_def split: option.splits sum.splits)

lemma decodeBandwidth_place: "decodeBandwidth d m = Ret (e, d', m') \<Longrightarrow> same_place d d'"
  by (auto simp: decodeBandwidth_def Let_def split: if_splits option.splits prod.splits)

lemma decodeTimeZoneAdjustments_place: "decodeTimeZoneAdjustments d m = Ret (e, d', m') \<Longrightarrow> d' = d"
  by (auto simp: decodeTimeZoneAdjustments_def Let_def dest: decode_zones_place split: if_splits)

lemmas field_places =
  decodeConnectionData_place decodeRepeatTimes_place decodeMediaDescription_place decodeOrigin_place
  decodeTimingField_place decodeBandwidth_place decodeTimeZoneAdjustments_place

lemma decodeField_place: "decodeField d m = Ret (e, d', m') \<Longrightarrow> same_place d d'"
  unfolding decodeField_def
  by (auto split: if_splits option.splits prod.splits dest!: field_places
      simp: decodeVersion_def decodeAttribute_def decodeSessionName_def decodeSessionInfo_def decodeEmail_def
        decodePhone_def decodeURI_def decodeEncryption_def Let_def)

lemma decoder_next_Some:
  "decoder_next d = Some d' \<longleftrightarrow> dc_pos d < length (dc_s d) \<and>
     d' = d\<lparr>dc_l := dc_s d ! dc_pos d, dc_v := ln_Value (dc_s d ! dc_pos d), dc_t := ln_Type (dc_s d ! dc_pos d),
            dc_pos := dc_pos d + 1\<rparr>"
  by (auto simp: decoder_next_def Let_def)

definition count_field :: "Decoder \<Rightarrow> Decoder" where
  "count_field d = (if \<not> isZeroOrMore (dc_t d) then d\<lparr>dc_sPos := dc_sPos d + 1\<rparr> else d)"

lemma count_field_simps [simp]:
  "dc_s (count_field d) = dc_s d" "dc_pos (count_field d) = dc_pos d" "dc_section (count_field d) = dc_section d"
  "dc_t (count_field d) = dc_t d" "dc_v (count_field d) = dc_v d" "dc_m (count_field d) = dc_m d"
  by (simp_all add: count_field_def)

definition cursor_left :: "Decoder \<Rightarrow> nat" where
  "cursor_left d = length (dc_s d) - dc_pos d"

lemma cursor_left_field:
  assumes "decoder_next d = Some d1" and "decodeField (count_field d1) m = Ret (e, d2, m2)"
  shows "cursor_left d2 < cursor_left d"
  using same_placeD [OF decodeField_place [OF assms(2)]] assms(1) by (auto simp: cursor_left_def decoder_next_Some)

function timing_loop :: "Decoder \<Rightarrow> SdpMessage \<Rightarrow> decoded" where
  "timing_loop d m =
     (case decoder_next d of
        None \<Rightarrow> dec_ok d m
      | Some d \<Rightarrow>
          (case isExpected (dc_t d) (dc_section d) (dc_sPos d) of
             Some err \<Rightarrow> dec_err err ''decode failed'' d m
           | None \<Rightarrow>
               let d = count_field d
               in if dc_t d = TypeTiming \<or> dc_t d = TypeRepeatTimes then
                    (case decodeField d m of
                       Panic p \<Rightarrow> Panic p
                     | Ret (Some err, d, m) \<Rightarrow> dec_err err ''decode failed'' d m
                     | Ret (None, d, m) \<Rightarrow> timing_loop d m)
                  else dec_ok (d\<lparr>dc_pos := dc_pos d - 1\<rparr>) m))"
  by pat_completeness auto
termination
  by (relation "measure (cursor_left \<circ> fst)") (auto intro: cursor_left_field)

declare timing_loop.simps [simp del]

definition decodeTiming :: "Decoder \<Rightarrow> SdpMessage \<Rightarrow> decoded" where
  "decodeTiming d m = timing_loop (d\<lparr>dc_sPos := 0, dc_section := sectionTime\<rparr>) m"

function media_loop :: "Decoder \<Rightarrow> SdpMessage \<Rightarrow> decoded" where
  "media_loop d m =
     (case decoder_next d of
        None \<Rightarrow> dec_ok d m
      | Some d \<Rightarrow>
          (case isExpected (dc_t d) (dc_section d) (dc_sPos d) of
             Some err \<Rightarrow> dec_err err ''decode failed'' d m
           | None \<Rightarrow>
               if dc_t d = TypeMediaDescription \<and> dc_sPos d \<noteq> 0 then dec_ok (d\<lparr>dc_pos := dc_pos d - 1\<rparr>) m
               else
                 (case decodeField (count_field d) m of
                    Panic p \<Rightarrow> Panic p
                  | Ret (Some err, d, m) \<Rightarrow> dec_err err ''failed to decode field'' d m
                  | Ret (None, d, m) \<Rightarrow> media_loop d m)))"
  by pat_completeness auto
termination
  by (relation "measure (cursor_left \<circ> fst)") (auto intro: cursor_left_field)

declare media_loop.simps [simp del]

definition decodeMedia :: "Decoder \<Rightarrow> SdpMessage \<Rightarrow> decoded" where
  "decodeMedia d m =
     (case media_loop (d\<lparr>dc_sPos := 0, dc_section := sectionMedia, dc_m := zero_Media\<rparr>) m of
        Panic p \<Rightarrow> Panic p
      | Ret (Some err, d, m) \<Rightarrow> Ret (Some err, d, m)
      | Ret (None, d, m) \<Rightarrow> dec_ok d (m\<lparr>sm_Medias := sm_Medias m @ [dc_m d]\<rparr>))"

text \<open>Neither loop moves the cursor back past where it started.\<close>

lemma timing_loop_cursor:
  "timing_loop d m = Ret (None, d', m') \<Longrightarrow> dc_s d' = dc_s d \<and> cursor_left d' \<le> cursor_left d"
proof (induction d m rule: timing_loop.induct)
  case (1 d m)
  show ?case
  proof (cases "decoder_next d")
    case None
    then show ?thesis using 1(2) by (subst (asm) timing_loop.simps) simp
  next
    case (Some d1)
    then have d1: "dc_s d1 = dc_s d" "cursor_left (d1\<lparr>dc_sPos := x, dc_pos := dc_pos d1 - 1\<rparr>) = cursor_left d" for x
      by (auto simp: decoder_next_Some cursor_left_def)
    have expected: "isExpected (dc_t d1) (dc_section d1) (dc_sPos d1) = None"
      using 1(2) Some by (subst (asm) timing_loop.simps) (auto split: option.splits)
    show ?thesis
    proof (cases "dc_t d1 = TypeTiming \<or> dc_t d1 = TypeRepeatTimes")
      case True
      then obtain d2 m2 where f: "decodeField (count_field d1) m = Ret (None, d2, m2)" "timing_loop d2 m2 = Ret (None, d', m')"
        using 1(2) Some expected
        by (subst (asm) timing_loop.simps) (auto simp: Let_def split: go.splits option.splits)
      have "dc_s d2 = dc_s d" using same_placeD [OF decodeField_place [OF f(1)]] d1 by simp
      moreover have "cursor_left d2 < cursor_left d" using cursor_left_field [OF Some f(1)] .
      ultimately show ?thesis
        using 1(1) [OF Some expected refl _ f(1) refl refl refl f(2)] True by auto
    next
      case False
      then have "d' = (count_field d1)\<lparr>dc_pos := dc_pos d1 - 1\<rparr>"
        using 1(2) Some expected by (subst (asm) timing_loop.simps) (simp add: Let_def)
      then show ?thesis using d1 Some by (auto simp: count_field_def decoder_next_Some cursor_left_def)
    qed
  qed
qed

lemma media_loop_cursor:
  "media_loop d m = Ret (None, d', m') \<Longrightarrow> dc_s d' = dc_s d \<and> cursor_left d' \<le> cursor_left d"
proof (induction d m rule: media_loop.induct)
  case (1 d m)
  show ?case
  proof (cases "decoder_next d")
    case None
    then show ?thesis using 1(2) by (subst (asm) media_loop.simps) simp
  next
    case (Some d1)
    have expected: "isExpected (dc_t d1) (dc_section d1) (dc_sPos d1) = None"
      using 1(2) Some by (subst (asm) media_loop.simps) (auto split: option.splits)
    show ?thesis
    proof (cases "dc_t d1 = TypeMediaDescription \<and> dc_sPos d1 \<noteq> 0")
      case False
      then obtain d2 m2 where f: "decodeField (count_field d1) m = Ret (None, d2, m2)" "media_loop d2 m2 = Ret (None, d', m')"
        using 1(2) Some expected
        by (subst (asm) media_loop.simps) (auto split: go.splits option.splits if_splits)
      have "dc_s d2 = dc_s d" using same_placeD [OF decodeField_place [OF f(1)]] Some by (auto simp: decoder_next_Some)
      moreover have "cursor_left d2 < cursor_left d" using cursor_left_field [OF Some f(1)] .
      ultimately show ?thesis
        using 1(1) [OF Some expected False f(1) refl refl refl f(2)] by auto
    next
      case True
      then have "d' = d1\<lparr>dc_pos := dc_pos d1 - 1\<rparr>"
        using 1(2) Some expected by (subst (asm) media_loop.simps) simp
      then show ?thesis using Some by (auto simp: decoder_next_Some cursor_left_def)
    qed
  qed
qed

text \<open>A section that is entered at its own first field reads at least that line.\<close>

lemma decodeTiming_cursor:
  assumes "decodeTiming d m = Ret (None, d', m')" and "dc_pos d < length (dc_s d)"
    and "ln_Type (dc_s d ! dc_pos d) = TypeTiming"
  shows "dc_s d' = dc_s d \<and> cursor_left d' < cursor_left d"
proof -
  let ?d = "d\<lparr>dc_sPos := 0, dc_section := sectionTime\<rparr>"
  obtain d1 where d1: "decoder_next ?d = Some d1" "dc_t d1 = TypeTiming"
    using assms(2,3) by (auto simp: decoder_next_def Let_def)
  obtain d2 m2 where f: "decodeField (count_field d1) m = Ret (None, d2, m2)" "timing_loop d2 m2 = Ret (None, d', m')"
    using assms(1) d1 unfolding decodeTiming_def
    by (subst (asm) timing_loop.simps) (auto simp: Let_def split: go.splits option.splits)
  have "dc_s d2 = dc_s d"
    using same_placeD [OF decodeField_place [OF f(1)]] d1(1) by (auto simp: decoder_next_Some)
  moreover have "cursor_left d2 < cursor_left ?d" using cursor_left_field [OF d1(1) f(1)] .
  ultimately show ?thesis using timing_loop_cursor [OF f(2)] by (auto simp: cursor_left_def)
qed

lemma decodeMedia_cursor:
  assumes "decodeMedia d m = Ret (None, d', m')" and "dc_pos d < length (dc_s d)"
    and "ln_Type (dc_s d ! dc_pos d) = TypeMediaDescription"
  shows "dc_s d' = dc_s d \<and> cursor_left d' < cursor_left d"
proof -
  let ?d = "d\<lparr>dc_sPos := 0, dc_section := sectionMedia, dc_m := zero_Media\<rparr>"
  obtain m1 where l: "media_loop ?d m = Ret (None, d', m1)"
    using assms(1) by (auto simp: decodeMedia_def split: go.splits option.splits)
  obtain d1 where d1: "decoder_next ?d = Some d1" "dc_t d1 = TypeMediaDescription" "dc_sPos d1 = 0"
    using assms(2,3) by (auto simp: decoder_next_def Let_def)
  obtain d2 m2 where f: "decodeField (count_field d1) m = Ret (None, d2, m2)" "media_loop d2 m2 = Ret (None, d', m1)"
    using l d1 by (subst (asm) media_loop.simps) (auto split: go.splits option.splits)
  have "dc_s d2 = dc_s d"
    using same_placeD [OF decodeField_place [OF f(1)]] d1(1) by (auto simp: decoder_next_Some)
  moreover have "cursor_left d2 < cursor_left ?d" using cursor_left_field [OF d1(1) f(1)] .
  ultimately show ?thesis using media_loop_cursor [OF f(2)] by (auto simp: cursor_left_def)
qed

lemma step_back:
  assumes "decoder_next d = Some d1"
  shows "dc_pos ((count_field d1)\<lparr>dc_pos := dc_pos (count_field d1) - 1\<rparr>) < length (dc_s (count_field d1))"
    "dc_s (count_field d1) ! (dc_pos (count_field d1) - 1) = dc_s d ! dc_pos d"
    "dc_t d1 = ln_Type (dc_s d ! dc_pos d)"
    "cursor_left ((count_field d1)\<lparr>dc_pos := dc_pos (count_field d1) - 1\<rparr>) = cursor_left d"
  using assms by (auto simp: decoder_next_Some cursor_left_def)

text \<open>
  \<open>decodeSession\<close>: a timing or media line is left to its own loop, from the line itself.
  Afterwards the position in the ordering is the one before, and the section the session's.
\<close>

function session_loop :: "Decoder \<Rightarrow> SdpMessage \<Rightarrow> decoded" where
  "session_loop d m =
     (case decoder_next d of
        None \<Rightarrow> dec_ok d m
      | Some d1 \<Rightarrow>
          (case isExpected (dc_t d1) (dc_section d1) (dc_sPos d1) of
             Some err \<Rightarrow> dec_err err ''decode failed'' d1 m
           | None \<Rightarrow>
               let d2 = count_field d1
               in if dc_t d2 = TypeTiming then
                    (case decodeTiming (d2\<lparr>dc_pos := dc_pos d2 - 1\<rparr>) m of
                       Panic p \<Rightarrow> Panic p
                     | Ret (Some err, d3, m) \<Rightarrow> dec_err err ''failed to decode timing'' d3 m
                     | Ret (None, d3, m) \<Rightarrow>
                         session_loop (d3\<lparr>dc_sPos := dc_sPos d2, dc_section := sectionSession\<rparr>) m)
                  else if dc_t d2 = TypeMediaDescription then
                    (case decodeMedia (d2\<lparr>dc_pos := dc_pos d2 - 1\<rparr>) m of
                       Panic p \<Rightarrow> Panic p
                     | Ret (Some err, d3, m) \<Rightarrow> dec_err err ''failed to decode media'' d3 m
                     | Ret (None, d3, m) \<Rightarrow>
                         session_loop (d3\<lparr>dc_sPos := dc_sPos d2, dc_section := sectionSession\<rparr>) m)
                  else
                    (case decodeField d2 m of
                       Panic p \<Rightarrow> Panic p
                     | Ret (Some err, d3, m) \<Rightarrow> dec_err err ''failed to decode field'' d3 m
                     | Ret (None, d3, m) \<Rightarrow> session_loop d3 m)))"
  by pat_completeness auto
termination
proof (relation "measure (cursor_left \<circ> fst)", goal_cases)
  case (2 d m d1 d2 r e q d3 m3)
  then show ?case
    using decodeTiming_cursor [of "d2\<lparr>dc_pos := dc_pos d2 - 1\<rparr>" m d3 m3] step_back [of d d1]
    by (auto simp: cursor_left_def)
next
  case (3 d m d1 d2 r e q d3 m3)
  then show ?case
    using decodeMedia_cursor [of "d2\<lparr>dc_pos := dc_pos d2 - 1\<rparr>" m d3 m3] step_back [of d d1]
    by (auto simp: cursor_left_def)
next
  case (4 d m d1 d2 r e q d3 m3)
  then show ?case by (auto intro: cursor_left_field)
qed simp

declare session_loop.simps [simp del]

definition decodeSession_sdp :: "Decoder \<Rightarrow> SdpMessage \<Rightarrow> decoded" where
  "decodeSession_sdp d m = session_loop (d\<lparr>dc_sPos := 0, dc_section := sectionSession\<rparr>) m"

definition Decoder_Decode :: "Decoder \<Rightarrow> SdpMessage \<Rightarrow> decoded" where
  "Decoder_Decode d m = decodeSession_sdp d m"

section \<open>Outcomes\<close>

text \<open>Only a repeat-times or a time-zones field can panic, and only a known field is expected.\<close>

definition known_types :: "int set" where
  "known_types = {TypeProtocolVersion, TypeOrigin, TypeSessionName, TypeSessionInformation, TypeURI, TypeEmail,
     TypePhone, TypeConnectionData, TypeBandwidth, TypeTiming, TypeRepeatTimes, TypeTimeZones, TypeEncryptionKey,
     TypeAttribute, TypeMediaDescription}"

lemma in_ordering_set: "in_ordering t os \<Longrightarrow> t \<in> set os"
  by (induction os) (auto split: if_splits)

lemma getOrdering_known: "set (getOrdering s) \<subseteq> known_types"
  by (cases s) (auto simp: getOrdering_def orderingSession_def orderingMedia_def orderingTime_def known_types_def)

lemma isExpected_known: "isExpected t s p = None \<Longrightarrow> t \<in> known_types"
proof (induction t s p rule: isExpected.induct)
  case (1 t s p)
  show ?case
  proof (cases "length (getOrdering s) > p \<and> in_ordering t (drop p (getOrdering s))")
    case True
    then have "t \<in> set (getOrdering s)" using in_ordering_set in_set_dropD by fast
    then show ?thesis using getOrdering_known by blast
  next
    case False
    then show ?thesis
      using 1 by (cases s; subst (asm) (2) isExpected.simps) (auto split: if_splits)
  qed
qed

abbreviation may_panic :: "int \<Rightarrow> bool" where
  "may_panic t \<equiv> t = TypeRepeatTimes \<or> t = TypeTimeZones"

lemma decode_address_returns: "decode_address d ca base first second m \<noteq> Panic p"
  by (auto simp: decode_address_def Let_def split: if_splits prod.splits option.splits)

lemma decodeConnectionData_returns: "decodeConnectionData d m \<noteq> Panic p"
  by (auto simp: decodeConnectionData_def Let_def decode_address_returns split: if_splits option.splits)

lemma decodeField_panics:
  assumes "decodeField d m = Panic p" and "dc_t d \<in> known_types"
  shows "may_panic (dc_t d)"
proof (rule ccontr)
  assume n: "\<not> may_panic (dc_t d)"
  have "decodeVersion d m \<noteq> Panic p" "decodeAttribute d m \<noteq> Panic p" "decodeSessionName d m \<noteq> Panic p"
    "decodeSessionInfo d m \<noteq> Panic p" "decodeEmail d m \<noteq> Panic p" "decodePhone d m \<noteq> Panic p" "decodeURI d m \<noteq> Panic p"
    "decodeEncryption d m \<noteq> Panic p" "decodeBandwidth d m \<noteq> Panic p" "decodeTimingField d m \<noteq> Panic p"
    "decodeOrigin d m \<noteq> Panic p" "decodeMediaDescription d m \<noteq> Panic p"
    by (auto simp: decodeVersion_def decodeAttribute_def decodeSessionName_def decodeSessionInfo_def decodeEmail_def
        decodePhone_def decodeURI_def decodeEncryption_def decodeBandwidth_def decodeTimingField_def decodeOrigin_def
        decodeMediaDescription_def Let_def split: option.splits sum.splits prod.splits if_splits)
  then show False
    using assms n decodeConnectionData_returns unfolding decodeField_def known_types_def by (auto split: if_splits)
qed

text \<open>What a loop promises: it stops at the end of the lines or steps back; a panic is a line's.\<close>

definition panic_line :: "Session \<Rightarrow> bool" where
  "panic_line s \<longleftrightarrow> list_ex (\<lambda>l. may_panic (ln_Type l)) s"

lemma next_line:
  assumes "decoder_next d = Some d1"
  shows "dc_s d1 = dc_s d" "may_panic (dc_t d1) \<Longrightarrow> panic_line (dc_s d)"
  using assms by (auto simp: decoder_next_Some panic_line_def list_ex_iff)

lemma field_panic:
  assumes "decoder_next d = Some d1" and "isExpected (dc_t d1) sec pos = None"
    and "decodeField (count_field d1) m = Panic p"
  shows "panic_line (dc_s d)"
  using decodeField_panics [OF assms(3)] isExpected_known [OF assms(2)] next_line [OF assms(1)] by auto

lemma timing_loop_panic: "timing_loop d m = Panic p \<Longrightarrow> panic_line (dc_s d)"
proof (induction d m rule: timing_loop.induct)
  case (1 d m)
  obtain d1 where d1: "decoder_next d = Some d1" and e: "isExpected (dc_t d1) (dc_section d1) (dc_sPos d1) = None"
    and t: "dc_t d1 = TypeTiming \<or> dc_t d1 = TypeRepeatTimes"
    using 1(2) by (subst (asm) timing_loop.simps) (auto simp: Let_def split: option.splits if_splits)
  show ?case
  proof (cases "decodeField (count_field d1) m")
    case (Panic q)
    then show ?thesis using field_panic [OF d1 e] by blast
  next
    case (Ret r)
    then obtain d2 m2 where f: "decodeField (count_field d1) m = Ret (None, d2, m2)" "timing_loop d2 m2 = Panic p"
      using 1(2) d1 e t by (subst (asm) timing_loop.simps) (auto simp: Let_def split: option.splits prod.splits)
    have "dc_s d2 = dc_s d" using same_placeD [OF decodeField_place [OF f(1)]] next_line(1) [OF d1] by simp
    then show ?thesis using 1(1) [OF d1 e refl _ f(1) refl refl refl f(2)] t by simp
  qed
qed

lemma media_loop_panic: "media_loop d m = Panic p \<Longrightarrow> panic_line (dc_s d)"
proof (induction d m rule: media_loop.induct)
  case (1 d m)
  obtain d1 where d1: "decoder_next d = Some d1" and e: "isExpected (dc_t d1) (dc_section d1) (dc_sPos d1) = None"
    and t: "\<not> (dc_t d1 = TypeMediaDescription \<and> dc_sPos d1 \<noteq> 0)"
    using 1(2) by (subst (asm) media_loop.simps) (auto split: option.splits if_splits)
  show ?case
  proof (cases "decodeField (count_field d1) m")
    case (Panic q)
    then show ?thesis using field_panic [OF d1 e] by blast
  next
    case (Ret r)
    then obtain d2 m2 where f: "decodeField (count_field d1) m = Ret (None, d2, m2)" "media_loop d2 m2 = Panic p"
      using 1(2) d1 e t by (subst (asm) media_loop.simps) (auto split: option.splits prod.splits if_splits)
    have "dc_s d2 = dc_s d" using same_placeD [OF decodeField_place [OF f(1)]] next_line(1) [OF d1] by simp
    then show ?thesis using 1(1) [OF d1 e t f(1) refl refl refl f(2)] by simp
  qed
qed

lemma section_panic:
  "decodeTiming d m = Panic p \<Longrightarrow> panic_line (dc_s d)" "decodeMedia d m = Panic p \<Longrightarrow> panic_line (dc_s d)"
  using timing_loop_panic media_loop_panic
  by (fastforce simp: decodeTiming_def decodeMedia_def split: go.splits option.splits)+

definition outcome_ok :: "Session \<Rightarrow> decoded \<Rightarrow> bool" where
  "outcome_ok s r \<longleftrightarrow>
     (case r of
        Panic _ \<Rightarrow> panic_line s
      | Ret (Some _, d, _) \<Rightarrow> True
      | Ret (None, d, _) \<Rightarrow> dc_s d = s \<and> length s \<le> dc_pos d)"

text \<open>How each branch of the loop ends.\<close>

definition continue_with :: "decoded \<Rightarrow> string \<Rightarrow> (Decoder \<Rightarrow> SdpMessage \<Rightarrow> decoded) \<Rightarrow> decoded" where
  "continue_with r msg k =
     (case r of Panic p \<Rightarrow> Panic p | Ret (Some err, d, m) \<Rightarrow> dec_err err msg d m | Ret (None, d, m) \<Rightarrow> k d m)"

lemma continue_with_outcome:
  assumes "\<And>p. r = Panic p \<Longrightarrow> panic_line s" and "\<And>d m. r = Ret (None, d, m) \<Longrightarrow> outcome_ok s (k d m)"
  shows "outcome_ok s (continue_with r msg k)"
proof (cases r)
  case (Ret x)
  obtain e d m where x: "x = (e, d, m)" by (cases x)
  then show ?thesis using Ret assms(2) by (cases e) (simp_all add: continue_with_def outcome_ok_def)
next
  case (Panic p)
  then show ?thesis using assms(1) by (simp add: continue_with_def outcome_ok_def)
qed

lemma session_loop_step:
  assumes "decoder_next d = Some d1" and "isExpected (dc_t d1) (dc_section d1) (dc_sPos d1) = None"
  shows "session_loop d m =
    (let d2 = count_field d1; back = d2\<lparr>dc_pos := dc_pos d2 - 1\<rparr>;
         again = (\<lambda>d3 m. session_loop (d3\<lparr>dc_sPos := dc_sPos d2, dc_section := sectionSession\<rparr>) m)
     in if dc_t d2 = TypeTiming then continue_with (decodeTiming back m) ''failed to decode timing'' again
        else if dc_t d2 = TypeMediaDescription then continue_with (decodeMedia back m) ''failed to decode media'' again
        else continue_with (decodeField d2 m) ''failed to decode field'' session_loop)"
  using assms by (subst session_loop.simps) (simp add: Let_def continue_with_def)

lemma session_loop_outcome: "outcome_ok (dc_s d) (session_loop d m)"
proof (induction d m rule: session_loop.induct)
  case (1 d m)
  show ?case
  proof (cases "decoder_next d")
    case None
    then show ?thesis by (subst session_loop.simps) (auto simp: outcome_ok_def decoder_next_def Let_def split: if_splits)
  next
    case (Some d1)
    note s1 = next_line(1) [OF Some]
    show ?thesis
    proof (cases "isExpected (dc_t d1) (dc_section d1) (dc_sPos d1)")
      case (Some err)
      then show ?thesis using \<open>decoder_next d = Some d1\<close> by (subst session_loop.simps) (simp add: outcome_ok_def)
    next
      case None
      let ?d2 = "count_field d1" and ?prev = "(count_field d1)\<lparr>dc_pos := dc_pos (count_field d1) - 1\<rparr>"
      let ?again = "\<lambda>d3. session_loop (d3\<lparr>dc_sPos := dc_sPos ?d2, dc_section := sectionSession\<rparr>)"
      have bk: "dc_pos ?prev < length (dc_s ?prev)" "dc_s ?prev ! dc_pos ?prev = dc_s d ! dc_pos d"
        using step_back [OF Some] by simp_all
      have "outcome_ok (dc_s d) (continue_with (decodeTiming ?prev m) ''failed to decode timing'' ?again)"
        if t: "dc_t ?d2 = TypeTiming"
      proof (rule continue_with_outcome)
        fix p assume "decodeTiming ?prev m = Panic p"
        then show "panic_line (dc_s d)" using section_panic(1) s1 by fastforce
      next
        fix d3 m3 assume r: "decodeTiming ?prev m = Ret (None, d3, m3)"
        have "dc_s d3 = dc_s d" using decodeTiming_cursor [OF r bk(1)] bk(2) t step_back(3) [OF Some] s1 by simp
        then show "outcome_ok (dc_s d) (?again d3 m3)"
          using 1(1) [OF Some None refl t r refl refl refl] by simp
      qed
      moreover have "outcome_ok (dc_s d) (continue_with (decodeMedia ?prev m) ''failed to decode media'' ?again)"
        if t: "dc_t ?d2 \<noteq> TypeTiming" "dc_t ?d2 = TypeMediaDescription"
      proof (rule continue_with_outcome)
        fix p assume "decodeMedia ?prev m = Panic p"
        then show "panic_line (dc_s d)" using section_panic(2) s1 by fastforce
      next
        fix d3 m3 assume r: "decodeMedia ?prev m = Ret (None, d3, m3)"
        have "dc_s d3 = dc_s d" using decodeMedia_cursor [OF r bk(1)] bk(2) t step_back(3) [OF Some] s1 by simp
        then show "outcome_ok (dc_s d) (?again d3 m3)"
          using 1(2) [OF Some None refl t r refl refl refl] by simp
      qed
      moreover have "outcome_ok (dc_s d) (continue_with (decodeField ?d2 m) ''failed to decode field'' session_loop)"
        if t: "dc_t ?d2 \<noteq> TypeTiming" "dc_t ?d2 \<noteq> TypeMediaDescription"
      proof (rule continue_with_outcome)
        fix p assume "decodeField ?d2 m = Panic p"
        then show "panic_line (dc_s d)" using field_panic [OF Some None] by blast
      next
        fix d3 m3 assume r: "decodeField ?d2 m = Ret (None, d3, m3)"
        have "dc_s d3 = dc_s d" using same_placeD [OF decodeField_place [OF r]] s1 by simp
        then show "outcome_ok (dc_s d) (session_loop d3 m3)"
          using 1(3) [OF Some None refl t r refl refl refl] by simp
      qed
      ultimately show ?thesis unfolding session_loop_step [OF Some None] Let_def by simp
    qed
  qed
qed

lemma Decoder_Decode_outcome: "outcome_ok s (Decoder_Decode (NewDecoder s) m)"
  using session_loop_outcome [of "(NewDecoder s)\<lparr>dc_sPos := 0, dc_section := sectionSession\<rparr>" m]
  by (simp add: Decoder_Decode_def decodeSession_sdp_def NewDecoder_def)

end
