(* ===== verification/Sdp_Roundtrip.thy ===== *)
theory Sdp_Roundtrip
  imports Sdp_Decoder
begin

text \<open>
  Encoding an SDP message, printing it, scanning the text and decoding the lines gives the
  message back. The proof follows the encoder: one lemma says what each field decodes to, a
  step lemma moves a section's loop over one line, and the messages are walked line by line.
\<close>

section \<open>Numbers\<close>

definition go_int :: "int \<Rightarrow> bool" where
  "go_int i \<longleftrightarrow> - max_int - 1 \<le> i \<and> i \<le> max_int"

lemma chr_digit: "0 \<le> d \<Longrightarrow> d < 10 \<Longrightarrow> chr (48 + d) = digit_char (nat d)"
  by (simp add: chr_def digit_char_def nat_add_distrib)

lemma uint_buf_dec: "0 \<le> n \<Longrightarrow> uint_buf n buf = show_dec (nat n) @ buf"
proof (induction n buf rule: uint_buf.induct)
  case (1 n buf)
  show ?case
  proof (cases "10 \<le> n")
    case True
    have "uint_buf n buf = uint_buf (n div 10) (chr (48 + n mod 10) # buf)"
      using True by (subst uint_buf.simps) (simp add: Let_def minus_div_mult_eq_mod)
    also have "\<dots> = show_dec (nat (n div 10)) @ chr (48 + n mod 10) # buf"
      using 1(1) [OF True refl] True by (simp add: minus_div_mult_eq_mod)
    also have "\<dots> = show_dec (nat n) @ buf"
      using True by (subst (2) show_base.simps) (simp add: chr_digit nat_div_distrib nat_mod_distrib nat_less_iff)
    finally show ?thesis .
  next
    case False
    then show ?thesis
      using 1(2) by (subst uint_buf.simps, subst show_base.simps) (simp add: chr_digit nat_less_iff)
  qed
qed

lemma appendUint_returns: "0 \<le> n \<Longrightarrow> appendUint dst n = Ret (dst @ show_dec (nat n))"
  by (simp add: appendUint_def uint_buf_dec)

lemma show_dec_0: "show_dec 0 = ''0''"
  by (subst show_base.simps) (simp add: digit_chars)

lemma appendRune_char: "(of_char c :: nat) < 0x80 \<Longrightarrow> appendRune v (code c) = v @ [c]"
  by (simp add: appendRune_def EncodeRune_char)

lemma append_texts [simp]:
  "appendSpace v = v @ '' ''" "appendInt v i = v @ itoa i" "appendByte v b = v @ show_dec (unat b)"
proof -
  show "appendSpace v = v @ '' ''" by (simp add: appendSpace_def appendRune_char)
  show "appendInt v i = v @ itoa i"
    by (simp add: appendInt_def appendRune_char uint_buf_dec itoa_def show_dec_0)
  show "appendByte v b = v @ show_dec (unat b)"
    by (auto simp: appendByte_def appendRune_char uint_buf_dec show_dec_0 word_gt_0)
qed

lemma atoi_nat_show_dec: "atoi_nat (show_dec n) = Some n"
  by (simp add: atoi_nat_def show_dec_digits show_dec_value)

lemma Atoi_itoa: "go_int i \<Longrightarrow> Atoi (itoa i) = Some i"
  using Atoi_show_dec [of "nat i"]
  by (auto simp: itoa_def go_int_def Atoi_def atoi_nat_show_dec)

lemma digits_avoid: "\<not> is_digit c \<Longrightarrow> c \<notin> set (show_dec n)"
  using show_dec_digits [of n] by (auto simp: list_all_iff)

lemma itoa_avoid: "\<not> is_digit c \<Longrightarrow> c \<noteq> CHR ''-'' \<Longrightarrow> c \<notin> set (itoa i)"
  by (simp add: itoa_def digits_avoid)

lemma itoa_nonempty [simp]: "itoa i \<noteq> []"
  by (simp add: itoa_def)

lemma not_digits: "\<not> is_digit CHR '' ''" "\<not> is_digit CHR ''/''" "\<not> is_digit CHR '':''"
  by (simp_all add: is_digit_def)

section \<open>What each field decodes to\<close>

lemma Types_distinct:
  "TypeProtocolVersion = 118" "TypeOrigin = 111" "TypeSessionName = 115" "TypeSessionInformation = 105"
  "TypeURI = 117" "TypeEmail = 101" "TypePhone = 112" "TypeConnectionData = 99" "TypeBandwidth = 98"
  "TypeTiming = 116" "TypeRepeatTimes = 114" "TypeTimeZones = 122" "TypeEncryptionKey = 107"
  "TypeAttribute = 97" "TypeMediaDescription = 109"
  by (simp_all add: Type_defs code_def)

definition reads :: "int \<Rightarrow> string \<Rightarrow> Decoder \<Rightarrow> bool" where
  "reads t v d \<longleftrightarrow> dc_t d = t \<and> dc_v d = v"

lemma kv_loop_value: "kv_loop v k w True = (k, w @ v)"
  by (induction v arbitrary: w) auto

lemma kv_loop_key: "CHR '':'' \<notin> set k \<Longrightarrow> kv_loop (k @ r) k0 [] False = kv_loop r (k0 @ k) [] False"
  by (induction k arbitrary: k0) auto

lemma kv_loop_pair:
  "CHR '':'' \<notin> set k \<Longrightarrow> kv_loop (k @ CHR '':'' # v) [] [] False = (k, v)"
  "CHR '':'' \<notin> set k \<Longrightarrow> kv_loop k [] [] False = (k, [])"
  using kv_loop_key [of k "[]" "[]"] by (simp_all add: kv_loop_key kv_loop_value)

lemma field_version: "reads TypeProtocolVersion (itoa i) d \<Longrightarrow> go_int i \<Longrightarrow> decodeField d m = dec_ok d (m\<lparr>sm_Version := i\<rparr>)"
  by (simp add: reads_def decodeField_def decodeVersion_def Atoi_itoa)

lemma field_text:
  "reads TypeSessionName v d \<Longrightarrow> decodeField d m = dec_ok d (m\<lparr>sm_Name := v\<rparr>)"
  "reads TypeSessionInformation v d \<Longrightarrow> dc_section d = sectionSession \<Longrightarrow> decodeField d m = dec_ok d (m\<lparr>sm_Info := v\<rparr>)"
  "reads TypeSessionInformation v d \<Longrightarrow> dc_section d = sectionMedia \<Longrightarrow>
     decodeField d m = dec_ok (d\<lparr>dc_m := (dc_m d)\<lparr>me_Title := v\<rparr>\<rparr>) m"
  "reads TypeURI v d \<Longrightarrow> decodeField d m = dec_ok d (m\<lparr>sm_URI := v\<rparr>)"
  "reads TypeEmail v d \<Longrightarrow> decodeField d m = dec_ok d (m\<lparr>sm_Email := v\<rparr>)"
  "reads TypePhone v d \<Longrightarrow> decodeField d m = dec_ok d (m\<lparr>sm_Phone := v\<rparr>)"
  by (simp_all add: reads_def decodeField_def Types_distinct decodeSessionName_def decodeSessionInfo_def
      decodeURI_def decodeEmail_def decodePhone_def)

definition codable_origin :: "Origin \<Rightarrow> bool" where
  "codable_origin og \<longleftrightarrow>
     go_int (og_SessionID og) \<and> go_int (og_SessionVersion og) \<and>
     og_NetworkType og \<noteq> [] \<and> og_AddressType og \<noteq> [] \<and>
     list_all (\<lambda>p. CHR '' '' \<notin> set p) [og_Username og, og_NetworkType og, og_AddressType og, og_Address og]"

definition origin_text :: "Origin \<Rightarrow> string" where
  "origin_text og = join_with CHR '' '' [og_Username og, itoa (og_SessionID og), itoa (og_SessionVersion og),
     og_NetworkType og, og_AddressType og, og_Address og]"

lemma AddOrigin_text:
  "codable_origin og \<Longrightarrow> Session_AddOrigin s og = s @ [\<lparr>ln_Type = TypeOrigin, ln_Value = origin_text og\<rparr>]"
  by (simp add: Session_AddOrigin_def Session_append_def getLine_def origin_text_def codable_origin_def Let_def
      Origin_getNetworkType_def Origin_getAddressType_def getDefault_def getAddressType_def)

lemma field_origin:
  assumes "reads TypeOrigin (origin_text og) d" and "codable_origin og"
  shows "decodeField d m = dec_ok d (m\<lparr>sm_Origin := og\<rparr>)"
proof -
  have "subfields (origin_text og) = [og_Username og, itoa (og_SessionID og), itoa (og_SessionVersion og),
     og_NetworkType og, og_AddressType og, og_Address og]"
    unfolding subfields_def origin_text_def using assms(2)
    by (intro split_on_join) (auto simp: codable_origin_def itoa_avoid not_digits)
  then show ?thesis
    using assms by (simp add: reads_def decodeField_def Types_distinct decodeOrigin_def codable_origin_def Atoi_itoa)
qed

definition codable_connection :: "ConnectionData \<Rightarrow> bool" where
  "codable_connection c \<longleftrightarrow>
     cn_NetworkType c \<noteq> [] \<and> cn_AddressType c \<noteq> [] \<and>
     CHR '' '' \<notin> set (cn_NetworkType c) \<and> CHR '' '' \<notin> set (cn_AddressType c) \<and>
     length (cn_IP c) = 16 \<and> take 12 (cn_IP c) = v4_prefix \<and>
     (cn_TTL c = 0 \<longrightarrow> cn_Addresses c = 0)"

definition address_text :: "ConnectionData \<Rightarrow> string" where
  "address_text c = dotted (drop 12 (cn_IP c)) @
     (if cn_TTL c = 0 then [] else CHR ''/'' # show_dec (unat (cn_TTL c)) @
        (if cn_Addresses c = 0 then [] else CHR ''/'' # show_dec (unat (cn_Addresses c))))"

definition connection_text :: "ConnectionData \<Rightarrow> string" where
  "connection_text c = cn_NetworkType c @ CHR '' '' # cn_AddressType c @ CHR '' '' # address_text c"

lemma appendIPv4_dotted: "length ip = 4 \<Longrightarrow> appendIPv4 dst ip = dst @ dotted ip"
  using length_4 [of ip] by (auto simp: appendIPv4_def dotted_eq uint_buf_dec upt_rec nth_Cons' nat_uint_eq)

lemma AddConnectionData_text:
  assumes "codable_connection c"
  shows "Session_AddConnectionData s c = s @ [\<lparr>ln_Type = TypeConnectionData, ln_Value = connection_text c\<rparr>]"
proof -
  have "To4 (cn_IP c) = Some (drop 12 (cn_IP c))" using assms by (simp add: To4_def codable_connection_def)
  then have ip: "appendIP v (cn_IP c) = v @ dotted (drop 12 (cn_IP c))" for v
    using assms by (simp add: appendIP_def appendIPv4_dotted codable_connection_def)
  have "cn_TTL c = 0 \<Longrightarrow> cn_Addresses c = 0" using assms by (simp add: codable_connection_def)
  then have "appendAddress c v = v @ address_text c" for v
    by (auto simp: appendAddress_def ip address_text_def Let_def appendRune_char word_gt_0)
  then show ?thesis
    using assms by (simp add: Session_AddConnectionData_def Session_append_def getLine_def connection_text_def Let_def
        ConnectionData_getNetworkType_def ConnectionData_getAddressType_def getDefault_def getAddressTypeIP_def
        codable_connection_def)
qed

lemma three_parts_run:
  "sep \<notin> set p \<Longrightarrow> three_parts sep (p @ r) 0 (a, b, c) = three_parts sep r 0 (a @ p, b, c)"
  "sep \<notin> set p \<Longrightarrow> three_parts sep (p @ r) (Suc 0) (a, b, c) = three_parts sep r (Suc 0) (a, b @ p, c)"
  "sep \<notin> set p \<Longrightarrow> three_parts sep (p @ r) (Suc (Suc 0)) (a, b, c) = three_parts sep r (Suc (Suc 0)) (a, b, c @ p)"
  by (induction p arbitrary: a b c) auto

lemma three_parts_all:
  "sep \<notin> set a \<Longrightarrow> three_parts sep a 0 ([], [], []) = Some (a, [], [])"
  "sep \<notin> set a \<Longrightarrow> sep \<notin> set b \<Longrightarrow> three_parts sep (a @ sep # b) 0 ([], [], []) = Some (a, b, [])"
  "sep \<notin> set a \<Longrightarrow> sep \<notin> set b \<Longrightarrow> sep \<notin> set c \<Longrightarrow>
     three_parts sep (a @ sep # b @ sep # c) 0 ([], [], []) = Some (a, b, c)"
  using three_parts_run(1) [of sep a "[]"] three_parts_run(2) [of sep b "[]"] three_parts_run(3) [of sep c "[]"]
  by (simp_all add: three_parts_run)

lemma decodeByte_show: "decodeByte (show_dec (unat (b :: byte))) = (b, None)"
proof -
  have "uint b < 256" using uint_lt2p [of b] by simp
  then have "Atoi (show_dec (unat b)) = Some (uint b)" "uint b \<le> 32767"
    using Atoi_show_dec [of "unat b"] by (simp_all add: max_int_def)
  moreover have "- 32768 \<le> uint b" using uint_ge_0 [of b] by linarith
  ultimately show ?thesis by (simp add: decodeByte_def)
qed

lemma dotted_avoid: "length ip = 4 \<Longrightarrow> \<not> is_digit c \<Longrightarrow> c \<noteq> CHR ''.'' \<Longrightarrow> c \<notin> set (dotted ip)"
  using length_4 [of ip] by (auto simp: dotted_eq digits_avoid)

lemma field_connection:
  assumes "reads TypeConnectionData (connection_text c) d" and "codable_connection c"
    and "cn_TTL (sm_Connection m) = 0" and "cn_Addresses (sm_Connection m) = 0"
  shows "decodeField d m = dec_ok d (m\<lparr>sm_Connection := c\<rparr>)"
proof -
  define q where "q = drop 12 (cn_IP c)"
  have q: "length q = 4" "cn_IP c = v4_prefix @ q"
    using assms(2) append_take_drop_id [of 12 "cn_IP c"] by (simp_all add: q_def codable_connection_def)
  have ttl0: "cn_TTL c = 0 \<Longrightarrow> cn_Addresses c = 0" using assms(2) by (simp add: codable_connection_def)
  have "CHR '' '' \<notin> set (address_text c)"
    using q(1) by (auto simp: address_text_def q_def [symmetric] dotted_avoid digits_avoid not_digits)
  then have cut: "three_parts CHR '' '' (connection_text c) 0 ([], [], []) =
      Some (cn_NetworkType c, cn_AddressType c, address_text c)"
    using assms(2) unfolding connection_text_def by (intro three_parts_all(3)) (simp_all add: codable_connection_def)
  let ?first = "if cn_TTL c = 0 then [] else show_dec (unat (cn_TTL c))"
  let ?second = "if cn_Addresses c = 0 then [] else show_dec (unat (cn_Addresses c))"
  have cut2: "three_parts CHR ''/'' (address_text c) 0 ([], [], []) = Some (dotted q, ?first, ?second)"
    using q(1) ttl0 by (auto simp: address_text_def q_def [symmetric] three_parts_all dotted_avoid digits_avoid not_digits)
  have ip: "decodeIP (dotted q) = cn_IP c" "sdp_isIPv4 (cn_IP c)"
    using q ParseIP_dotted [OF q(1)] by (auto simp: decodeIP_def sdp_isIPv4_def To4_def v4_prefix_def)
  have "address_text c \<noteq> []"
    using length_4 [OF q(1)] by (auto simp: address_text_def q_def [symmetric] dotted_eq)
  note ip = ip this
  show ?thesis
    using assms ip ttl0
    by (auto simp: reads_def decodeField_def Types_distinct decodeConnectionData_def cut cut2 codable_connection_def
        decode_address_def decodeByte_show Let_def)
qed

abbreviation known_bandwidth :: "string \<Rightarrow> bool" where
  "known_bandwidth t \<equiv> t = BandwidthApplicationSpecific \<or> t = BandwidthConferenceTotal"

lemma known_bandwidth_colon: "known_bandwidth t \<Longrightarrow> CHR '':'' \<notin> set t"
  by (auto simp: BandwidthApplicationSpecific_def BandwidthConferenceTotal_def)

lemma AddBandwidth_text:
  "Session_AddBandwidth s t n = s @ [\<lparr>ln_Type = TypeBandwidth, ln_Value = t @ CHR '':'' # itoa n\<rparr>]"
  by (simp add: Session_AddBandwidth_def Session_append_def getLine_def appendRune_char)

lemma field_bandwidth:
  assumes "reads TypeBandwidth (t @ CHR '':'' # itoa n) d" and "known_bandwidth t" and "go_int n"
  shows "decodeField d m =
    (if dc_section d = sectionMedia
     then dec_ok (d\<lparr>dc_m := (dc_m d)\<lparr>me_Bandwidths := AList.update t n (me_Bandwidths (dc_m d))\<rparr>\<rparr>) m
     else dec_ok d (m\<lparr>sm_Bandwidths := AList.update t n (sm_Bandwidths m)\<rparr>))"
  using assms kv_loop_pair(1) [OF known_bandwidth_colon [OF assms(2)], of "itoa n"]
  by (simp add: reads_def decodeField_def Types_distinct decodeBandwidth_def decodeKV_def Atoi_itoa)

definition codable_time :: "Time \<Rightarrow> bool" where
  "codable_time t \<longleftrightarrow> tm_nsec t = 0 \<and> tm_unix t \<noteq> - ntpDelta"

lemma NTP_roundtrip: "codable_time t \<Longrightarrow> NTPToTime (TimeToNTP t) = t"
  by (auto simp: codable_time_def NTPToTime_def TimeToNTP_def IsZero_def zero_Time_def time_Unix_def add_eq_0_iff2
      intro!: Time.equality)

lemma parseNTP_show: "parseNTP (show_dec (unat (v :: u64))) = Inr v"
  using unsigned_less [of v] by (simp add: parseNTP_def atoi_nat_show_dec)

lemma timing_parts_end: "CHR '' '' \<notin> set p \<Longrightarrow> timing_parts p a b True = Some (a, b @ p)"
  by (induction p arbitrary: b) auto

lemma timing_parts_two:
  "CHR '' '' \<notin> set p \<Longrightarrow> CHR '' '' \<notin> set q \<Longrightarrow> timing_parts (p @ CHR '' '' # q) a [] False = Some (a @ p, q)"
  by (induction p arbitrary: a) (auto simp: timing_parts_end)

definition timing_text :: "Time \<Rightarrow> Time \<Rightarrow> string" where
  "timing_text start end1 = show_dec (unat (TimeToNTP start)) @ CHR '' '' # show_dec (unat (TimeToNTP end1))"

lemma AddTiming_text:
  "Session_AddTiming s start end1 = s @ [\<lparr>ln_Type = TypeTiming, ln_Value = timing_text start end1\<rparr>]"
  by (simp add: Session_AddTiming_def Session_append_def getLine_def timing_text_def appendUint64_def Let_def)

lemma field_timing:
  assumes "reads TypeTiming (timing_text start end1) d" and "codable_time start" and "codable_time end1"
  shows "decodeField d m = dec_ok d (m\<lparr>sm_Timing := sm_Timing m @
    [\<lparr>ti_Start = start, ti_End = end1, ti_Repeat = 0, ti_Active = 0, ti_Offsets = []\<rparr>]\<rparr>)"
  using assms
  by (simp add: reads_def decodeField_def Types_distinct decodeTimingField_def timing_text_def timing_parts_two
      digits_avoid not_digits parseNTP_show NTP_roundtrip)

text \<open>An offset that is a whole number of seconds is printed in the largest unit that divides it.\<close>

definition codable_offset :: "int \<Rightarrow> bool" where
  "codable_offset k \<longleftrightarrow> time_Second dvd k \<and> go_int k"

definition offset_text :: "int \<Rightarrow> string" where
  "offset_text k = appendIntervalCompact [] k"

lemma sint_go_int: "go_int k \<Longrightarrow> sint (of_int k :: u64) = k"
  by (simp add: go_int_def max_int_def signed_of_int signed_take_bit_int_eq_self)

lemma Atoi_not_zero: "k \<noteq> 0 \<Longrightarrow> itoa k \<noteq> ''0''"
proof
  assume "k \<noteq> 0" "itoa k = ''0''"
  then have "digits_value 10 ''0'' = nat k" "0 < k"
    using show_dec_value [of "nat k"] by (auto simp: itoa_def split: if_splits)
  moreover have "digits_value 10 ''0'' = 0" by (simp add: digits_value_def hex_val_def is_digit_def)
  ultimately show False by simp
qed

lemma itoa_last: "is_digit (last (itoa k))"
proof -
  have "is_digit (last (show_dec n))" for n
    using show_dec_digits [of n] last_in_set [of "show_dec n"] by (simp add: list_all_iff)
  then show ?thesis by (simp add: itoa_def)
qed

lemma decodeInterval_unit:
  assumes "go_int (k * u)" and "k \<noteq> 0" and "go_int k"
    and "c = CHR ''d'' \<and> u = time_Hour * 24 \<or> c = CHR ''h'' \<and> u = time_Hour \<or> c = CHR ''m'' \<and> u = time_Minute"
  shows "decodeInterval (itoa k @ [c]) = Ret (Inr (k * u))"
proof -
  have "2 \<le> length (itoa k @ [c])" by (cases "itoa k") simp_all
  then show ?thesis
    using assms by (auto simp: decodeInterval_def Let_def Atoi_itoa sint_go_int simp del: of_int_mult)
qed

lemma decodeInterval_seconds:
  assumes "go_int (k * time_Second)" and "k \<noteq> 0" and "go_int k"
  shows "decodeInterval (itoa k) = Ret (Inr (k * time_Second))"
proof -
  have "\<not> (length (itoa k) = 1 \<and> itoa k ! 0 = CHR ''0'')"
    using Atoi_not_zero [OF assms(2)] by (cases "itoa k") auto
  moreover have "last (itoa k) \<notin> set ''dhms''"
    using itoa_last [of k] by (auto simp: is_digit_def)
  ultimately show ?thesis using assms by (auto simp: decodeInterval_def Let_def Atoi_itoa sint_go_int simp del: of_int_mult)
qed

lemma go_int_factor:
  assumes "go_int (k * u)" and "0 < u"
  shows "go_int k"
proof (cases "0 \<le> k")
  case True
  then have "k * 1 \<le> k * u" using assms(2) by (intro mult_left_mono) auto
  then show ?thesis using assms(1) True by (simp add: go_int_def max_int_def)
next
  case False
  then have "k * u \<le> k * 1" using assms(2) by (intro mult_left_mono_neg) auto
  moreover have "- max_int - 1 \<le> k * u" "k \<le> max_int" using assms(1) False by (simp_all add: go_int_def max_int_def)
  ultimately show ?thesis unfolding go_int_def by linarith
qed

lemma units_positive: "0 < time_Second" "0 < time_Minute" "0 < time_Hour"
  by (simp_all add: time_Second_def time_Minute_def time_Hour_def)

lemma offset_units:
  assumes "codable_offset k" and "k \<noteq> 0"
  shows "(\<exists>j c u. offset_text k = itoa j @ [c] \<and> k = j * u \<and> j \<noteq> 0 \<and>
      (c = CHR ''d'' \<and> u = time_Hour * 24 \<or> c = CHR ''h'' \<and> u = time_Hour \<or> c = CHR ''m'' \<and> u = time_Minute)) \<or>
    (\<exists>j. offset_text k = itoa j \<and> k = j * time_Second \<and> j \<noteq> 0)"
proof -
  have unit: "\<exists>j. appendRune (itoa (go_quot k u)) (code c) = itoa j @ [c] \<and> k = j * u \<and> j \<noteq> 0"
    if h: "go_rem k u = 0" "0 < u" "(of_char c :: nat) < 0x80" for u c
  proof -
    obtain j where j: "k = j * u" using go_rem_dvd [OF h(2)] h(1) by (auto simp: dvd_def mult.commute)
    moreover have "go_quot k u = j" using go_quot_exact [OF h(2)] j by simp
    ultimately show ?thesis using assms(2) h(3) by (auto simp: appendRune_char)
  qed
  consider (d) "go_rem k (time_Hour * 24) = 0" | (h) "go_rem k (time_Hour * 24) \<noteq> 0" "go_rem k time_Hour = 0"
    | (m) "go_rem k (time_Hour * 24) \<noteq> 0" "go_rem k time_Hour \<noteq> 0" "go_rem k time_Minute = 0"
    | (s) "go_rem k (time_Hour * 24) \<noteq> 0" "go_rem k time_Hour \<noteq> 0" "go_rem k time_Minute \<noteq> 0" by blast
  then show ?thesis
  proof cases
    case d
    then show ?thesis
      using unit [of "time_Hour * 24" "CHR ''d''"] assms(2) units_positive
      by (simp add: offset_text_def appendIntervalCompact_def durationUnits_def durationUnit_append_def) blast
  next
    case h
    then show ?thesis
      using unit [of time_Hour "CHR ''h''"] assms(2) units_positive
      by (simp add: offset_text_def appendIntervalCompact_def durationUnits_def durationUnit_append_def) blast
  next
    case m
    then show ?thesis
      using unit [of time_Minute "CHR ''m''"] assms(2) units_positive
      by (simp add: offset_text_def appendIntervalCompact_def durationUnits_def durationUnit_append_def) blast
  next
    case s
    obtain j where j: "k = j * time_Second" using assms(1) by (auto simp: codable_offset_def dvd_def mult.commute)
    then have "- max_int - 1 \<le> j * time_Second" "j * time_Second \<le> max_int"
      using assms(1) by (simp_all add: codable_offset_def go_int_def)
    then have "\<bar>j\<bar> < 2 ^ 53" unfolding max_int_def time_Second_def by (simp add: abs_less_iff)
    then have "whole_seconds k = j" using whole_seconds_exact j by simp
    then show ?thesis
      using s j assms(2) by (simp add: offset_text_def appendIntervalCompact_def durationUnits_def)
  qed
qed

lemma offset_roundtrip:
  assumes "codable_offset k"
  shows "decodeInterval (offset_text k) = Ret (Inr k)" "CHR '' '' \<notin> set (offset_text k)"
proof -
  have g: "go_int k" using assms by (simp add: codable_offset_def)
  have "decodeInterval (offset_text k) = Ret (Inr k) \<and> CHR '' '' \<notin> set (offset_text k)"
  proof (cases "k = 0")
    case True
    then show ?thesis
      by (simp add: offset_text_def appendIntervalCompact_def appendRune_char decodeInterval_def)
  next
    case False
    from offset_units [OF assms False] show ?thesis
    proof (elim disjE exE conjE)
      fix j c u
      assume t: "offset_text k = itoa j @ [c]" "k = j * u" "j \<noteq> 0"
      {
        assume cu: "c = CHR ''d'' \<and> u = time_Hour * 24 \<or> c = CHR ''h'' \<and> u = time_Hour \<or> c = CHR ''m'' \<and> u = time_Minute"
        then have "0 < u" using units_positive by auto
        then have "go_int j" using go_int_factor g t(2) by blast
        then have "decodeInterval (offset_text k) = Ret (Inr k)"
          using decodeInterval_unit [of j u c] g t cu by simp
        then have "decodeInterval (offset_text k) = Ret (Inr k) \<and> CHR '' '' \<notin> set (offset_text k)"
          using t(1) cu by (auto simp: itoa_avoid not_digits)
      }
      then show "c = CHR ''d'' \<Longrightarrow> u = time_Hour * 24 \<Longrightarrow>
          decodeInterval (offset_text k) = Ret (Inr k) \<and> CHR '' '' \<notin> set (offset_text k)"
        "c = CHR ''h'' \<Longrightarrow> u = time_Hour \<Longrightarrow>
          decodeInterval (offset_text k) = Ret (Inr k) \<and> CHR '' '' \<notin> set (offset_text k)"
        "c = CHR ''m'' \<Longrightarrow> u = time_Minute \<Longrightarrow>
          decodeInterval (offset_text k) = Ret (Inr k) \<and> CHR '' '' \<notin> set (offset_text k)" by blast+
    next
      fix j
      assume t: "offset_text k = itoa j" "k = j * time_Second" "j \<noteq> 0"
      then have "go_int j" using go_int_factor g units_positive(1) by blast
      then show ?thesis
        using decodeInterval_seconds [of j] g t by (simp add: itoa_avoid not_digits)
    qed
  qed
  then show "decodeInterval (offset_text k) = Ret (Inr k)" "CHR '' '' \<notin> set (offset_text k)" by simp_all
qed

definition codable_zone :: "TimeZone \<Rightarrow> bool" where
  "codable_zone z \<longleftrightarrow> codable_time (tz_Start z) \<and> codable_offset (tz_Offset z)"

definition zone_parts :: "TimeZone list \<Rightarrow> string list" where
  "zone_parts zs = concat (map (\<lambda>z. [show_dec (unat (TimeToNTP (tz_Start z))), offset_text (tz_Offset z)]) zs)"

lemma appendIntervalCompact_text: "appendIntervalCompact v k = v @ offset_text k"
  by (simp add: appendIntervalCompact_def offset_text_def durationUnit_append_def appendRune_def split: option.splits)

lemma TimeZone_append_text:
  "TimeZone_append z v = v @ show_dec (unat (TimeToNTP (tz_Start z))) @ CHR '' '' # offset_text (tz_Offset z)"
  by (simp add: TimeZone_append_def TimeZone_appendInterval_def appendIntervalCompact_text appendUint64_def)

lemma append_zones_text: "append_zones v zs = v @ join_with CHR '' '' (zone_parts zs)"
  by (induction v zs rule: append_zones.induct) (simp_all add: zone_parts_def TimeZone_append_text)

lemma decode_zones_text:
  "list_all codable_zone zs \<Longrightarrow>
   decode_zones (zone_parts zs) d m = dec_ok d (m\<lparr>sm_TZAdjustments := sm_TZAdjustments m @ zs\<rparr>)"
  by (induction zs arbitrary: m)
     (simp_all add: zone_parts_def codable_zone_def parseNTP_show offset_roundtrip NTP_roundtrip)

lemma zone_parts_length: "even (length (zone_parts zs))"
  by (induction zs) (simp_all add: zone_parts_def)

lemma field_zones:
  assumes "reads TypeTimeZones (append_zones [] zs) d" and "list_all codable_zone zs" and "zs \<noteq> []"
  shows "decodeField d m = dec_ok d (m\<lparr>sm_TZAdjustments := sm_TZAdjustments m @ zs\<rparr>)"
proof -
  have "list_all (\<lambda>p. CHR '' '' \<notin> set p) (zone_parts zs)"
    using assms(2) by (induction zs) (simp_all add: zone_parts_def codable_zone_def offset_roundtrip digits_avoid not_digits)
  moreover have "zone_parts zs \<noteq> []" using assms(3) by (cases zs) (simp_all add: zone_parts_def)
  ultimately have "subfields (append_zones [] zs) = zone_parts zs"
    by (simp add: subfields_def append_zones_text split_on_join)
  then show ?thesis
    using assms(1) zone_parts_length [of zs] decode_zones_text [OF assms(2)]
    by (simp add: reads_def decodeField_def Types_distinct decodeTimeZoneAdjustments_def even_iff_mod_2_eq_zero)
qed

definition codable_encryption :: "Encryption \<Rightarrow> bool" where
  "codable_encryption e \<longleftrightarrow> CHR '':'' \<notin> set (en_Method e)"

definition pair_line :: "string \<Rightarrow> string \<Rightarrow> string" where
  "pair_line k v = (if v = [] then k else k @ CHR '':'' # v)"

lemma kv_loop_pair_line: "CHR '':'' \<notin> set k \<Longrightarrow> kv_loop (pair_line k v) [] [] False = (k, v)"
  by (simp add: pair_line_def kv_loop_pair)

lemma AddEncryption_text:
  "Session_AddEncryption s e = s @ [\<lparr>ln_Type = TypeEncryptionKey, ln_Value = pair_line (en_Method e) (en_Key e)\<rparr>]"
  by (simp add: Session_AddEncryption_def Session_AddEncryptionKey_def Session_AddEncryptionMethod_def
      Session_append_def Session_appendString_def getLine_def pair_line_def attributesDelimiter_def appendRune_char)

lemma field_encryption:
  assumes "reads TypeEncryptionKey (pair_line (en_Method e) (en_Key e)) d" and "codable_encryption e"
  shows "decodeField d m =
    (if dc_section d = sectionMedia then dec_ok (d\<lparr>dc_m := (dc_m d)\<lparr>me_Encryption := e\<rparr>\<rparr>) m
     else dec_ok d (m\<lparr>sm_Encryption := e\<rparr>))"
  using assms by (simp add: reads_def decodeField_def Types_distinct decodeEncryption_def decodeKV_def
      codable_encryption_def kv_loop_pair_line)

lemma field_attribute:
  assumes "reads TypeAttribute (pair_line k v) d" and "CHR '':'' \<notin> set k"
  shows "decodeField d m =
    (if dc_section d = sectionMedia
     then dec_ok (d\<lparr>dc_m := (dc_m d)\<lparr>me_Attributes := addAttribute (me_Attributes (dc_m d)) k v\<rparr>\<rparr>) m
     else dec_ok d (m\<lparr>sm_Attributes := addAttribute (sm_Attributes m) k v\<rparr>))"
  using assms by (simp add: reads_def decodeField_def Types_distinct decodeAttribute_def decodeKV_def kv_loop_pair_line)

definition value_lines :: "string \<Rightarrow> string list \<Rightarrow> Session" where
  "value_lines k vs = map (\<lambda>v. \<lparr>ln_Type = TypeAttribute, ln_Value = pair_line k v\<rparr>) vs"

definition attribute_lines :: "Attributes \<Rightarrow> Session" where
  "attribute_lines as = concat (map (\<lambda>(k, vs). value_lines k vs) as)"

lemma add_values_text: "add_values s k vs = s @ value_lines k vs"
  by (induction vs arbitrary: s)
     (simp_all add: add_values_def value_lines_def Session_AddFlag_def Session_AddAttribute_def Session_append_def
       getLine_def pair_line_def attributesDelimiter_def appendRune_char)

lemma appendAttributes_text: "appendAttributes s as = s @ attribute_lines as"
  by (induction as arbitrary: s) (auto simp: appendAttributes_def attribute_lines_def add_values_text)

definition bandwidth_lines :: "Bandwidths \<Rightarrow> Session" where
  "bandwidth_lines bs = map (\<lambda>(t, n). \<lparr>ln_Type = TypeBandwidth, ln_Value = t @ CHR '':'' # itoa n\<rparr>) bs"

lemma add_bandwidths_text: "add_bandwidths s bs = s @ bandwidth_lines bs"
  by (induction bs arbitrary: s) (auto simp: add_bandwidths_def bandwidth_lines_def AddBandwidth_text)

definition codable_description :: "MediaDescription \<Rightarrow> bool" where
  "codable_description x \<longleftrightarrow> CHR '' '' \<notin> set (md_Type x) \<and> CHR '' '' \<notin> set (md_Protocol x) \<and>
     go_int (md_Port x) \<and> go_int (md_PortsNumber x)"

definition description_text :: "MediaDescription \<Rightarrow> string" where
  "description_text x = md_Type x @ CHR '' '' #
     (itoa (md_Port x) @ (if md_PortsNumber x = 0 then [] else CHR ''/'' # itoa (md_PortsNumber x))) @
     CHR '' '' # md_Protocol x @ CHR '' '' # md_Format x"

lemma AddMediaDescription_text:
  "Session_AddMediaDescription s x = s @ [\<lparr>ln_Type = TypeMediaDescription, ln_Value = description_text x\<rparr>]"
  by (simp add: Session_AddMediaDescription_def Session_append_def getLine_def description_text_def Let_def appendRune_char)

lemma field_description:
  assumes "reads TypeMediaDescription (description_text x) d" and "codable_description x"
  shows "decodeField d m = dec_ok (d\<lparr>dc_m := (dc_m d)\<lparr>me_Description := x\<rparr>\<rparr>) m"
proof -
  define port where "port = itoa (md_Port x) @ (if md_PortsNumber x = 0 then [] else CHR ''/'' # itoa (md_PortsNumber x))"
  have "CHR '' '' \<notin> set port" by (simp add: port_def itoa_avoid not_digits)
  then have p: "subfields (description_text x) = md_Type x # port # md_Protocol x # split_on CHR '' '' (md_Format x)"
    using assms(2) unfolding description_text_def subfields_def codable_description_def port_def [symmetric]
    by (simp add: split_on_part)
  then have len: "\<not> length (subfields (description_text x)) < 4"
    using split_on_nonempty [of "CHR '' ''" "md_Format x"] by (cases "split_on CHR '' '' (md_Format x)") simp_all
  have pp: "split_on CHR ''/'' port =
      (if md_PortsNumber x = 0 then [itoa (md_Port x)] else [itoa (md_Port x), itoa (md_PortsNumber x)])"
    by (simp add: port_def split_on_part split_on_plain itoa_avoid not_digits)
  have "decodeMediaDescription d m = dec_ok (d\<lparr>dc_m := (dc_m d)\<lparr>me_Description := x\<rparr>\<rparr>) m"
    using assms len p
    by (simp add: reads_def decodeMediaDescription_def pp codable_description_def Atoi_itoa join_split_on
        numeral_2_eq_2 numeral_3_eq_3)
  then show ?thesis using assms(1) by (simp add: reads_def decodeField_def Types_distinct)
qed

section \<open>Expected fields\<close>

lemma in_ordering_iff: "in_ordering t os \<longleftrightarrow> t \<in> set os"
  by (induction os) auto

lemma isExpected_here:
  assumes "t \<in> set (drop p (getOrdering s))"
  shows "isExpected t s p = None"
proof -
  have "p < length (getOrdering s)" using assms by (metis drop_all empty_iff empty_set leI)
  then show ?thesis using assms by (subst isExpected.simps) (simp add: in_ordering_iff)
qed

lemma isExpected_before: "t \<in> set (drop p (getOrdering s)) \<Longrightarrow> q \<le> p \<Longrightarrow> isExpected t s q = None"
  using set_drop_subset_set_drop [of q p "getOrdering s"] by (intro isExpected_here) auto

lemma isExpected_media: "isExpected TypeMediaDescription s p = None"
proof -
  have m: "isExpected TypeMediaDescription sectionMedia 0 = None"
    by (rule isExpected_here) (simp add: getOrdering_def orderingMedia_def)
  show ?thesis
    using m by (subst isExpected.simps) (simp add: getOrdering_def orderingMedia_def split: sdp_section.split)
qed

lemma isExpected_timing: "p < 10 \<Longrightarrow> isExpected TypeTiming sectionSession p = None" "isExpected TypeTiming sectionTime 0 = None"
proof -
  show t: "isExpected TypeTiming sectionTime 0 = None"
    by (rule isExpected_here) (simp add: getOrdering_def orderingTime_def)
  then show "p < 10 \<Longrightarrow> isExpected TypeTiming sectionSession p = None"
    by (subst isExpected.simps) (simp add: orderingAfterTime_def)
qed

lemma isExpected_after_time:
  "t \<in> {TypeEncryptionKey, TypeAttribute} \<Longrightarrow> isExpected t sectionTime p = None"
proof -
  assume t: "t \<in> {TypeEncryptionKey, TypeAttribute}"
  have "isExpected t sectionSession orderingAfterTime = None"
    by (rule isExpected_here) (use t in \<open>auto simp: getOrdering_def orderingSession_def orderingAfterTime_def\<close>)
  then show ?thesis by (subst isExpected.simps) simp
qed

section \<open>Walking over the lines of a section\<close>

definition cursor :: "sdp_section \<Rightarrow> nat \<Rightarrow> Decoder \<Rightarrow> Session \<Rightarrow> nat \<Rightarrow> bool" where
  "cursor sec lo d rest p \<longleftrightarrow>
     (\<exists>read. dc_s d = read @ rest \<and> dc_pos d = length read) \<and> lo \<le> dc_sPos d \<and> dc_sPos d \<le> p \<and> dc_section d = sec"

lemma cursor_next:
  assumes "cursor sec lo d (l # rest) p"
  obtains d1 where "decoder_next d = Some d1" "reads (ln_Type l) (ln_Value l) d1" "cursor sec lo d1 rest p"
    "dc_m d1 = dc_m d" "cursor sec lo (d1\<lparr>dc_pos := dc_pos d1 - 1\<rparr>) (l # rest) p" "dc_sPos d1 = dc_sPos d"
proof -
  obtain read where r: "dc_s d = read @ l # rest" "dc_pos d = length read"
    using assms by (auto simp: cursor_def)
  let ?d = "d\<lparr>dc_l := l, dc_v := ln_Value l, dc_t := ln_Type l, dc_pos := dc_pos d + 1\<rparr>"
  have "decoder_next d = Some ?d" using r by (simp add: decoder_next_Some)
  moreover have "cursor sec lo ?d rest p"
    using assms r unfolding cursor_def by (auto intro!: exI [of _ "read @ [l]"])
  moreover have "cursor sec lo (?d\<lparr>dc_pos := dc_pos ?d - 1\<rparr>) (l # rest) p"
    using assms r unfolding cursor_def by auto
  ultimately show thesis by (intro that [of ?d]) (simp_all add: reads_def)
qed

lemma cursor_end: "cursor sec lo d [] p \<Longrightarrow> decoder_next d = None"
  by (auto simp: cursor_def decoder_next_def)

lemma reads_count_field [simp]: "reads t v (count_field d) = reads t v d"
  by (simp add: reads_def)

definition after_field :: "int \<Rightarrow> nat \<Rightarrow> nat" where
  "after_field t p = (if isZeroOrMore t then p else Suc p)"

lemma cursor_count:
  "cursor sec lo d rest p \<Longrightarrow> dc_t d = t \<Longrightarrow> cursor sec lo (count_field d) rest (after_field t p)"
  by (auto simp: cursor_def count_field_def after_field_def)

lemma cursor_m [simp]: "cursor sec lo (d\<lparr>dc_m := x\<rparr>) rest p = cursor sec lo d rest p"
  by (simp add: cursor_def)

lemma cursor_mono: "cursor sec lo d rest p \<Longrightarrow> p \<le> q \<Longrightarrow> cursor sec lo d rest q"
  by (auto simp: cursor_def)

text \<open>The loop over the session section reads \<open>ls\<close>, turning \<open>m\<close> into \<open>m'\<close>.\<close>

definition decodes :: "nat \<Rightarrow> Session \<Rightarrow> nat \<Rightarrow> SdpMessage \<Rightarrow> SdpMessage \<Rightarrow> bool" where
  "decodes p ls q m m' \<longleftrightarrow>
     (\<forall>d rest. cursor sectionSession 0 d (ls @ rest) p \<longrightarrow>
        (\<exists>d'. cursor sectionSession 0 d' rest q \<and> session_loop d m = session_loop d' m'))"

lemma decodes_Nil: "p \<le> q \<Longrightarrow> decodes p [] q m m"
  unfolding decodes_def using cursor_mono by fastforce

lemma decodes_append:
  assumes "decodes p ls q m m1" and "decodes q ks r m1 m2"
  shows "decodes p (ls @ ks) r m m2"
  unfolding decodes_def
proof (intro allI impI)
  fix d rest
  assume "cursor sectionSession 0 d ((ls @ ks) @ rest) p"
  then have "cursor sectionSession 0 d (ls @ ks @ rest) p" by simp
  then obtain d1 where d1: "cursor sectionSession 0 d1 (ks @ rest) q" "session_loop d m = session_loop d1 m1"
    using assms(1) unfolding decodes_def by blast
  then obtain d2 where "cursor sectionSession 0 d2 rest r" "session_loop d1 m1 = session_loop d2 m2"
    using assms(2) unfolding decodes_def by blast
  with d1(2) show "\<exists>d'. cursor sectionSession 0 d' rest r \<and> session_loop d m = session_loop d' m2" by auto
qed

lemma decodes_line:
  assumes "t \<noteq> TypeTiming" and "t \<noteq> TypeMediaDescription" and "t \<in> set (drop p orderingSession)"
    and "\<And>d. reads t v d \<Longrightarrow> dc_section d = sectionSession \<Longrightarrow> decodeField d m = dec_ok d m'"
  shows "decodes p [\<lparr>ln_Type = t, ln_Value = v\<rparr>] (after_field t p) m m'"
  unfolding decodes_def
proof (intro allI impI)
  fix d rest
  assume c: "cursor sectionSession 0 d ([\<lparr>ln_Type = t, ln_Value = v\<rparr>] @ rest) p"
  then have c': "cursor sectionSession 0 d (\<lparr>ln_Type = t, ln_Value = v\<rparr> # rest) p" by simp
  obtain d1 where d1: "decoder_next d = Some d1" "reads t v d1" "cursor sectionSession 0 d1 rest p"
    by (rule cursor_next [OF c']) simp
  have "isExpected (dc_t d1) (dc_section d1) (dc_sPos d1) = None"
    using isExpected_before [of t p sectionSession "dc_sPos d1"] d1 assms(3)
    by (simp add: cursor_def reads_def getOrdering_def)
  moreover have "decodeField (count_field d1) m = dec_ok (count_field d1) m'"
    using assms(4) [of "count_field d1"] d1 by (simp add: cursor_def)
  ultimately have "session_loop d m = session_loop (count_field d1) m'"
    using d1 assms(1,2) by (subst session_loop.simps) (simp add: reads_def)
  moreover have "cursor sectionSession 0 (count_field d1) rest (after_field t p)"
    using cursor_count [OF d1(3), of t] d1(2) by (simp add: reads_def)
  ultimately show "\<exists>d'. cursor sectionSession 0 d' rest (after_field t p) \<and> session_loop d m = session_loop d' m'"
    by blast
qed

text \<open>The loop over a media section reads \<open>ls\<close>, turning the media \<open>x\<close> into \<open>x'\<close>.\<close>

definition decodes_media :: "nat \<Rightarrow> Session \<Rightarrow> nat \<Rightarrow> Media \<Rightarrow> Media \<Rightarrow> bool" where
  "decodes_media p ls q x x' \<longleftrightarrow>
     (\<forall>d rest m. cursor sectionMedia 1 d (ls @ rest) p \<and> dc_m d = x \<longrightarrow>
        (\<exists>d'. cursor sectionMedia 1 d' rest q \<and> dc_m d' = x' \<and> media_loop d m = media_loop d' m))"

lemma decodes_media_Nil: "p \<le> q \<Longrightarrow> decodes_media p [] q x x"
  unfolding decodes_media_def using cursor_mono by fastforce

lemma decodes_media_append:
  assumes "decodes_media p ls q x x1" and "decodes_media q ks r x1 x2"
  shows "decodes_media p (ls @ ks) r x x2"
  unfolding decodes_media_def
proof (intro allI impI, elim conjE)
  fix d rest m
  assume "cursor sectionMedia 1 d ((ls @ ks) @ rest) p" and x: "dc_m d = x"
  then have "cursor sectionMedia 1 d (ls @ ks @ rest) p" by simp
  then obtain d1 where d1: "cursor sectionMedia 1 d1 (ks @ rest) q" "dc_m d1 = x1" "media_loop d m = media_loop d1 m"
    using assms(1) x unfolding decodes_media_def by blast
  then obtain d2 where "cursor sectionMedia 1 d2 rest r" "dc_m d2 = x2" "media_loop d1 m = media_loop d2 m"
    using assms(2) unfolding decodes_media_def by blast
  with d1(3) show "\<exists>d'. cursor sectionMedia 1 d' rest r \<and> dc_m d' = x2 \<and> media_loop d m = media_loop d' m" by auto
qed

lemma decodes_media_line:
  assumes "t \<noteq> TypeMediaDescription" and "t \<in> set (drop p orderingMedia)"
    and "\<And>d m. reads t v d \<Longrightarrow> dc_section d = sectionMedia \<Longrightarrow> dc_m d = x \<Longrightarrow>
      decodeField d m = dec_ok (d\<lparr>dc_m := x'\<rparr>) m"
  shows "decodes_media p [\<lparr>ln_Type = t, ln_Value = v\<rparr>] (after_field t p) x x'"
  unfolding decodes_media_def
proof (intro allI impI, elim conjE)
  fix d rest m
  assume c: "cursor sectionMedia 1 d ([\<lparr>ln_Type = t, ln_Value = v\<rparr>] @ rest) p" and x: "dc_m d = x"
  then have c': "cursor sectionMedia 1 d (\<lparr>ln_Type = t, ln_Value = v\<rparr> # rest) p" by simp
  obtain d1 where d1: "decoder_next d = Some d1" "reads t v d1" "cursor sectionMedia 1 d1 rest p" "dc_m d1 = x"
    by (rule cursor_next [OF c']) (simp add: x)
  have "isExpected (dc_t d1) (dc_section d1) (dc_sPos d1) = None"
    using isExpected_before [of t p sectionMedia "dc_sPos d1"] d1 assms(2)
    by (simp add: cursor_def reads_def getOrdering_def)
  moreover have "decodeField (count_field d1) m = dec_ok ((count_field d1)\<lparr>dc_m := x'\<rparr>) m"
    using assms(3) [of "count_field d1" m] d1 by (simp add: cursor_def)
  ultimately have "media_loop d m = media_loop ((count_field d1)\<lparr>dc_m := x'\<rparr>) m"
    using d1 assms(1) by (subst media_loop.simps) (simp add: reads_def)
  moreover have "cursor sectionMedia 1 ((count_field d1)\<lparr>dc_m := x'\<rparr>) rest (after_field t p)"
    using cursor_count [OF d1(3), of t] d1(2) by (simp add: reads_def)
  ultimately show "\<exists>d'. cursor sectionMedia 1 d' rest (after_field t p) \<and> dc_m d' = x' \<and> media_loop d m = media_loop d' m"
    by fastforce
qed

section \<open>Groups of lines\<close>

lemma after_field_simps:
  "after_field TypeBandwidth p = p" "after_field TypeAttribute p = p"
  "t \<noteq> TypeBandwidth \<Longrightarrow> t \<noteq> TypeAttribute \<Longrightarrow> after_field t p = Suc p"
  by (simp_all add: after_field_def isZeroOrMore_def)

definition opt_line :: "bool \<Rightarrow> int \<Rightarrow> string \<Rightarrow> Session" where
  "opt_line b t v = (if b then [\<lparr>ln_Type = t, ln_Value = v\<rparr>] else [])"

lemma decodes_opt:
  assumes "t \<noteq> TypeTiming" and "t \<noteq> TypeMediaDescription" and "t \<in> set (drop p orderingSession)"
    and "b \<Longrightarrow> (\<And>d. reads t v d \<Longrightarrow> dc_section d = sectionSession \<Longrightarrow> decodeField d m = dec_ok d m')"
    and "\<not> b \<Longrightarrow> m' = m"
  shows "decodes p (opt_line b t v) (Suc p) m m'"
proof (cases b)
  case True
  have "after_field t p \<le> Suc p" by (simp add: after_field_def)
  then have "decodes p ([\<lparr>ln_Type = t, ln_Value = v\<rparr>] @ []) (Suc p) m m'"
    using decodes_line [OF assms(1-3), of v m m'] assms(4) [OF True] decodes_Nil decodes_append by blast
  then show ?thesis using True by (simp add: opt_line_def)
next
  case False
  then show ?thesis using assms(5) decodes_Nil [of p "Suc p"] by (simp add: opt_line_def)
qed

lemma decodes_media_opt:
  assumes "t \<noteq> TypeMediaDescription" and "t \<in> set (drop p orderingMedia)"
    and "b \<Longrightarrow> (\<And>d m. reads t v d \<Longrightarrow> dc_section d = sectionMedia \<Longrightarrow> dc_m d = x \<Longrightarrow>
      decodeField d m = dec_ok (d\<lparr>dc_m := x'\<rparr>) m)"
    and "\<not> b \<Longrightarrow> x' = x"
  shows "decodes_media p (opt_line b t v) (Suc p) x x'"
proof (cases b)
  case True
  have "after_field t p \<le> Suc p" by (simp add: after_field_def)
  then have "decodes_media p ([\<lparr>ln_Type = t, ln_Value = v\<rparr>] @ []) (Suc p) x x'"
    using decodes_media_line [OF assms(1,2), of v x x'] assms(3) [OF True] decodes_media_Nil decodes_media_append by blast
  then show ?thesis using True by (simp add: opt_line_def)
next
  case False
  then show ?thesis using assms(4) decodes_media_Nil [of p "Suc p"] by (simp add: opt_line_def)
qed

subsection \<open>Maps\<close>

definition codable_bandwidths :: "Bandwidths \<Rightarrow> bool" where
  "codable_bandwidths bs \<longleftrightarrow> distinct (map fst bs) \<and> list_all (\<lambda>(t, n). known_bandwidth t \<and> go_int n) bs"

definition codable_attributes :: "Attributes \<Rightarrow> bool" where
  "codable_attributes as \<longleftrightarrow>
     distinct (map fst as) \<and> list_all (\<lambda>(k, vs). CHR '':'' \<notin> set k \<and> vs \<noteq> []) as"

lemma update_last: "k \<notin> fst ` set a \<Longrightarrow> AList.update k v (a @ [(k, u)]) = a @ [(k, v)]"
  by (induction a) auto

lemma addAttribute_new: "k \<notin> fst ` set a \<Longrightarrow> addAttribute a k v = a @ [(k, [v])]"
  by (simp add: addAttribute_def attr_list_def update_new map_of_eq_None_iff [THEN iffD2])

lemma addAttribute_more: "k \<notin> fst ` set a \<Longrightarrow> addAttribute (a @ [(k, us)]) k v = a @ [(k, us @ [v])]"
  by (simp add: addAttribute_def attr_list_def update_last map_of_eq_None_iff [THEN iffD2] map_add_def)

text \<open>
  Both sections store bandwidths and attributes: \<open>dec\<close> is the walk over the lines of either
  section, \<open>put\<close> stores the map in a message or in a media.
\<close>

locale walk =
  fixes dec :: "Session \<Rightarrow> 'x \<Rightarrow> 'x \<Rightarrow> bool"
  assumes dec_Nil: "dec [] x x"
    and dec_append: "dec ls x y \<Longrightarrow> dec ks y z \<Longrightarrow> dec (ls @ ks) x z"
begin

lemma dec_Cons: "dec [l] x y \<Longrightarrow> dec ls y z \<Longrightarrow> dec (l # ls) x z"
  using dec_append [of "[l]" x y ls z] by simp

end

locale bandwidth_walk = walk dec
  for dec :: "Session \<Rightarrow> 'x \<Rightarrow> 'x \<Rightarrow> bool" +
  fixes put_bandwidths :: "Bandwidths \<Rightarrow> 'x"
  assumes dec_bandwidth: "known_bandwidth t \<Longrightarrow> go_int n \<Longrightarrow>
      dec [\<lparr>ln_Type = TypeBandwidth, ln_Value = t @ CHR '':'' # itoa n\<rparr>] (put_bandwidths bs) (put_bandwidths (AList.update t n bs))"
begin

lemma dec_bandwidths:
  "distinct (map fst (as @ bs)) \<Longrightarrow> list_all (\<lambda>(t, n). known_bandwidth t \<and> go_int n) bs \<Longrightarrow>
   dec (bandwidth_lines bs) (put_bandwidths as) (put_bandwidths (as @ bs))"
proof (induction bs arbitrary: as)
  case Nil
  then show ?case by (simp add: bandwidth_lines_def dec_Nil)
next
  case (Cons b bs)
  obtain t n where b: "b = (t, n)" by (cases b)
  then have "AList.update t n as = as @ [b]" using Cons.prems(1) by (simp add: update_new)
  then have "dec [\<lparr>ln_Type = TypeBandwidth, ln_Value = t @ CHR '':'' # itoa n\<rparr>] (put_bandwidths as) (put_bandwidths (as @ [b]))"
    using dec_bandwidth [of t n as] Cons.prems(2) b by simp
  moreover have "dec (bandwidth_lines bs) (put_bandwidths (as @ [b])) (put_bandwidths ((as @ [b]) @ bs))"
    using Cons.IH [of "as @ [b]"] Cons.prems by simp
  ultimately show ?case using b by (auto simp: bandwidth_lines_def intro: dec_Cons)
qed

end

locale attribute_walk = walk dec
  for dec :: "Session \<Rightarrow> 'x \<Rightarrow> 'x \<Rightarrow> bool" +
  fixes put_attributes :: "Attributes \<Rightarrow> 'x"
  assumes dec_attribute: "CHR '':'' \<notin> set k \<Longrightarrow>
      dec [\<lparr>ln_Type = TypeAttribute, ln_Value = pair_line k v\<rparr>] (put_attributes as) (put_attributes (addAttribute as k v))"
begin

lemma dec_values:
  "k \<notin> fst ` set as \<Longrightarrow> CHR '':'' \<notin> set k \<Longrightarrow>
   dec (value_lines k vs) (put_attributes (as @ [(k, us)])) (put_attributes (as @ [(k, us @ vs)]))"
proof (induction vs arbitrary: us)
  case Nil
  then show ?case by (simp add: value_lines_def dec_Nil)
next
  case (Cons v vs)
  then have "dec [\<lparr>ln_Type = TypeAttribute, ln_Value = pair_line k v\<rparr>]
      (put_attributes (as @ [(k, us)])) (put_attributes (as @ [(k, us @ [v])]))"
    using dec_attribute [of k v "as @ [(k, us)]"] by (simp add: addAttribute_more)
  moreover have "dec (value_lines k vs) (put_attributes (as @ [(k, us @ [v])])) (put_attributes (as @ [(k, (us @ [v]) @ vs)]))"
    using Cons.IH [of "us @ [v]"] Cons.prems by simp
  ultimately show ?case by (auto simp: value_lines_def intro: dec_Cons)
qed

lemma dec_key:
  assumes "k \<notin> fst ` set as" and "CHR '':'' \<notin> set k" and "vs \<noteq> []"
  shows "dec (value_lines k vs) (put_attributes as) (put_attributes (as @ [(k, vs)]))"
proof -
  obtain v ws where vs: "vs = v # ws" using assms(3) by (cases vs) auto
  have "dec [\<lparr>ln_Type = TypeAttribute, ln_Value = pair_line k v\<rparr>] (put_attributes as) (put_attributes (as @ [(k, [v])]))"
    using dec_attribute [of k v as] assms by (simp add: addAttribute_new)
  then show ?thesis using dec_values [OF assms(1,2), of ws "[v]"] dec_Cons vs by (simp add: value_lines_def)
qed

lemma dec_attributes:
  "distinct (map fst (as @ bs)) \<Longrightarrow> list_all (\<lambda>(k, vs). CHR '':'' \<notin> set k \<and> vs \<noteq> []) bs \<Longrightarrow>
   dec (attribute_lines bs) (put_attributes as) (put_attributes (as @ bs))"
proof (induction bs arbitrary: as)
  case Nil
  then show ?case by (simp add: attribute_lines_def dec_Nil)
next
  case (Cons b bs)
  obtain k vs where b: "b = (k, vs)" by (cases b)
  then have "dec (value_lines k vs) (put_attributes as) (put_attributes (as @ [b]))"
    using dec_key [of k as vs] Cons.prems by simp
  moreover have "dec (attribute_lines bs) (put_attributes (as @ [b])) (put_attributes ((as @ [b]) @ bs))"
    using Cons.IH [of "as @ [b]"] Cons.prems by simp
  ultimately show ?case using b by (auto simp: attribute_lines_def intro: dec_append)
qed

end

lemma in_orderings:
  "TypeBandwidth \<in> set (drop 8 orderingSession)" "TypeAttribute \<in> set (drop 11 orderingSession)"
  "TypeBandwidth \<in> set (drop 3 orderingMedia)" "TypeAttribute \<in> set (drop 5 orderingMedia)"
  by (simp_all add: orderingSession_def orderingMedia_def)

text \<open>Bandwidth lines do not advance the position in the ordering, nor do attribute lines.\<close>

lemma decodes_bandwidth:
  assumes "known_bandwidth t" and "go_int n"
  shows "decodes 8 [\<lparr>ln_Type = TypeBandwidth, ln_Value = t @ CHR '':'' # itoa n\<rparr>] 8
    (m\<lparr>sm_Bandwidths := bs\<rparr>) (m\<lparr>sm_Bandwidths := AList.update t n bs\<rparr>)"
  using decodes_line [of TypeBandwidth 8 "t @ CHR '':'' # itoa n" "m\<lparr>sm_Bandwidths := bs\<rparr>" "m\<lparr>sm_Bandwidths := AList.update t n bs\<rparr>"]
    in_orderings field_bandwidth [OF _ assms] by (simp add: after_field_simps) (simp add: Types_distinct)

lemma decodes_attribute:
  assumes "CHR '':'' \<notin> set k"
  shows "decodes 11 [\<lparr>ln_Type = TypeAttribute, ln_Value = pair_line k v\<rparr>] 11
    (m\<lparr>sm_Attributes := as\<rparr>) (m\<lparr>sm_Attributes := addAttribute as k v\<rparr>)"
  using decodes_line [of TypeAttribute 11 "pair_line k v" "m\<lparr>sm_Attributes := as\<rparr>" "m\<lparr>sm_Attributes := addAttribute as k v\<rparr>"]
    in_orderings field_attribute [OF _ assms] by (simp add: after_field_simps) (simp add: Types_distinct)

lemma decodes_media_bandwidth:
  assumes "known_bandwidth t" and "go_int n"
  shows "decodes_media 3 [\<lparr>ln_Type = TypeBandwidth, ln_Value = t @ CHR '':'' # itoa n\<rparr>] 3
    (x\<lparr>me_Bandwidths := bs\<rparr>) (x\<lparr>me_Bandwidths := AList.update t n bs\<rparr>)"
  using decodes_media_line [of TypeBandwidth 3 "t @ CHR '':'' # itoa n" "x\<lparr>me_Bandwidths := bs\<rparr>" "x\<lparr>me_Bandwidths := AList.update t n bs\<rparr>"]
    in_orderings field_bandwidth [OF _ assms] by (simp add: after_field_simps) (simp add: Types_distinct)

lemma decodes_media_attribute:
  assumes "CHR '':'' \<notin> set k"
  shows "decodes_media 5 [\<lparr>ln_Type = TypeAttribute, ln_Value = pair_line k v\<rparr>] 5
    (x\<lparr>me_Attributes := as\<rparr>) (x\<lparr>me_Attributes := addAttribute as k v\<rparr>)"
  using decodes_media_line [of TypeAttribute 5 "pair_line k v" "x\<lparr>me_Attributes := as\<rparr>" "x\<lparr>me_Attributes := addAttribute as k v\<rparr>"]
    in_orderings field_attribute [OF _ assms] by (simp add: after_field_simps) (simp add: Types_distinct)

interpretation session_walk: walk "\<lambda>ls. decodes p ls p" for p
  by unfold_locales (auto intro: decodes_Nil decodes_append)

interpretation media_walk: walk "\<lambda>ls. decodes_media p ls p" for p
  by unfold_locales (auto intro: decodes_media_Nil decodes_media_append)

interpretation session_bandwidths: bandwidth_walk "\<lambda>ls. decodes 8 ls 8" "\<lambda>bs. m\<lparr>sm_Bandwidths := bs\<rparr>" for m
  by unfold_locales (rule decodes_bandwidth)

interpretation session_attributes: attribute_walk "\<lambda>ls. decodes 11 ls 11" "\<lambda>as. m\<lparr>sm_Attributes := as\<rparr>" for m
  by unfold_locales (rule decodes_attribute)

interpretation media_bandwidths: bandwidth_walk "\<lambda>ls. decodes_media 3 ls 3" "\<lambda>bs. x\<lparr>me_Bandwidths := bs\<rparr>" for x
  by unfold_locales (rule decodes_media_bandwidth)

interpretation media_attributes: attribute_walk "\<lambda>ls. decodes_media 5 ls 5" "\<lambda>as. x\<lparr>me_Attributes := as\<rparr>" for x
  by unfold_locales (rule decodes_media_attribute)

lemma decodes_weaken: "decodes p ls q m m' \<Longrightarrow> p' \<le> p \<Longrightarrow> q \<le> q' \<Longrightarrow> decodes p' ls q' m m'"
  unfolding decodes_def by (meson cursor_mono)

lemma decodes_media_weaken: "decodes_media p ls q x x' \<Longrightarrow> p' \<le> p \<Longrightarrow> q \<le> q' \<Longrightarrow> decodes_media p' ls q' x x'"
  unfolding decodes_media_def
proof (intro allI impI, elim conjE)
  fix d rest m
  assume w: "\<forall>d rest m. cursor sectionMedia 1 d (ls @ rest) p \<and> dc_m d = x \<longrightarrow>
      (\<exists>d'. cursor sectionMedia 1 d' rest q \<and> dc_m d' = x' \<and> media_loop d m = media_loop d' m)"
    "p' \<le> p" "q \<le> q'" "cursor sectionMedia 1 d (ls @ rest) p'" "dc_m d = x"
  then have "cursor sectionMedia 1 d (ls @ rest) p" using cursor_mono by blast
  then obtain d' where "cursor sectionMedia 1 d' rest q" "dc_m d' = x'" "media_loop d m = media_loop d' m"
    using w(1,5) by blast
  then show "\<exists>d'. cursor sectionMedia 1 d' rest q' \<and> dc_m d' = x' \<and> media_loop d m = media_loop d' m"
    using cursor_mono w(3) by blast
qed

subsection \<open>Media sections\<close>

definition codable_media :: "Media \<Rightarrow> bool" where
  "codable_media x \<longleftrightarrow> codable_description (me_Description x) \<and> me_Connection x = zero_ConnectionData \<and>
     codable_attributes (me_Attributes x) \<and> codable_encryption (me_Encryption x) \<and> codable_bandwidths (me_Bandwidths x)"

definition media_rest :: "Media \<Rightarrow> Session" where
  "media_rest x = opt_line (me_Title x \<noteq> []) TypeSessionInformation (me_Title x) @ bandwidth_lines (me_Bandwidths x) @
     opt_line (\<not> Encryption_Blank (me_Encryption x)) TypeEncryptionKey
       (pair_line (en_Method (me_Encryption x)) (en_Key (me_Encryption x))) @
     attribute_lines (me_Attributes x)"

definition media_lines :: "Media \<Rightarrow> Session" where
  "media_lines x = \<lparr>ln_Type = TypeMediaDescription, ln_Value = description_text (me_Description x)\<rparr> # media_rest x"

lemma zero_blank: "ConnectionData_Blank zero_ConnectionData"
  by (simp add: ConnectionData_Blank_def ConnectionData_Equal_def IP_Equal_def)

lemma append_media_text: "codable_media x \<Longrightarrow> append_media s x = s @ media_lines x"
  by (simp add: append_media_def Let_def media_lines_def media_rest_def opt_line_def codable_media_def zero_blank
      AddMediaDescription_text add_bandwidths_text AddEncryption_text appendAttributes_text
      Session_AddSessionInfo_def Session_appendString_def getLine_def)

lemma encryption_blank: "Encryption_Blank e \<longleftrightarrow> e = \<lparr>en_Method = [], en_Key = []\<rparr>"
  by (simp add: Encryption_Blank_def Encryption_Equal_def)

lemma media_rest_decodes:
  assumes "codable_media x"
  shows "decodes_media 1 (media_rest x) 5 (zero_Media\<lparr>me_Description := me_Description x\<rparr>) x"
proof -
  let ?x0 = "zero_Media\<lparr>me_Description := me_Description x\<rparr>"
  let ?x1 = "?x0\<lparr>me_Title := me_Title x\<rparr>"
  let ?x2 = "?x1\<lparr>me_Bandwidths := me_Bandwidths x\<rparr>"
  let ?x3 = "?x2\<lparr>me_Encryption := me_Encryption x\<rparr>"
  have bw: "codable_bandwidths (me_Bandwidths x)" and at: "codable_attributes (me_Attributes x)"
    and en: "codable_encryption (me_Encryption x)" using assms by (simp_all add: codable_media_def)
  have "decodes_media 1 (opt_line (me_Title x \<noteq> []) TypeSessionInformation (me_Title x)) (Suc 1) ?x0 ?x1"
    by (rule decodes_media_opt) (simp_all add: field_text orderingMedia_def, simp_all add: Types_distinct zero_Media_def)
  then have 1: "decodes_media 1 (opt_line (me_Title x \<noteq> []) TypeSessionInformation (me_Title x)) 3 ?x0 ?x1"
    by (rule decodes_media_weaken) simp_all
  have 2: "decodes_media 3 (bandwidth_lines (me_Bandwidths x)) 3 ?x1 ?x2"
    using media_bandwidths.dec_bandwidths [of "[]" "me_Bandwidths x" ?x1] bw
    by (simp add: codable_bandwidths_def zero_Media_def)
  have "decodes_media 3 (opt_line (\<not> Encryption_Blank (me_Encryption x)) TypeEncryptionKey
       (pair_line (en_Method (me_Encryption x)) (en_Key (me_Encryption x)))) (Suc 3) ?x2 ?x3"
    by (rule decodes_media_opt)
       (simp_all add: field_encryption [OF _ en] orderingMedia_def encryption_blank,
        simp_all add: Types_distinct zero_Media_def)
  then have 3: "decodes_media 3 (opt_line (\<not> Encryption_Blank (me_Encryption x)) TypeEncryptionKey
       (pair_line (en_Method (me_Encryption x)) (en_Key (me_Encryption x)))) 5 ?x2 ?x3"
    by (rule decodes_media_weaken) simp_all
  have "decodes_media 5 (attribute_lines (me_Attributes x)) 5 ?x3 (?x3\<lparr>me_Attributes := me_Attributes x\<rparr>)"
    using media_attributes.dec_attributes [of "[]" "me_Attributes x" ?x3] at
    by (simp add: codable_attributes_def zero_Media_def)
  moreover have "?x3\<lparr>me_Attributes := me_Attributes x\<rparr> = x"
    using assms by (simp add: codable_media_def zero_Media_def)
  ultimately have 4: "decodes_media 5 (attribute_lines (me_Attributes x)) 5 ?x3 x" by simp
  show ?thesis
    unfolding media_rest_def by (intro decodes_media_append [OF 1] decodes_media_append [OF 2] decodes_media_append [OF 3] 4)
qed

text \<open>What may follow a media section: nothing, or the next media section.\<close>

lemma media_loop_end:
  assumes "cursor sectionMedia 1 d rest p" and "rest = [] \<or> ln_Type (hd rest) = TypeMediaDescription"
  obtains d' where "media_loop d m = dec_ok d' m" "cursor sectionMedia 1 d' rest p" "dc_m d' = dc_m d"
proof (cases rest)
  case Nil
  then have "media_loop d m = dec_ok d m"
    using cursor_end assms(1) by (subst media_loop.simps) simp
  then show thesis using that assms(1) by blast
next
  case (Cons l ls)
  from cursor_next [OF assms(1) [unfolded Cons]] obtain d1 where d1: "decoder_next d = Some d1"
    "reads (ln_Type l) (ln_Value l) d1" "cursor sectionMedia 1 d1 ls p" "dc_m d1 = dc_m d"
    "cursor sectionMedia 1 (d1\<lparr>dc_pos := dc_pos d1 - 1\<rparr>) (l # ls) p" by metis
  have "dc_t d1 = TypeMediaDescription" "dc_sPos d1 \<noteq> 0"
    using d1(2,3) assms(2) Cons by (auto simp: reads_def cursor_def)
  then have "media_loop d m = dec_ok (d1\<lparr>dc_pos := dc_pos d1 - 1\<rparr>) m"
    using d1(1) by (subst media_loop.simps) (simp add: isExpected_media)
  then show thesis using that [of "d1\<lparr>dc_pos := dc_pos d1 - 1\<rparr>"] d1 Cons by simp
qed

lemma decodeMedia_lines:
  assumes "cursor sec lo d (media_lines x @ rest) p" and "codable_media x"
    and "rest = [] \<or> ln_Type (hd rest) = TypeMediaDescription"
  obtains d' where "decodeMedia d m = dec_ok d' (m\<lparr>sm_Medias := sm_Medias m @ [x]\<rparr>)" "cursor sectionMedia 1 d' rest 5"
proof -
  let ?d = "d\<lparr>dc_sPos := 0, dc_section := sectionMedia, dc_m := zero_Media\<rparr>"
  let ?l = "\<lparr>ln_Type = TypeMediaDescription, ln_Value = description_text (me_Description x)\<rparr>"
  have "cursor sectionMedia 0 ?d (?l # media_rest x @ rest) 0"
    using assms(1) by (simp add: cursor_def media_lines_def)
  from cursor_next [OF this] obtain d1 where d1: "decoder_next ?d = Some d1"
    "reads (ln_Type ?l) (ln_Value ?l) d1" "cursor sectionMedia 0 d1 (media_rest x @ rest) 0" "dc_m d1 = dc_m ?d"
    by metis
  let ?x0 = "zero_Media\<lparr>me_Description := me_Description x\<rparr>"
  let ?d2 = "(count_field d1)\<lparr>dc_m := ?x0\<rparr>"
  have "decodeField (count_field d1) m = dec_ok ?d2 m"
    using field_description [of "me_Description x" "count_field d1" m] d1(2,4) assms(2)
    by (simp add: codable_media_def)
  then have loop: "media_loop ?d m = media_loop ?d2 m"
    using d1 by (subst media_loop.simps) (simp add: reads_def cursor_def isExpected_media)
  have "cursor sectionMedia 1 ?d2 (media_rest x @ rest) 1"
    using d1(2,3) by (simp add: cursor_def count_field_def reads_def isZeroOrMore_def Types_distinct)
  then obtain d3 where d3: "cursor sectionMedia 1 d3 rest 5" "dc_m d3 = x" "media_loop ?d2 m = media_loop d3 m"
    using media_rest_decodes [OF assms(2)] unfolding decodes_media_def by fastforce
  obtain d4 where d4: "media_loop d3 m = dec_ok d4 m" "cursor sectionMedia 1 d4 rest 5" "dc_m d4 = dc_m d3"
    using media_loop_end [OF d3(1) assms(3)] by blast
  have "decodeMedia d m = dec_ok d4 (m\<lparr>sm_Medias := sm_Medias m @ [x]\<rparr>)"
    using loop d3 d4 by (simp add: decodeMedia_def)
  then show thesis using that d4(2) by blast
qed

lemma session_media:
  assumes "cursor sectionSession 0 d (media_lines x @ rest) p" and "codable_media x"
    and "rest = [] \<or> ln_Type (hd rest) = TypeMediaDescription"
  obtains d' where "session_loop d m = session_loop d' (m\<lparr>sm_Medias := sm_Medias m @ [x]\<rparr>)"
    "cursor sectionSession 0 d' rest (Suc p)"
proof -
  let ?l = "\<lparr>ln_Type = TypeMediaDescription, ln_Value = description_text (me_Description x)\<rparr>"
  have c: "cursor sectionSession 0 d (?l # media_rest x @ rest) p"
    using assms(1) by (simp add: media_lines_def)
  from cursor_next [OF this] obtain d1 where d1: "decoder_next d = Some d1"
    "reads (ln_Type ?l) (ln_Value ?l) d1" "cursor sectionSession 0 d1 (media_rest x @ rest) p"
    "cursor sectionSession 0 (d1\<lparr>dc_pos := dc_pos d1 - 1\<rparr>) (?l # media_rest x @ rest) p"
    by metis
  let ?d2 = "count_field d1"
  have t: "dc_t d1 = TypeMediaDescription" using d1(2) by (simp add: reads_def)
  have "cursor sectionSession 0 (?d2\<lparr>dc_pos := dc_pos ?d2 - 1\<rparr>) (media_lines x @ rest) (Suc p)"
    using d1(4) by (auto simp: media_lines_def cursor_def count_field_def)
  from decodeMedia_lines [OF this assms(2,3)] obtain d3 where d3:
    "decodeMedia (?d2\<lparr>dc_pos := dc_pos ?d2 - 1\<rparr>) m = dec_ok d3 (m\<lparr>sm_Medias := sm_Medias m @ [x]\<rparr>)"
    "cursor sectionMedia 1 d3 rest 5" by blast
  let ?d4 = "d3\<lparr>dc_sPos := dc_sPos ?d2, dc_section := sectionSession\<rparr>"
  have "session_loop d m = session_loop ?d4 (m\<lparr>sm_Medias := sm_Medias m @ [x]\<rparr>)"
    using d1(1) t d3(1) by (subst session_loop.simps) (simp add: isExpected_media Let_def, simp add: Types_distinct)
  moreover have "cursor sectionSession 0 ?d4 rest (Suc p)"
    using d3(2) cursor_count [OF d1(3) t] by (simp add: cursor_def after_field_def split: if_splits)
  ultimately show thesis using that by blast
qed

lemma session_medias:
  "cursor sectionSession 0 d (concat (map media_lines xs)) p \<Longrightarrow> list_all codable_media xs \<Longrightarrow>
   \<exists>d'. session_loop d m = dec_ok d' (m\<lparr>sm_Medias := sm_Medias m @ xs\<rparr>)"
proof (induction xs arbitrary: d p m)
  case Nil
  then show ?case using cursor_end [of sectionSession 0 d p] by (subst session_loop.simps) simp
next
  case (Cons x xs)
  let ?rest = "concat (map media_lines xs)"
  have "?rest = [] \<or> ln_Type (hd ?rest) = TypeMediaDescription" by (cases xs) (simp_all add: media_lines_def)
  then obtain d' where d': "session_loop d m = session_loop d' (m\<lparr>sm_Medias := sm_Medias m @ [x]\<rparr>)"
    "cursor sectionSession 0 d' ?rest (Suc p)"
    using session_media [of d x ?rest p] Cons.prems by auto
  then show ?case using Cons.IH [OF d'(2), of "m\<lparr>sm_Medias := sm_Medias m @ [x]\<rparr>"] Cons.prems by simp
qed

subsection \<open>The time section\<close>

lemma timing_loop_end:
  assumes "cursor sectionTime 1 d rest p"
    and "rest = [] \<or> ln_Type (hd rest) \<in> {TypeEncryptionKey, TypeAttribute, TypeMediaDescription}"
  obtains d' where "timing_loop d m = dec_ok d' m" "cursor sectionTime 1 d' rest (Suc p)"
proof (cases rest)
  case Nil
  then have "timing_loop d m = dec_ok d m"
    using cursor_end assms(1) by (subst timing_loop.simps) simp
  then show thesis using that assms(1) cursor_mono by (metis le_Suc_eq order_refl)
next
  case (Cons l ls)
  from cursor_next [OF assms(1) [unfolded Cons]] obtain d1 where d1: "decoder_next d = Some d1"
    "reads (ln_Type l) (ln_Value l) d1" "cursor sectionTime 1 d1 ls p"
    "cursor sectionTime 1 (d1\<lparr>dc_pos := dc_pos d1 - 1\<rparr>) (l # ls) p" by metis
  have t: "dc_t d1 \<in> {TypeEncryptionKey, TypeAttribute, TypeMediaDescription}" "dc_section d1 = sectionTime"
    using d1(2,3) assms(2) Cons by (auto simp: reads_def cursor_def)
  have "isExpected (dc_t d1) sectionTime (dc_sPos d1) = None"
    using t(1) isExpected_after_time isExpected_media by auto
  moreover have "dc_t d1 \<noteq> TypeTiming \<and> dc_t d1 \<noteq> TypeRepeatTimes" using t(1) by (auto simp: Types_distinct)
  ultimately have "timing_loop d m = dec_ok ((count_field d1)\<lparr>dc_pos := dc_pos d1 - 1\<rparr>) m"
    using d1(1) t(2) by (subst timing_loop.simps) (simp add: Let_def)
  moreover have "cursor sectionTime 1 ((count_field d1)\<lparr>dc_pos := dc_pos d1 - 1\<rparr>) rest (Suc p)"
    using d1(4) Cons by (auto simp: cursor_def count_field_def)
  ultimately show thesis using that by blast
qed

definition codable_timing :: "Timing \<Rightarrow> bool" where
  "codable_timing t \<longleftrightarrow> codable_time (ti_Start t) \<and> codable_time (ti_End t) \<and>
     ti_Repeat t = 0 \<and> ti_Active t = 0 \<and> ti_Offsets t = []"

definition timing_line :: "Timing \<Rightarrow> Line" where
  "timing_line t = \<lparr>ln_Type = TypeTiming, ln_Value = timing_text (ti_Start t) (ti_End t)\<rparr>"

lemma session_timing:
  assumes "cursor sectionSession 0 d (timing_line t # rest) p" and "codable_timing t" and "p < 10"
    and "rest = [] \<or> ln_Type (hd rest) \<in> {TypeEncryptionKey, TypeAttribute, TypeMediaDescription}"
  obtains d' where "session_loop d m = session_loop d' (m\<lparr>sm_Timing := sm_Timing m @ [t]\<rparr>)"
    "cursor sectionSession 0 d' rest (Suc p)"
proof -
  from cursor_next [OF assms(1)] obtain d1 where d1: "decoder_next d = Some d1"
    "reads (ln_Type (timing_line t)) (ln_Value (timing_line t)) d1" "cursor sectionSession 0 d1 rest p"
    "cursor sectionSession 0 (d1\<lparr>dc_pos := dc_pos d1 - 1\<rparr>) (timing_line t # rest) p"
    by metis
  let ?d2 = "count_field d1"
  have t: "dc_t d1 = TypeTiming" using d1(2) by (simp add: reads_def timing_line_def)
  let ?d3 = "?d2\<lparr>dc_pos := dc_pos ?d2 - 1, dc_sPos := 0, dc_section := sectionTime\<rparr>"
  have "cursor sectionTime 0 ?d3 (timing_line t # rest) 0"
    using d1(4) by (auto simp: cursor_def count_field_def)
  from cursor_next [OF this] obtain d4 where d4: "decoder_next ?d3 = Some d4"
    "reads (ln_Type (timing_line t)) (ln_Value (timing_line t)) d4" "cursor sectionTime 0 d4 rest 0"
    by metis
  let ?d5 = "count_field d4" and ?m = "m\<lparr>sm_Timing := sm_Timing m @ [t]\<rparr>"
  have tt: "dc_t d4 = TypeTiming" using d4(2) by (simp add: reads_def timing_line_def)
  have "\<lparr>ti_Start = ti_Start t, ti_End = ti_End t, ti_Repeat = 0, ti_Active = 0, ti_Offsets = []\<rparr> = t"
    using assms(2) by (simp add: codable_timing_def)
  then have "decodeField ?d5 m = dec_ok ?d5 ?m"
    using field_timing [of "ti_Start t" "ti_End t" ?d5 m] d4(2) assms(2)
    by (simp add: timing_line_def codable_timing_def)
  then have "timing_loop ?d3 m = timing_loop ?d5 ?m"
    using d4(1,3) tt by (subst timing_loop.simps) (simp add: isExpected_timing cursor_def Let_def)
  moreover have "cursor sectionTime 1 ?d5 rest 1"
    using d4(3) tt by (simp add: cursor_def count_field_def isZeroOrMore_def Types_distinct)
  from timing_loop_end [OF this assms(4)] obtain d6 where d6: "timing_loop ?d5 ?m = dec_ok d6 ?m" "cursor sectionTime 1 d6 rest (Suc 1)"
    by blast
  ultimately have "decodeTiming (?d2\<lparr>dc_pos := dc_pos ?d2 - 1\<rparr>) m = dec_ok d6 ?m"
    by (simp add: decodeTiming_def)
  moreover have "isExpected TypeTiming sectionSession (dc_sPos d1) = None" "dc_section d1 = sectionSession"
    using d1(3) assms(3) by (auto simp: cursor_def intro: isExpected_timing)
  ultimately have "session_loop d m = session_loop (d6\<lparr>dc_sPos := dc_sPos ?d2, dc_section := sectionSession\<rparr>) ?m"
    using d1(1) t by (subst session_loop.simps) (simp add: Let_def)
  moreover have "cursor sectionSession 0 (d6\<lparr>dc_sPos := dc_sPos ?d2, dc_section := sectionSession\<rparr>) rest (Suc p)"
    using d6(2) cursor_count [OF d1(3) t] by (simp add: cursor_def after_field_def split: if_splits)
  ultimately show thesis using that by blast
qed

section \<open>Messages\<close>

definition codable :: "SdpMessage \<Rightarrow> bool" where
  "codable m \<longleftrightarrow>
     go_int (sm_Version m) \<and> codable_origin (sm_Origin m) \<and>
     (sm_Connection m = zero_ConnectionData \<or> codable_connection (sm_Connection m)) \<and>
     codable_bandwidths (sm_Bandwidths m) \<and> sm_BandwidthType m = [] \<and>
     length (sm_Timing m) \<le> 1 \<and> list_all codable_timing (sm_Timing m) \<and>
     list_all codable_zone (sm_TZAdjustments m) \<and> (sm_Timing m = [] \<or> sm_TZAdjustments m = []) \<and>
     codable_encryption (sm_Encryption m) \<and> codable_attributes (sm_Attributes m) \<and>
     list_all codable_media (sm_Medias m)"

definition head_lines :: "SdpMessage \<Rightarrow> Session" where
  "head_lines m =
     [\<lparr>ln_Type = TypeProtocolVersion, ln_Value = itoa (sm_Version m)\<rparr>] @
     [\<lparr>ln_Type = TypeOrigin, ln_Value = origin_text (sm_Origin m)\<rparr>] @
     [\<lparr>ln_Type = TypeSessionName, ln_Value = sm_Name m\<rparr>] @
     opt_line (sm_Info m \<noteq> []) TypeSessionInformation (sm_Info m) @ opt_line (sm_URI m \<noteq> []) TypeURI (sm_URI m) @
     opt_line (sm_Email m \<noteq> []) TypeEmail (sm_Email m) @ opt_line (sm_Phone m \<noteq> []) TypePhone (sm_Phone m) @
     opt_line (\<not> ConnectionData_Blank (sm_Connection m)) TypeConnectionData (connection_text (sm_Connection m)) @
     bandwidth_lines (sm_Bandwidths m)"

definition zone_lines :: "SdpMessage \<Rightarrow> Session" where
  "zone_lines m = opt_line (sm_TZAdjustments m \<noteq> []) TypeTimeZones (append_zones [] (sm_TZAdjustments m))"

definition tail_lines :: "SdpMessage \<Rightarrow> Session" where
  "tail_lines m =
     opt_line (\<not> Encryption_Blank (sm_Encryption m)) TypeEncryptionKey
       (pair_line (en_Method (sm_Encryption m)) (en_Key (sm_Encryption m))) @
     attribute_lines (sm_Attributes m)"

definition message_lines :: "SdpMessage \<Rightarrow> Session" where
  "message_lines m = head_lines m @ map timing_line (sm_Timing m) @ zone_lines m @ tail_lines m @
     concat (map media_lines (sm_Medias m))"

lemma foldl_append: "(\<And>s x. x \<in> set xs \<Longrightarrow> f s x = s @ g x) \<Longrightarrow> foldl f s xs = s @ concat (map g xs)"
  by (induction xs arbitrary: s) auto

lemma connection_blank:
  "codable_connection c \<Longrightarrow> \<not> ConnectionData_Blank c"
  by (auto simp: codable_connection_def ConnectionData_Blank_def ConnectionData_Equal_def zero_ConnectionData_def)

lemma add_connection_text:
  "c = zero_ConnectionData \<or> codable_connection c \<Longrightarrow>
   (if \<not> ConnectionData_Blank c then Session_AddConnectionData s c else s) =
     s @ opt_line (\<not> ConnectionData_Blank c) TypeConnectionData (connection_text c)"
  using connection_blank [of c] by (auto simp: opt_line_def AddConnectionData_text zero_blank)

lemma Append_lines:
  assumes "codable m"
  shows "SdpMessage_Append m s = s @ message_lines m"
proof -
  have timing: "foldl add_timing s (sm_Timing m) = s @ map timing_line (sm_Timing m)" for s
  proof -
    have "foldl add_timing s (sm_Timing m) = s @ concat (map (\<lambda>t. [timing_line t]) (sm_Timing m))"
      using assms by (intro foldl_append)
        (auto simp: codable_def list_all_iff codable_timing_def add_timing_def AddTiming_text timing_line_def Let_def)
    then show ?thesis by simp
  qed
  have medias: "foldl append_media s (sm_Medias m) = s @ concat (map media_lines (sm_Medias m))" for s
    using assms by (intro foldl_append) (auto simp: codable_def list_all_iff append_media_text)
  have conn: "sm_Connection m = zero_ConnectionData \<or> codable_connection (sm_Connection m)"
    and orig: "codable_origin (sm_Origin m)" using assms by (simp_all add: codable_def)
  show ?thesis
    unfolding SdpMessage_Append_def Let_def timing medias add_connection_text [OF conn]
    by (simp add: message_lines_def head_lines_def zone_lines_def tail_lines_def opt_line_def
        Session_AddVersion_def AddOrigin_text [OF orig] Session_AddSessionName_def Session_AddSessionInfo_def Session_AddURI_def
        Session_AddEmail_def Session_AddPhone_def add_bandwidths_text Session_AddTimeZones_def AddEncryption_text
        appendAttributes_text Session_append_def Session_appendString_def getLine_def)
qed

lemmas session_order = orderingSession_def Types_distinct

lemma head_decodes:
  assumes "codable m"
  shows "decodes 0 (head_lines m) 8 zero_SdpMessage
    (m\<lparr>sm_Timing := [], sm_TZAdjustments := [], sm_Encryption := \<lparr>en_Method = [], en_Key = []\<rparr>,
       sm_Attributes := [], sm_Medias := []\<rparr>)"
proof -
  let ?m1 = "zero_SdpMessage\<lparr>sm_Version := sm_Version m\<rparr>"
  let ?m2 = "?m1\<lparr>sm_Origin := sm_Origin m\<rparr>"
  let ?m3 = "?m2\<lparr>sm_Name := sm_Name m\<rparr>"
  let ?m4 = "?m3\<lparr>sm_Info := sm_Info m\<rparr>"
  let ?m5 = "?m4\<lparr>sm_URI := sm_URI m\<rparr>"
  let ?m6 = "?m5\<lparr>sm_Email := sm_Email m\<rparr>"
  let ?m7 = "?m6\<lparr>sm_Phone := sm_Phone m\<rparr>"
  let ?m8 = "?m7\<lparr>sm_Connection := sm_Connection m\<rparr>"
  let ?m9 = "?m8\<lparr>sm_Bandwidths := sm_Bandwidths m\<rparr>"
  have c: "go_int (sm_Version m)" "codable_origin (sm_Origin m)" "codable_bandwidths (sm_Bandwidths m)"
    "sm_Connection m = zero_ConnectionData \<or> codable_connection (sm_Connection m)" "sm_BandwidthType m = []"
    using assms by (simp_all add: codable_def)
  have one: "after_field TypeProtocolVersion 0 = 1" "after_field TypeOrigin 1 = 2" "after_field TypeSessionName 2 = 3"
    by (simp_all add: after_field_def isZeroOrMore_def Types_distinct)
  have 1: "decodes 0 [\<lparr>ln_Type = TypeProtocolVersion, ln_Value = itoa (sm_Version m)\<rparr>] 1 zero_SdpMessage ?m1"
    unfolding one(1) [symmetric] by (rule decodes_line) (simp_all add: session_order field_version [OF _ c(1), simplified Types_distinct])
  have 2: "decodes 1 [\<lparr>ln_Type = TypeOrigin, ln_Value = origin_text (sm_Origin m)\<rparr>] 2 ?m1 ?m2"
    unfolding one(2) [symmetric] by (rule decodes_line) (simp_all add: session_order field_origin [OF _ c(2), simplified Types_distinct])
  have 3: "decodes 2 [\<lparr>ln_Type = TypeSessionName, ln_Value = sm_Name m\<rparr>] 3 ?m2 ?m3"
    unfolding one(3) [symmetric] by (rule decodes_line) (simp_all add: session_order field_text [simplified Types_distinct])
  have 4: "decodes 3 (opt_line (sm_Info m \<noteq> []) TypeSessionInformation (sm_Info m)) 4 ?m3 ?m4"
    using decodes_opt [of TypeSessionInformation 3 "sm_Info m \<noteq> []" "sm_Info m" ?m3 ?m4]
    by (simp add: session_order field_text [simplified Types_distinct] zero_SdpMessage_def)
  have 5: "decodes 4 (opt_line (sm_URI m \<noteq> []) TypeURI (sm_URI m)) 5 ?m4 ?m5"
    using decodes_opt [of TypeURI 4 "sm_URI m \<noteq> []" "sm_URI m" ?m4 ?m5]
    by (simp add: session_order field_text [simplified Types_distinct] zero_SdpMessage_def)
  have 6: "decodes 5 (opt_line (sm_Email m \<noteq> []) TypeEmail (sm_Email m)) 6 ?m5 ?m6"
    using decodes_opt [of TypeEmail 5 "sm_Email m \<noteq> []" "sm_Email m" ?m5 ?m6]
    by (simp add: session_order field_text [simplified Types_distinct] zero_SdpMessage_def)
  have 7: "decodes 6 (opt_line (sm_Phone m \<noteq> []) TypePhone (sm_Phone m)) 7 ?m6 ?m7"
    using decodes_opt [of TypePhone 6 "sm_Phone m \<noteq> []" "sm_Phone m" ?m6 ?m7]
    by (simp add: session_order field_text [simplified Types_distinct] zero_SdpMessage_def)
  have conn: "decodeField d ?m7 = dec_ok d ?m8"
    if "\<not> ConnectionData_Blank (sm_Connection m)" "reads TypeConnectionData (connection_text (sm_Connection m)) d" for d
  proof -
    have "codable_connection (sm_Connection m)" using that(1) c(4) zero_blank by metis
    moreover have "cn_TTL (sm_Connection ?m7) = 0" "cn_Addresses (sm_Connection ?m7) = 0"
      by (simp_all add: zero_SdpMessage_def zero_ConnectionData_def)
    ultimately show ?thesis using field_connection [OF that(2)] by blast
  qed
  have 8: "decodes 7 (opt_line (\<not> ConnectionData_Blank (sm_Connection m)) TypeConnectionData (connection_text (sm_Connection m))) 8 ?m7 ?m8"
    using decodes_opt [of TypeConnectionData 7 "\<not> ConnectionData_Blank (sm_Connection m)" "connection_text (sm_Connection m)" ?m7 ?m8]
      conn c(4) connection_blank
    by (auto simp: session_order zero_blank zero_SdpMessage_def)
  have 9: "decodes 8 (bandwidth_lines (sm_Bandwidths m)) 8 ?m8 ?m9"
    using session_bandwidths.dec_bandwidths [of "[]" "sm_Bandwidths m" ?m8] c(3)
    by (simp add: codable_bandwidths_def zero_SdpMessage_def)
  have m9: "?m9 = m\<lparr>sm_Timing := [], sm_TZAdjustments := [], sm_Encryption := \<lparr>en_Method = [], en_Key = []\<rparr>,
       sm_Attributes := [], sm_Medias := []\<rparr>"
    using c(5) by (simp add: zero_SdpMessage_def)
  show ?thesis
    unfolding head_lines_def m9 [symmetric]
    by (intro decodes_append [OF 1] decodes_append [OF 2] decodes_append [OF 3] decodes_append [OF 4]
        decodes_append [OF 5] decodes_append [OF 6] decodes_append [OF 7] decodes_append [OF 8] 9)
qed

lemma tail_decodes:
  assumes "codable m" and "sm_Encryption m0 = \<lparr>en_Method = [], en_Key = []\<rparr>" and "sm_Attributes m0 = []"
  shows "decodes 9 (tail_lines m) 11 m0 (m0\<lparr>sm_Encryption := sm_Encryption m, sm_Attributes := sm_Attributes m\<rparr>)"
proof -
  let ?m1 = "m0\<lparr>sm_Encryption := sm_Encryption m\<rparr>"
  have en: "codable_encryption (sm_Encryption m)" and at: "codable_attributes (sm_Attributes m)"
    using assms(1) by (simp_all add: codable_def)
  have "decodes 9 (opt_line (\<not> Encryption_Blank (sm_Encryption m)) TypeEncryptionKey
       (pair_line (en_Method (sm_Encryption m)) (en_Key (sm_Encryption m)))) (Suc 9) m0 ?m1"
    using assms(2) by (intro decodes_opt)
      (simp_all add: session_order field_encryption [OF _ en, simplified Types_distinct] encryption_blank)
  then have 1: "decodes 9 (opt_line (\<not> Encryption_Blank (sm_Encryption m)) TypeEncryptionKey
       (pair_line (en_Method (sm_Encryption m)) (en_Key (sm_Encryption m)))) 11 m0 ?m1"
    by (rule decodes_weaken) simp_all
  have "?m1\<lparr>sm_Attributes := []\<rparr> = ?m1" using assms(3) by (cases m0) simp
  then have 2: "decodes 11 (attribute_lines (sm_Attributes m)) 11 ?m1 (?m1\<lparr>sm_Attributes := sm_Attributes m\<rparr>)"
    using session_attributes.dec_attributes [of "[]" "sm_Attributes m" ?m1] at
    by (simp only: codable_attributes_def append_Nil)
  show ?thesis unfolding tail_lines_def using decodes_append [OF 1 2] by simp
qed

lemma zones_decode:
  assumes "codable m" and "sm_TZAdjustments m0 = []"
  shows "decodes 8 (zone_lines m) 9 m0 (m0\<lparr>sm_TZAdjustments := sm_TZAdjustments m\<rparr>)"
  using decodes_opt [of TypeTimeZones 8 "sm_TZAdjustments m \<noteq> []" "append_zones [] (sm_TZAdjustments m)" m0
      "m0\<lparr>sm_TZAdjustments := sm_TZAdjustments m\<rparr>"] field_zones [of "sm_TZAdjustments m" _ m0] assms
  by (auto simp: zone_lines_def codable_def session_order)

text \<open>What follows the time section starts with a key, an attribute or a media line.\<close>

lemma tail_starts:
  "tail_lines m @ concat (map media_lines xs) = [] \<or>
   ln_Type (hd (tail_lines m @ concat (map media_lines xs))) \<in> {TypeEncryptionKey, TypeAttribute, TypeMediaDescription}"
proof -
  have "attribute_lines as = [] \<or> ln_Type (hd (attribute_lines as)) = TypeAttribute" for as
  proof -
    have "\<forall>l\<in>set (attribute_lines as). ln_Type l = TypeAttribute"
      by (auto simp: attribute_lines_def value_lines_def)
    then show ?thesis using hd_in_set by blast
  qed
  moreover have "concat (map media_lines xs) = [] \<or> ln_Type (hd (concat (map media_lines xs))) = TypeMediaDescription"
    by (cases xs) (simp_all add: media_lines_def)
  ultimately show ?thesis by (auto simp: tail_lines_def opt_line_def hd_append)
qed

lemma time_decodes:
  assumes "codable m" and "sm_Timing m0 = []" and "sm_TZAdjustments m0 = []"
    and "cursor sectionSession 0 d (map timing_line (sm_Timing m) @ zone_lines m @ tail_lines m @ concat (map media_lines xs)) 8"
  obtains d' where "cursor sectionSession 0 d' (tail_lines m @ concat (map media_lines xs)) 9"
    "session_loop d m0 = session_loop d' (m0\<lparr>sm_Timing := sm_Timing m, sm_TZAdjustments := sm_TZAdjustments m\<rparr>)"
proof (cases "sm_Timing m")
  case Nil
  then obtain d' where "cursor sectionSession 0 d' (tail_lines m @ concat (map media_lines xs)) 9"
    "session_loop d m0 = session_loop d' (m0\<lparr>sm_TZAdjustments := sm_TZAdjustments m\<rparr>)"
    using zones_decode [OF assms(1,3)] assms(4) unfolding decodes_def by auto
  moreover have "m0\<lparr>sm_Timing := [], sm_TZAdjustments := z\<rparr> = m0\<lparr>sm_TZAdjustments := z\<rparr>" for z
    using assms(2) by (cases m0) simp
  ultimately show thesis using that Nil by simp
next
  case (Cons t ts)
  then have t: "ts = []" "codable_timing t" "sm_TZAdjustments m = []" "zone_lines m = []"
    using assms(1) by (auto simp: codable_def zone_lines_def opt_line_def)
  then have "cursor sectionSession 0 d (timing_line t # tail_lines m @ concat (map media_lines xs)) 8"
    using assms(4) Cons by simp
  from session_timing [OF this t(2) _ tail_starts, of m0] obtain d' where
    "session_loop d m0 = session_loop d' (m0\<lparr>sm_Timing := sm_Timing m0 @ [t]\<rparr>)"
    "cursor sectionSession 0 d' (tail_lines m @ concat (map media_lines xs)) (Suc 8)" by auto
  moreover have "m0\<lparr>sm_Timing := z, sm_TZAdjustments := []\<rparr> = m0\<lparr>sm_Timing := z\<rparr>" for z
    using assms(3) by (cases m0) simp
  ultimately show thesis using that assms(2) Cons t(1,3) by simp
qed

lemma Decode_lines:
  assumes "codable m"
  shows "\<exists>d. Decoder_Decode (NewDecoder (message_lines m)) zero_SdpMessage = Ret (None, d, m)"
proof -
  let ?d0 = "(NewDecoder (message_lines m))\<lparr>dc_sPos := 0, dc_section := sectionSession\<rparr>"
  let ?m0 = "m\<lparr>sm_Timing := [], sm_TZAdjustments := [], sm_Encryption := \<lparr>en_Method = [], en_Key = []\<rparr>,
       sm_Attributes := [], sm_Medias := []\<rparr>"
  let ?m1 = "?m0\<lparr>sm_Timing := sm_Timing m, sm_TZAdjustments := sm_TZAdjustments m\<rparr>"
  have "cursor sectionSession 0 ?d0 (message_lines m) 0" by (simp add: cursor_def NewDecoder_def)
  then obtain d1 where d1: "session_loop ?d0 zero_SdpMessage = session_loop d1 ?m0"
    "cursor sectionSession 0 d1 (map timing_line (sm_Timing m) @ zone_lines m @ tail_lines m @ concat (map media_lines (sm_Medias m))) 8"
    using head_decodes [OF assms] unfolding decodes_def message_lines_def by blast
  obtain d2 where d2: "cursor sectionSession 0 d2 (tail_lines m @ concat (map media_lines (sm_Medias m))) 9"
    "session_loop d1 ?m0 = session_loop d2 ?m1"
    using time_decodes [OF assms _ _ d1(2), of ?m0] by auto
  then obtain d3 where d3: "cursor sectionSession 0 d3 (concat (map media_lines (sm_Medias m))) 11"
    "session_loop d2 ?m1 = session_loop d3 (?m1\<lparr>sm_Encryption := sm_Encryption m, sm_Attributes := sm_Attributes m\<rparr>)"
    using tail_decodes [OF assms, of ?m1] unfolding decodes_def by auto
  obtain d4 where "session_loop d3 (?m1\<lparr>sm_Encryption := sm_Encryption m, sm_Attributes := sm_Attributes m\<rparr>) = Ret (None, d4, m)"
    using session_medias [OF d3(1), of "?m1\<lparr>sm_Encryption := sm_Encryption m, sm_Attributes := sm_Attributes m\<rparr>"] assms
    by (auto simp: codable_def)
  then show ?thesis using d1(1) d2(2) d3(2) by (auto simp: Decoder_Decode_def decodeSession_sdp_def)
qed

section \<open>A sample\<close>

definition sample_media :: Media where
  "sample_media = zero_Media\<lparr>me_Description := \<lparr>md_Type = ''audio'', md_Port = 5000, md_PortsNumber = 0,
       md_Protocol = ''RTP/AVP'', md_Format = ''0''\<rparr>,
     me_Attributes := [(''candidate'', [''x y'', ''z'']), (''sendrecv'', [[]])]\<rparr>"

definition sample_sdp :: SdpMessage where
  "sample_sdp = zero_SdpMessage\<lparr>
     sm_Origin := \<lparr>og_Username = ''-'', og_SessionID = 4, og_SessionVersion = 1, og_NetworkType = ''IN'',
                   og_AddressType = ''IP4'', og_Address = ''10.0.0.1''\<rparr>,
     sm_Name := ''ice'',
     sm_Connection := \<lparr>cn_NetworkType = ''IN'', cn_AddressType = ''IP4'', cn_IP = v4_prefix @ [10, 0, 0, 1],
                       cn_TTL = 0, cn_Addresses = 0\<rparr>,
     sm_Timing := [\<lparr>ti_Start = zero_Time, ti_End = zero_Time, ti_Repeat = 0, ti_Active = 0, ti_Offsets = []\<rparr>],
     sm_Attributes := [(''ice-ufrag'', [''abcd''])], sm_Medias := [sample_media]\<rparr>"

lemma sample_sdp_codable: "codable sample_sdp"
  by (simp add: codable_def sample_sdp_def sample_media_def zero_SdpMessage_def zero_Media_def zero_MediaDescription_def
      codable_origin_def codable_connection_def codable_bandwidths_def codable_timing_def codable_time_def zero_Time_def
      ntpDelta_def codable_encryption_def codable_attributes_def codable_media_def codable_description_def go_int_def
      max_int_def v4_prefix_def)

lemma sample_sdp_plain: "list_all plain_line (SdpMessage_Append sample_sdp [])"
  unfolding Append_lines [OF sample_sdp_codable]
  by code_simp

end
