(* ===== verification/Ice_Offer.thy ===== *)
theory Ice_Offer
  imports Ice_Transport Sdp_Roundtrip
begin

text \<open>
  The session description of a transport is read back by its peer: the text that
  \<open>EncodeSession\<close> prints scans into its lines, and \<open>decodeSession\<close> finds in them the
  credentials, the candidates and the default candidate. Shown for candidates with IPv4
  addresses; the colons of an IPv6 address make \<open>decodeSession\<close> reject the line.
\<close>

section \<open>Scanning printable text\<close>

lemma plain_char_not_space:
  assumes "plain_char c"
  shows "\<not> starts_with_space (c # s)" "trim_front space_runes (c # s) = c # s"
proof -
  have no: "take (length e) (c # s) \<noteq> e" if "e \<in> set space_runes" for e
  proof
    assume t: "take (length e) (c # s) = e"
    have "e \<noteq> []" using space_rune_nonempty that by blast
    then have "c \<in> set e" using t by (cases e) auto
    then show False using space_rune_chars [OF that] assms by blast
  qed
  then show "\<not> starts_with_space (c # s)" by (auto simp: starts_with_space_def list_ex_iff)
  show "trim_front space_runes (c # s) = c # s" using no by (intro trim_front_none) blast
qed

lemma plain_char_rune:
  assumes "plain_char c"
  shows "DecodeRune (c # s) = code c" "EncodeRune (code c) = [c]"
proof -
  have "0 \<le> code c" "code c \<le> 0x7F" using assms by (simp_all add: code_def plain_char_def)
  then show "DecodeRune (c # s) = code c" "EncodeRune (code c) = [c]"
    using DecodeRune_ascii [of "code c" s] EncodeRune_ascii [of "code c"] by simp_all
qed

lemma word_runes_plain: "list_all plain_char s \<Longrightarrow> word_runes s = s"
proof (induction s)
  case Nil
  then show ?case by (subst word_runes.simps) simp
next
  case (Cons c s)
  then have "rune_len (c # s) = 1" by (simp add: rune_len_def plain_char_rune)
  then show ?case
    using Cons plain_char_not_space [of c s] plain_char_rune(1) [of c s] plain_char_rune(2) [of c] by (subst word_runes.simps) simp
qed

lemma EncodeRune_space: "EncodeRune 0x20 = '' ''"
  using EncodeRune_char [of "CHR '' ''"] by (simp add: code_def)

lemma trim_front_space: "trim_front space_runes (CHR '' '' # s) = trim_front space_runes s"
proof -
  have "find (\<lambda>e. e \<noteq> [] \<and> take (length e) (CHR '' '' # s) = e) space_runes = Some '' ''"
    by (simp add: space_runes_def EncodeRune_space)
  then show ?thesis by (subst trim_front.simps) simp
qed

lemma scan_blank_space:
  assumes "list_all plain_char w" and "w \<noteq> []"
  shows "scan_blank (CHR '' '' # w @ r) = Some (w @ r)"
proof -
  have sp: "'' '' \<in> set space_runes" by (simp add: space_runes_def EncodeRune_space)
  then have "starts_with_space (CHR '' '' # w @ r)" by (force simp: starts_with_space_def list_ex_iff)
  moreover have "trim_front space_runes (w @ r) = w @ r"
    using assms plain_char_not_space(2) by (cases w) auto
  ultimately show ?thesis by (simp add: scan_blank_def trim_front_space)
qed

lemma scan_connection_text:
  assumes "list_all plain_char w" and "w \<noteq> []"
  shows "scan_connection_IP (''IN IP4 '' @ w) = Some w"
proof -
  have "trim_front space_runes w = w" using assms plain_char_not_space(2) by (cases w) auto
  then have "scan_word w = Some w" using assms by (simp add: scan_word_def word_runes_plain)
  then show ?thesis
    using scan_blank_space [of "''IP4''" "CHR '' '' # w"] scan_blank_space [OF assms, of "[]"]
    by (simp add: scan_connection_IP_def scan_literal_def plain_char_def)
qed

lemma digits_plain: "is_digit c \<Longrightarrow> plain_char c"
  by (simp add: is_digit_def plain_char_def)

lemma show_dec_plain: "list_all plain_char (show_dec n)"
  using show_dec_digits [of n] digits_plain by (auto simp: list_all_iff)

lemma scan_int_number:
  assumes "int n \<le> max_int" and "s \<noteq> [] \<Longrightarrow> \<not> is_digit (hd s)"
  shows "scan_int (show_dec n @ s) = Some (int n)"
proof -
  obtain c ds where w: "show_dec n = c # ds" by (cases "show_dec n") auto
  have d: "list_all is_digit (show_dec n)" by (rule show_dec_digits)
  then have c: "is_digit c" using w by simp
  then have t: "trim_front space_runes (show_dec n @ s) = show_dec n @ s"
    using plain_char_not_space(2) digits_plain w by simp
  have "c \<notin> set ''+-''" using c by (auto simp: is_digit_def)
  moreover have "takeWhile is_digit (show_dec n @ s) = show_dec n"
    using d assms(2) by (cases s) (auto simp: takeWhile_append list_all_iff)
  ultimately show ?thesis
    using w assms(1) Atoi_show_dec [of n] unfolding scan_int_def Let_def t by simp
qed

lemma scan_audio_text:
  assumes "int n \<le> max_int"
  shows "scan_audio_port (''audio '' @ show_dec n @ '' RTP/AVP 0'') = Some (int n)"
  using scan_blank_space [OF show_dec_plain, of n "'' RTP/AVP 0''"] scan_int_number [OF assms, of "'' RTP/AVP 0''"]
  by (simp add: scan_audio_port_def scan_literal_def is_digit_def)

section \<open>Lines with their ends\<close>

lemma concat_join: "concat (map (\<lambda>p. p @ [d]) ps) = join_with d (ps @ [[]])"
  by (induction ps) (simp_all add: join_with_Cons)

lemma DecodeSession_terminated:
  assumes "list_all good_line ls"
  shows "DecodeSession (concat (map (\<lambda>l. line_text l @ [newLine]) ls)) s = (s @ ls, None)"
proof -
  have t: "concat (map (\<lambda>l. line_text l @ [newLine]) ls) = join_with newLine (map line_text ls @ [[]])"
    using concat_join [of newLine "map line_text ls"] by (simp add: comp_def)
  have "split_on newLine (join_with newLine (map line_text ls @ [[]])) = map line_text ls @ [[]]"
    using assms by (intro split_on_join) (auto simp: list_all_iff good_line_text)
  moreover have "TrimSpace [] = []" by (simp add: TrimSpace_def trim_front_none)
  ultimately have "sdp_pieces (concat (map (\<lambda>l. line_text l @ [newLine]) ls)) = map line_text ls"
    using sdp_pieces_good [OF assms] by (simp add: sdp_pieces_def t)
  then show ?thesis using decode_pieces_good [OF assms] by (simp add: DecodeSession_pieces)
qed

section \<open>Candidates with IPv4 addresses\<close>

definition v4_addr :: "string \<Rightarrow> bytes \<Rightarrow> nat \<Rightarrow> bool" where
  "v4_addr a ip port \<longleftrightarrow> length ip = 4 \<and> port < 65536 \<and> a = dotted ip @ '':'' @ show_dec port"

definition offerable :: "Candidate \<Rightarrow> bool" where
  "offerable c \<longleftrightarrow> good_number (Foundation c) \<and> good_number (ComponentID c) \<and> good_number (Priority c) \<and>
     transport c = TransportUDP \<and> cd_Type c \<noteq> CandidateUnknown \<and> (\<exists>ip port. v4_addr (cd_addr c) ip port) \<and>
     (cd_Type c = CandidateServerReflexive \<longrightarrow> (\<exists>ip port. v4_addr (baseAddr c) ip port \<and> 10 \<le> port))"

lemma show_dec_two: "10 \<le> n \<Longrightarrow> 2 \<le> length (show_dec n)"
  by (subst show_base.simps) (auto simp: Suc_le_eq)

lemma dotted_chars: "length ip = 4 \<Longrightarrow> list_all (\<lambda>c. is_digit c \<or> c = CHR ''.'') (dotted ip)"
  using length_4 [of ip] show_dec_digits by (fastforce simp: dotted_eq list_all_iff)

lemma dotted_nonempty: "length ip = 4 \<Longrightarrow> dotted ip \<noteq> []"
  using length_4 [of ip] by (auto simp: dotted_eq)

lemma v4_good_address:
  assumes "v4_addr a ip port"
  shows "good_address a (dotted ip) (show_dec port)"
proof -
  have ip: "length ip = 4" using assms by (simp add: v4_addr_def)
  have "CHR '' '' \<notin> set (dotted ip)" "plain (dotted ip)"
    using dotted_avoid [OF ip] by (auto simp: plain_def is_digit_def)
  then show ?thesis
    using assms ip plain_digits [OF show_dec_digits] dotted_nonempty [OF ip]
    by (simp add: v4_addr_def good_address_def token_def sp_def) (simp add: digits_avoid is_digit_def)
qed

lemma offerable_printable: "offerable c \<Longrightarrow> printable c"
  unfolding offerable_def printable_def scalars_ok_def using v4_good_address show_dec_two by metis

text \<open>The characters of a value that is neither cut at a colon nor at the end of a line.\<close>

abbreviation value_chars :: "string \<Rightarrow> bool" where
  "value_chars s \<equiv> CHR '':'' \<notin> set s \<and> newLine \<notin> set s"

lemma value_chars_digits: "value_chars (show_dec n)" "good_number i \<Longrightarrow> value_chars (itoa i)"
  using digits_avoid [of "CHR '':''"] digits_avoid [of newLine]
  by (simp_all add: is_digit_def newLine_def itoa_def good_number_def)

lemma value_chars_dotted: "length ip = 4 \<Longrightarrow> value_chars (dotted ip)"
  by (simp add: dotted_avoid is_digit_def newLine_def)

lemma last_digit: "plain_char (last (show_dec n))"
  using show_dec_plain [of n] by (simp add: list_all_iff)

lemma offerable_text:
  assumes "offerable c"
  shows "\<exists>body. Candidate_String c = ''a=candidate:'' @ body \<and> value_chars body \<and> body \<noteq> [] \<and> plain_char (last body)"
proof -
  obtain ip port where a: "v4_addr (cd_addr c) ip port" using assms by (auto simp: offerable_def)
  have n: "value_chars (itoa (Foundation c))" "value_chars (itoa (ComponentID c))" "value_chars (itoa (Priority c))"
    using assms value_chars_digits(2) by (auto simp: offerable_def)
  have split: "split_or_empty (cd_addr c) = (dotted ip, show_dec port)"
    using good_address_split [OF v4_good_address [OF a]] .
  have ip: "value_chars (dotted ip)" using a value_chars_dotted by (simp add: v4_addr_def)
  have t: "value_chars (CandidateType_String (cd_Type c))" "CandidateType_String (cd_Type c) \<noteq> []"
      "plain_char (last (CandidateType_String (cd_Type c)))"
    by (cases "cd_Type c"; simp add: CandidateType_String_def newLine_def plain_char_def)+
  let ?b = "itoa (Foundation c) @ '' '' @ itoa (ComponentID c) @ '' '' @ TransportType_String (transport c) @ '' '' @
      itoa (Priority c) @ '' '' @ dotted ip @ '' '' @ show_dec port @ '' typ '' @ CandidateType_String (cd_Type c)"
  have u: "value_chars (TransportType_String (transport c))"
    using assms by (simp add: offerable_def TransportType_String_def newLine_def)
  have b: "value_chars ?b" using n ip t u value_chars_digits(1) by (simp add: newLine_def)
  show ?thesis
  proof (cases "cd_Type c = CandidateServerReflexive")
    case False
    then have "Candidate_String c = ''a=candidate:'' @ ?b" by (simp add: Candidate_String_def split)
    then show ?thesis using b t(2,3) by (intro exI [of _ ?b]) simp
  next
    case True
    then obtain ip2 port2 where r: "v4_addr (baseAddr c) ip2 port2" using assms by (auto simp: offerable_def)
    let ?r = "?b @ '' raddr '' @ dotted ip2 @ '' rport '' @ show_dec port2"
    have "split_or_empty (baseAddr c) = (dotted ip2, show_dec port2)"
      using good_address_split [OF v4_good_address [OF r]] .
    then have "Candidate_String c = ''a=candidate:'' @ ?r" using True by (simp add: Candidate_String_def split)
    moreover have "value_chars (dotted ip2)" using r value_chars_dotted by (simp add: v4_addr_def)
    ultimately show ?thesis
      using b value_chars_digits(1) last_digit by (intro exI [of _ ?r]) (simp add: newLine_def)
  qed
qed

text \<open>The parser is given the value of the line, without \<open>a=\<close>.\<close>

lemma parse_value: "candidateParser_parse (''candidate:'' @ b) c = candidateParser_parse (''a=candidate:'' @ b) c"
  by (simp add: candidateParser_parse_def trim_prefix_def minBufLen_def)

section \<open>Descriptions\<close>

definition text_line :: "char \<Rightarrow> string \<Rightarrow> Line" where
  "text_line t v = \<lparr>ln_Type = code t, ln_Value = v\<rparr>"

lemma text_line_text: "plain_char t \<Longrightarrow> line_text (text_line t v) = t # CHR ''='' # v"
  by (simp add: text_line_def line_text_def plain_char_rune)

lemma text_line_good:
  "plain_char t \<Longrightarrow> t \<noteq> CHR ''='' \<Longrightarrow> newLine \<notin> set v \<Longrightarrow> v = [] \<or> plain_char (last v) \<Longrightarrow> good_line (text_line t v)"
  by (intro plain_good)
    (auto simp: plain_line_def text_line_def plain_char_def code_def of_char_eq_iff [where 'a = nat, symmetric])

definition credential :: "string \<Rightarrow> bool" where
  "credential w \<longleftrightarrow> w \<noteq> [] \<and> CHR '':'' \<notin> set w \<and> newLine \<notin> set w \<and> plain_char (last w)"

definition description_lines :: "string \<Rightarrow> string \<Rightarrow> bytes \<Rightarrow> nat \<Rightarrow> Candidate list \<Rightarrow> Line list" where
  "description_lines frag pwd ip port cs =
     [text_line CHR ''v'' ''0'', text_line CHR ''o'' ''- 3414953978 3414953978 IN IP4 localhost'',
      text_line CHR ''s'' ''ice'', text_line CHR ''t'' ''0 0'', text_line CHR ''a'' (''ice-ufrag:'' @ frag),
      text_line CHR ''a'' (''ice-pwd:'' @ pwd), text_line CHR ''m'' (''audio '' @ show_dec port @ '' RTP/AVP 0''),
      text_line CHR ''c'' (''IN IP4 '' @ dotted ip)] @ map (\<lambda>c. text_line CHR ''a'' (drop 2 (Candidate_String c))) cs"

lemma EncodeSession_text:
  assumes "tr_session t = Some s" and "tc_defaultCandidate (tr_component t) = Some dc" and "v4_addr (cd_addr dc) ip port"
    and "list_all offerable (tc_candidates (tr_component t))"
  shows "StreamTransport_EncodeSession t = Ret (Inr (concat (map (\<lambda>l. line_text l @ [newLine])
    (description_lines (rxUserFrag s) (rxPassword s) ip port (tc_candidates (tr_component t))))))"
proof -
  have ip: "length ip = 4" "port < 65536" using assms(3) by (simp_all add: v4_addr_def)
  have "addrToUDPAddr (cd_addr dc) = (v4_prefix @ ip, int port)"
    using good_address_split [OF v4_good_address [OF assms(3)]] ip Atoi_value_show_dec [of port]
    by (simp add: addrToUDPAddr_def ParseIP_dotted max_int_def)
  moreover have "concat (map (\<lambda>c. Candidate_String c @ [newLine]) cs) =
      concat (map (\<lambda>l. line_text l @ [newLine]) (map (\<lambda>c. text_line CHR ''a'' (drop 2 (Candidate_String c))) cs))"
    if "list_all offerable cs" for cs
    using that
  proof (induction cs)
    case (Cons c cs)
    then obtain b where "Candidate_String c = ''a=candidate:'' @ b" using offerable_text [of c] by auto
    then show ?case using Cons by (simp add: text_line_text plain_char_def)
  qed simp
  ultimately show ?thesis
    using assms(1,2,4) ip
    by (simp add: StreamTransport_EncodeSession_def description_lines_def text_line_text plain_char_def IP_String_v4 itoa_def)
qed

lemma dotted_plain: "length ip = 4 \<Longrightarrow> list_all plain_char (dotted ip)"
  using dotted_chars [of ip] by (auto simp: list_all_iff plain_char_def is_digit_def)

lemma description_good:
  assumes "credential frag" "credential pwd" "length ip = 4" "list_all offerable cs"
  shows "list_all good_line (description_lines frag pwd ip port cs)"
proof -
  have "good_line (text_line CHR ''a'' (drop 2 (Candidate_String c)))" if c: "c \<in> set cs" for c
  proof -
    obtain b where "Candidate_String c = ''a=candidate:'' @ b" "value_chars b" "b \<noteq> []" "plain_char (last b)"
      using offerable_text [of c] assms(4) c by (auto simp: list_all_iff)
    then show ?thesis by (intro text_line_good) (simp_all add: plain_char_def newLine_def)
  qed
  moreover have "good_line (text_line CHR ''c'' (''IN IP4 '' @ dotted ip))"
  proof (rule text_line_good)
    show "''IN IP4 '' @ dotted ip = [] \<or> plain_char (last (''IN IP4 '' @ dotted ip))"
      using dotted_nonempty [OF assms(3)] dotted_plain [OF assms(3)] by (simp add: list_all_iff)
  qed (use value_chars_dotted [OF assms(3)] in \<open>simp_all add: plain_char_def newLine_def\<close>)
  moreover have "good_line (text_line CHR ''m'' (''audio '' @ show_dec port @ '' RTP/AVP 0''))"
    using value_chars_digits(1) [of port] by (intro text_line_good) (simp_all add: plain_char_def newLine_def)
  ultimately show ?thesis
    using assms(1,2)
    by (auto simp: description_lines_def credential_def list_all_iff plain_char_def newLine_def intro!: text_line_good)
qed

lemma decode_candidate_line:
  assumes "offerable c"
  shows "\<exists>c'. decode_line (text_line CHR ''a'' (drop 2 (Candidate_String c))) sd =
      Inr (sd\<lparr>sd_candidates := sd_candidates sd @ [c']\<rparr>) \<and> Candidate_Equal c c'"
proof -
  obtain b where b: "Candidate_String c = ''a=candidate:'' @ b" "value_chars b" using offerable_text [OF assms] by blast
  obtain c' where c': "candidateParser_parse (''candidate:'' @ b) zero_Candidate = (None, c')" "Candidate_Equal c c'"
    using ParseAttribute_String [OF offerable_printable [OF assms], of zero_Candidate] b(1) parse_value
    by (auto simp: ParseAttribute_def)
  have "split_on CHR '':'' (''candidate'' @ CHR '':'' # b) = [''candidate'', b]"
    using b(2) by (subst split_on_part) (simp_all add: split_on_plain)
  then show ?thesis
    using c' b(1) by (auto simp: decode_line_def text_line_def TypeAttribute_def)
qed

lemma decode_candidate_lines:
  assumes "list_all offerable cs"
  shows "\<exists>cs'. decode_description (map (\<lambda>c. text_line CHR ''a'' (drop 2 (Candidate_String c))) cs) sd =
      Inr (sd\<lparr>sd_candidates := sd_candidates sd @ cs'\<rparr>) \<and> list_all2 Candidate_Equal cs cs'"
  using assms
proof (induction cs arbitrary: sd)
  case Nil
  then show ?case by (intro exI [of _ "[]"]) simp
next
  case (Cons c cs)
  obtain c' where c': "decode_line (text_line CHR ''a'' (drop 2 (Candidate_String c))) sd =
      Inr (sd\<lparr>sd_candidates := sd_candidates sd @ [c']\<rparr>)" "Candidate_Equal c c'"
    using decode_candidate_line [of c sd] Cons(2) by auto
  obtain cs' where "decode_description (map (\<lambda>c. text_line CHR ''a'' (drop 2 (Candidate_String c))) cs)
      (sd\<lparr>sd_candidates := sd_candidates sd @ [c']\<rparr>) =
      Inr (sd\<lparr>sd_candidates := (sd_candidates sd @ [c']) @ cs'\<rparr>)" "list_all2 Candidate_Equal cs cs'"
    using Cons(1) [of "sd\<lparr>sd_candidates := sd_candidates sd @ [c']\<rparr>"] Cons(2) by auto
  then show ?case using c' by (intro exI [of _ "c' # cs'"]) simp
qed

lemma default_index_found:
  "c \<in> set cs \<Longrightarrow> cd_addr c = a \<Longrightarrow> \<exists>j<length cs. default_index a i cs = Some (i + j) \<and> cd_addr (cs ! j) = a"
proof (induction cs arbitrary: i)
  case (Cons d cs)
  show ?case
  proof (cases "cd_addr d = a")
    case False
    then obtain j where "j < length cs" "default_index a (Suc i) cs = Some (Suc i + j)" "cd_addr (cs ! j) = a"
      using Cons(1) [of "Suc i"] Cons(2,3) by auto
    then show ?thesis using False by (intro exI [of _ "Suc j"]) simp
  qed (auto intro: exI [of _ 0])
qed simp

lemma decode_lines_head:
  assumes "credential frag" "credential pwd" "length ip = 4" "port < 65536"
  shows "decode_description (description_lines frag pwd ip port cs) zero_sessionDescription =
    decode_description (map (\<lambda>c. text_line CHR ''a'' (drop 2 (Candidate_String c))) cs)
      (zero_sessionDescription\<lparr>sd_user := frag, sd_password := pwd, sd_defaultPort := int port, sd_defaultIP := dotted ip\<rparr>)"
proof -
  have kv: "split_on CHR '':'' (''ice-ufrag'' @ CHR '':'' # frag) = [''ice-ufrag'', frag]"
    "split_on CHR '':'' (''ice-pwd'' @ CHR '':'' # pwd) = [''ice-pwd'', pwd]"
    using assms(1,2) by (subst split_on_part; simp add: credential_def split_on_plain)+
  have "decode_line (text_line CHR ''a'' (''ice-ufrag:'' @ frag)) sd = Inr (sd\<lparr>sd_user := frag\<rparr>)"
    "decode_line (text_line CHR ''a'' (''ice-pwd:'' @ pwd)) sd = Inr (sd\<lparr>sd_password := pwd\<rparr>)" for sd
    using kv by (simp_all add: decode_line_def text_line_def TypeAttribute_def)
  moreover have "decode_line (text_line CHR ''m'' (''audio '' @ show_dec port @ '' RTP/AVP 0'')) sd =
      Inr (sd\<lparr>sd_defaultPort := int port\<rparr>)" for sd
    using scan_audio_text [of port] assms(4)
    by (simp add: decode_line_def text_line_def Types_distinct code_def max_int_def)
  moreover have "decode_line (text_line CHR ''c'' (''IN IP4 '' @ dotted ip)) sd = Inr (sd\<lparr>sd_defaultIP := dotted ip\<rparr>)" for sd
    using scan_connection_text [OF dotted_plain dotted_nonempty, OF assms(3) assms(3)]
    by (simp add: decode_line_def text_line_def Types_distinct code_def)
  moreover have "decode_line (text_line t v) sd = Inr sd" if "t \<in> set ''vost''" for t v sd
    using that by (auto simp: decode_line_def text_line_def Types_distinct code_def)
  ultimately show ?thesis by (simp add: description_lines_def)
qed

lemma Encode_decodeSession:
  assumes "tr_session t = Some s" and "tc_defaultCandidate (tr_component t) = Some dc"
    and dc: "dc \<in> set (tc_candidates (tr_component t))" and "list_all offerable (tc_candidates (tr_component t))"
    and cred: "credential (rxUserFrag s)" "credential (rxPassword s)"
  shows "\<exists>text sd j. StreamTransport_EncodeSession t = Ret (Inr text) \<and> decodeSession text = Inr sd \<and>
    sd_user sd = rxUserFrag s \<and> sd_password sd = rxPassword s \<and>
    list_all2 Candidate_Equal (tc_candidates (tr_component t)) (sd_candidates sd) \<and>
    sd_defautCandidate sd = Some j \<and> j < length (sd_candidates sd) \<and> cd_addr (sd_candidates sd ! j) = cd_addr dc"
proof -
  let ?cs = "tc_candidates (tr_component t)"
  obtain ip port where a: "v4_addr (cd_addr dc) ip port" using dc assms(4) by (auto simp: list_all_iff offerable_def)
  then have ip: "length ip = 4" "port < 65536" "cd_addr dc = dotted ip @ '':'' @ show_dec port" by (simp_all add: v4_addr_def)
  let ?ls = "description_lines (rxUserFrag s) (rxPassword s) ip port ?cs"
  let ?sd = "zero_sessionDescription\<lparr>sd_user := rxUserFrag s, sd_password := rxPassword s, sd_defaultPort := int port,
      sd_defaultIP := dotted ip\<rparr>"
  obtain cs' where cs': "decode_description (map (\<lambda>c. text_line CHR ''a'' (drop 2 (Candidate_String c))) ?cs) ?sd =
      Inr (?sd\<lparr>sd_candidates := cs'\<rparr>)" "list_all2 Candidate_Equal ?cs cs'"
    using decode_candidate_lines [OF assms(4), of ?sd] by (auto simp: zero_sessionDescription_def)
  obtain c' where "c' \<in> set cs'" "Candidate_Equal dc c'"
    using cs'(2) dc by (metis in_set_conv_nth list_all2_conv_all_nth)
  then obtain j where j: "j < length cs'" "default_index (cd_addr dc) 0 cs' = Some j" "cd_addr (cs' ! j) = cd_addr dc"
    using default_index_found [of c' cs' "cd_addr dc" 0] by (auto simp: Candidate_Equal_def split: if_splits)
  have "cs' \<noteq> []" using j(1) by auto
  then have "decodeSession (concat (map (\<lambda>l. line_text l @ [newLine]) ?ls)) =
      Inr (?sd\<lparr>sd_candidates := cs', sd_defautCandidate := Some j\<rparr>)"
    using DecodeSession_terminated [OF description_good [OF cred ip(1) assms(4), of port], of "[]"]
      decode_lines_head [OF cred ip(1,2)] cs'(1) cred j(2) dotted_nonempty [OF ip(1)] ip(3)
    by (simp add: decodeSession_def zero_sessionDescription_def credential_def itoa_def)
  then show ?thesis
    using EncodeSession_text [OF assms(1,2) a assms(4)] cs'(2) j(1,3) by (auto simp: zero_sessionDescription_def)
qed

end
