(* ===== verification/Stun_Agent.thy ===== *)
theory Stun_Agent
  imports Stun_Message "HOL-Library.Multiset" Go_Machine
begin

text \<open>
  The transaction agent, \<^verbatim>\<open>src/stun/agent.go\<close>, on which the STUN client is built.

  A handler is an opaque name; calling one appends to the list of calls an operation
  returns, so that the theory can say who is called, with what, and how often. Calling a
  nil handler is a panic. A Go map is a HOL map; the order in which \<open>range\<close> visits it is an
  argument. Every operation runs under the agent's mutex up to the point where it calls
  handlers, so the operations of concurrent goroutines are a sequence of steps: the
  inductive \<open>agent_step\<close>. Times are integers (only \<open>Before\<close> is used).
\<close>

section \<open>Events and handlers\<close>

record Event =
  ev_Message :: "Message option"
  ev_Error :: "go_error option"

text \<open>A call of a handler, as the handler of a transaction or as the agent's default one.\<close>

datatype 'h call =
    TransactionCall TransactionID 'h Event
  | DefaultCall 'h Event

definition HandleEvent :: "TransactionID \<Rightarrow> 'h option \<Rightarrow> Event \<Rightarrow> 'h call list go" where
  "HandleEvent tid h e = (case h of None \<Rightarrow> Panic NilDereference | Some h \<Rightarrow> Ret [TransactionCall tid h e])"

section \<open>Agent\<close>

record 'h agentTransaction =
  at_id :: TransactionID
  at_deadline :: int
  at_h :: "'h option"

record 'h Agent =
  transactions :: "TransactionID \<rightharpoonup> 'h agentTransaction"
  closed :: bool
  zeroHandler :: "'h option"

definition NewAgent :: "'h option \<Rightarrow> 'h Agent" where
  "NewAgent h = \<lparr>transactions = Map.empty, closed = False, zeroHandler = h\<rparr>"

definition Agent_StopWithError ::
  "TransactionID \<Rightarrow> go_error option \<Rightarrow> 'h Agent \<Rightarrow> (go_error option \<times> 'h call list \<times> 'h Agent) go" where
  "Agent_StopWithError tid err a =
     (if closed a then Ret (Some ErrAgentClosed, [], a)
      else
        let a' = a\<lparr>transactions := (transactions a)(tid := None)\<rparr>
        in case transactions a tid of
             None \<Rightarrow> Ret (Some ErrTransactionNotExists, [], a')
           | Some t \<Rightarrow> go_map (\<lambda>cs. (None, cs, a'))
               (HandleEvent tid (at_h t) \<lparr>ev_Message = None, ev_Error = err\<rparr>))"

definition Agent_Stop ::
  "TransactionID \<Rightarrow> 'h Agent \<Rightarrow> (go_error option \<times> 'h call list \<times> 'h Agent) go" where
  "Agent_Stop tid a = Agent_StopWithError tid (Some ErrTransactionStopped) a"

definition Agent_Start ::
  "TransactionID \<Rightarrow> int \<Rightarrow> 'h option \<Rightarrow> 'h Agent \<Rightarrow> go_error option \<times> 'h Agent" where
  "Agent_Start tid deadline h a =
     (if closed a then (Some ErrAgentClosed, a)
      else case transactions a tid of
        Some _ \<Rightarrow> (Some ErrTransactionExists, a)
      | None \<Rightarrow> (None, a\<lparr>transactions := (transactions a)
                   (tid \<mapsto> \<lparr>at_id = tid, at_deadline = deadline, at_h = h\<rparr>)\<rparr>))"

type_synonym 'h visit = "(TransactionID \<times> 'h agentTransaction) list"

text \<open>The first loop of \<open>Collect\<close>: who is to be called and removed, in the order of the visit.\<close>

fun to_remove :: "int \<Rightarrow> 'h visit \<Rightarrow> TransactionID list" where
  "to_remove gcTime [] = []"
| "to_remove gcTime ((tid, t) # v) =
     (if at_deadline t < gcTime then tid # to_remove gcTime v else to_remove gcTime v)"

fun to_call :: "int \<Rightarrow> 'h visit \<Rightarrow> (TransactionID \<times> 'h option) list" where
  "to_call gcTime [] = []"
| "to_call gcTime ((tid, t) # v) =
     (if at_deadline t < gcTime then (tid, at_h t) # to_call gcTime v else to_call gcTime v)"

fun call_all :: "Event \<Rightarrow> (TransactionID \<times> 'h option) list \<Rightarrow> 'h call list go" where
  "call_all e [] = Ret []"
| "call_all e ((tid, h) # hs) =
     go_bind (HandleEvent tid h e) (\<lambda>c. go_map (\<lambda>cs. c @ cs) (call_all e hs))"

fun delete_all :: "TransactionID list \<Rightarrow> (TransactionID \<rightharpoonup> 't) \<Rightarrow> TransactionID \<rightharpoonup> 't" where
  "delete_all [] m = m"
| "delete_all (tid # ids) m = delete_all ids (m(tid := None))"

definition Agent_Collect ::
  "'h visit \<Rightarrow> int \<Rightarrow> 'h Agent \<Rightarrow> (go_error option \<times> 'h call list \<times> 'h Agent) go" where
  "Agent_Collect visit gcTime a =
     (if closed a then Ret (Some ErrAgentClosed, [], a)
      else
        let toCall = to_call gcTime visit;
            toRemove = to_remove gcTime visit;
            a' = a\<lparr>transactions := delete_all toRemove (transactions a)\<rparr>
        in go_map (\<lambda>cs. (None, cs, a'))
             (call_all \<lparr>ev_Message = None, ev_Error = Some ErrTransactionTimeOut\<rparr> toCall))"

definition Agent_Process :: "Message \<Rightarrow> 'h Agent \<Rightarrow> (go_error option \<times> 'h call list \<times> 'h Agent) go" where
  "Agent_Process m a =
     (let e = \<lparr>ev_Message = Some m, ev_Error = None\<rparr>;
          tid = msg_TransactionID m
      in if closed a then Ret (Some ErrAgentClosed, [], a)
         else
           let a' = a\<lparr>transactions := (transactions a)(tid := None)\<rparr>
           in case transactions a tid of
                Some t \<Rightarrow> go_map (\<lambda>cs. (None, cs, a')) (HandleEvent tid (at_h t) e)
              | None \<Rightarrow> Ret (None, case zeroHandler a of None \<Rightarrow> [] | Some h \<Rightarrow> [DefaultCall h e], a'))"

definition Agent_Close :: "'h visit \<Rightarrow> 'h Agent \<Rightarrow> (go_error option \<times> 'h call list \<times> 'h Agent) go" where
  "Agent_Close visit a =
     (if closed a then Ret (Some ErrAgentClosed, [], a)
      else go_map (\<lambda>cs. (None, cs, a\<lparr>transactions := Map.empty, closed := True, zeroHandler := None\<rparr>))
             (call_all \<lparr>ev_Message = None, ev_Error = Some ErrAgentClosed\<rparr>
               (map (\<lambda>(tid, t). (tid, at_h t)) visit)))"

text \<open>\<open>range\<close> visits every entry of the map once, in some order.\<close>

definition visits :: "'h visit \<Rightarrow> 'h Agent \<Rightarrow> bool" where
  "visits v a \<longleftrightarrow> distinct (map fst v) \<and> map_of v = transactions a"

section \<open>The agent as a transition system\<close>

datatype 'h agent_op =
    OpStart TransactionID int "'h option"
  | OpStop TransactionID "go_error option"
  | OpProcess Message
  | OpCollect int
  | OpClose

record 'h label =
  lb_op :: "'h agent_op"
  lb_result :: "go_error option"
  lb_calls :: "'h call list"

inductive agent_step :: "'h Agent \<Rightarrow> 'h label \<Rightarrow> 'h Agent \<Rightarrow> bool" where
  step_Start: "Agent_Start tid d h a = (r, a') \<Longrightarrow>
    agent_step a \<lparr>lb_op = OpStart tid d h, lb_result = r, lb_calls = []\<rparr> a'"
| step_Stop: "Agent_StopWithError tid e a = Ret (r, cs, a') \<Longrightarrow>
    agent_step a \<lparr>lb_op = OpStop tid e, lb_result = r, lb_calls = cs\<rparr> a'"
| step_Process: "Agent_Process m a = Ret (r, cs, a') \<Longrightarrow>
    agent_step a \<lparr>lb_op = OpProcess m, lb_result = r, lb_calls = cs\<rparr> a'"
| step_Collect: "visits v a \<Longrightarrow> Agent_Collect v t a = Ret (r, cs, a') \<Longrightarrow>
    agent_step a \<lparr>lb_op = OpCollect t, lb_result = r, lb_calls = cs\<rparr> a'"
| step_Close: "visits v a \<Longrightarrow> Agent_Close v a = Ret (r, cs, a') \<Longrightarrow>
    agent_step a \<lparr>lb_op = OpClose, lb_result = r, lb_calls = cs\<rparr> a'"

inductive_cases agent_stepE: "agent_step a l a'"

section \<open>The agent is a transaction table\<close>

definition agent_inv :: "'h Agent \<Rightarrow> bool" where
  "agent_inv a \<longleftrightarrow> finite (dom (transactions a)) \<and>
     (closed a \<longrightarrow> transactions a = Map.empty \<and> zeroHandler a = None) \<and>
     (\<forall>tid t. transactions a tid = Some t \<longrightarrow> at_id t = tid)"

definition agent_pending :: "'h Agent \<Rightarrow> (TransactionID \<times> 'h option) multiset" where
  "agent_pending a =
     image_mset (\<lambda>tid. (tid, at_h (the (transactions a tid)))) (mset_set (dom (transactions a)))"

fun call_transaction :: "'h call \<Rightarrow> (TransactionID \<times> 'h option) multiset" where
  "call_transaction (TransactionCall tid h e) = {#(tid, Some h)#}"
| "call_transaction (DefaultCall h e) = {#}"

definition calls_transactions :: "'h call list \<Rightarrow> (TransactionID \<times> 'h option) multiset" where
  "calls_transactions cs = \<Sum>\<^sub># (mset (map call_transaction cs))"

definition label_completed :: "'h label \<Rightarrow> (TransactionID \<times> 'h option) multiset" where
  "label_completed l = calls_transactions (lb_calls l)"

fun label_started :: "'h label \<Rightarrow> (TransactionID \<times> 'h option) multiset" where
  "label_started l =
     (case lb_op l of
        OpStart tid d h \<Rightarrow> if lb_result l = None then {#(tid, h)#} else {#}
      | _ \<Rightarrow> {#})"

lemma calls_transactions_simps [simp]:
  "calls_transactions [] = {#}"
  "calls_transactions (c # cs) = call_transaction c + calls_transactions cs"
  "calls_transactions (cs @ cs') = calls_transactions cs + calls_transactions cs'"
  by (simp_all add: calls_transactions_def)

lemma agent_pending_cong: "transactions a = transactions a' \<Longrightarrow> agent_pending a = agent_pending a'"
  by (simp add: agent_pending_def)

lemma agent_pending_insert:
  assumes "finite (dom (transactions a))" and "transactions a tid = None"
  shows "agent_pending (a\<lparr>transactions := (transactions a)(tid \<mapsto> t)\<rparr>) = add_mset (tid, at_h t) (agent_pending a)"
proof -
  have "tid \<notin> dom (transactions a)" using assms(2) by auto
  then show ?thesis
    using assms(1) by (auto simp: agent_pending_def intro!: image_mset_cong)
qed

lemma agent_pending_delete:
  assumes "finite (dom (transactions a))" and "transactions a tid = Some t"
  shows "agent_pending a = add_mset (tid, at_h t) (agent_pending (a\<lparr>transactions := (transactions a)(tid := None)\<rparr>))"
proof -
  let ?b = "a\<lparr>transactions := (transactions a)(tid := None)\<rparr>"
  have "a = ?b\<lparr>transactions := (transactions ?b)(tid \<mapsto> t)\<rparr>" using assms(2) by (simp add: fun_upd_idem)
  with agent_pending_insert [of ?b tid t] assms(1) show ?thesis by simp
qed

lemma agent_pending_delete_None:
  "transactions a tid = None \<Longrightarrow> a\<lparr>transactions := (transactions a)(tid := None)\<rparr> = a"
  by (simp add: fun_upd_idem)

lemma agent_pending_visits:
  assumes "visits v a"
  shows "agent_pending a = mset (map (\<lambda>(tid, t). (tid, at_h t)) v)"
proof -
  have "mset_set (dom (transactions a)) = mset (map fst v)"
    using assms mset_set_set [of "map fst v"] by (simp add: visits_def flip: dom_map_of_conv_image_fst)
  moreover have "map (\<lambda>tid. (tid, at_h (the (transactions a tid)))) (map fst v) = map (\<lambda>(tid, t). (tid, at_h t)) v"
  proof -
    have "the (transactions a tid) = t" if "(tid, t) \<in> set v" for tid t
      using that assms map_of_is_SomeI [of v tid t] by (simp add: visits_def)
    then show ?thesis by auto
  qed
  ultimately show ?thesis
    by (simp only: agent_pending_def flip: mset_map)
qed

lemma call_all_Ret: "call_all e hs = Ret cs \<Longrightarrow> calls_transactions cs = mset hs"
proof (induction e hs arbitrary: cs rule: call_all.induct)
  case (2 e tid h hs)
  then show ?case by (cases "call_all e hs") (auto simp: HandleEvent_def split: option.splits)
qed simp

lemma delete_all_eq: "delete_all ids m = m |` (- set ids)"
proof (induction ids m rule: delete_all.induct)
  case (2 i ids m)
  then show ?case by (simp only: delete_all.simps) (auto simp: restrict_map_def)
qed (simp add: restrict_map_def)

lemma to_remove_eq: "to_remove t v = map fst (filter (\<lambda>(_, x). at_deadline x < t) v)"
  by (induction v) auto

lemma to_call_eq: "to_call t v = map (\<lambda>(i, x). (i, at_h x)) (filter (\<lambda>(_, x). at_deadline x < t) v)"
  by (induction v) auto

lemma visits_Collect:
  assumes "visits v a"
  shows "visits (filter (\<lambda>(_, x). \<not> at_deadline x < t) v)
    (a\<lparr>transactions := delete_all (to_remove t v) (transactions a)\<rparr>)"
proof -
  let ?P = "\<lambda>(_, x). at_deadline x < t"
  have d: "distinct (map fst v)" and m: "map_of v = transactions a"
    using assms by (simp_all add: visits_def)
  have "map_of (filter (\<lambda>(_, x). \<not> at_deadline x < t) v) i = (map_of v |` (- fst ` set (filter ?P v))) i" for i
  proof (cases "map_of v i")
    case None
    then have "i \<notin> fst ` set v" by (simp add: map_of_eq_None_iff)
    then have "map_of (filter (\<lambda>(_, x). \<not> at_deadline x < t) v) i = None"
      by (auto simp: map_of_eq_None_iff)
    with None show ?thesis by (simp add: restrict_map_def)
  next
    case (Some x)
    then have mem: "(i, x) \<in> set v" by (rule map_of_SomeD)
    then have uniq: "y = x" if "(i, y) \<in> set v" for y using that d eq_key_imp_eq_value by fastforce
    have df: "distinct (map fst (filter (\<lambda>(_, x). \<not> at_deadline x < t) v))" using d by (rule distinct_map_filter)
    show ?thesis
    proof (cases "at_deadline x < t")
      case True
      then have "map_of (filter (\<lambda>(_, x). \<not> at_deadline x < t) v) i = None"
        using uniq by (auto simp: map_of_eq_None_iff)
      moreover have "i \<in> fst ` set (filter ?P v)" using True mem by force
      ultimately show ?thesis by (simp add: restrict_map_def)
    next
      case False
      then have "map_of (filter (\<lambda>(_, x). \<not> at_deadline x < t) v) i = Some x"
        using mem df by (intro map_of_is_SomeI) auto
      moreover have "i \<notin> fst ` set (filter ?P v)" using False uniq by auto
      ultimately show ?thesis using Some by (simp add: restrict_map_def)
    qed
  qed
  then show ?thesis
    using d m by (auto simp: visits_def delete_all_eq to_remove_eq distinct_map_filter fun_eq_iff)
qed

lemma mset_filter_split: "mset (filter P xs) + mset (filter (\<lambda>x. \<not> P x) xs) = mset xs"
  by (induction xs) auto

lemma agent_Collect_balance:
  assumes v: "visits v a" and c: "Agent_Collect v t a = Ret (r, cs, a')"
  shows "agent_pending a = agent_pending a' + calls_transactions cs"
proof (cases "closed a")
  case True
  then show ?thesis using c by (simp add: Agent_Collect_def)
next
  case False
  let ?f = "\<lambda>(i, x). (i, at_h x)" and ?P = "\<lambda>(_, x). at_deadline x < t"
  obtain cs0 where "call_all \<lparr>ev_Message = None, ev_Error = Some ErrTransactionTimeOut\<rparr> (to_call t v) = Ret cs0"
    using c False by (cases "call_all \<lparr>ev_Message = None, ev_Error = Some ErrTransactionTimeOut\<rparr> (to_call t v)")
      (simp_all add: Agent_Collect_def Let_def)
  then have a': "a' = a\<lparr>transactions := delete_all (to_remove t v) (transactions a)\<rparr>"
    and cs: "call_all \<lparr>ev_Message = None, ev_Error = Some ErrTransactionTimeOut\<rparr> (to_call t v) = Ret cs"
    using c False by (simp_all add: Agent_Collect_def Let_def)
  have p: "agent_pending a = image_mset ?f (mset v)" using agent_pending_visits [OF v] by simp
  have p': "agent_pending a' = image_mset ?f (mset (filter (\<lambda>x. \<not> ?P x) v))"
    using agent_pending_visits [OF visits_Collect [OF v, of t]]
    by (simp add: a' case_prod_beta')
  have "calls_transactions cs = image_mset ?f (mset (filter ?P v))"
    using call_all_Ret [OF cs] by (simp add: to_call_eq)
  moreover have "mset v = mset (filter (\<lambda>x. \<not> ?P x) v) + mset (filter ?P v)"
    by (subst mset_filter_split [of ?P v, symmetric]) (rule add.commute)
  ultimately show ?thesis by (simp only: p p' image_mset_union)
qed

lemma agent_Close_balance:
  assumes v: "visits v a" and c: "Agent_Close v a = Ret (r, cs, a')"
  shows "agent_pending a = agent_pending a' + calls_transactions cs"
proof (cases "closed a")
  case False
  let ?hs = "map (\<lambda>(tid, t). (tid, at_h t)) v"
  obtain cs0 where cs: "call_all \<lparr>ev_Message = None, ev_Error = Some ErrAgentClosed\<rparr> ?hs = Ret cs0"
    using c False by (cases "call_all \<lparr>ev_Message = None, ev_Error = Some ErrAgentClosed\<rparr> ?hs")
      (simp_all add: Agent_Close_def)
  then have "cs = cs0" "transactions a' = Map.empty" using c False by (auto simp: Agent_Close_def)
  then show ?thesis
    using call_all_Ret [OF cs] agent_pending_visits [OF v] by (simp add: agent_pending_def)
qed (use c in \<open>simp add: Agent_Close_def\<close>)

text \<open>Both \<open>Stop\<close> and \<open>Process\<close> take a transaction out and call its handler.\<close>

lemma HandleEvent_balance:
  assumes "finite (dom (transactions a))" and "transactions a tid = Some t"
    and "HandleEvent tid (at_h t) e = Ret cs"
  shows "agent_pending a = agent_pending (a\<lparr>transactions := (transactions a)(tid := None)\<rparr>) + calls_transactions cs"
  using assms(3) agent_pending_delete [OF assms(1,2)] by (auto simp: HandleEvent_def split: option.splits)

lemma agent_Stop_balance:
  assumes "finite (dom (transactions a))" and "Agent_StopWithError tid e a = Ret (r, cs, a')"
  shows "agent_pending a = agent_pending a' + calls_transactions cs"
proof (cases "transactions a tid")
  case None
  then show ?thesis
    using assms(2) by (auto simp: Agent_StopWithError_def Let_def agent_pending_delete_None split: if_splits)
next
  case (Some t)
  then show ?thesis
    using assms(2) HandleEvent_balance [OF assms(1) Some, of "\<lparr>ev_Message = None, ev_Error = e\<rparr>"]
    by (cases "HandleEvent tid (at_h t) \<lparr>ev_Message = None, ev_Error = e\<rparr>")
      (auto simp: Agent_StopWithError_def Let_def split: if_splits)
qed

lemma agent_Process_balance:
  assumes "finite (dom (transactions a))" and "Agent_Process m a = Ret (r, cs, a')"
  shows "agent_pending a = agent_pending a' + calls_transactions cs"
proof (cases "transactions a (msg_TransactionID m)")
  case None
  then show ?thesis
    using assms(2)
    by (auto simp: Agent_Process_def Let_def agent_pending_delete_None split: if_splits option.splits)
next
  case (Some t)
  then show ?thesis
    using assms(2) HandleEvent_balance [OF assms(1) Some, of "\<lparr>ev_Message = Some m, ev_Error = None\<rparr>"]
    by (cases "HandleEvent (msg_TransactionID m) (at_h t) \<lparr>ev_Message = Some m, ev_Error = None\<rparr>")
      (auto simp: Agent_Process_def Let_def split: if_splits)
qed

lemma agent_Start_balance:
  assumes "finite (dom (transactions a))" and "Agent_Start tid d h a = (r, a')"
  shows "agent_pending a' = agent_pending a + (if r = None then {#(tid, h)#} else {#})"
  using assms agent_pending_insert [OF assms(1), of tid "\<lparr>at_id = tid, at_deadline = d, at_h = h\<rparr>"]
  by (auto simp: Agent_Start_def split: if_splits option.splits)

text \<open>Outside \<open>Start\<close>, an operation only removes transactions.\<close>

definition shrinks :: "'h Agent \<Rightarrow> 'h Agent \<Rightarrow> bool" where
  "shrinks a a' \<longleftrightarrow> transactions a' \<subseteq>\<^sub>m transactions a \<and> (closed a \<longrightarrow> a' = a) \<and>
     (closed a' \<longrightarrow> a' = a \<or> transactions a' = Map.empty \<and> zeroHandler a' = None)"

lemma shrinks_inv: "shrinks a a' \<Longrightarrow> agent_inv a \<Longrightarrow> agent_inv a'"
proof -
  assume "shrinks a a'" and inv: "agent_inv a"
  then have le: "transactions a' \<subseteq>\<^sub>m transactions a"
    and cl: "closed a' \<longrightarrow> a' = a \<or> transactions a' = Map.empty \<and> zeroHandler a' = None"
    by (simp_all add: shrinks_def)
  have "finite (dom (transactions a'))"
    using inv map_le_implies_dom_le [OF le] finite_subset by (auto simp: agent_inv_def)
  moreover have "transactions a tid = Some t" if "transactions a' tid = Some t" for tid t
    using le that by (metis domI map_le_def)
  ultimately show "agent_inv a'"
    using inv cl by (auto simp: agent_inv_def)
qed

lemma shrinks_delete: "\<not> closed a \<Longrightarrow> shrinks a (a\<lparr>transactions := (transactions a)(tid := None)\<rparr>)"
  by (simp add: shrinks_def map_le_def)

lemma agent_step_shrinks:
  assumes "agent_step a l a'" and "\<nexists>tid d h. lb_op l = OpStart tid d h"
  shows "shrinks a a'"
  using assms
proof (cases rule: agent_step.cases)
  case (step_Stop tid e r cs)
  then show ?thesis
    using shrinks_delete [of a tid]
    by (auto simp: Agent_StopWithError_def Let_def go_map_Ret shrinks_def split: if_splits option.splits)
next
  case (step_Process m r cs)
  then show ?thesis
    using shrinks_delete [of a "msg_TransactionID m"]
    by (auto simp: Agent_Process_def Let_def go_map_Ret shrinks_def split: if_splits option.splits)
next
  case (step_Collect v t r cs)
  then show ?thesis
    by (auto simp: Agent_Collect_def Let_def go_map_Ret shrinks_def delete_all_eq map_le_def restrict_map_def split: if_splits)
next
  case (step_Close v r cs)
  then show ?thesis
    by (auto simp: Agent_Close_def go_map_Ret shrinks_def split: if_splits)
qed auto

lemma agent_step_inv: "agent_step a l a' \<Longrightarrow> agent_inv a \<Longrightarrow> agent_inv a'"
proof (cases "\<exists>tid d h. lb_op l = OpStart tid d h")
  case False
  then show "agent_step a l a' \<Longrightarrow> agent_inv a \<Longrightarrow> agent_inv a'"
    using agent_step_shrinks shrinks_inv by blast
next
  case True
  assume "agent_step a l a'" and "agent_inv a"
  with True show "agent_inv a'"
    by (auto elim!: agent_stepE simp: Agent_Start_def agent_inv_def split: if_splits option.splits)
qed

interpretation agent_table: transaction_table agent_step agent_inv agent_pending label_started label_completed
proof unfold_locales
  fix s s' :: "'h Agent" and l
  assume step: "agent_step s l s'" and inv: "agent_inv s"
  then show "agent_inv s'" by (rule agent_step_inv)
  have fin: "finite (dom (transactions s))" using inv by (simp add: agent_inv_def)
  show "agent_pending s + label_started l = agent_pending s' + label_completed l"
    using step
  proof (cases rule: agent_step.cases)
    case (step_Start tid d h r)
    then show ?thesis using agent_Start_balance [OF fin] by (simp add: label_completed_def)
  next
    case (step_Stop tid e r cs)
    then show ?thesis using agent_Stop_balance [OF fin] by (simp add: label_completed_def)
  next
    case (step_Process m r cs)
    then show ?thesis using agent_Process_balance [OF fin] by (simp add: label_completed_def)
  next
    case (step_Collect v t r cs)
    then show ?thesis using agent_Collect_balance by (simp add: label_completed_def)
  next
    case (step_Close v r cs)
    then show ?thesis using agent_Close_balance by (simp add: label_completed_def)
  qed
qed

section \<open>Collect\<close>

lemma call_all_events:
  "call_all e hs = Ret cs \<Longrightarrow> c \<in> set cs \<Longrightarrow> \<exists>tid h. c = TransactionCall tid h e"
proof (induction e hs arbitrary: cs rule: call_all.induct)
  case (2 e tid h hs)
  then show ?case by (cases "call_all e hs") (auto simp: HandleEvent_def split: option.splits)
qed simp

lemma Agent_Collect_exact:
  assumes v: "visits v a" and "\<not> closed a" and c: "Agent_Collect v t a = Ret (r, cs, a')"
  shows "r = None \<and>
    (\<forall>tid. transactions a' tid =
       (case transactions a tid of
          None \<Rightarrow> None | Some x \<Rightarrow> if at_deadline x < t then None else Some x)) \<and>
    calls_transactions cs = mset [(tid, at_h x). (tid, x) \<leftarrow> v, at_deadline x < t] \<and>
    (\<forall>c\<in>set cs. \<exists>tid h. c = TransactionCall tid h \<lparr>ev_Message = None, ev_Error = Some ErrTransactionTimeOut\<rparr>)"
proof -
  let ?e = "\<lparr>ev_Message = None, ev_Error = Some ErrTransactionTimeOut\<rparr> :: Event"
  have "r = None" and a': "transactions a' = delete_all (to_remove t v) (transactions a)"
    and cs: "call_all ?e (to_call t v) = Ret cs"
    using assms(2) c unfolding Agent_Collect_def Let_def by (simp_all add: go_map_Ret)
  have d: "distinct (map fst v)" and m: "map_of v = transactions a"
    using v by (simp_all add: visits_def)
  have "transactions a' tid = (case transactions a tid of
      None \<Rightarrow> None | Some x \<Rightarrow> if at_deadline x < t then None else Some x)" for tid
  proof (cases "transactions a tid")
    case None
    then show ?thesis by (simp add: a' delete_all_eq restrict_map_def)
  next
    case (Some x)
    then have mem: "(tid, x) \<in> set v" using m by (intro map_of_SomeD) simp
    have uniq: "y = x" if "(tid, y) \<in> set v" for y
      using that mem by (rule eq_key_imp_eq_value [OF d])
    have "tid \<in> set (to_remove t v) \<longleftrightarrow> (\<exists>y. (tid, y) \<in> set v \<and> at_deadline y < t)"
      by (auto simp: to_remove_eq image_iff)
    also have "\<dots> \<longleftrightarrow> at_deadline x < t" using mem uniq by blast
    finally have "tid \<in> set (to_remove t v) \<longleftrightarrow> at_deadline x < t" .
    then show ?thesis using Some by (simp add: a' delete_all_eq restrict_map_def)
  qed
  then have tr: "\<forall>tid. transactions a' tid = (case transactions a tid of
      None \<Rightarrow> None | Some x \<Rightarrow> if at_deadline x < t then None else Some x)" by (rule allI)
  have "[(tid, at_h x). (tid, x) \<leftarrow> v, at_deadline x < t] = to_call t v"
    by (induction v) auto
  then have "calls_transactions cs = mset [(tid, at_h x). (tid, x) \<leftarrow> v, at_deadline x < t]"
    using call_all_Ret [OF cs] by (simp only:)
  moreover have "\<forall>c\<in>set cs. \<exists>tid h. c = TransactionCall tid h ?e"
    using call_all_events [OF cs] by (rule ballI)
  ultimately show ?thesis using \<open>r = None\<close> tr by (intro conjI)
qed

end
