(* ===== verification/Stun_Client.thy ===== *)
theory Stun_Client
  imports Stun_Agent
begin

text \<open>
  The STUN client of \<^verbatim>\<open>src/stun/client.go\<close> over the agent of \<open>Stun_Agent\<close>.

  The connection is outside the program: what a write, a read or a close of it returns is an
  argument. Between registering a transaction and stopping it after a failed write, and while
  the reading loop waits for a packet, other goroutines may run the agent: what they do is an
  argument \<open>other\<close>. The two background loops run over the list of what each of their
  iterations finds.
  The lemmas show that whatever the client does is a run of its agent, so that the agent's
  accounting of handlers holds for the client; that the reading loop gives the agent exactly
  the messages it received, each once and in order, until it is closed; and that the
  collecting loop does not panic.
\<close>

section \<open>Client state and operations\<close>

datatype client_error =
    ClientErr go_error
  | ErrClientClosed
  | ErrNoConnection
  | StopErr go_error go_error
  | CloseErr "go_error option" "go_error option"

record 'h Client =
  cl_a :: "'h Agent"
  cl_closed :: bool
  cl_gcRate :: int

definition defaultTimeoutRate :: int where "defaultTimeoutRate = 100 * 1000000"

text \<open>Whether a connection was given, and the agent if one was.\<close>

definition NewClient :: "bool \<Rightarrow> 'h Agent option \<Rightarrow> int \<Rightarrow> client_error + 'h Client" where
  "NewClient has_connection agent timeoutRate =
     (if \<not> has_connection then Inl ErrNoConnection
      else Inr \<lparr>cl_a = (case agent of None \<Rightarrow> NewAgent None | Some a \<Rightarrow> a),
                cl_closed = False,
                cl_gcRate = (if timeoutRate = 0 then defaultTimeoutRate else timeoutRate)\<rparr>)"

text \<open>\<open>other\<close>: the handlers that other goroutines call while the message is written, and their agent.\<close>

definition Client_Start ::
  "(bytes \<Rightarrow> nat \<times> go_error option) \<Rightarrow> ('h Agent \<Rightarrow> 'h call list \<times> 'h Agent) \<Rightarrow> Message \<Rightarrow> int \<Rightarrow> 'h option \<Rightarrow>
   'h Client \<Rightarrow> (client_error option \<times> 'h call list \<times> 'h Client) go" where
  "Client_Start w other m d h c =
     (if cl_closed c then Ret (Some ErrClientClosed, [], c)
      else
        let (startErr, a) = (if h \<noteq> None then Agent_Start (msg_TransactionID m) d h (cl_a c) else (None, cl_a c))
        in case startErr of
             Some e \<Rightarrow> Ret (Some (ClientErr e), [], c\<lparr>cl_a := a\<rparr>)
           | None \<Rightarrow>
               let (_, err) = Message_WriteTo w m;
                   (ocs, a) = other a
               in case err of
                    None \<Rightarrow> Ret (None, ocs, c\<lparr>cl_a := a\<rparr>)
                  | Some e \<Rightarrow>
                      if h = None then Ret (Some (ClientErr e), ocs, c\<lparr>cl_a := a\<rparr>)
                      else go_map (\<lambda>(stopErr, cs, a).
                             ((case stopErr of Some e' \<Rightarrow> Some (StopErr e' e) | None \<Rightarrow> Some (ClientErr e)),
                              ocs @ cs, c\<lparr>cl_a := a\<rparr>))
                           (Agent_Stop (msg_TransactionID m) a))"

definition Client_Indicate ::
  "(bytes \<Rightarrow> nat \<times> go_error option) \<Rightarrow> ('h Agent \<Rightarrow> 'h call list \<times> 'h Agent) \<Rightarrow> Message \<Rightarrow> 'h Client \<Rightarrow>
   (client_error option \<times> 'h call list \<times> 'h Client) go" where
  "Client_Indicate w other m c = Client_Start w other m 0 None c"

definition Client_Close ::
  "'h visit \<Rightarrow> go_error option \<Rightarrow> 'h Client \<Rightarrow> (client_error option \<times> 'h call list \<times> 'h Client) go" where
  "Client_Close visit connErr c =
     (if cl_closed c then Ret (Some ErrClientClosed, [], c)
      else go_map (\<lambda>(agentErr, cs, a).
             ((if agentErr = None \<and> connErr = None then None else Some (CloseErr agentErr connErr)),
              cs, c\<lparr>cl_closed := True, cl_a := a\<rparr>))
           (Agent_Close visit (cl_a c)))"

section \<open>The background loops\<close>

text \<open>
  One iteration of \<open>readUntilClosed\<close> finds the close channel closed (\<open>None\<close>), or reads, while
  others may run the agent. The result is the agent, the calls made by the loop and whether it
  returned.
\<close>

type_synonym reader = "nat \<Rightarrow> bytes \<times> go_error option"

fun readUntilClosed ::
  "(reader \<times> ('h Agent \<Rightarrow> 'h Agent)) option list \<Rightarrow> Message \<Rightarrow> 'h Agent \<Rightarrow> (bool \<times> 'h call list \<times> 'h Agent) go" where
  "readUntilClosed [] m a = Ret (False, [], a)"
| "readUntilClosed (None # rs) m a = Ret (True, [], a)"
| "readUntilClosed (Some (r, other) # rs) m a =
     go_bind (Message_ReadFrom r m) (\<lambda>(_, err, m).
       if err \<noteq> None then readUntilClosed rs m (other a)
       else go_bind (Agent_Process m (other a)) (\<lambda>(pErr, cs, a).
         if pErr = Some ErrAgentClosed then Ret (True, cs, a)
         else go_map (\<lambda>(ret, cs', a). (ret, cs @ cs', a)) (readUntilClosed rs m a)))"

definition closedOrPanic :: "go_error option \<Rightarrow> unit go" where
  "closedOrPanic err =
     (if err = None \<or> err = Some ErrAgentClosed then Ret () else Panic (ExplicitPanic ''err''))"

text \<open>An iteration of \<open>collectUntilClosed\<close> finds a tick, with the order of the visit, or the close.\<close>

fun collectUntilClosed ::
  "(int \<times> 'h visit) option list \<Rightarrow> 'h Agent \<Rightarrow> (bool \<times> 'h call list \<times> 'h Agent) go" where
  "collectUntilClosed [] a = Ret (False, [], a)"
| "collectUntilClosed (None # ts) a = Ret (True, [], a)"
| "collectUntilClosed (Some (gcTime, v) # ts) a =
     go_bind (Agent_Collect v gcTime a) (\<lambda>(err, cs, a).
       go_bind (closedOrPanic err) (\<lambda>_.
         go_map (\<lambda>(ret, cs', a). (ret, cs @ cs', a)) (collectUntilClosed ts a)))"

section \<open>A client is a run of its agent\<close>

definition path_calls :: "'h label list \<Rightarrow> 'h call list" where
  "path_calls ls = concat (map lb_calls ls)"

definition runs_agent :: "'h Agent \<Rightarrow> 'h call list \<Rightarrow> 'h Agent \<Rightarrow> bool" where
  "runs_agent a cs a' \<longleftrightarrow> (\<exists>ls. path agent_step a ls a' \<and> path_calls ls = cs)"

lemma runs_agent_refl [simp]: "runs_agent a [] a"
  unfolding runs_agent_def by (rule exI [of _ "[]"]) (simp add: path_calls_def path_Nil)

lemma runs_agent_trans:
  assumes "runs_agent a cs a'" and "runs_agent a' cs' a''"
  shows "runs_agent a (cs @ cs') a''"
proof -
  obtain ls ls' where "path agent_step a ls a'" "path_calls ls = cs" "path agent_step a' ls' a''" "path_calls ls' = cs'"
    using assms by (auto simp: runs_agent_def)
  then show ?thesis
    unfolding runs_agent_def by (intro exI [of _ "ls @ ls'"]) (auto simp: path_calls_def intro: path_trans)
qed

lemma agent_step_runs:
  assumes "agent_step a l a'"
  shows "runs_agent a (lb_calls l) a'"
proof -
  have "path agent_step a [l] a'"
    using path_snoc [where step = agent_step and ls = "[]", OF path_Nil assms] by simp
  then show ?thesis
    unfolding runs_agent_def by (intro exI [of _ "[l]"]) (simp add: path_calls_def)
qed

lemmas agent_runs =
  agent_step.intros(1) [THEN agent_step_runs, simplified label.simps]
  agent_step.intros(2) [THEN agent_step_runs, simplified label.simps]
  agent_step.intros(3) [THEN agent_step_runs, simplified label.simps]
  agent_step.intros(4) [THEN agent_step_runs, simplified label.simps]
  agent_step.intros(5) [THEN agent_step_runs, simplified label.simps]

text \<open>\<open>Start\<close> runs the agent's \<open>Start\<close>, then whatever other goroutines do, then perhaps its \<open>Stop\<close>.\<close>

lemma Client_Start_runs:
  assumes ret: "Client_Start w other m d h c = Ret (r, cs, c')"
    and other: "\<And>a. runs_agent a (fst (other a)) (snd (other a))"
  shows "runs_agent (cl_a c) cs (cl_a c')"
proof (cases "cl_closed c")
  case False
  obtain startErr a where s:
    "(if h \<noteq> None then Agent_Start (msg_TransactionID m) d h (cl_a c) else (None, cl_a c)) = (startErr, a)"
    by fastforce
  then have start: "runs_agent (cl_a c) [] a"
    using agent_runs(1) [of "msg_TransactionID m" d h "cl_a c"] by (auto split: if_splits)
  show ?thesis
  proof (cases startErr)
    case None
    obtain ocs a1 where o: "other a = (ocs, a1)" by fastforce
    have mid: "runs_agent (cl_a c) ocs a1"
      using runs_agent_trans [OF start other [of a]] o by simp
    obtain cs1 where "cs = ocs @ cs1" "runs_agent a1 cs1 (cl_a c')"
      using ret False s None o agent_runs(2) [of "msg_TransactionID m" "Some ErrTransactionStopped" a1]
      by (fastforce simp: Client_Start_def Agent_Stop_def Let_def go_map_Ret split: prod.splits option.splits if_splits)
    then show ?thesis using runs_agent_trans [OF mid] by simp
  qed (use ret False s start in \<open>auto simp: Client_Start_def\<close>)
qed (use ret in \<open>auto simp: Client_Start_def\<close>)

lemma Client_Close_runs:
  assumes "Client_Close v e c = Ret (r, cs, c')" and "visits v (cl_a c)"
  shows "runs_agent (cl_a c) cs (cl_a c')"
  using assms agent_runs(5) [OF assms(2)]
  by (auto simp: Client_Close_def go_map_Ret split: if_splits)

section \<open>The reading loop\<close>

text \<open>The messages the loop receives up to the close: what is read without an error, decoded into its buffer.\<close>

fun received :: "(reader \<times> 'o) option list \<Rightarrow> Message \<Rightarrow> Message list" where
  "received [] m = []"
| "received (None # rs) m = []"
| "received (Some (r, other) # rs) m = (case Message_ReadFrom r m of
      Panic p \<Rightarrow> []
    | Ret (n, err, m') \<Rightarrow> (if err = None then m' # received rs m' else received rs m'))"

text \<open>
  What the loop should do with them. Its own steps are a prefix of one \<open>Process\<close> for each message
  received; only the last may have found the agent closed, and then the loop has returned;
  else it has processed them all, and has returned exactly if it found the close channel closed.
\<close>

definition processes :: "'h label list \<Rightarrow> bool \<Rightarrow> (reader \<times> 'o) option list \<Rightarrow> Message \<Rightarrow> bool" where
  "processes own ret rs m \<longleftrightarrow>
     map lb_op own = map OpProcess (take (length own) (received rs m)) \<and>
     (\<forall>l\<in>set (butlast own). lb_result l \<noteq> Some ErrAgentClosed) \<and>
     (if own \<noteq> [] \<and> lb_result (last own) = Some ErrAgentClosed then ret
      else length own = length (received rs m) \<and> (ret \<longleftrightarrow> None \<in> set rs))"

lemma processes_Nil: "processes [] False [] m" "processes [] True (None # rs) m"
  by (simp_all add: processes_def)

lemma processes_skip:
  assumes "Message_ReadFrom r m = Ret (n, Some e, m1)" and "processes own ret rs m1"
  shows "processes own ret (Some (r, other) # rs) m"
  using assms by (auto simp: processes_def)

lemma processes_Process:
  assumes "Message_ReadFrom r m = Ret (n, None, m1)" and "lb_op l = OpProcess m1"
    and "if lb_result l = Some ErrAgentClosed then own = [] \<and> ret else processes own ret rs m1"
  shows "processes (l # own) ret (Some (r, other) # rs) m"
  using assms by (cases "own = []") (auto simp: processes_def split: if_splits)

definition own_steps :: "(bool \<times> 'l) list \<Rightarrow> 'l list" where
  "own_steps ls = map snd (filter fst ls)"

lemma own_steps_simps [simp]:
  "own_steps [] = []" "own_steps (ls @ ls') = own_steps ls @ own_steps ls'" "own_steps (map (Pair False) xs) = []"
  "own_steps ((True, l) # ls) = l # own_steps ls"
  by (simp_all add: own_steps_def filter_map comp_def)

text \<open>The loop among the other goroutines: a run of the agent in which its own steps are marked.\<close>

lemma readUntilClosed_refines:
  assumes "readUntilClosed rs m a = Ret (ret, cs, a')"
    and "\<And>r other a. Some (r, other) \<in> set rs \<Longrightarrow> \<exists>ls. path agent_step a ls (other a)"
  shows "\<exists>ls. path agent_step a (map snd ls) a' \<and> concat (map lb_calls (own_steps ls)) = cs \<and>
    processes (own_steps ls) ret rs m"
  using assms
proof (induction rs m a arbitrary: ret cs a' rule: readUntilClosed.induct)
  case (3 r other rs m a)
  obtain n err m1 where r: "Message_ReadFrom r m = Ret (n, err, m1)"
    using 3(3) by (cases "Message_ReadFrom r m") auto
  obtain ls0 where ls0: "path agent_step a ls0 (other a)" using 3(4) by fastforce
  have env: "\<exists>ls. path agent_step a ls (o' a)" if "Some (r', o') \<in> set rs" for r' o' a using 3(4) that by auto
  show ?case
  proof (cases err)
    case (Some e)
    then have "readUntilClosed rs m1 (other a) = Ret (ret, cs, a')" using 3(3) r by simp
    from 3(1) [of err, OF _ this] Some env
    obtain ls where "path agent_step (other a) (map snd ls) a'" "concat (map lb_calls (own_steps ls)) = cs"
        "processes (own_steps ls) ret rs m1" by auto
    then show ?thesis
      using path_trans [OF _ ls0] processes_skip [of r m n e m1] r Some
      by (intro exI [of _ "map (Pair False) ls0 @ ls"]) (simp add: comp_def)
  next
    case None
    obtain pErr cs1 a1 where p: "Agent_Process m1 (other a) = Ret (pErr, cs1, a1)"
      using 3(3) r None by (cases "Agent_Process m1 (other a)") auto
    let ?l = "\<lparr>lb_op = OpProcess m1, lb_result = pErr, lb_calls = cs1\<rparr>"
    have one: "path agent_step a (ls0 @ [?l]) a1" using path_snoc [OF ls0 step_Process [OF p]] .
    show ?thesis
    proof (cases "pErr = Some ErrAgentClosed")
      case True
      then show ?thesis
        using 3(3) r None p one processes_Process [of r m n m1 ?l "[]" True rs other]
        by (intro exI [of _ "map (Pair False) ls0 @ [(True, ?l)]"]) (simp add: comp_def)
    next
      case False
      then obtain cs2 where c: "readUntilClosed rs m1 a1 = Ret (ret, cs2, a')" "cs = cs1 @ cs2"
        using 3(3) r None p by (auto simp: go_map_Ret)
      from 3(2) [of err, OF _ False c(1)] None env
      obtain ls where ls: "path agent_step a1 (map snd ls) a'" "concat (map lb_calls (own_steps ls)) = cs2"
          "processes (own_steps ls) ret rs m1" by auto
      then show ?thesis
        using path_trans [OF ls(1) one] processes_Process [OF r [unfolded None], of ?l] False c(2)
        by (intro exI [of _ "map (Pair False) ls0 @ (True, ?l) # ls"]) (simp add: comp_def)
    qed
  qed
qed (auto intro!: exI [of _ "[]"] simp: path_Nil processes_Nil)

text \<open>\<open>Collect\<close> returns nil or \<open>ErrAgentClosed\<close>, so \<open>closedOrPanic\<close> never panics on its result.\<close>

lemma Agent_Collect_closedOrPanic:
  assumes "Agent_Collect v t a = Ret (err, cs, a')"
  shows "closedOrPanic err = Ret ()"
  using assms by (auto simp: Agent_Collect_def Let_def go_map_Ret closedOrPanic_def split: if_splits)

end
