(* ===== verification/Ice_Loop.thy ===== *)
theory Ice_Loop
  imports Ice_Invariant
begin

text \<open>
  The loop of the session (\<open>loop\<close>, \<open>RecieveStunMessage\<close> and \<open>ReceiveData\<close> of
  \<^verbatim>\<open>src/ice/icesession.go\<close>): the goroutines of the sockets put messages and data into
  channels of ten places, the goroutines of the checks report those they gave up, and one
  goroutine takes from whichever channel has something. The channels are never closed. A send
  to a full channel waits, so here it is \<open>None\<close> until there is a place.

  Shown: a run of the loop is a run of the session, in which the messages are handled in the
  order they were given, each once.
\<close>

section \<open>State\<close>

record stunMessageWrapper =
  mw_localAddr :: string
  mw_remoteAddr :: string
  mw_msg :: Message

record stunDataWrapper =
  dw_localAddr :: string
  dw_remoteAddr :: string
  dw_data :: bytes

record checkFailedWrapper =
  cf_c :: nat
  cf_err :: go_error

record loop_state =
  sl_session :: session
  sl_msgChan :: "stunMessageWrapper list"
  sl_dataChan :: "stunDataWrapper list"
  sl_tryFailChan :: "checkFailedWrapper list"
  sl_rxData :: "(bytes \<times> string) list"
  sl_returned :: bool

definition chanSize :: nat where "chanSize = 10"

definition new_loop :: "session \<Rightarrow> loop_state" where
  "new_loop s = \<lparr>sl_session = s, sl_msgChan = [], sl_dataChan = [], sl_tryFailChan = [], sl_rxData = [], sl_returned = False\<rparr>"

section \<open>Operations\<close>

definition chan_put :: "'a \<Rightarrow> 'a list \<Rightarrow> 'a list option" where
  "chan_put x c = (if length c < chanSize then Some (c @ [x]) else None)"

definition session_RecieveStunMessage :: "string \<Rightarrow> string \<Rightarrow> Message \<Rightarrow> loop_state \<Rightarrow> loop_state option" where
  "session_RecieveStunMessage localAddr remoteAddr msg q =
     (if hasStopped (sl_session q) then Some q
      else map_option (\<lambda>c. q\<lparr>sl_msgChan := c\<rparr>)
        (chan_put \<lparr>mw_localAddr = localAddr, mw_remoteAddr = remoteAddr, mw_msg = msg\<rparr> (sl_msgChan q)))"

definition session_ReceiveData :: "string \<Rightarrow> string \<Rightarrow> bytes \<Rightarrow> loop_state \<Rightarrow> loop_state option" where
  "session_ReceiveData localAddr peerAddr data q =
     (if hasStopped (sl_session q) then Some q
      else map_option (\<lambda>c. q\<lparr>sl_dataChan := c\<rparr>)
        (chan_put \<lparr>dw_localAddr = localAddr, dw_remoteAddr = peerAddr, dw_data = data\<rparr> (sl_dataChan q)))"

text \<open>The end of \<open>onecheck\<close> after its last attempt.\<close>

definition onecheck_give_up :: "nat \<Rightarrow> loop_state \<Rightarrow> loop_state option" where
  "onecheck_give_up c q =
     map_option (\<lambda>ch. q\<lparr>sl_tryFailChan := ch\<rparr>) (chan_put \<lparr>cf_c = c, cf_err = errTriedTooManyTimes\<rparr> (sl_tryFailChan q))"

datatype loop_case = CaseMsg net bytes | CaseData | CaseFail net | CaseQuit

text \<open>One iteration of \<open>loop\<close>, if the case it selects is ready.\<close>

fun loop_iteration :: "loop_case \<Rightarrow> loop_state \<Rightarrow> loop_state go option" where
  "loop_iteration (CaseMsg n past) q =
     (case sl_msgChan q of
        [] \<Rightarrow> None
      | w # ws \<Rightarrow> Some (go_map (\<lambda>s. q\<lparr>sl_session := s, sl_msgChan := ws\<rparr>)
          (processStunMessage n past (mw_localAddr w) (mw_remoteAddr w) (mw_msg w) (sl_session q))))"
| "loop_iteration CaseData q =
     (case sl_dataChan q of
        [] \<Rightarrow> None
      | w # ws \<Rightarrow> Some (Ret (q\<lparr>sl_dataChan := ws, sl_rxData := sl_rxData q @ [(dw_data w, dw_remoteAddr w)]\<rparr>)))"
| "loop_iteration (CaseFail n) q =
     (case sl_tryFailChan q of
        [] \<Rightarrow> None
      | w # ws \<Rightarrow> Some (go_map (\<lambda>s. q\<lparr>sl_session := s, sl_tryFailChan := ws\<rparr>)
          (check_timed_out n (cf_c w) (cf_err w) (sl_session q))))"
| "loop_iteration CaseQuit q = (if quitClosed (sl_session q) then Some (Ret (q\<lparr>sl_returned := True\<rparr>)) else None)"

section \<open>Runs\<close>

text \<open>Everything that may happen, in any order: calls of the sockets and checks, iterations, the rest.\<close>

datatype loop_label =
    GiveMessage stunMessageWrapper
  | GiveData stunDataWrapper
  | GiveUp nat
  | Iterate loop_case
  | Elsewhere event

fun by_loop :: "event \<Rightarrow> bool" where
  "by_loop (RxStun _ _ _ _ _) = True"
| "by_loop (TryFail _ _) = True"
| "by_loop _ = False"

inductive loop_step :: "loop_state \<Rightarrow> loop_label \<Rightarrow> loop_state \<Rightarrow> bool" where
  loop_Message: "\<not> hasStopped (sl_session q) \<Longrightarrow>
    session_RecieveStunMessage (mw_localAddr w) (mw_remoteAddr w) (mw_msg w) q = Some q' \<Longrightarrow> loop_step q (GiveMessage w) q'"
| loop_Data: "\<not> hasStopped (sl_session q) \<Longrightarrow>
    session_ReceiveData (dw_localAddr w) (dw_remoteAddr w) (dw_data w) q = Some q' \<Longrightarrow> loop_step q (GiveData w) q'"
| loop_GiveUp: "GoOnecheck c b \<in> set (out (sl_session q)) \<Longrightarrow> onecheck_give_up c q = Some q' \<Longrightarrow> loop_step q (GiveUp c) q'"
| loop_Iterate: "\<not> sl_returned q \<Longrightarrow> loop_iteration k q = Some (Ret q') \<Longrightarrow> loop_step q (Iterate k) q'"
| loop_Elsewhere: "\<not> by_loop ev \<Longrightarrow> session_step (sl_session q) ev s' \<Longrightarrow>
    loop_step q (Elsewhere ev) (q\<lparr>sl_session := s'\<rparr>)"

inductive_cases loop_stepE: "loop_step q l q'"

definition given_messages :: "loop_label list \<Rightarrow> stunMessageWrapper list" where
  "given_messages ls = List.map_filter (\<lambda>l. case l of GiveMessage w \<Rightarrow> Some w | _ \<Rightarrow> None) ls"

definition given_data :: "loop_label list \<Rightarrow> (bytes \<times> string) list" where
  "given_data ls = List.map_filter (\<lambda>l. case l of GiveData w \<Rightarrow> Some (dw_data w, dw_remoteAddr w) | _ \<Rightarrow> None) ls"

definition handled_messages :: "event list \<Rightarrow> stunMessageWrapper list" where
  "handled_messages es = List.map_filter (\<lambda>e. case e of
     RxStun _ _ l r m \<Rightarrow> Some \<lparr>mw_localAddr = l, mw_remoteAddr = r, mw_msg = m\<rparr> | _ \<Rightarrow> None) es"

lemma given_handled_append [simp]:
  "given_messages (a @ b) = given_messages a @ given_messages b" "given_data (a @ b) = given_data a @ given_data b"
  "handled_messages (es @ fs) = handled_messages es @ handled_messages fs"
  by (simp_all add: given_messages_def given_data_def handled_messages_def List.map_filter_def)

definition loop_inv :: "loop_state \<Rightarrow> bool" where
  "loop_inv q \<longleftrightarrow> session_inv (sl_session q) \<and> length (sl_msgChan q) \<le> chanSize \<and> length (sl_dataChan q) \<le> chanSize \<and>
     length (sl_tryFailChan q) \<le> chanSize \<and>
     (\<forall>w\<in>set (sl_tryFailChan q). cf_err w = errTriedTooManyTimes \<and> (\<exists>b. GoOnecheck (cf_c w) b \<in> set (out (sl_session q))))"

text \<open>
  What one step is for the session: no step or one event, where an event that handles a
  message takes the first of the channel.
\<close>

definition loop_simulated :: "loop_state \<Rightarrow> loop_label \<Rightarrow> loop_state \<Rightarrow> event list \<Rightarrow> bool" where
  "loop_simulated q l q' es \<longleftrightarrow>
     path session_step (sl_session q) es (sl_session q') \<and>
     sl_msgChan q @ given_messages [l] = handled_messages es @ sl_msgChan q' \<and>
     sl_rxData q @ map (\<lambda>w. (dw_data w, dw_remoteAddr w)) (sl_dataChan q) @ given_data [l] =
       sl_rxData q' @ map (\<lambda>w. (dw_data w, dw_remoteAddr w)) (sl_dataChan q')"

lemmas given_simps = given_messages_def given_data_def handled_messages_def List.map_filter_def

lemma loop_step_simulated:
  assumes "loop_step q l q'" and "loop_inv q"
  shows "\<exists>es. loop_simulated q l q' es"
  using assms(1)
proof cases
  case (loop_Message w)
  then have "q' = q\<lparr>sl_msgChan := sl_msgChan q @ [w]\<rparr>"
    by (auto simp: session_RecieveStunMessage_def chan_put_def split: if_splits)
  then show ?thesis
    using loop_Message by (intro exI [of _ "[]"]) (simp add: loop_simulated_def path_Nil given_simps)
next
  case (loop_Data w)
  then have "q' = q\<lparr>sl_dataChan := sl_dataChan q @ [w]\<rparr>"
    by (auto simp: session_ReceiveData_def chan_put_def split: if_splits)
  then show ?thesis
    using loop_Data by (intro exI [of _ "[]"]) (simp add: loop_simulated_def path_Nil given_simps)
next
  case (loop_GiveUp c b)
  then show ?thesis
    by (intro exI [of _ "[]"]) (auto simp: loop_simulated_def path_Nil given_simps onecheck_give_up_def)
next
  case (loop_Elsewhere ev s')
  then show ?thesis
    by (intro exI [of _ "[ev]"]) (cases ev; auto simp: loop_simulated_def given_simps intro: path_one)
next
  case (loop_Iterate k)
  show ?thesis
  proof (cases k)
    case (CaseMsg n past)
    obtain w ws s' where w: "sl_msgChan q = w # ws" "q' = q\<lparr>sl_session := s', sl_msgChan := ws\<rparr>"
        "processStunMessage n past (mw_localAddr w) (mw_remoteAddr w) (mw_msg w) (sl_session q) = Ret s'"
      using loop_Iterate CaseMsg by (auto simp: go_map_Ret split: list.splits)
    from step_RxStun [OF w(3)] show ?thesis
      using w(1,2) loop_Iterate(1)
      by (intro exI [of _ "[RxStun n past (mw_localAddr w) (mw_remoteAddr w) (mw_msg w)]"])
        (auto simp: loop_simulated_def given_simps intro: path_one)
  next
    case (CaseFail n)
    obtain w ws s' where w: "sl_tryFailChan q = w # ws" "q' = q\<lparr>sl_session := s', sl_tryFailChan := ws\<rparr>"
        "check_timed_out n (cf_c w) (cf_err w) (sl_session q) = Ret s'"
      using loop_Iterate CaseFail by (auto simp: go_map_Ret split: list.splits)
    obtain b where "GoOnecheck (cf_c w) b \<in> set (out (sl_session q))" "cf_err w = errTriedTooManyTimes"
      using assms(2) w(1) by (auto simp: loop_inv_def)
    then have "session_step (sl_session q) (TryFail n (cf_c w)) s'" using step_TryFail w(3) by simp
    then show ?thesis
      using w(2) loop_Iterate(1)
      by (intro exI [of _ "[TryFail n (cf_c w)]"]) (auto simp: loop_simulated_def given_simps intro: path_one)
  next
    case CaseData
    then show ?thesis
      using loop_Iterate
      by (intro exI [of _ "[]"]) (auto simp: loop_simulated_def path_Nil given_simps split: list.splits)
  next
    case CaseQuit
    then show ?thesis
      using loop_Iterate by (intro exI [of _ "[]"]) (auto simp: loop_simulated_def path_Nil given_simps split: if_splits)
  qed
qed

text \<open>A step adds to a channel that has a place, or takes its first element, or leaves it.\<close>

definition chan_moves :: "('a \<Rightarrow> bool) \<Rightarrow> 'a list \<Rightarrow> 'a list \<Rightarrow> bool" where
  "chan_moves P c c' \<longleftrightarrow> c' = c \<or> c' = tl c \<or> (\<exists>x. length c < chanSize \<and> c' = c @ [x] \<and> P x)"

lemma chan_moves_length: "chan_moves P c c' \<Longrightarrow> length c \<le> chanSize \<Longrightarrow> length c' \<le> chanSize"
  by (auto simp: chan_moves_def)

lemma chan_moves_set: "chan_moves P c c' \<Longrightarrow> x \<in> set c' \<Longrightarrow> x \<in> set c \<or> P x"
  by (cases c) (auto simp: chan_moves_def)

lemma loop_iteration_chans:
  assumes "loop_iteration k q = Some (Ret q')"
  shows "chan_moves P (sl_msgChan q) (sl_msgChan q') \<and> chan_moves P' (sl_dataChan q) (sl_dataChan q') \<and>
    chan_moves P'' (sl_tryFailChan q) (sl_tryFailChan q')"
  using assms by (cases k) (auto simp: chan_moves_def go_map_Ret split: list.splits if_splits)

lemma loop_step_chans:
  assumes "loop_step q l q'"
  shows "chan_moves (\<lambda>_. True) (sl_msgChan q) (sl_msgChan q') \<and> chan_moves (\<lambda>_. True) (sl_dataChan q) (sl_dataChan q') \<and>
    chan_moves (\<lambda>w. cf_err w = errTriedTooManyTimes \<and> (\<exists>b. GoOnecheck (cf_c w) b \<in> set (out (sl_session q))))
       (sl_tryFailChan q) (sl_tryFailChan q')"
  using assms
proof cases
  case (loop_Iterate k)
  then show ?thesis using loop_iteration_chans by blast
qed (auto simp: session_RecieveStunMessage_def session_ReceiveData_def onecheck_give_up_def chan_put_def chan_moves_def
      split: if_splits)

lemma loop_step_inv:
  assumes "loop_step q l q'" and "loop_inv q"
  shows "loop_inv q'"
proof -
  obtain es where "path session_step (sl_session q) es (sl_session q')"
    using loop_step_simulated [OF assms] by (auto simp: loop_simulated_def)
  then have s: "session_inv (sl_session q')" "prefix (out (sl_session q)) (out (sl_session q'))"
    using ice.path_inv ice.path_below assms(2) by (auto simp: loop_inv_def grows_def)
  then have started: "GoOnecheck c b \<in> set (out (sl_session q'))" if "GoOnecheck c b \<in> set (out (sl_session q))" for c b
    using that set_mono_prefix by blast
  note moves = loop_step_chans [OF assms(1)]
  have "length (sl_msgChan q') \<le> chanSize" "length (sl_dataChan q') \<le> chanSize" "length (sl_tryFailChan q') \<le> chanSize"
    using moves assms(2) chan_moves_length unfolding loop_inv_def by blast+
  moreover have "cf_err w = errTriedTooManyTimes \<and> (\<exists>b. GoOnecheck (cf_c w) b \<in> set (out (sl_session q')))"
    if "w \<in> set (sl_tryFailChan q')" for w
    using chan_moves_set [OF conjunct2 [OF conjunct2 [OF moves]] that] assms(2) started unfolding loop_inv_def by blast
  ultimately show ?thesis using s(1) by (simp add: loop_inv_def)
qed

interpretation loop_machine: machine loop_step loop_inv
  by unfold_locales (rule loop_step_inv)

lemma new_loop_inv: "session_inv s \<Longrightarrow> loop_inv (new_loop s)"
  by (simp add: loop_inv_def new_loop_def)

text \<open>A whole run.\<close>

lemma loop_run:
  assumes "path loop_step q ls q'" and "loop_inv q"
  shows "\<exists>es. path session_step (sl_session q) es (sl_session q') \<and>
    sl_msgChan q @ given_messages ls = handled_messages es @ sl_msgChan q' \<and>
    sl_rxData q @ map (\<lambda>w. (dw_data w, dw_remoteAddr w)) (sl_dataChan q) @ given_data ls =
       sl_rxData q' @ map (\<lambda>w. (dw_data w, dw_remoteAddr w)) (sl_dataChan q')"
  using assms
proof (induction rule: path.induct)
  case (path_Nil s)
  show ?case by (intro exI [of _ "[]"]) (simp add: path.path_Nil given_simps)
next
  case (path_snoc s ls s' l s'')
  then obtain es where es: "path session_step (sl_session s) es (sl_session s')"
      "sl_msgChan s @ given_messages ls = handled_messages es @ sl_msgChan s'"
      "sl_rxData s @ map (\<lambda>w. (dw_data w, dw_remoteAddr w)) (sl_dataChan s) @ given_data ls =
         sl_rxData s' @ map (\<lambda>w. (dw_data w, dw_remoteAddr w)) (sl_dataChan s')"
    by blast
  have "loop_inv s'" using loop_machine.path_inv path_snoc by blast
  then obtain fs where fs: "loop_simulated s' l s'' fs" using loop_step_simulated path_snoc by blast
  have "sl_msgChan s @ given_messages (ls @ [l]) = handled_messages (es @ fs) @ sl_msgChan s''"
    using es(2) fs unfolding loop_simulated_def given_handled_append by (metis append_assoc)
  moreover have "sl_rxData s @ map (\<lambda>w. (dw_data w, dw_remoteAddr w)) (sl_dataChan s) @ given_data (ls @ [l]) =
       sl_rxData s'' @ map (\<lambda>w. (dw_data w, dw_remoteAddr w)) (sl_dataChan s'')"
    using es(3) fs by (simp add: loop_simulated_def flip: append_assoc)
  moreover have "path session_step (sl_session s) (es @ fs) (sl_session s'')"
    using path_trans [OF _ es(1)] fs by (simp add: loop_simulated_def)
  ultimately show ?case by blast
qed

end
