(* ===== verification/Stun_Do.thy ===== *)
theory Stun_Do
  imports Stun_Client
begin

text \<open>
  \<open>Client.Do\<close> of \<^verbatim>\<open>src/stun/client.go\<close>: it takes a handler from the pool, starts the transaction
  with it, waits on a condition variable until the callback was called, and puts the handler
  back after resetting it. While it waits the background loops of the client run, and others
  may close it; what they do is a list of their iterations. When the list ends and the
  callback was not called, \<open>Do\<close> has not returned: its result is \<open>None\<close>.

  A handler is an object with an address (the name under which the agent knows it) and a
  state; the pool is a list of them, from which \<open>Get\<close> may take any, or make a new one.
  Shown: over a pool of handlers that were reset, \<open>Do\<close> calls its callback exactly once,
  whatever else the client does meanwhile, returns once a tick after the deadline was taken
  (if not before), and leaves such a pool.
\<close>

section \<open>The handler that is waited for\<close>

record 'f callbackWaitHandler =
  wh_callback :: "'f option"
  wh_processed :: bool

text \<open>The callback is called with the event.\<close>

definition callbackWaitHandler_HandleEvent ::
  "Event \<Rightarrow> 'f callbackWaitHandler \<Rightarrow> (('f \<times> Event) list \<times> 'f callbackWaitHandler) go" where
  "callbackWaitHandler_HandleEvent e s =
     (case wh_callback s of
        None \<Rightarrow> Panic (ExplicitPanic ''s.callback is nil'')
      | Some f \<Rightarrow> Ret ([(f, e)], s\<lparr>wh_processed := True\<rparr>))"

text \<open>Whether \<open>wait\<close> returns.\<close>

definition callbackWaitHandler_wait :: "'f callbackWaitHandler \<Rightarrow> bool" where
  "callbackWaitHandler_wait s = wh_processed s"

definition callbackWaitHandler_setCallback :: "'f option \<Rightarrow> 'f callbackWaitHandler \<Rightarrow> 'f callbackWaitHandler go" where
  "callbackWaitHandler_setCallback f s =
     (if f = None then Panic (ExplicitPanic ''f is nil'') else Ret (s\<lparr>wh_callback := f\<rparr>))"

definition callbackWaitHandler_reset :: "'f callbackWaitHandler \<Rightarrow> 'f callbackWaitHandler" where
  "callbackWaitHandler_reset s = s\<lparr>wh_processed := False, wh_callback := None\<rparr>"

section \<open>The pool\<close>

type_synonym ('h, 'f) pool = "('h \<times> 'f callbackWaitHandler) list"

definition callbackWaitHandlerPool_New :: "'f callbackWaitHandler" where
  "callbackWaitHandlerPool_New = \<lparr>wh_callback = None, wh_processed = False\<rparr>"

text \<open>\<open>Get\<close> removes an element of the pool, \<open>pick\<close>, or makes a new one, at the address \<open>fresh\<close>.\<close>

definition callbackWaitHandlerPool_Get ::
  "nat \<Rightarrow> 'h \<Rightarrow> ('h, 'f) pool \<Rightarrow> ('h \<times> 'f callbackWaitHandler) \<times> ('h, 'f) pool" where
  "callbackWaitHandlerPool_Get pick fresh pool =
     (if pick < length pool then (pool ! pick, take pick pool @ drop (Suc pick) pool)
      else ((fresh, callbackWaitHandlerPool_New), pool))"

definition callbackWaitHandlerPool_Put :: "'h \<times> 'f callbackWaitHandler \<Rightarrow> ('h, 'f) pool \<Rightarrow> ('h, 'f) pool" where
  "callbackWaitHandlerPool_Put h pool = h # pool"

section \<open>The calls a handler gets\<close>

fun call_handler :: "'h call \<Rightarrow> 'h" where
  "call_handler (TransactionCall tid h e) = h"
| "call_handler (DefaultCall h e) = h"

fun call_event :: "'h call \<Rightarrow> Event" where
  "call_event (TransactionCall tid h e) = e"
| "call_event (DefaultCall h e) = e"

fun feed :: "'h \<Rightarrow> 'h call list \<Rightarrow> 'f callbackWaitHandler \<Rightarrow> (('f \<times> Event) list \<times> 'f callbackWaitHandler) go" where
  "feed p [] s = Ret ([], s)"
| "feed p (c # cs) s =
     go_bind (if call_handler c = p then callbackWaitHandler_HandleEvent (call_event c) s else Ret ([], s)) (\<lambda>(fs, s).
       go_map (\<lambda>(fs', s). (fs @ fs', s)) (feed p cs s))"

section \<open>Do\<close>

datatype 'h background =
    BgRead reader
  | BgTick int "'h visit"
  | BgClose "'h visit" "go_error option"

fun background_step :: "'h background \<Rightarrow> Message \<Rightarrow> 'h Client \<Rightarrow> ('h call list \<times> 'h Client) go" where
  "background_step (BgRead r) m c =
     go_map (\<lambda>(_, cs, a). (cs, c\<lparr>cl_a := a\<rparr>)) (readUntilClosed [Some (r, \<lambda>a. a)] m (cl_a c))"
| "background_step (BgTick t v) m c =
     go_map (\<lambda>(_, cs, a). (cs, c\<lparr>cl_a := a\<rparr>)) (collectUntilClosed [Some (t, v)] (cl_a c))"
| "background_step (BgClose v e) m c = go_map (\<lambda>(_, cs, c). (cs, c)) (Client_Close v e c)"

text \<open>The result is whether \<open>wait\<close> returned, the callbacks called, the handler and the client.\<close>

fun do_wait ::
  "'h \<Rightarrow> ('h background \<times> Message) list \<Rightarrow> 'f callbackWaitHandler \<Rightarrow> 'h Client \<Rightarrow>
     (bool \<times> ('f \<times> Event) list \<times> 'f callbackWaitHandler \<times> 'h Client) go" where
  "do_wait p bgs s c =
     (if callbackWaitHandler_wait s then Ret (True, [], s, c)
      else case bgs of
             [] \<Rightarrow> Ret (False, [], s, c)
           | (b, m) # bgs \<Rightarrow>
               go_bind (background_step b m c) (\<lambda>(cs, c).
                 go_bind (feed p cs s) (\<lambda>(fs, s).
                   go_map (\<lambda>(ret, fs', s, c). (ret, fs @ fs', s, c)) (do_wait p bgs s c))))"

declare do_wait.simps [simp del]

text \<open>
  The result is \<open>None\<close> while \<open>Do\<close> waits, else the error it returns; with it the callbacks
  that were called, the pool and the client. \<open>other\<close> is what other goroutines do while \<open>Start\<close>
  runs.
\<close>

definition Client_Do ::
  "(bytes \<Rightarrow> nat \<times> go_error option) \<Rightarrow> ('h Agent \<Rightarrow> 'h call list \<times> 'h Agent) \<Rightarrow> ('h background \<times> Message) list \<Rightarrow>
   nat \<Rightarrow> 'h \<Rightarrow> Message \<Rightarrow> int \<Rightarrow> 'f option \<Rightarrow> ('h, 'f) pool \<Rightarrow> 'h Client \<Rightarrow>
   (client_error option option \<times> ('f \<times> Event) list \<times> ('h, 'f) pool \<times> 'h Client) go" where
  "Client_Do w other bgs pick fresh m d f pool c =
     (if f = None then go_map (\<lambda>(err, cs, c). (Some err, [], pool, c)) (Client_Indicate w other m c)
      else
        let ((p, h), pool) = callbackWaitHandlerPool_Get pick fresh pool;
            put = (\<lambda>h. callbackWaitHandlerPool_Put (p, callbackWaitHandler_reset h) pool)
        in go_bind (callbackWaitHandler_setCallback f h) (\<lambda>h.
             go_bind (Client_Start w other m d (Some p) c) (\<lambda>(err, cs, c).
               go_bind (feed p cs h) (\<lambda>(fs, h).
                 if err \<noteq> None then Ret (Some err, fs, put h, c)
                 else go_map (\<lambda>(ret, fs', h, c).
                          if ret then (Some None, fs @ fs', put h, c) else (None, fs @ fs', pool, c))
                        (do_wait p bgs h c)))))"

section \<open>A handler that is registered once\<close>

definition unused :: "'h \<Rightarrow> 'h Agent \<Rightarrow> bool" where
  "unused p a \<longleftrightarrow> (\<forall>tid t. transactions a tid = Some t \<longrightarrow> at_h t \<noteq> Some p) \<and> zeroHandler a \<noteq> Some p"

definition registered :: "'h \<Rightarrow> TransactionID \<Rightarrow> int \<Rightarrow> 'h Agent \<Rightarrow> bool" where
  "registered p tid d a \<longleftrightarrow> \<not> closed a \<and> transactions a tid = Some \<lparr>at_id = tid, at_deadline = d, at_h = Some p\<rparr> \<and>
     (\<forall>i t. i \<noteq> tid \<longrightarrow> transactions a i = Some t \<longrightarrow> at_h t \<noteq> Some p) \<and> zeroHandler a \<noteq> Some p"

definition calls_to :: "'h \<Rightarrow> 'h call list \<Rightarrow> 'h call list" where
  "calls_to p cs = filter (\<lambda>c. call_handler c = p) cs"

lemma calls_to_simps [simp]:
  "calls_to p [] = []" "calls_to p (cs @ cs') = calls_to p cs @ calls_to p cs'"
  "calls_to p (c # cs) = (if call_handler c = p then c # calls_to p cs else calls_to p cs)"
  by (simp_all add: calls_to_def)

text \<open>An event for a transaction: a message with its id, or an error.\<close>

definition event_for :: "TransactionID \<Rightarrow> Event \<Rightarrow> bool" where
  "event_for tid e \<longleftrightarrow> (\<forall>r. ev_Message e = Some r \<longrightarrow> msg_TransactionID r = tid \<and> ev_Error e = None)"

text \<open>Either nothing happened to the handler, or it was called once and is no longer known.\<close>

definition settles :: "'h \<Rightarrow> TransactionID \<Rightarrow> int \<Rightarrow> 'h call list \<Rightarrow> 'h Agent \<Rightarrow> bool" where
  "settles p tid d cs a \<longleftrightarrow> calls_to p cs = [] \<and> registered p tid d a \<or>
     (\<exists>e. calls_to p cs = [TransactionCall tid p e] \<and> event_for tid e \<and> unused p a)"

definition starts_handler :: "'h \<Rightarrow> 'h label \<Rightarrow> bool" where
  "starts_handler p l \<longleftrightarrow> (\<exists>tid d. lb_op l = OpStart tid d (Some p))"

lemma HandleEvent_calls: "HandleEvent tid h e = Ret cs \<Longrightarrow> calls_to p cs = (if h = Some p then [TransactionCall tid p e] else [])"
  by (auto simp: HandleEvent_def split: option.splits)

lemma call_all_calls:
  "call_all e hs = Ret cs \<Longrightarrow> calls_to p cs = map (\<lambda>(tid, _). TransactionCall tid p e) (filter (\<lambda>(_, h). h = Some p) hs)"
proof (induction e hs arbitrary: cs rule: call_all.induct)
  case (2 e tid h hs)
  then show ?case by (auto simp: go_bind_Ret_iff go_map_Ret HandleEvent_calls)
qed simp

lemma visit_handlers:
  assumes "visits v a" and "unused p a"
  shows "filter (\<lambda>(_, h). h = Some p) (map (\<lambda>(i, x). (i, at_h x)) (filter P v)) = []"
  using assms map_of_is_SomeI [of v] by (fastforce simp: visits_def unused_def filter_empty_conv)

lemma filter_unique:
  assumes "distinct (map fst v)" and "(i, x) \<in> set v"
    and "\<And>j y. (j, y) \<in> set v \<Longrightarrow> Q (j, y) \<longleftrightarrow> j = i"
  shows "filter Q v = [(i, x)]"
  using assms
proof (induction v)
  case (Cons z v)
  show ?case
  proof (cases "z = (i, x)")
    case True
    then have "i \<notin> fst ` set v" using Cons.prems(1) by simp
    then have "filter Q v = []" using Cons.prems(3) by (force simp: filter_empty_conv)
    then show ?thesis using True Cons.prems(3) [of i x] by simp
  next
    case False
    then have "(i, x) \<in> set v" using Cons.prems(2) by auto
    moreover from this have "i \<in> fst ` set v" by force
    then have "fst z \<noteq> i" using Cons.prems(1) by auto
    ultimately show ?thesis using Cons by (cases z) auto
  qed
qed simp

text \<open>The calls a visit makes to the handler: of its own transaction, if it is selected.\<close>

lemma visit_registered:
  assumes "visits v a" and "registered p tid d a"
  shows "filter (\<lambda>(_, h). h = Some p) (map (\<lambda>(i, x). (i, at_h x)) (filter P v)) =
    (if P (tid, \<lparr>at_id = tid, at_deadline = d, at_h = Some p\<rparr>) then [(tid, Some p)] else [])"
proof -
  let ?t = "\<lparr>at_id = tid, at_deadline = d, at_h = Some p\<rparr>"
  have v: "distinct (map fst v)" "map_of v = transactions a" using assms(1) by (auto simp: visits_def)
  have t: "transactions a tid = Some ?t" using assms(2) by (simp add: registered_def)
  then have mem: "(tid, ?t) \<in> set v" using v(2) by (simp add: map_of_SomeD)
  have "at_h y = Some p \<longleftrightarrow> j = tid" if "(j, y) \<in> set v" for j y
  proof -
    have "transactions a j = Some y" using map_of_is_SomeI [OF v(1) that] v(2) by simp
    then show ?thesis using assms(2) t by (cases "j = tid") (auto simp: registered_def unused_def)
  qed
  then have "filter (\<lambda>(_, x). at_h x = Some p) v = [(tid, ?t)]"
    using filter_unique [OF v(1) mem, of "\<lambda>(_, x). at_h x = Some p"] by auto
  moreover have "filter (\<lambda>(_, h). h = Some p) (map (\<lambda>(i, x). (i, at_h x)) (filter P v)) =
      map (\<lambda>(i, x). (i, at_h x)) (filter P (filter (\<lambda>(_, x). at_h x = Some p) v))"
    by (simp add: filter_map comp_def case_prod_unfold conj_commute)
  ultimately show ?thesis by simp
qed

lemma unused_delete: "unused p a \<Longrightarrow> unused p (a\<lparr>transactions := (transactions a)(tid := None)\<rparr>)"
  "unused p a \<Longrightarrow> unused p (a\<lparr>transactions := delete_all ids (transactions a)\<rparr>)"
  by (auto simp: unused_def delete_all_eq restrict_map_def)

lemma agent_step_unused:
  assumes "agent_step a l a'" and "unused p a" and "\<not> starts_handler p l"
  shows "calls_to p (lb_calls l) = [] \<and> unused p a'"
  using assms(1)
proof cases
  case (step_Start tid d h r)
  then show ?thesis
    using assms(2,3) by (auto simp: Agent_Start_def starts_handler_def unused_def split: if_splits option.splits)
next
  case (step_Stop tid e r cs)
  then show ?thesis
    using assms(2) by (auto simp: Agent_StopWithError_def Let_def go_map_Ret unused_def HandleEvent_def split: if_splits option.splits)
next
  case (step_Process m r cs)
  then show ?thesis
    using assms(2) by (auto simp: Agent_Process_def Let_def go_map_Ret unused_def HandleEvent_def split: if_splits option.splits)
next
  case (step_Collect v t r cs)
  show ?thesis
  proof (cases "closed a")
    case False
    then have cs: "call_all \<lparr>ev_Message = None, ev_Error = Some ErrTransactionTimeOut\<rparr> (to_call t v) = Ret cs"
      and a': "a' = a\<lparr>transactions := delete_all (to_remove t v) (transactions a)\<rparr>"
      using step_Collect by (auto simp: Agent_Collect_def Let_def go_map_Ret)
    then show ?thesis
      using call_all_calls [OF cs, of p] visit_handlers [OF step_Collect(2) assms(2)] unused_delete(2) [OF assms(2)] step_Collect(1)
      by (simp add: to_call_eq)
  qed (use step_Collect assms(2) in \<open>auto simp: Agent_Collect_def\<close>)
next
  case (step_Close v r cs)
  show ?thesis
  proof (cases "closed a")
    case False
    then have "call_all \<lparr>ev_Message = None, ev_Error = Some ErrAgentClosed\<rparr> (map (\<lambda>(i, x). (i, at_h x)) v) = Ret cs"
      "unused p a'"
      using step_Close by (auto simp: Agent_Close_def go_map_Ret unused_def)
    then show ?thesis
      using call_all_calls [of _ _ cs p] visit_handlers [OF step_Close(2) assms(2), of "\<lambda>_. True"] step_Close(1)
      by auto
  qed (use step_Close assms(2) in \<open>auto simp: Agent_Close_def\<close>)
qed

lemma registered_other:
  assumes "registered p tid d a" and "transactions a i = Some t" and "i \<noteq> tid"
  shows "at_h t \<noteq> Some p"
  using assms by (auto simp: registered_def unused_def)

lemma registered_delete:
  assumes "registered p tid d a"
  shows "unused p (a\<lparr>transactions := (transactions a)(tid := None)\<rparr>)"
    and "i \<noteq> tid \<Longrightarrow> registered p tid d (a\<lparr>transactions := (transactions a)(i := None)\<rparr>)"
    and "tid \<notin> set ids \<Longrightarrow> registered p tid d (a\<lparr>transactions := delete_all ids (transactions a)\<rparr>)"
    and "tid \<in> set ids \<Longrightarrow> unused p (a\<lparr>transactions := delete_all ids (transactions a)\<rparr>)"
  using assms by (auto simp: registered_def unused_def delete_all_eq restrict_map_def)

text \<open>\<open>Stop\<close> and \<open>Process\<close> take a transaction out and call its handler.\<close>

lemma take_out_settles:
  assumes reg: "registered p tid d a" and "event_for i e"
    and a': "a' = a\<lparr>transactions := (transactions a)(i := None)\<rparr>"
    and cs: "case transactions a i of None \<Rightarrow> calls_to p cs = [] | Some t \<Rightarrow> HandleEvent i (at_h t) e = Ret cs"
  shows "settles p tid d cs a'"
proof (cases "i = tid")
  case True
  then have "calls_to p cs = [TransactionCall tid p e]"
    using reg cs HandleEvent_calls [of i "Some p" e cs p] by (simp add: registered_def)
  then show ?thesis using assms(2) True registered_delete(1) [OF reg] by (simp add: settles_def a')
next
  case False
  have "calls_to p cs = []"
  proof (cases "transactions a i")
    case (Some t)
    then show ?thesis using cs registered_other [OF reg Some False] HandleEvent_calls [of i "at_h t" e cs p] by simp
  qed (use cs in simp)
  then show ?thesis using registered_delete(2) [OF reg False] by (simp add: settles_def a')
qed

lemma Collect_settles:
  assumes reg: "registered p tid d a" and v: "visits v a" and c: "Agent_Collect v t a = Ret (r, cs, a')"
  shows "settles p tid d cs a'"
proof -
  have "\<not> closed a" using reg by (simp add: registered_def)
  then have cs: "call_all \<lparr>ev_Message = None, ev_Error = Some ErrTransactionTimeOut\<rparr> (to_call t v) = Ret cs"
    and a': "a' = a\<lparr>transactions := delete_all (to_remove t v) (transactions a)\<rparr>"
    using c by (simp_all add: Agent_Collect_def Let_def go_map_Ret)
  have calls: "calls_to p cs = (if d < t then [TransactionCall tid p \<lparr>ev_Message = None, ev_Error = Some ErrTransactionTimeOut\<rparr>] else [])"
    using call_all_calls [OF cs, of p] visit_registered [OF v reg, of "\<lambda>(_, x). at_deadline x < t"]
    by (simp add: to_call_eq)
  have "tid \<in> set (to_remove t v) \<longleftrightarrow> (\<exists>x. (tid, x) \<in> set v \<and> at_deadline x < t)"
    unfolding to_remove_eq set_map set_filter by (rule iffI) (force, force)
  also have "\<dots> \<longleftrightarrow> (\<exists>x. transactions a tid = Some x \<and> at_deadline x < t)"
    using v map_of_eq_Some_iff [of v tid] unfolding visits_def by metis
  also have "\<dots> \<longleftrightarrow> d < t" using reg unfolding registered_def by simp
  finally have removed: "tid \<in> set (to_remove t v) \<longleftrightarrow> d < t" .
  show ?thesis
  proof (cases "d < t")
    case True
    then show ?thesis using calls removed registered_delete(4) [OF reg] by (simp add: settles_def a' event_for_def)
  next
    case False
    then show ?thesis using calls removed registered_delete(3) [OF reg] by (simp add: settles_def a')
  qed
qed

lemma Close_settles:
  assumes reg: "registered p tid d a" and v: "visits v a" and c: "Agent_Close v a = Ret (r, cs, a')"
  shows "settles p tid d cs a'"
proof -
  have "\<not> closed a" using reg by (simp add: registered_def)
  then have cs: "call_all \<lparr>ev_Message = None, ev_Error = Some ErrAgentClosed\<rparr> (map (\<lambda>(i, x). (i, at_h x)) v) = Ret cs"
    and "unused p a'"
    using c by (auto simp: Agent_Close_def go_map_Ret unused_def)
  then show ?thesis
    using call_all_calls [OF cs, of p] visit_registered [OF v reg, of "\<lambda>_. True"]
    by (simp add: settles_def event_for_def)
qed

lemma agent_step_registered:
  assumes "agent_step a l a'" and reg: "registered p tid d a" and "\<not> starts_handler p l"
  shows "settles p tid d (lb_calls l) a'"
  using assms(1)
proof cases
  case (step_Start i d' h r)
  have h: "h \<noteq> Some p" using assms(3) step_Start(1) by (auto simp: starts_handler_def)
  have "registered p tid d a'"
  proof (cases "transactions a i")
    case None
    then have "i \<noteq> tid" "a' = a\<lparr>transactions := (transactions a)(i \<mapsto> \<lparr>at_id = i, at_deadline = d', at_h = h\<rparr>)\<rparr>"
      using step_Start(2) reg by (auto simp: Agent_Start_def registered_def)
    then show ?thesis using reg h by (simp add: registered_def)
  qed (use step_Start(2) reg in \<open>simp add: Agent_Start_def split: if_splits\<close>)
  then show ?thesis using step_Start(1) by (simp add: settles_def)
next
  case (step_Stop i e r cs)
  have "\<not> closed a" using reg by (simp add: registered_def)
  then show ?thesis
    using step_Stop
    by (intro take_out_settles [OF reg, of i "\<lparr>ev_Message = None, ev_Error = e\<rparr>"])
      (simp_all add: Agent_StopWithError_def Let_def go_map_Ret event_for_def split: option.splits)
next
  case (step_Process m r cs)
  have "\<not> closed a" "zeroHandler a \<noteq> Some p" using reg by (simp_all add: registered_def)
  then show ?thesis
    using step_Process
    by (intro take_out_settles [OF reg, of "msg_TransactionID m" "\<lparr>ev_Message = Some m, ev_Error = None\<rparr>"])
      (auto simp: Agent_Process_def Let_def go_map_Ret event_for_def split: option.splits)
next
  case (step_Collect v t r cs)
  then show ?thesis using Collect_settles [OF reg] by simp
next
  case (step_Close v r cs)
  then show ?thesis using Close_settles [OF reg] by simp
qed

text \<open>Whole runs.\<close>

lemma path_unused:
  assumes "path agent_step a ls a'" and "unused p a" and "\<forall>l\<in>set ls. \<not> starts_handler p l"
  shows "calls_to p (path_calls ls) = [] \<and> unused p a'"
  using assms
proof (induction rule: path.induct)
  case (path_snoc s ls s' l s'')
  then show ?case using agent_step_unused [of s' l s'' p] by (simp add: path_calls_def)
qed (simp add: path_calls_def)

lemma path_settles:
  assumes "path agent_step a ls a'" and "registered p tid d a" and "\<forall>l\<in>set ls. \<not> starts_handler p l"
  shows "settles p tid d (path_calls ls) a'"
  using assms
proof (induction rule: path.induct)
  case (path_snoc s ls s' l s'')
  then have "settles p tid d (path_calls ls) s'" by simp
  then consider "calls_to p (path_calls ls) = []" "registered p tid d s'"
    | e where "calls_to p (path_calls ls) = [TransactionCall tid p e]" "event_for tid e" "unused p s'"
    by (auto simp: settles_def)
  then show ?case
  proof cases
    case 1
    then show ?thesis using agent_step_registered [of s' l s'' p tid d] path_snoc by (simp add: settles_def path_calls_def)
  next
    case 2
    then show ?thesis using agent_step_unused [of s' l s'' p] path_snoc by (auto simp: settles_def path_calls_def)
  qed
qed (simp add: path_calls_def settles_def)

section \<open>Do returns when the callback is called\<close>

text \<open>The visits of a list of iterations are those of the tables they find.\<close>

fun order_ok :: "'h background \<Rightarrow> 'h Client \<Rightarrow> bool" where
  "order_ok (BgRead r) c = True"
| "order_ok (BgTick t v) c = visits v (cl_a c)"
| "order_ok (BgClose v e) c = visits v (cl_a c)"

fun orders_ok :: "('h background \<times> Message) list \<Rightarrow> 'h Client \<Rightarrow> bool" where
  "orders_ok [] c = True"
| "orders_ok ((b, m) # bgs) c = (order_ok b c \<and> (case background_step b m c of Ret (cs, c') \<Rightarrow> orders_ok bgs c' | Panic p \<Rightarrow> True))"

lemma background_agent:
  assumes "background_step b m c = Ret (cs, c')" and "order_ok b c"
  shows "\<exists>ls. path agent_step (cl_a c) ls (cl_a c') \<and> path_calls ls = cs \<and> (\<forall>l\<in>set ls. \<not> starts_handler p l)"
proof (cases b)
  case (BgRead r)
  obtain n err m1 where r: "Message_ReadFrom r m = Ret (n, err, m1)"
    using assms(1) BgRead by (cases "Message_ReadFrom r m") auto
  show ?thesis
  proof (cases err)
    case None
    then obtain pErr cs1 a1 where pr: "Agent_Process m1 (cl_a c) = Ret (pErr, cs1, a1)"
      using assms(1) BgRead r by (cases "Agent_Process m1 (cl_a c)") auto
    then have "cs = cs1" "cl_a c' = a1"
      using assms(1) BgRead r None by (auto split: if_splits)
    then show ?thesis
      using path_one [where step = agent_step, OF step_Process [OF pr]]
      by (intro exI [of _ "[\<lparr>lb_op = OpProcess m1, lb_result = pErr, lb_calls = cs1\<rparr>]"]) (simp add: path_calls_def starts_handler_def)
  qed (use assms(1) BgRead r in \<open>auto simp: path_calls_def path_Nil intro!: exI [of _ "[]"]\<close>)
next
  case (BgTick t v)
  then obtain err cs1 a1 where "Agent_Collect v t (cl_a c) = Ret (err, cs1, a1)" "cs = cs1" "cl_a c' = a1"
    using assms(1) by (fastforce simp: go_map_Ret go_bind_Ret_iff)
  then show ?thesis
    using path_one [where step = agent_step, OF step_Collect [of v "cl_a c" t]] assms(2) BgTick
    by (intro exI [of _ "[\<lparr>lb_op = OpCollect t, lb_result = err, lb_calls = cs1\<rparr>]"]) (simp add: path_calls_def starts_handler_def)
next
  case (BgClose v e)
  show ?thesis
  proof (cases "cl_closed c")
    case False
    then obtain err cs1 a1 where "Agent_Close v (cl_a c) = Ret (err, cs1, a1)" "cs = cs1" "cl_a c' = a1"
      using assms(1) BgClose by (fastforce simp: Client_Close_def go_map_Ret)
    then show ?thesis
      using path_one [where step = agent_step, OF step_Close [of v "cl_a c"]] assms(2) BgClose
      by (intro exI [of _ "[\<lparr>lb_op = OpClose, lb_result = err, lb_calls = cs1\<rparr>]"]) (simp add: path_calls_def starts_handler_def)
  qed (use assms(1) BgClose in \<open>auto simp: Client_Close_def path_calls_def path_Nil intro!: exI [of _ "[]"]\<close>)
qed

lemma background_settles:
  assumes "background_step b m c = Ret (cs, c')" and "order_ok b c" and "registered p tid d (cl_a c)"
  shows "settles p tid d cs (cl_a c')"
  using background_agent [OF assms(1,2), of p] path_settles assms(3) by fastforce

lemma tick_settles:
  assumes "background_step (BgTick t v) m c = Ret (cs, c')" and "visits v (cl_a c)" and "registered p tid d (cl_a c)" and "d < t"
  shows "\<not> registered p tid d (cl_a c')"
proof -
  have "(tid, \<lparr>at_id = tid, at_deadline = d, at_h = Some p\<rparr>) \<in> set v"
    using assms(2,3) by (auto simp: visits_def registered_def intro: map_of_SomeD)
  then have "tid \<in> set (to_remove t v)" using assms(4) by (force simp: to_remove_eq)
  moreover have "\<not> closed (cl_a c)" using assms(3) by (simp add: registered_def)
  ultimately have "transactions (cl_a c') tid = None"
    using assms(1) by (auto simp: Agent_Collect_def Let_def go_map_Ret go_bind_Ret_iff delete_all_eq)
  then show ?thesis by (simp add: registered_def)
qed

lemma feed_calls:
  "feed p cs s = feed p (calls_to p cs) s"
proof (induction cs arbitrary: s)
  case (Cons c cs)
  then show ?case by (cases "feed p (calls_to p cs) s") auto
qed simp

lemma feed_settled:
  assumes "wh_callback s = Some f" and "\<not> wh_processed s" and "settles p tid d cs a"
  shows "\<exists>fs s'. feed p cs s = Ret (fs, s') \<and> wh_callback s' = Some f \<and>
    (if wh_processed s' then \<exists>e. fs = [(f, e)] \<and> event_for tid e \<and> unused p a else fs = [] \<and> s' = s \<and> registered p tid d a)"
proof -
  consider "calls_to p cs = []" "registered p tid d a"
    | e where "calls_to p cs = [TransactionCall tid p e]" "event_for tid e" "unused p a"
    using assms(3) by (auto simp: settles_def)
  then show ?thesis
  proof cases
    case 1
    then have "feed p cs s = Ret ([], s)" using feed_calls [of p cs s] by simp
    then show ?thesis using 1 assms by auto
  next
    case 2
    then have "feed p cs s = Ret ([(f, e)], s\<lparr>wh_processed := True\<rparr>)"
      using feed_calls [of p cs s] assms(1) by (simp add: callbackWaitHandler_HandleEvent_def)
    then show ?thesis using 2 assms(1) by auto
  qed
qed

lemma do_wait_settles:
  assumes "wh_callback s = Some f" and "\<not> wh_processed s" and "registered p tid d (cl_a c)" and "orders_ok bgs c"
    and "do_wait p bgs s c = Ret (ret, fs, s', c')"
  shows "if ret then \<exists>e. fs = [(f, e)] \<and> event_for tid e \<and> unused p (cl_a c')
    else fs = [] \<and> registered p tid d (cl_a c') \<and> (\<forall>t v m. (BgTick t v, m) \<in> set bgs \<longrightarrow> t \<le> d)"
  using assms
proof (induction bgs arbitrary: s c fs)
  case Nil
  then show ?case by (auto simp: do_wait.simps [of p "[]"] callbackWaitHandler_wait_def split: if_splits)
next
  case (Cons x bgs)
  obtain b m where x: "x = (b, m)" by (cases x)
  obtain cs c1 where b: "background_step b m c = Ret (cs, c1)"
    using Cons.prems(2,5) x
    by (subst (asm) do_wait.simps) (cases "background_step b m c"; auto simp: callbackWaitHandler_wait_def)
  have o1: "order_ok b c" "orders_ok bgs c1" using Cons.prems(4) x b by auto
  note set1 = background_settles [OF b o1(1) Cons.prems(3)]
  obtain fs1 s1 where f: "feed p cs s = Ret (fs1, s1)" "wh_callback s1 = Some f"
    "if wh_processed s1 then \<exists>e. fs1 = [(f, e)] \<and> event_for tid e \<and> unused p (cl_a c1)
     else fs1 = [] \<and> s1 = s \<and> registered p tid d (cl_a c1)"
    using feed_settled [OF Cons.prems(1,2) set1] by blast
  obtain fs2 where d: "do_wait p bgs s1 c1 = Ret (ret, fs2, s', c')" "fs = fs1 @ fs2"
    using Cons.prems(2,5) x b f(1)
    by (subst (asm) do_wait.simps) (auto simp: callbackWaitHandler_wait_def go_map_Ret)
  show ?case
  proof (cases "wh_processed s1")
    case True
    then have "ret \<and> fs2 = [] \<and> c' = c1" using d(1) by (simp add: do_wait.simps callbackWaitHandler_wait_def)
    then show ?thesis using f(3) True d(2) by auto
  next
    case False
    then have r: "fs1 = []" "registered p tid d (cl_a c1)" "s1 = s" using f(3) by auto
    have "t \<le> d" if "b = BgTick t v" for t v
      using tick_settles [of t v m c cs c1 p tid d] b o1(1) Cons.prems(3) r(2) that by force
    then show ?thesis using Cons.IH [OF f(2) False r(2) o1(2) d(1)] d(2) r(1) x by auto
  qed
qed

text \<open>A pool all of whose handlers were reset.\<close>

definition clean :: "('h, 'f) pool \<Rightarrow> bool" where
  "clean pool \<longleftrightarrow> (\<forall>(q, s)\<in>set pool. s = callbackWaitHandlerPool_New)"

lemma Get_clean:
  assumes "callbackWaitHandlerPool_Get pick fresh pool = ((p, h), rest)" and "clean pool"
  shows "h = callbackWaitHandlerPool_New" "clean rest"
proof -
  show "h = callbackWaitHandlerPool_New"
  proof (cases "pick < length pool")
    case True
    then have "(p, h) \<in> set pool" using assms(1) by (auto simp: callbackWaitHandlerPool_Get_def in_set_conv_nth)
    then show ?thesis using assms(2) by (auto simp: clean_def)
  qed (use assms(1) in \<open>simp add: callbackWaitHandlerPool_Get_def\<close>)
  have "set rest \<subseteq> set pool"
    using assms(1) by (auto simp: callbackWaitHandlerPool_Get_def split: if_splits dest: in_set_takeD in_set_dropD)
  then show "clean rest" using assms(2) by (auto simp: clean_def)
qed

lemma Start_registers:
  assumes "\<not> closed a" and "transactions a tid = None" and "unused p a"
  shows "fst (Agent_Start tid d (Some p) a) = None" "registered p tid d (snd (Agent_Start tid d (Some p) a))"
  using assms by (simp_all add: Agent_Start_def registered_def unused_def)

text \<open>
  One call of \<open>Do\<close> among everything else: other goroutines use the agent while \<open>Start\<close> runs, but
  not with this handler; then the background iterations.
\<close>

lemma Client_Do_once:
  assumes pool: "clean pool" "callbackWaitHandlerPool_Get pick fresh pool = ((p, h), rest)"
    and open_c: "\<not> cl_closed c" "\<not> closed (cl_a c)" "transactions (cl_a c) (msg_TransactionID m) = None" "unused p (cl_a c)"
    and sent: "snd (w (msg_Raw m)) = None"
    and env: "\<And>a. \<exists>ls. path agent_step a ls (snd (other a)) \<and> path_calls ls = fst (other a) \<and> (\<forall>l\<in>set ls. \<not> starts_handler p l)"
    and order: "orders_ok bgs (c\<lparr>cl_a := snd (other (snd (Agent_Start (msg_TransactionID m) d (Some p) (cl_a c))))\<rparr>)"
    and ret: "Client_Do w other bgs pick fresh m d (Some f) pool c = Ret (res, fs, pool', c')"
  shows "if res = None
    then fs = [] \<and> registered p (msg_TransactionID m) d (cl_a c') \<and> (\<forall>t v m0. (BgTick t v, m0) \<in> set bgs \<longrightarrow> t \<le> d)
    else res = Some None \<and> (\<exists>e. fs = [(f, e)] \<and> event_for (msg_TransactionID m) e) \<and> unused p (cl_a c') \<and>
      pool' = (p, callbackWaitHandlerPool_New) # rest \<and> clean pool'"
proof -
  let ?tid = "msg_TransactionID m"
  define a1 where "a1 = snd (Agent_Start ?tid d (Some p) (cl_a c))"
  define c1 where "c1 = c\<lparr>cl_a := snd (other a1)\<rparr>"
  define s where "s = callbackWaitHandlerPool_New\<lparr>wh_callback := Some f\<rparr>"
  have s: "wh_callback s = Some f" "\<not> wh_processed s" by (simp_all add: s_def callbackWaitHandlerPool_New_def)
  have start: "Agent_Start ?tid d (Some p) (cl_a c) = (None, a1)" "registered p ?tid d a1"
    using Start_registers [OF open_c(2-4), of d] by (simp_all add: a1_def prod_eq_iff)
  have "Client_Start w other m d (Some p) c = Ret (None, fst (other a1), c1)"
    using open_c(1) start(1) sent
    by (simp add: Client_Start_def Message_WriteTo_def c1_def case_prod_unfold Let_def)
  then have do_c: "Client_Do w other bgs pick fresh m d (Some f) pool c =
      go_bind (feed p (fst (other a1)) s) (\<lambda>(fs, h). go_map (\<lambda>(ret, fs', h, c).
        if ret then (Some None, fs @ fs', (p, callbackWaitHandler_reset h) # rest, c) else (None, fs @ fs', rest, c))
        (do_wait p bgs h c1))"
    using Get_clean(1) [OF pool(2,1)]
    by (simp add: Client_Do_def pool(2) callbackWaitHandler_setCallback_def callbackWaitHandlerPool_Put_def s_def)
  have "settles p ?tid d (fst (other a1)) (snd (other a1))"
    using env [of a1] path_settles [OF _ start(2)] by fastforce
  from feed_settled [OF s this] obtain fs1 s1 where f: "feed p (fst (other a1)) s = Ret (fs1, s1)" "wh_callback s1 = Some f"
    "if wh_processed s1 then \<exists>e. fs1 = [(f, e)] \<and> event_for ?tid e \<and> unused p (cl_a c1)
     else fs1 = [] \<and> s1 = s \<and> registered p ?tid d (cl_a c1)"
    by (auto simp: c1_def)
  obtain k fs2 s2 where d: "do_wait p bgs s1 c1 = Ret (k, fs2, s2, c')" "fs = fs1 @ fs2"
      "res = (if k then Some None else None)" "pool' = (if k then (p, callbackWaitHandler_reset s2) # rest else rest)"
    using ret do_c f(1) by (auto simp: go_map_Ret split: if_splits)
  have reset: "callbackWaitHandler_reset s2 = callbackWaitHandlerPool_New"
    by (cases s2) (simp add: callbackWaitHandler_reset_def callbackWaitHandlerPool_New_def)
  have cleaned: "clean ((p, callbackWaitHandlerPool_New) # rest)" using Get_clean(2) [OF pool(2,1)] by (simp add: clean_def)
  show ?thesis
  proof (cases "wh_processed s1")
    case True
    then have "k \<and> fs2 = [] \<and> c' = c1" using d(1) by (simp add: do_wait.simps callbackWaitHandler_wait_def)
    then show ?thesis using f(3) True d reset cleaned by auto
  next
    case False
    then have r: "fs1 = []" "registered p ?tid d (cl_a c1)" using f(3) by auto
    have "orders_ok bgs c1" using order by (simp add: c1_def a1_def)
    from do_wait_settles [OF f(2) False r(2) this d(1)] show ?thesis using d(2-4) r(1) reset cleaned by (cases k) auto
  qed
qed

text \<open>The answer is what the callback gets when it is the first packet that is read.\<close>

lemma Do_answered:
  assumes "clean pool" "callbackWaitHandlerPool_Get pick fresh pool = ((p, h), rest)"
    and "\<not> cl_closed c" "\<not> closed (cl_a c)" "transactions (cl_a c) (msg_TransactionID m) = None" "snd (w (msg_Raw m)) = None"
    and "Message_ReadFrom r m0 = Ret (n, None, res)" "msg_TransactionID res = msg_TransactionID m"
  shows "Client_Do w (\<lambda>a. ([], a)) ((BgRead r, m0) # bgs) pick fresh m d (Some f) pool c =
    Ret (Some None, [(f, \<lparr>ev_Message = Some res, ev_Error = None\<rparr>)], (p, callbackWaitHandlerPool_New) # rest, c)"
proof -
  let ?c = "c\<lparr>cl_a := (cl_a c)\<lparr>transactions := (transactions (cl_a c))(msg_TransactionID m \<mapsto>
    \<lparr>at_id = msg_TransactionID m, at_deadline = d, at_h = Some p\<rparr>)\<rparr>\<rparr>"
  have "Client_Start w (\<lambda>a. ([], a)) m d (Some p) c = Ret (None, [], ?c)"
    using assms(3-6) by (simp add: Client_Start_def Agent_Start_def Message_WriteTo_def Let_def case_prod_unfold)
  moreover have "background_step (BgRead r) m0 ?c =
      Ret ([TransactionCall (msg_TransactionID m) p \<lparr>ev_Message = Some res, ev_Error = None\<rparr>], c)"
    using assms(4,5,7,8) by (simp add: Agent_Process_def HandleEvent_def Let_def fun_upd_idem)
  ultimately show ?thesis
    using Get_clean(1) [OF assms(2,1)]
    by (simp add: Client_Do_def assms(2) callbackWaitHandler_setCallback_def callbackWaitHandlerPool_Put_def do_wait.simps
        callbackWaitHandler_wait_def callbackWaitHandler_HandleEvent_def callbackWaitHandlerPool_New_def callbackWaitHandler_reset_def)
qed

text \<open>A closed client is not used, and the handler goes back to the pool.\<close>

lemma Do_fails_to_start:
  assumes "cl_closed c" and "clean pool" and "callbackWaitHandlerPool_Get pick fresh pool = ((p, h), rest)"
  shows "Client_Do w other bgs pick fresh m d (Some f) pool c =
    Ret (Some (Some ErrClientClosed), [], (p, callbackWaitHandlerPool_New) # rest, c)"
  using assms Get_clean(1) [OF assms(3,2)]
  by (simp add: Client_Do_def Client_Start_def callbackWaitHandler_setCallback_def callbackWaitHandlerPool_Put_def
      callbackWaitHandlerPool_New_def callbackWaitHandler_reset_def)

end
