(* ===== verification/Ice_Gather.thy ===== *)
theory Ice_Gather
  imports Ice_Transport Stun_Do
begin

text \<open>
  Where candidates come from: \<^verbatim>\<open>src/ice/gather.go\<close> (the addresses of the interfaces),
  \<^verbatim>\<open>src/ice/hostonlysock.go\<close>, \<^verbatim>\<open>src/ice/stunsock.go\<close> and \<^verbatim>\<open>src/ice/turnsock.go\<close>, the three
  sources a transport may use.

  What the operating system lists is an argument, each address as \<open>net.ParseCIDR\<close> gives it.
  What \<open>Client.Do\<close> returned for a request, and the event its callback was called with, is an
  argument too: \<open>Stun_Do\<close> shows which these can be. Where the code waits for a callback that
  is not called, the result is \<open>None\<close>.
\<close>

section \<open>Interfaces\<close>

record Addr =
  ad_IP :: bytes
  ad_Zone :: string
  ad_Precedence :: int

definition Addr_String :: "Addr \<Rightarrow> string" where
  "Addr_String a =
     (if length (ad_Zone a) > 0
      then IP_String (ad_IP a) @ '' (zone '' @ ad_Zone a @ '') ['' @ itoa (ad_Precedence a) @ '']''
      else IP_String (ad_IP a) @ '' ['' @ itoa (ad_Precedence a) @ '']'')"

definition ZeroPortAddr :: "Addr \<Rightarrow> string" where
  "ZeroPortAddr a =
     JoinHostPort (IP_String (ad_IP a) @ (if length (ad_Zone a) > 0 then ''%'' @ ad_Zone a else [])) []"

record Interface =
  if_Name :: string
  if_Up :: bool
  if_Addrs :: "go_error + (go_error + bytes) list"

definition cidr :: "bytes \<Rightarrow> nat \<Rightarrow> nat \<Rightarrow> bytes \<times> bytes" where
  "cidr ip ones bits = (IP_Mask ip (CIDRMask ones bits), CIDRMask ones bits)"

definition precedences :: "((bytes \<times> bytes) \<times> int) list" where
  "precedences =
     [(cidr (replicate 15 0 @ [1]) 128 128, 50),
      (cidr (v4_prefix @ [127, 0, 0, 1]) 8 32, 45),
      (cidr (replicate 16 0) 0 128, 40),
      (cidr (v4_prefix @ [0, 0, 0, 0]) 96 128, 35),
      (cidr ([0xfe, 0x80] @ replicate 14 0) 10 128, 33),
      (cidr ([0x20, 0x02] @ replicate 14 0) 16 128, 30),
      (cidr ([0x20, 0x01] @ replicate 14 0) 32 128, 5),
      (cidr ([0xfc, 0x00] @ replicate 14 0) 7 128, 3),
      (cidr (replicate 16 0) 96 128, 1),
      (cidr ([0xfe, 0xc0] @ replicate 14 0) 10 128, 1),
      (cidr ([0x3f, 0xfe] @ replicate 14 0) 16 128, 1)]"

fun precedence_in :: "((bytes \<times> bytes) \<times> int) list \<Rightarrow> bytes \<Rightarrow> int" where
  "precedence_in [] ip = 0"
| "precedence_in ((n, v) # ps) ip = (if IPNet_Contains n ip then v else precedence_in ps ip)"

definition gatherer_precedence :: "bytes \<Rightarrow> int" where
  "gatherer_precedence ip = precedence_in precedences ip"

fun gather_addrs :: "string \<Rightarrow> (go_error + bytes) list \<Rightarrow> Addr list \<Rightarrow> Addr list \<times> go_error option" where
  "gather_addrs name [] addrs = (addrs, None)"
| "gather_addrs name (Inl e # as) addrs = (addrs, Some e)"
| "gather_addrs name (Inr ip # as) addrs =
     (if length (case To4 ip of Some x \<Rightarrow> x | None \<Rightarrow> []) \<noteq> 4 then gather_addrs name as addrs
      else if IsLoopback ip then gather_addrs name as addrs
      else gather_addrs name as (addrs @ [\<lparr>ad_IP = ip, ad_Zone = (if IsLinkLocalUnicast ip then name else []),
                                           ad_Precedence = gatherer_precedence ip\<rparr>]))"

fun gather_ifaces :: "Interface list \<Rightarrow> Addr list \<Rightarrow> Addr list \<times> go_error option" where
  "gather_ifaces [] addrs = (addrs, None)"
| "gather_ifaces (i # is) addrs =
     (if \<not> if_Up i then gather_ifaces is addrs
      else case if_Addrs i of
             Inl e \<Rightarrow> (addrs, Some e)
           | Inr as \<Rightarrow>
               (case gather_addrs (if_Name i) as addrs of
                  (addrs, Some e) \<Rightarrow> (addrs, Some e)
                | (addrs, None) \<Rightarrow> gather_ifaces is addrs))"

text \<open>\<open>sort.Sort\<close> by falling precedence; on the short lists of interfaces it is an insertion sort, and stable.\<close>

definition Gather :: "go_error + Interface list \<Rightarrow> Addr list \<times> go_error option" where
  "Gather interfaces =
     (case interfaces of
        Inl e \<Rightarrow> ([], Some e)
      | Inr is \<Rightarrow>
          (case gather_ifaces is [] of
             (addrs, Some e) \<Rightarrow> (addrs, Some e)
           | (addrs, None) \<Rightarrow> (sort_key (\<lambda>a. - ad_Precedence a) addrs, None)))"

text \<open>\<open>getLocalCandidates\<close> with the scan it makes.\<close>

definition gather_candidates :: "string \<Rightarrow> go_error + Interface list \<Rightarrow> go_error + Candidate list" where
  "gather_candidates primary interfaces =
     (case SplitHostPort primary of
        Inl e \<Rightarrow> Inl (Errorf e)
      | Inr _ \<Rightarrow>
          (case Gather interfaces of
             (_, Some e) \<Rightarrow> Inl e
           | (addrs, None) \<Rightarrow>
               (case getLocalCandidates primary (map ad_IP addrs) of Inl e \<Rightarrow> Inl (Errorf e) | Inr cs \<Rightarrow> Inr cs)))"

section \<open>Host candidates only\<close>

record HostOnlySock =
  ho_localCandidates :: "string list"

definition HostOnlySock_GetCandidates ::
  "go_error + Interface list \<Rightarrow> int \<Rightarrow> go_error + Interface list \<Rightarrow> HostOnlySock \<Rightarrow>
     ((go_error + Candidate list) \<times> HostOnlySock) go" where
  "HostOnlySock_GetCandidates ifs rand ifs2 h =
     (case Gather ifs of
        (_, Some e) \<Rightarrow> Ret (Inl e, h)
      | ([], None) \<Rightarrow> Panic IndexOutOfRange
      | (a # _, None) \<Rightarrow>
          (case gather_candidates (IP_String (ad_IP a) @ '':'' @ itoa (rand mod 50000)) ifs2 of
             Inl e \<Rightarrow> Ret (Inl e, h)
           | Inr cs \<Rightarrow> Ret (Inr cs, h\<lparr>ho_localCandidates := ho_localCandidates h @ map cd_addr cs\<rparr>)))"

definition HostOnlySock_Close :: "HostOnlySock \<Rightarrow> HostOnlySock" where
  "HostOnlySock_Close h = h"

definition HostOnlySock_getListenCandidiates :: "HostOnlySock \<Rightarrow> string list" where
  "HostOnlySock_getListenCandidiates h = ho_localCandidates h"

section \<open>With a STUN server\<close>

record 'h stunSocket =
  ss_ServerAddr :: string
  ss_MappedAddr :: "bytes \<times> int"
  ss_LocalAddr :: string
  ss_Client :: "'h Client option"
  ss_ReadDeadline :: int
  ss_localAddrs :: "string list"

definition defaultReadDeadLine :: int where "defaultReadDeadLine = 10 * time_Second"

text \<open>
  \<open>dial\<close> is the local address or an error. A failure is only logged (if \<open>log.Crit\<close> returns);
  the client then has no connection.
\<close>

definition newStunSocket :: "go_error + string \<Rightarrow> string \<Rightarrow> client_error option \<times> 'h stunSocket" where
  "newStunSocket dial serverAddr =
     (let s = \<lparr>ss_ServerAddr = serverAddr, ss_MappedAddr = ([], 0), ss_LocalAddr = [], ss_Client = None,
               ss_ReadDeadline = defaultReadDeadLine, ss_localAddrs = []\<rparr>
      in case NewClient (\<not> isl dial) None 0 of
           Inl e \<Rightarrow> (Some e, s)
         | Inr c \<Rightarrow> (None, s\<lparr>ss_Client := Some c, ss_LocalAddr := projr dial\<rparr>))"

text \<open>What \<open>Do\<close> returns, if it does, and the event its callback was called with, if it was.\<close>

type_synonym exchange = "Message \<Rightarrow> client_error option option \<times> Event option"

definition map_callback :: "bytes \<Rightarrow> Event \<Rightarrow> 'h stunSocket \<Rightarrow> 'h stunSocket go" where
  "map_callback past res s =
     (if ev_Error res \<noteq> None then Ret s
      else case ev_Message res of
             None \<Rightarrow> Panic NilDereference
           | Some m \<Rightarrow>
               go_bind (XORMappedAddress_GetFrom past \<lparr>addr_IP = [], addr_Port = 0\<rparr> m) (\<lambda>(err, xorAddr).
                 if err \<noteq> None then
                   go_map (\<lambda>(err, addr). if err \<noteq> None then s else s\<lparr>ss_MappedAddr := (addr_IP addr, addr_Port addr)\<rparr>)
                     (MappedAddress_GetFrom \<lparr>addr_IP = [], addr_Port = 0\<rparr> m)
                 else Ret (s\<lparr>ss_MappedAddr := (addr_IP xorAddr, addr_Port xorAddr)\<rparr>)))"

text \<open>The variable the callback writes its error to is assigned again when \<open>Do\<close> returns.\<close>

definition stunSocket_mapAddress ::
  "bytes \<times> go_error option \<Rightarrow> bytes \<Rightarrow> exchange \<Rightarrow> 'h stunSocket \<Rightarrow> (client_error option \<times> 'h stunSocket) option go" where
  "stunSocket_mapAddress rnd past exch s =
     go_bind (MustBuild [transactionIDSetter_AddTo rnd, MessageType_AddTo BindingRequest]) (\<lambda>req.
       case exch req of
         (None, _) \<Rightarrow> Ret None
       | (Some er, None) \<Rightarrow> Ret None
       | (Some er, Some res) \<Rightarrow> go_map (\<lambda>s. Some (er, s)) (map_callback past res s))"

datatype gather_error = GatherClient client_error | GatherNet go_error

definition reflexive :: "string \<Rightarrow> string \<Rightarrow> Candidate" where
  "reflexive base addr = zero_Candidate\<lparr>baseAddr := base, cd_Type := CandidateServerReflexive, cd_addr := addr,
     Foundation := calcFoundation base\<rparr>"

definition stunSocket_GetCandidates ::
  "bytes \<times> go_error option \<Rightarrow> bytes \<Rightarrow> exchange \<Rightarrow> go_error + Interface list \<Rightarrow> 'h stunSocket \<Rightarrow>
     ((gather_error + Candidate list) \<times> 'h stunSocket) option go" where
  "stunSocket_GetCandidates rnd past exch ifs s =
     go_bind (stunSocket_mapAddress rnd past exch s) (\<lambda>r.
       case r of
         None \<Rightarrow> Ret None
       | Some (Some e, s) \<Rightarrow> Ret (Some (Inl (GatherClient e), s))
       | Some (None, s) \<Rightarrow>
           let c = reflexive (ss_LocalAddr s) (UDPAddr_String (ss_MappedAddr s))
           in (case gather_candidates (baseAddr c) ifs of
                 Inl e \<Rightarrow> Ret (Some (Inl (GatherNet e), s))
               | Inr cs \<Rightarrow> Ret (Some (Inr (if cd_addr c \<noteq> baseAddr c then cs @ [c] else cs),
                   s\<lparr>ss_localAddrs := ss_localAddrs s @ map cd_addr cs\<rparr>))))"

definition stunSocket_Close :: "'h visit \<Rightarrow> go_error option \<Rightarrow> 'h stunSocket \<Rightarrow> ('h call list \<times> 'h stunSocket) go" where
  "stunSocket_Close v connErr s =
     (case ss_Client s of
        None \<Rightarrow> Ret ([], s)
      | Some c \<Rightarrow> go_map (\<lambda>(_, cs, c). (cs, s\<lparr>ss_Client := Some c\<rparr>)) (Client_Close v connErr c))"

definition stunSocket_getListenCandidiates :: "'h stunSocket \<Rightarrow> string list" where
  "stunSocket_getListenCandidiates s = ss_localAddrs s"

section \<open>With a TURN server\<close>

record 'h turnSock =
  tk_s :: "'h stunSocket"
  tk_user :: string
  tk_password :: string
  tk_nonce :: string
  tk_realm :: string
  tk_credentials :: MessageIntegrity
  tk_lifetime :: int
  tk_localAddrs :: "string list"
  tk_mapAddress :: string
  tk_relayAddress :: string
  tk_serverAddr :: string

definition newTurnSock :: "go_error + string \<Rightarrow> string \<Rightarrow> string \<Rightarrow> string \<Rightarrow> client_error + 'h turnSock" where
  "newTurnSock dial serverAddr user password =
     (case newStunSocket dial serverAddr of
        (Some e, _) \<Rightarrow> Inl e
      | (None, s) \<Rightarrow> Inr \<lparr>tk_s = s, tk_user = user, tk_password = password, tk_nonce = [], tk_realm = [],
          tk_credentials = [], tk_lifetime = 0, tk_localAddrs = [], tk_mapAddress = [], tk_relayAddress = [],
          tk_serverAddr = serverAddr\<rparr>)"

text \<open>The callback of the first request, which the server has to refuse: it tells realm and nonce.\<close>

definition allocate_challenge :: "Event \<Rightarrow> 'h turnSock \<Rightarrow> (go_error option \<times> 'h turnSock) go" where
  "allocate_challenge res t =
     (if ev_Error res \<noteq> None then Ret (ev_Error res, t)
      else case ev_Message res of
             None \<Rightarrow> Panic NilDereference
           | Some m \<Rightarrow>
               go_bind (ErrorCodeAttribute_GetFrom \<lparr>ec_Code = 0, ec_Reason = []\<rparr> m) (\<lambda>(e, ec).
               if e \<noteq> None then Ret (e, t)
               else if ec_Code ec \<noteq> CodeUnauthorised then Ret (Some (Errorf (''unexpected turn code of error :'' @ ErrorCodeAttribute_String ec)), t)
               else go_bind (Nonce_GetFrom [] m) (\<lambda>(e, nonce).
               if e \<noteq> None then Ret (e, t)
               else go_bind (Realm_GetFrom [] m) (\<lambda>(e, realm).
               if e \<noteq> None then Ret (e, t)
               else Ret (None, t\<lparr>tk_nonce := string_of_bytes nonce, tk_realm := string_of_bytes realm,
                      tk_credentials := NewLongTermIntegrity (tk_user t) (string_of_bytes realm) (tk_password t)\<rparr>)))))"

text \<open>The callback of the second, authenticated one.\<close>

definition allocate_granted :: "bytes \<Rightarrow> Event \<Rightarrow> 'h turnSock \<Rightarrow> (go_error option \<times> 'h turnSock) go" where
  "allocate_granted past res t =
     (if ev_Error res \<noteq> None then Ret (ev_Error res, t)
      else case ev_Message res of
             None \<Rightarrow> Panic NilDereference
           | Some m \<Rightarrow>
               if mt_Class (msg_Type m) = ClassErrorResponse then
                 go_map (\<lambda>(_, ec). (Some (Errorf (''got error response '' @ ErrorCodeAttribute_String ec)), t))
                   (ErrorCodeAttribute_GetFrom \<lparr>ec_Code = 0, ec_Reason = []\<rparr> m)
               else go_bind (XORMappedAddress_GetFrom past \<lparr>addr_IP = [], addr_Port = 0\<rparr> m) (\<lambda>(e, mapped).
               if e \<noteq> None then Ret (e, t)
               else go_bind (RelayedAddress_GetFrom past \<lparr>addr_IP = [], addr_Port = 0\<rparr> m) (\<lambda>(e, relayed).
               if e \<noteq> None then Ret (e, t)
               else go_bind (Lifetime_GetFrom (tk_lifetime t) m) (\<lambda>(e, l).
               if e \<noteq> None then Ret (e, t\<lparr>tk_lifetime := l\<rparr>)
               else Ret (None, t\<lparr>tk_lifetime := l,
                      tk_mapAddress := IP_String (addr_IP mapped) @ '':'' @ itoa (addr_Port mapped),
                      tk_relayAddress := IP_String (addr_IP relayed) @ '':'' @ itoa (addr_Port relayed)\<rparr>)))))"

text \<open>One request: a callback that is not called leaves the socket and no error; what \<open>Do\<close> returns is dropped.\<close>

definition allocate_request ::
  "Setter list \<Rightarrow> exchange \<Rightarrow> (Event \<Rightarrow> 'h turnSock \<Rightarrow> (go_error option \<times> 'h turnSock) go) \<Rightarrow> 'h turnSock \<Rightarrow>
     (go_error option \<times> 'h turnSock) option go" where
  "allocate_request setters exch cb t =
     go_bind (MustBuild setters) (\<lambda>req.
       case exch req of
         (None, _) \<Rightarrow> Ret None
       | (Some _, None) \<Rightarrow> Ret (Some (None, t))
       | (Some _, Some res) \<Rightarrow> go_map Some (cb res t))"

definition turnSock_allocateAddress ::
  "bytes \<times> go_error option \<Rightarrow> bytes \<times> go_error option \<Rightarrow> bytes \<Rightarrow> exchange \<Rightarrow> exchange \<Rightarrow> 'h turnSock \<Rightarrow>
     (go_error option \<times> 'h turnSock) option go" where
  "turnSock_allocateAddress rnd rnd2 past exch exch2 t =
     go_bind (allocate_request [transactionIDSetter_AddTo rnd, MessageType_AddTo AllocateRequest,
         RequestedTransportUDP] exch allocate_challenge t) (\<lambda>r.
       case r of
         None \<Rightarrow> Ret None
       | Some (Some e, t) \<Rightarrow> Ret (Some (Some e, t))
       | Some (None, t) \<Rightarrow>
           go_bind (allocate_request [transactionIDSetter_AddTo rnd2, MessageType_AddTo AllocateRequest,
               RequestedTransportUDP, Realm_AddTo (bytes_of_string (tk_realm t)),
               Username_AddTo (NewUsername (tk_user t)), Nonce_AddTo (bytes_of_string (tk_nonce t)),
               MessageIntegrity_AddTo (tk_credentials t)] exch2 (allocate_granted past) t) (\<lambda>r.
             case r of
               None \<Rightarrow> Ret None
             | Some (Some e, t) \<Rightarrow> Ret (Some (Some e, t))
             | Some (None, t) \<Rightarrow>
                 Ret (Some (if tk_mapAddress t = [] \<or> tk_relayAddress t = []
                            then Some (Errorf ''can not get relay address'') else None, t))))"

definition turnSock_GetCandidates ::
  "bytes \<times> go_error option \<Rightarrow> bytes \<times> go_error option \<Rightarrow> bytes \<Rightarrow> exchange \<Rightarrow> exchange \<Rightarrow> go_error + Interface list \<Rightarrow>
     'h turnSock \<Rightarrow> ((go_error + Candidate list) \<times> 'h turnSock) option go" where
  "turnSock_GetCandidates rnd rnd2 past exch exch2 ifs t =
     go_bind (turnSock_allocateAddress rnd rnd2 past exch exch2 t) (\<lambda>r.
       case r of
         None \<Rightarrow> Ret None
       | Some (Some e, t) \<Rightarrow> Ret (Some (Inl e, t))
       | Some (None, t) \<Rightarrow>
           let c = reflexive (ss_LocalAddr (tk_s t)) (tk_mapAddress t);
               c2 = zero_Candidate\<lparr>cd_Type := CandidateRelay, baseAddr := tk_relayAddress t,
                      cd_addr := tk_relayAddress t, Foundation := calcFoundation (tk_relayAddress t)\<rparr>
           in (case gather_candidates (baseAddr c) ifs of
                 Inl e \<Rightarrow> Ret (Some (Inl e, t))
               | Inr cs \<Rightarrow>
                   let cs1 = (if baseAddr c \<noteq> cd_addr c then cs @ [c] else cs);
                       cs2 = (if cd_addr c2 \<noteq> baseAddr c then cs1 @ [c2] else cs1)
                   in Ret (Some (Inr cs2, t\<lparr>tk_localAddrs := tk_localAddrs t @ map cd_addr cs\<rparr>))))"

definition turnSock_Close :: "'h visit \<Rightarrow> go_error option \<Rightarrow> 'h turnSock \<Rightarrow> ('h call list \<times> 'h turnSock) go" where
  "turnSock_Close v connErr t = go_map (\<lambda>(cs, s). (cs, t\<lparr>tk_s := s\<rparr>)) (stunSocket_Close v connErr (tk_s t))"

definition turnSock_getListenCandidiates :: "'h turnSock \<Rightarrow> string list" where
  "turnSock_getListenCandidiates t = tk_localAddrs t"

section \<open>The addresses that are found\<close>

definition v4_ip :: "bytes \<Rightarrow> bool" where
  "v4_ip ip \<longleftrightarrow> (\<exists>x. To4 ip = Some x \<and> length x = 4 \<and> x ! 0 \<noteq> 127)"

lemma v4_ip_precedence:
  assumes "v4_ip ip" shows "gatherer_precedence ip = 35"
proof -
  obtain x where x: "To4 ip = Some x" "length x = 4" "x ! 0 \<noteq> 127" using assms by (auto simp: v4_ip_def)
  have m: "cidr (replicate 15 0 @ [1]) 128 128 = (replicate 15 0 @ [1], replicate 16 255)"
    "cidr (v4_prefix @ [127, 0, 0, 1]) 8 32 = ([127, 0, 0, 0], [255, 0, 0, 0])"
    "cidr (replicate 16 0) 0 128 = (replicate 16 0, replicate 16 0)"
    "cidr (v4_prefix @ [0, 0, 0, 0]) 96 128 = (v4_prefix @ [0, 0, 0, 0], replicate 12 255 @ [0, 0, 0, 0])"
    by code_simp+
  have "To4 (replicate 15 0 @ [1]) = None" "To4 (replicate 16 0) = None" "To4 [127, 0, 0, 0] = Some [127, 0, 0, 0]"
    "To4 (v4_prefix @ [0, 0, 0, 0]) = Some [0, 0, 0, 0]" by code_simp+
  moreover have "(255 :: 8 word) = - 1" by simp
  then have "x ! 0 AND 255 = x ! 0" "127 AND 255 = (127 :: 8 word)" by (simp_all only: and.right_neutral)
  ultimately show ?thesis
    unfolding gatherer_precedence_def precedences_def precedence_in.simps m IPNet_Contains_def
    using x by (simp add: upt_rec)
qed

lemma gather_addrs_v4:
  "gather_addrs name as acc = (addrs, e) \<Longrightarrow> list_all (\<lambda>a. v4_ip (ad_IP a) \<and> ad_Precedence a = 35) acc \<Longrightarrow>
     list_all (\<lambda>a. v4_ip (ad_IP a) \<and> ad_Precedence a = 35) addrs"
proof (induction name as acc rule: gather_addrs.induct)
  case (3 name ip as acc)
  have "v4_ip ip" if "length (case To4 ip of Some x \<Rightarrow> x | None \<Rightarrow> []) = 4" "\<not> IsLoopback ip"
    using that by (auto simp: v4_ip_def IsLoopback_def split: option.splits)
  then show ?case using 3 v4_ip_precedence by (auto split: if_splits)
qed simp_all

lemma gather_ifaces_v4:
  "gather_ifaces is acc = (addrs, e) \<Longrightarrow> list_all (\<lambda>a. v4_ip (ad_IP a) \<and> ad_Precedence a = 35) acc \<Longrightarrow>
     list_all (\<lambda>a. v4_ip (ad_IP a) \<and> ad_Precedence a = 35) addrs"
proof (induction "is" acc rule: gather_ifaces.induct)
  case (2 i "is" acc)
  show ?case
  proof (cases "if_Up i")
    case True
    show ?thesis
    proof (cases "if_Addrs i")
      case (Inr as)
      obtain addrs1 e1 where g: "gather_addrs (if_Name i) as acc = (addrs1, e1)" by fastforce
      have ok: "list_all (\<lambda>a. v4_ip (ad_IP a) \<and> ad_Precedence a = 35) addrs1" by (rule gather_addrs_v4 [OF g 2(4)])
      show ?thesis
      proof (cases e1)
        case None
        then show ?thesis using 2(2) [OF _ Inr g [symmetric] None] True Inr g ok 2(3) by simp
      next
        case (Some x)
        then show ?thesis using 2(3) True Inr g ok by simp
      qed
    qed (use 2 True in simp)
  qed (use 2 in simp)
qed simp

text \<open>
  Only IPv4 addresses other than loopback are found. They all match the same network of the
  table, so that sorting by precedence leaves the order of the interfaces.
\<close>

lemma Gather_found:
  assumes "Gather (Inr is) = (addrs, None)"
  shows "gather_ifaces is [] = (addrs, None)" "\<forall>a\<in>set addrs. v4_ip (ad_IP a) \<and> ad_Precedence a = 35"
proof -
  obtain as where as: "gather_ifaces is [] = (as, None)" "addrs = sort_key (\<lambda>a. - ad_Precedence a) as"
    using assms by (auto simp: Gather_def split: prod.splits option.splits)
  have ok: "\<forall>a\<in>set as. v4_ip (ad_IP a) \<and> ad_Precedence a = 35"
    using gather_ifaces_v4 [OF as(1)] by (simp add: list_all_iff)
  then have "map (\<lambda>a. - ad_Precedence a) as = replicate (length as) (- 35)" by (intro replicate_eqI) auto
  then have "addrs = as" using as(2) by (simp add: sort_key_id_if_sorted)
  then show "gather_ifaces is [] = (addrs, None)" "\<forall>a\<in>set addrs. v4_ip (ad_IP a) \<and> ad_Precedence a = 35"
    using as(1) ok by simp_all
qed

section \<open>How many candidates there are\<close>

lemma getLocalCandidates_length: "getLocalCandidates primary addrs = Inr cs \<Longrightarrow> length cs \<le> maxCandidates - 1"
  by (auto simp: getLocalCandidates_def Let_def split: sum.splits if_splits)

lemma gather_candidates_length: "gather_candidates primary ifs = Inr cs \<Longrightarrow> length cs \<le> maxCandidates - 1"
  using getLocalCandidates_length by (auto simp: gather_candidates_def split: sum.splits prod.splits option.splits)

text \<open>What a successful gathering went through.\<close>

lemma stunSocket_GetCandidatesE:
  assumes "stunSocket_GetCandidates rnd past exch ifs s = Ret (Some (Inr cs, s'))"
  obtains s1 hosts where "stunSocket_mapAddress rnd past exch s = Ret (Some (None, s1))"
    "gather_candidates (ss_LocalAddr s1) ifs = Inr hosts"
    "cs = (if UDPAddr_String (ss_MappedAddr s1) \<noteq> ss_LocalAddr s1
           then hosts @ [reflexive (ss_LocalAddr s1) (UDPAddr_String (ss_MappedAddr s1))] else hosts)"
    "s' = s1\<lparr>ss_localAddrs := ss_localAddrs s1 @ map cd_addr hosts\<rparr>"
proof -
  obtain r where r: "stunSocket_mapAddress rnd past exch s = Ret r"
    using assms by (auto simp: stunSocket_GetCandidates_def go_bind_Ret_iff)
  obtain e s1 where "r = Some (e, s1)" using assms r by (cases r) (auto simp: stunSocket_GetCandidates_def)
  moreover have "e = None" using assms r calculation by (cases e) (auto simp: stunSocket_GetCandidates_def)
  ultimately have m: "stunSocket_mapAddress rnd past exch s = Ret (Some (None, s1))" using r by simp
  show thesis
  proof (cases "gather_candidates (ss_LocalAddr s1) ifs")
    case (Inr hosts)
    then show thesis
      using assms m that [OF m Inr] by (auto simp: stunSocket_GetCandidates_def reflexive_def Let_def split: if_splits)
  qed (use assms m in \<open>simp add: stunSocket_GetCandidates_def reflexive_def\<close>)
qed

lemma turnSock_GetCandidatesE:
  assumes "turnSock_GetCandidates rnd rnd2 past exch exch2 ifs t = Ret (Some (Inr cs, t'))"
  obtains t1 hosts others where "turnSock_allocateAddress rnd rnd2 past exch exch2 t = Ret (Some (None, t1))"
    "gather_candidates (ss_LocalAddr (tk_s t1)) ifs = Inr hosts"
    "cs = hosts @ others" "length others \<le> 2" "\<forall>c\<in>set others. cd_Type c \<noteq> CandidateHost"
    "t' = t1\<lparr>tk_localAddrs := tk_localAddrs t1 @ map cd_addr hosts\<rparr>"
proof -
  obtain r where r: "turnSock_allocateAddress rnd rnd2 past exch exch2 t = Ret r"
    using assms by (auto simp: turnSock_GetCandidates_def go_bind_Ret_iff)
  obtain e t1 where "r = Some (e, t1)" using assms r by (cases r) (auto simp: turnSock_GetCandidates_def)
  moreover have "e = None" using assms r calculation by (cases e) (auto simp: turnSock_GetCandidates_def)
  ultimately have m: "turnSock_allocateAddress rnd rnd2 past exch exch2 t = Ret (Some (None, t1))" using r by simp
  show thesis
  proof (cases "gather_candidates (ss_LocalAddr (tk_s t1)) ifs")
    case (Inr hosts)
    let ?c = "reflexive (ss_LocalAddr (tk_s t1)) (tk_mapAddress t1)"
    let ?r = "zero_Candidate\<lparr>cd_Type := CandidateRelay, baseAddr := tk_relayAddress t1,
        cd_addr := tk_relayAddress t1, Foundation := calcFoundation (tk_relayAddress t1)\<rparr>"
    let ?o = "(if baseAddr ?c \<noteq> cd_addr ?c then [?c] else []) @ (if cd_addr ?r \<noteq> baseAddr ?c then [?r] else [])"
    have "cs = hosts @ ?o" "t' = t1\<lparr>tk_localAddrs := tk_localAddrs t1 @ map cd_addr hosts\<rparr>"
      using assms m Inr by (auto simp: turnSock_GetCandidates_def reflexive_def Let_def split: if_splits)
    moreover have "length ?o \<le> 2" "\<forall>c\<in>set ?o. cd_Type c \<noteq> CandidateHost" by (auto simp: reflexive_def)
    ultimately show thesis by (intro that [OF m Inr])
  qed (use assms m in \<open>simp add: turnSock_GetCandidates_def reflexive_def\<close>)
qed

lemma stunSocket_candidates_length:
  assumes "stunSocket_GetCandidates rnd past exch ifs s = Ret (Some (Inr cs, s'))"
  shows "length cs \<le> maxCandidates"
  using assms by (elim stunSocket_GetCandidatesE) (auto dest: gather_candidates_length simp: maxCandidates_def)

lemma turnSock_candidates_length:
  assumes "turnSock_GetCandidates rnd rnd2 past exch exch2 ifs t = Ret (Some (Inr cs, t'))"
  shows "length cs \<le> maxCandidates + 1"
  using assms by (elim turnSock_GetCandidatesE) (auto dest: gather_candidates_length simp: maxCandidates_def)

lemma createCheckList_too_many:
  "fst (createCheckList sd s) = Some errTooManyCandidates \<longleftrightarrow> length (sd_candidates sd) > maxCandidates"
  by (auto simp: createCheckList_def Let_def errTooManyCandidates_def)

section \<open>The contract of a source of candidates\<close>

text \<open>
  \<open>stunTranporter\<close>: a source gathers candidates and then names the addresses to listen on. The
  session opens a socket on each of these, so every host candidate has a socket of its own.
\<close>

lemma listen_all_opens:
  "listen_all l i as s = (None, s') \<Longrightarrow>
     (\<forall>a\<in>set as. serverSocks s' a \<noteq> None) \<and> (\<forall>a. serverSocks s a \<noteq> None \<longrightarrow> serverSocks s' a \<noteq> None)"
proof (induction as arbitrary: i s)
  case (Cons a as)
  then have none: "l a = None" by (cases "l a") auto
  let ?s = "s\<lparr>serverSocks := (serverSocks s)(a \<mapsto> i)\<rparr>"
  have "listen_all l (Suc i) as ?s = (None, s')" using Cons.prems none by simp
  from Cons.IH [OF this] show ?case by (auto split: if_splits)
qed simp

lemma StartServer_opens:
  assumes "session_StartServer l relay addrs order s = Ret (None, s')" and "a \<in> set addrs"
  shows "serverSocks s' a \<noteq> None"
proof (cases relay)
  case True
  obtain x xs where xs: "addrs = x # xs" using assms(2) by (cases addrs) auto
  let ?s = "s\<lparr>turnServerSock := Some 0, serverSocks := (serverSocks s)(x \<mapsto> 0)\<rparr>"
  have "listen_all l 1 xs ?s = (None, s')"
    using assms True xs
    by (cases "l x") (auto simp: session_StartServer_def Let_def split: prod.splits if_splits)
  note opened = listen_all_opens [OF this]
  moreover have "serverSocks ?s x \<noteq> None" by simp
  ultimately show ?thesis using assms(2) xs by (metis set_ConsD)
next
  case False
  then have "listen_all l 0 addrs s = (None, s')"
    using assms by (auto simp: session_StartServer_def Let_def split: prod.splits if_splits)
  from listen_all_opens [OF this] show ?thesis using assms(2) by blast
qed

locale candidate_source =
  fixes gathers :: "'s \<Rightarrow> Candidate list \<Rightarrow> 's \<Rightarrow> bool"
    and listens :: "'s \<Rightarrow> string list"
  assumes hosts_listened: "gathers s cs s' \<Longrightarrow> c \<in> set cs \<Longrightarrow> cd_Type c = CandidateHost \<Longrightarrow> cd_addr c \<in> set (listens s')"
    and few: "gathers s cs s' \<Longrightarrow> length cs \<le> maxCandidates + 1"
begin

lemma hosts_have_sockets:
  assumes "gathers s cs s'" and "session_StartServer l relay (listens s') order ses = Ret (None, ses')"
    and "c \<in> set cs" and "cd_Type c = CandidateHost"
  shows "serverSocks ses' (cd_addr c) \<noteq> None"
  using StartServer_opens [OF assms(2)] hosts_listened [OF assms(1,3,4)] by blast

end

definition host_gathers :: "HostOnlySock \<Rightarrow> Candidate list \<Rightarrow> HostOnlySock \<Rightarrow> bool" where
  "host_gathers h cs h' \<longleftrightarrow> (\<exists>ifs rand ifs2. HostOnlySock_GetCandidates ifs rand ifs2 h = Ret (Inr cs, h'))"

definition stun_gathers :: "'h stunSocket \<Rightarrow> Candidate list \<Rightarrow> 'h stunSocket \<Rightarrow> bool" where
  "stun_gathers s cs s' \<longleftrightarrow> (\<exists>rnd past exch ifs. stunSocket_GetCandidates rnd past exch ifs s = Ret (Some (Inr cs, s')))"

definition turn_gathers :: "'h turnSock \<Rightarrow> Candidate list \<Rightarrow> 'h turnSock \<Rightarrow> bool" where
  "turn_gathers t cs t' \<longleftrightarrow>
     (\<exists>rnd rnd2 past exch exch2 ifs. turnSock_GetCandidates rnd rnd2 past exch exch2 ifs t = Ret (Some (Inr cs, t')))"

lemma host_gathersE:
  assumes "host_gathers h cs h'"
  obtains primary ifs where "gather_candidates primary ifs = Inr cs"
    "h' = h\<lparr>ho_localCandidates := ho_localCandidates h @ map cd_addr cs\<rparr>"
proof -
  obtain ifs rand ifs2 where g: "HostOnlySock_GetCandidates ifs rand ifs2 h = Ret (Inr cs, h')"
    using assms by (auto simp: host_gathers_def)
  obtain addrs e where G: "Gather ifs = (addrs, e)" by fastforce
  have "e = None" "addrs \<noteq> []" using g G by (cases e; cases addrs; simp add: HostOnlySock_GetCandidates_def)+
  then obtain a as where a: "Gather ifs = (a # as, None)" using G by (cases addrs) auto
  show thesis
  proof (cases "gather_candidates (IP_String (ad_IP a) @ '':'' @ itoa (rand mod 50000)) ifs2")
    case (Inr hosts)
    then have "cs = hosts" "h' = h\<lparr>ho_localCandidates := ho_localCandidates h @ map cd_addr cs\<rparr>"
      using g a by (auto simp: HostOnlySock_GetCandidates_def)
    then show thesis using Inr that by blast
  qed (use g a in \<open>simp add: HostOnlySock_GetCandidates_def\<close>)
qed

interpretation host_source: candidate_source host_gathers HostOnlySock_getListenCandidiates
  by unfold_locales
    (auto elim!: host_gathersE dest: gather_candidates_length simp: HostOnlySock_getListenCandidiates_def maxCandidates_def)

interpretation stun_source: candidate_source stun_gathers stunSocket_getListenCandidiates
proof
  fix s cs s' c
  assume g: "stun_gathers s cs s'"
  then show "length cs \<le> maxCandidates + 1"
    by (auto simp: stun_gathers_def dest!: stunSocket_candidates_length)
  assume "c \<in> set cs" "cd_Type c = CandidateHost"
  then show "cd_addr c \<in> set (stunSocket_getListenCandidiates s')"
    using g unfolding stun_gathers_def
    by (elim exE stunSocket_GetCandidatesE) (auto simp: stunSocket_getListenCandidiates_def reflexive_def split: if_splits)
qed

interpretation turn_source: candidate_source turn_gathers turnSock_getListenCandidiates
proof
  fix t cs t' c
  assume g: "turn_gathers t cs t'"
  then show "length cs \<le> maxCandidates + 1"
    by (auto simp: turn_gathers_def dest!: turnSock_candidates_length)
  assume "c \<in> set cs" "cd_Type c = CandidateHost"
  then show "cd_addr c \<in> set (turnSock_getListenCandidiates t')"
    using g unfolding turn_gathers_def
    by (elim exE turnSock_GetCandidatesE) (auto simp: turnSock_getListenCandidiates_def)
qed

section \<open>Seven host addresses\<close>

lemma v4_strings_differ:
  assumes "\<forall>ip\<in>set ips. \<exists>x. ip = v4_prefix @ x \<and> length x = 4" and "distinct ips" "ips = ip # rest" "i \<in> set rest"
  shows "IP_String ip \<noteq> IP_String i"
proof
  obtain x y where xy: "ip = v4_prefix @ x" "i = v4_prefix @ y" "length x = 4" "length y = 4"
    using assms(1,3,4) by fastforce
  assume "IP_String ip = IP_String i"
  then have "ParseIP (dotted x) = ParseIP (dotted y)" using xy by (simp add: IP_String_v4)
  then have "ip = i" using xy by (simp add: ParseIP_dotted)
  then show False using assms(2-4) by auto
qed

lemma local_candidates_rest:
  assumes "\<forall>ip\<in>set ips. \<exists>x. ip = v4_prefix @ x \<and> length x = 4" "distinct ips"
    and "\<forall>ip\<in>set ips. IP_String ip @ '':'' @ port \<noteq> primary"
    and "\<forall>c\<in>set cs. \<forall>ip\<in>set ips. cd_addr c \<noteq> IP_String ip @ '':'' @ port"
  shows "length (local_candidates primary port ips cs) = length cs + length ips"
  using assms
proof (induction ips arbitrary: cs)
  case (Cons ip ips)
  let ?a = "IP_String ip @ '':'' @ port"
  let ?c = "zero_Candidate\<lparr>cd_Type := CandidateHost, cd_addr := ?a, baseAddr := ?a, Foundation := calcFoundation ?a\<rparr>"
  have "\<not> list_ex (\<lambda>c2. Candidate_Equal c2 ?c) cs"
    using Cons.prems(4) by (auto simp: list_ex_iff Candidate_Equal_def)
  then have "local_candidates primary port (ip # ips) cs = local_candidates primary port ips (cs @ [?c])"
    using Cons.prems(3) by (simp add: Let_def)
  moreover have "IP_String ip \<noteq> IP_String i" if "i \<in> set ips" for i
    using v4_strings_differ [OF Cons.prems(1,2) refl that] .
  ultimately show ?case using Cons.IH [of "cs @ [?c]"] Cons.prems by auto
qed simp

text \<open>Distinct addresses, the primary one first, all become candidates, up to the limit of seven.\<close>

lemma getLocalCandidates_all:
  assumes "\<forall>ip\<in>set ips. \<exists>x. ip = v4_prefix @ x \<and> length x = 4" "distinct ips"
    and "SplitHostPort primary = Inr (host, port)" and "ips \<noteq> []" and "primary = IP_String (hd ips) @ '':'' @ port"
  shows "\<exists>cs. getLocalCandidates primary ips = Inr cs \<and> length cs = min (length ips) (maxCandidates - 1)"
proof -
  obtain ip rest where ips: "ips = ip # rest" using assms(4) by (cases ips) auto
  let ?a = "IP_String ip @ '':'' @ port"
  let ?c = "zero_Candidate\<lparr>cd_Type := CandidateHost, cd_addr := ?a, baseAddr := ?a, Foundation := calcFoundation ?a\<rparr>"
  have other: "IP_String ip \<noteq> IP_String i" if "i \<in> set rest" for i
    using v4_strings_differ [OF assms(1,2) ips that] .
  have "local_candidates primary port ips [] = local_candidates primary port rest [?c]"
    by (simp add: ips Let_def)
  moreover have "length (local_candidates primary port rest [?c]) = 1 + length rest"
    using assms other other [THEN not_sym] by (subst local_candidates_rest) (auto simp: ips)
  ultimately have "length (local_candidates primary port ips []) = length ips" by (simp add: ips)
  then show ?thesis using assms(3) by (auto simp: getLocalCandidates_def Let_def min_def)
qed

section \<open>Failures\<close>

lemma binding_request_built:
  assumes "length tid = TransactionIDSize"
  shows "\<exists>req. MustBuild [transactionIDSetter_AddTo (tid, None), MessageType_AddTo BindingRequest] = Ret req \<and>
    msg_Type req = BindingRequest \<and> msg_TransactionID req = tid"
proof -
  obtain m0 where m0: "Message_WriteHeader (Message_Reset zero_Message) = Ret m0" "msg_wf m0"
    using Message_WriteHeader_Reset [of zero_Message] by (auto simp: zero_Message_def size_defs)
  have t0: "transactionIDSetter_AddTo (tid, None) m0 = transactionIDValueSetter_AddTo tid m0"
    using random_tid [OF assms] m0(2) by (simp add: msg_wf_def)
  obtain m2 where "run_setters [transactionIDSetter_AddTo (tid, None), MessageType_AddTo BindingRequest] m0 = Ret (None, m2)"
      "msg_Type m2 = BindingRequest" "msg_TransactionID m2 = tid"
    using tid_type_setters [OF m0(2) assms] by (auto simp: t0)
  then show ?thesis by (auto simp: MustBuild_def Build_def Message_Build_def m0(1))
qed

text \<open>
  An error the STUN client reports to the callback is overwritten by the result of \<open>Do\<close>: gathering goes
  on with the zero address, and the transport offers a candidate without a host.
\<close>

lemma mapping_failure_unseen:
  assumes "length tid = TransactionIDSize" and "ev_Error ev = Some e"
    and "ss_MappedAddr s = ([], 0)" "ss_LocalAddr s \<noteq> '':0''" and "gather_candidates (ss_LocalAddr s) ifs = Inr hosts"
  shows "stunSocket_GetCandidates (tid, None) past (\<lambda>_. (Some None, Some ev)) ifs s =
    Ret (Some (Inr (hosts @ [reflexive (ss_LocalAddr s) '':0'']), s\<lparr>ss_localAddrs := ss_localAddrs s @ map cd_addr hosts\<rparr>))"
proof -
  have "stunSocket_mapAddress (tid, None) past (\<lambda>_. (Some None, Some ev)) s = Ret (Some (None, s))"
    using binding_request_built [OF assms(1)] assms(2) by (auto simp: stunSocket_mapAddress_def map_callback_def)
  moreover have "UDPAddr_String ([], 0) = '':0''" by (simp add: UDPAddr_String_def JoinHostPort_def itoa_def show_base.simps digit_chars)
  ultimately show ?thesis using assms by (simp add: stunSocket_GetCandidates_def reflexive_def)
qed

lemma no_interface_panics:
  "HostOnlySock_GetCandidates (Inr []) rand ifs2 h = Panic IndexOutOfRange"
  by (simp add: HostOnlySock_GetCandidates_def Gather_def)

text \<open>A client that is closed never calls the callback, and the wait for it does not end.\<close>

lemma closed_client_blocks:
  assumes "length tid = TransactionIDSize"
  shows "stunSocket_mapAddress (tid, None) past (\<lambda>_. (Some (Some ErrClientClosed), None)) s = Ret None"
  using binding_request_built [OF assms] by (auto simp: stunSocket_mapAddress_def)

end
