(* ===== verification/Go_Util.thy ===== *)
theory Go_Util
  imports Go_Prelude
begin

text \<open>
  The helpers of \<^verbatim>\<open>src/utils/util.go\<close> that compute: random strings, the 32-byte form of a
  big integer and the Ethereum form of a signature.

  The random source \<open>rand.Reader\<close> is the list of bytes it still has to give, so that a call
  returns what is left of it; \<open>crypto.Sign\<close> and the Keccak hash are third-party code and
  arguments. \<open>base32.StdEncoding\<close> and \<open>Int.Bytes\<close> belong to Go's standard library.

  Shown here: \<open>RandomString\<close> returns for every length, and its text has that length and
  consists of the letters and digits of base 32, never of padding; \<open>BigIntTo32Bytes\<close> gives the
  32 bytes of a number that fits and panics on every other one.
\<close>

section \<open>Base 32\<close>

definition base32_alphabet :: string where
  "base32_alphabet = ''ABCDEFGHIJKLMNOPQRSTUVWXYZ234567''"

definition base32_letter :: "byte \<Rightarrow> char" where
  "base32_letter w = base32_alphabet ! unat (w AND 31)"

text \<open>The eight letters of a group of five bytes; a shorter group is filled up with zeros.\<close>

definition base32_group :: "byte \<Rightarrow> byte \<Rightarrow> byte \<Rightarrow> byte \<Rightarrow> byte \<Rightarrow> string" where
  "base32_group a b c d e = map base32_letter
     [drop_bit 3 a, push_bit 2 a OR drop_bit 6 b, drop_bit 1 b, push_bit 4 b OR drop_bit 4 c,
      push_bit 1 c OR drop_bit 7 d, drop_bit 2 d, push_bit 3 d OR drop_bit 5 e, e]"

fun base32_encode :: "bytes \<Rightarrow> string" where
  "base32_encode (a # b # c # d # e # r) = base32_group a b c d e @ base32_encode r"
| "base32_encode [a, b, c, d] = take 7 (base32_group a b c d 0) @ ''=''"
| "base32_encode [a, b, c] = take 5 (base32_group a b c 0 0) @ ''===''"
| "base32_encode [a, b] = take 4 (base32_group a b 0 0 0) @ ''====''"
| "base32_encode [a] = take 2 (base32_group a 0 0 0 0) @ ''======''"
| "base32_encode [] = []"

section \<open>Random bytes and strings\<close>

definition readFullOrPanic :: "nat \<Rightarrow> bytes \<Rightarrow> (int \<times> bytes \<times> bytes) go" where
  "readFullOrPanic n src =
     (if n \<le> length src then Ret (int n, take n src, drop n src)
      else Panic (ExplicitPanic (if src = [] then ''EOF'' else ''unexpected EOF'')))"

text \<open>A negative length makes \<open>make\<close> panic.\<close>

definition Random :: "int \<Rightarrow> bytes \<Rightarrow> (bytes \<times> bytes) go" where
  "Random n src =
     (if n < 0 then Panic SliceOutOfRange
      else go_bind (readFullOrPanic (nat n) src) (\<lambda>(_, v, src). Ret (v, src)))"

definition RandomString :: "int \<Rightarrow> bytes \<Rightarrow> (string \<times> bytes) go" where
  "RandomString n src = go_bind (Random n src) (\<lambda>(v, src).
     let s = base32_encode v in
     if nat n \<le> length s then Ret (take (nat n) s, src) else Panic SliceOutOfRange)"

section \<open>Big integers and signatures\<close>

text \<open>\<open>i.Bytes()\<close>: the absolute value, big-endian, without leading zeros.\<close>

fun nat_bytes :: "nat \<Rightarrow> bytes" where
  "nat_bytes n = (if n = 0 then [] else nat_bytes (n div 256) @ [of_nat (n mod 256)])"

declare nat_bytes.simps [simp del]

definition BigIntTo32Bytes :: "int \<Rightarrow> bytes go" where
  "BigIntTo32Bytes i =
     (let data = nat_bytes (nat \<bar>i\<bar>);
          buf = replicate 32 0;
          buf = fold (\<lambda>j buf. buf[j := 0]) [0..<32 - length data] buf
      in if length data > 32 then Panic IndexOutOfRange
         else Ret (fold (\<lambda>j buf. buf[j := data ! (j + length data - 32)]) [32 - length data..<32] buf))"

definition SignData ::
  "(bytes \<Rightarrow> bytes) \<Rightarrow> ('k \<Rightarrow> bytes \<Rightarrow> bytes \<times> 'e option) \<Rightarrow> 'k \<Rightarrow> bytes \<Rightarrow> (bytes \<times> 'e option) go" where
  "SignData Sha3 Sign privKey data =
     (let (sig, err) = Sign privKey (Sha3 data) in
      if err = None
      then (if sig = [] then Panic IndexOutOfRange
            else Ret (sig[length sig - 1 := last sig + 27], err))
      else Ret (sig, err))"

section \<open>Facts\<close>

lemma length_base32_group [simp]: "length (base32_group a b c d e) = 8"
  by (simp add: base32_group_def)

lemma base32_letter_alphabet: "base32_letter w \<in> set base32_alphabet"
proof -
  have "unat (w AND 31) < 32"
    using word_and_le1 [of w 31] by (simp add: word_le_nat_alt)
  then show ?thesis
    unfolding base32_letter_def by (intro nth_mem) (simp add: base32_alphabet_def)
qed

lemma base32_group_alphabet: "set (base32_group a b c d e) \<subseteq> set base32_alphabet"
  by (auto simp: base32_group_def base32_letter_alphabet simp del: set_map)

lemma length_base32_encode: "length (base32_encode v) = 8 * ((length v + 4) div 5)"
proof (induction v rule: base32_encode.induct)
  case (1 a b c d e r)
  have "(length r + 9) div 5 = Suc ((length r + 4) div 5)" by presburger
  then show ?case using 1 by (simp add: add.commute)
qed simp_all

text \<open>The first letters, as many as there are bytes, never reach the padding.\<close>

lemma base32_encode_alphabet: "set (take (length v) (base32_encode v)) \<subseteq> set base32_alphabet"
proof (induction v rule: base32_encode.induct)
  case (1 a b c d e r)
  have "set (take (length r - 3) (base32_encode r)) \<subseteq> set (take (length r) (base32_encode r))"
    by (rule set_take_subset_set_take) simp
  then show ?case using 1 base32_group_alphabet [of a b c d e] by (auto dest: in_set_takeD)
qed (use base32_group_alphabet in \<open>fastforce dest: in_set_takeD\<close>)+

lemma RandomString_returns:
  assumes "n \<le> length src"
  shows "\<exists>s. RandomString (int n) src = Ret (s, drop n src) \<and> length s = n \<and> set s \<subseteq> set base32_alphabet"
  using assms base32_encode_alphabet [of "take n src"]
  by (auto simp: RandomString_def Random_def readFullOrPanic_def length_base32_encode min_absorb2)

lemma RandomString_Ret:
  assumes "RandomString n src = Ret (s, src')"
  shows "0 \<le> n" "length s = nat n" "set s \<subseteq> set base32_alphabet" "src' = drop (nat n) src"
proof -
  have "0 \<le> n" "nat n \<le> length src"
    using assms by (auto simp: RandomString_def Random_def readFullOrPanic_def split: if_splits)
  then show "0 \<le> n" "length s = nat n" "set s \<subseteq> set base32_alphabet" "src' = drop (nat n) src"
    using RandomString_returns [of "nat n" src] assms by auto
qed

definition bytes_nat :: "bytes \<Rightarrow> nat" where
  "bytes_nat = foldl (\<lambda>n b. 256 * n + unat b) 0"

lemma bytes_nat_simps [simp]: "bytes_nat [] = 0" "bytes_nat (b @ [w]) = 256 * bytes_nat b + unat w"
  by (simp_all add: bytes_nat_def)

lemma bytes_nat_nat_bytes: "bytes_nat (nat_bytes n) = n"
proof (induction n rule: nat_bytes.induct)
  case (1 n)
  then show ?case by (subst nat_bytes.simps) (simp add: unat_of_nat)
qed

lemma bytes_nat_zeros: "bytes_nat (replicate k 0 @ b) = bytes_nat b"
proof -
  have "foldl (\<lambda>n b. 256 * n + unat b) 0 (replicate k (0 :: byte)) = 0" by (induction k) simp_all
  then show ?thesis by (simp add: bytes_nat_def)
qed

lemma length_nat_bytes: "length (nat_bytes n) \<le> k \<longleftrightarrow> n < 256 ^ k"
proof (induction n arbitrary: k rule: nat_bytes.induct)
  case (1 n)
  show ?case
  proof (cases "n = 0 \<or> k = 0")
    case True
    then show ?thesis by (subst nat_bytes.simps) auto
  next
    case False
    then obtain k' where k: "k = Suc k'" by (cases k) auto
    have "length (nat_bytes n) \<le> k \<longleftrightarrow> n div 256 < 256 ^ k'"
      using False 1 [of k'] by (subst nat_bytes.simps) (simp add: k)
    then show ?thesis by (simp add: k less_mult_imp_div_less div_less_iff_less_mult mult.commute)
  qed
qed

lemma fill_tail:
  assumes "length data \<le> n"
  shows "k \<le> length data \<Longrightarrow>
    fold (\<lambda>j buf. buf[j := data ! (j + length data - n)]) [n - length data..<n - length data + k] (replicate n 0) =
    replicate (n - length data) 0 @ take k data @ replicate (length data - k) (0 :: byte)"
proof (induction k)
  case 0
  show ?case using assms by (simp flip: replicate_add)
next
  case (Suc k)
  then have "replicate (length data - k) (0 :: byte) = 0 # replicate (length data - Suc k) 0"
    by (metis Suc_diff_Suc Suc_le_eq replicate_Suc)
  moreover have "n - length data \<le> n + k - length data" by simp
  ultimately show ?case using Suc assms by (simp add: list_update_append take_Suc_conv_app_nth)
qed

lemma fill_zeros: "fold (\<lambda>j buf. buf[j := 0]) js (replicate n 0) = replicate n (0 :: byte)"
proof (induction js)
  case (Cons j js)
  have "(replicate n (0 :: byte))[j := 0] = replicate n 0"
    by (cases "j < n") (simp_all add: list_update_same_conv list_update_beyond)
  then show ?case using Cons by simp
qed simp

lemma BigIntTo32Bytes_eq:
  "BigIntTo32Bytes i =
     (if \<bar>i\<bar> < 256 ^ 32
      then Ret (replicate (32 - length (nat_bytes (nat \<bar>i\<bar>))) 0 @ nat_bytes (nat \<bar>i\<bar>))
      else Panic IndexOutOfRange)"
proof -
  let ?d = "nat_bytes (nat \<bar>i\<bar>)"
  have fits: "length ?d \<le> 32 \<longleftrightarrow> \<bar>i\<bar> < 256 ^ 32" by (simp add: length_nat_bytes nat_less_iff)
  show ?thesis
  proof (cases "length ?d \<le> 32")
    case True
    then show ?thesis using fits fill_tail [OF True, of "length ?d"]
      by (simp add: BigIntTo32Bytes_def Let_def fill_zeros)
  qed (use fits in \<open>simp add: BigIntTo32Bytes_def Let_def\<close>)
qed

text \<open>Reading the 32 bytes back gives the absolute value: the sign is lost.\<close>

lemma BigIntTo32Bytes_roundtrip:
  assumes "\<bar>i\<bar> < 256 ^ 32"
  shows "\<exists>b. BigIntTo32Bytes i = Ret b \<and> length b = 32 \<and> int (bytes_nat b) = \<bar>i\<bar>"
  using assms length_nat_bytes [of "nat \<bar>i\<bar>" 32]
  by (simp add: BigIntTo32Bytes_eq bytes_nat_zeros bytes_nat_nat_bytes nat_less_iff)

lemma SignData_last:
  assumes "Sign k (Sha3 d) = (sig @ [v], None)"
  shows "SignData Sha3 Sign k d = Ret (sig @ [v + 27], None)"
  using assms by (simp add: SignData_def)

end
