(* ===== verification/Ice_Fresh.thy ===== *)
theory Ice_Fresh
  imports Ice_Offer Ice_Lifecycle Go_Util
begin

text \<open>
  The start of a negotiation, end to end: the credentials that \<open>newIceSession\<close> draws with
  \<open>RandomString(8)\<close> have no colon and no newline, so the description of a transport that
  \<open>InitIce\<close> has prepared is always read back, without a condition on the credentials.
\<close>

lemma base32_alphabet_plain:
  "c \<in> set base32_alphabet \<Longrightarrow> plain_char c \<and> c \<noteq> CHR '':'' \<and> c \<noteq> newLine"
  by (auto simp: base32_alphabet_def plain_char_def newLine_def)

lemma RandomString_credential:
  assumes "RandomString n src = Ret (s, src')" and "0 < n"
  shows "credential s"
proof -
  have "s \<noteq> []" using RandomString_Ret(2) [OF assms(1)] assms(2) by auto
  moreover have "plain_char c \<and> c \<noteq> CHR '':'' \<and> c \<noteq> newLine" if "c \<in> set s" for c
    using RandomString_Ret(3) [OF assms(1)] that base32_alphabet_plain by blast
  ultimately show ?thesis by (auto simp: credential_def)
qed

text \<open>
  What a new transport offers is read back: \<open>InitIce\<close> draws the credentials with
  \<open>RandomString(8)\<close>, and the description it then prints gives them and the candidates back.
\<close>

theorem fresh_description_read_back:
  assumes "RandomString 8 src = Ret (frag, src1)" and "RandomString 8 src1 = Ret (pwd, src2)"
    and init: "StreamTransport_InitIce frag pwd tie listen addrs order r t = Ret (e, t')"
    and "tc_defaultCandidate (tr_component t) = Some dc" and "dc \<in> set (tc_candidates (tr_component t))"
    and "list_all offerable (tc_candidates (tr_component t))"
  shows "\<exists>text sd. StreamTransport_EncodeSession t' = Ret (Inr text) \<and> decodeSession text = Inr sd \<and>
    sd_user sd = frag \<and> sd_password sd = pwd \<and>
    list_all2 Candidate_Equal (tc_candidates (tr_component t)) (sd_candidates sd)"
proof -
  let ?s = "newIceSession r (tc_candidates (tr_component t)) frag pwd tie"
  obtain s where s: "session_StartServer listen (tr_transporter t = TurnSock) addrs order ?s = Ret (e, s)"
    and t': "tr_session t' = Some s" "tr_component t' = tr_component t"
    using init by (auto simp: StreamTransport_InitIce_def go_map_Ret split: if_splits)
  obtain m k cl where "s = ?s\<lparr>serverSocks := m, turnServerSock := k, out := out ?s @ map CloseSock cl\<rparr>"
    using StartServer_frame [OF s] by blast
  then have "rxUserFrag s = frag" "rxPassword s = pwd" by (simp_all add: newIceSession_def)
  then show ?thesis
    using Encode_decodeSession [OF t'(1), of dc] RandomString_credential [OF assms(1)] RandomString_credential [OF assms(2)]
      assms(4-6) t'(2) by fastforce
qed

end
