(* ===== verification/Spec2Isabelle.thy ===== *)
theory Spec2Isabelle
  imports Ice_Lifecycle Stun_Build Ice_Offer Sdp_Roundtrip Stun_Addr Stun_Text Stun_Auth Turn_Attrs Ice_Attr Stun_Client Ice_Requests Ice_Completion Ice_Loop Ice_Gather Ice_Fresh
begin

text \<open>
  A verification library for goice, a Go implementation of STUN (RFC 5389), TURN (RFC 5766),
  ICE (RFC 5245) and SDP (RFC 4566).

  \<^bold>\<open>The program.\<close> Package \<^verbatim>\<open>src/stun\<close> has the message format, its attributes, and a client that
  keeps a table of transactions (the agent). Package \<^verbatim>\<open>src/turn\<close> adds the attributes of TURN and
  channel data. Package \<^verbatim>\<open>src/sdp\<close> reads and writes session descriptions. Package \<^verbatim>\<open>src/ice\<close>
  puts them together: a transport (\<^verbatim>\<open>icestreamtransport.go\<close>) gathers candidates, over the
  interfaces alone or with the help of a STUN or TURN server, offers them to its peer in a
  session description, and starts a session (\<^verbatim>\<open>icesession.go\<close>), which forms pairs of candidates,
  checks them by binding requests through its sockets (\<^verbatim>\<open>stunserversock.go\<close>,
  \<^verbatim>\<open>turnserversock.go\<close>), nominates one and tells the transport, which then carries data.

  \<^bold>\<open>How it is modelled.\<close> A Go call returns a value or panics: \<open>'a go\<close> of \<open>Go_Prelude\<close>. An error is a
  value of \<open>go_error\<close>, one constructor per error variable or type of the code, or \<open>Errorf\<close> with the
  text. Structs are records whose fields keep the names of the code, with a short prefix where
  several structs share a name; methods are functions called \<open>Type_Method\<close>. Integers keep their
  width as words where they wrap; \<open>int\<close> is unbounded where the code cannot reach its bounds.
  Slices are lists; the one slice whose spare capacity shows, \<open>Message.Raw\<close>, has it as a second
  list. Candidates and checks of a session are compared by pointer and changed in place: they
  are indices into heaps. A map whose order of iteration shows is an association list, or the
  visiting order is an argument. What goroutines do is cut where they can be interrupted, and
  runs are interleavings of these parts (\<open>path\<close> of \<open>Go_Machine\<close>). A send that blocks for ever is the
  outcome \<open>BlockedSend\<close>, a wait that may not end gives \<open>None\<close>. Random bytes, the time, what the
  operating system or the network returns, and the bytes behind a value in its buffer are
  arguments.

  \<^bold>\<open>The theories.\<close>
  \<^item> The language and its library: \<open>Go_Prelude\<close> (words, byte slices, panics), \<open>Go_Machine\<close> (runs, and
    the contracts of machines as locales), \<open>Go_Hash\<close> (CRC-32, SHA-1, HMAC, MD5, executable),
    \<open>Go_Net\<close> (addresses), \<open>Go_Text\<close> (UTF-8, splitting), \<open>Go_Time\<close>;
    \<open>Go_Util\<close> (random strings, big integers and signatures of \<^verbatim>\<open>src/utils\<close>).
  \<^item> STUN: \<open>Stun_Attributes\<close> (\<^verbatim>\<open>attributes.go\<close>, \<^verbatim>\<open>errors.go\<close>), \<open>Stun_Message\<close> (\<^verbatim>\<open>message.go\<close>,
    \<^verbatim>\<open>helpers.go\<close>), \<open>Stun_Wire\<close> (the grammar of messages, and that the decoder recognises it),
    \<open>Stun_Codec\<close> (the contract of an attribute, the locale \<open>attribute_codec\<close>, with its lemmas on
    building and reading messages), \<open>Stun_Addr\<close> (\<^verbatim>\<open>addr.go\<close>, \<^verbatim>\<open>xoraddr.go\<close>, \<^verbatim>\<open>xor.go\<close>), \<open>Stun_Text\<close>
    (\<^verbatim>\<open>textattrs.go\<close>, \<^verbatim>\<open>uattrs.go\<close>, \<^verbatim>\<open>errorcode.go\<close>), \<open>Stun_Auth\<close> (\<^verbatim>\<open>integrity.go\<close>,
    \<^verbatim>\<open>fingerprint.go\<close>), \<open>Stun_Agent\<close> (\<^verbatim>\<open>agent.go\<close>), \<open>Stun_Client\<close> and \<open>Stun_Do\<close> (\<^verbatim>\<open>client.go\<close>).
  \<^item> TURN and ICE attributes: \<open>Turn_Attrs\<close>, \<open>Ice_Attr\<close>; each attribute is an interpretation of
    \<open>attribute_codec\<close>.
  \<^item> SDP: \<open>Sdp_Session\<close> (\<^verbatim>\<open>sdp.go\<close>), \<open>Sdp_Fields\<close> (\<^verbatim>\<open>fields.go\<close>), \<open>Sdp_Message\<close> (\<^verbatim>\<open>encoder.go\<close>),
    \<open>Sdp_Decoder\<close> (\<^verbatim>\<open>decoder.go\<close>), \<open>Sdp_Roundtrip\<close>.
  \<^item> The ICE session: \<open>Ice_Candidate\<close> (\<^verbatim>\<open>candidate.go\<close>), \<open>Ice_Checklist\<close> (\<^verbatim>\<open>checklist.go\<close>), \<open>Ice_Session\<close>
    (every handler of \<^verbatim>\<open>icesession.go\<close>), \<open>Ice_Invariant\<close> (its events, its invariant, the order in
    which it moves), \<open>Ice_Requests\<close> (the messages two agents exchange), \<open>Ice_Completion\<close> (how it
    ends), \<open>Ice_Loop\<close> (its channels and its loop).
  \<^item> Around the session: \<open>Ice_Sock\<close> and \<open>Ice_Relay\<close> (the sockets), \<open>Ice_Transport\<close> (the transport),
    \<open>Ice_Offer\<close> (session descriptions reach the peer), \<open>Ice_Lifecycle\<close> (transport and session
    together), \<open>Ice_Gather\<close> (where candidates come from), \<open>Ice_Fresh\<close> (the offer of a new transport is
    read back, with the credentials it draws).

  \<^bold>\<open>Interfaces.\<close> \<open>attribute_codec\<close> and its variants are interpreted for every attribute; \<open>machine\<close>,
  \<open>monotone_machine\<close> and \<open>transaction_table\<close> for the agent, the session, the loop, the transport and
  both kinds of socket; \<open>sock_callback\<close> for the session and the TURN socket, as what a socket
  calls; \<open>candidate_source\<close> for the three ways to gather candidates.

  \<^bold>\<open>What is shown.\<close> STUN: decoding is the wire grammar, what is built is read back, credentials are
  checked over exactly the bytes that were signed, and which inputs panic. Transactions: every
  handler is called once, and what \<open>Do\<close> waits for arrives. ICE: check lists are sorted, pruned and
  complete; over every run references are valid, the nominated pair is the best one, the session
  only moves forward and reports once; requests are authenticated and others change nothing; the
  last check ends the negotiation; the loop loses and reorders nothing. Sockets: every wait is
  accounted for, retransmissions are answered from the cache, relayed messages and data arrive.
  Transport: descriptions are read back, completion finds the transport in the right state. SDP:
  messages are read back and decoding ends. Where the code does not do what its comments say,
  the theorem states what it does (a late answer that blocks a socket, a role conflict that erases
  the role, \<open>Stop\<close> that cannot be repeated).

  \<^bold>\<open>Bounds.\<close> Message lengths are 16 bits and theorems on building messages ask for less than
  \<open>65536\<close> bytes. Sockets read at most 1024 bytes of a packet. The channels of the session hold ten
  elements. The parser of IPv6 addresses runs at most eight rounds, one per group. No definition
  has fuel otherwise: loops are structural or have a termination proof (the SDP decoder by the
  lines left, the relay by the size of what is wrapped). \<open>sort.Sort\<close> is a stable sort: on lists of
  at most twelve elements it is an insertion sort, and longer ones only differ in the order of
  equal priorities.

  \<^bold>\<open>Not modelled.\<close> Text for people: \<open>Message.String\<close> with its table of attribute printers, the
  \<open>String\<close> and \<open>Error\<close> methods used in logs, and all logging. \<open>stun.Dial\<close> and the writing goroutine of
  a socket, which only call the operating system. The rest of
  \<^verbatim>\<open>src/utils\<close> (hex forms and hashes of Ethereum types, debugging and process helpers), which no
  other package calls. The commands
  under \<^verbatim>\<open>src/stun/cmd\<close> and \<^verbatim>\<open>src/turn/cmd\<close>, the examples and the fuzzing entry points: flags,
  sockets and printing around the library. Mutexes: what they protect is one step here, so a
  data race in the code is outside the model; the places where the code changes shared state
  without its lock are steps too.
\<close>

section \<open>A sample message\<close>

definition sample_tid :: TransactionID where "sample_tid = [1, 2, 3, 4, 5, 6, 7, 8, 9, 10, 11, 12]"

definition sample_msg :: Message where
  "sample_msg = \<lparr>msg_Type = BindingRequest, msg_Length = 0, msg_TransactionID = sample_tid,
     msg_Attributes = [], msg_AttrsNil = True,
     msg_Raw = enc_header BindingRequest 0 sample_tid, msg_Spare = []\<rparr>"

lemma sample_msg_sel [simp]:
  "msg_Type sample_msg = BindingRequest" "msg_Length sample_msg = 0" "msg_TransactionID sample_msg = sample_tid"
  "msg_Attributes sample_msg = []" "msg_Raw sample_msg = enc_header BindingRequest 0 sample_tid"
  by (simp_all add: sample_msg_def)

lemma length_sample_tid [simp]: "length sample_tid = 12"
  by (simp add: sample_tid_def)

lemma sample_msg_wf [simp]: "msg_wf sample_msg"
  by (simp add: msg_wf_def size_defs)

lemma BindingRequest_valid [simp]: "valid_MessageType BindingRequest"
  by (simp add: valid_MessageType_def BindingRequest_def NewType_def MethodBinding_def ClassRequest_def)

lemma sample_msg_fits [simp]: "k < 65000 \<Longrightarrow> fits sample_msg k"
  using nearestPaddedValueLength_bounds(2) [of k] by (simp add: fits_def size_defs)

lemma sample_msg_lacks [simp]: "\<not> Message_Contains sample_msg t"
  by (simp add: Message_Contains_iff)

section \<open>STUN messages\<close>

text \<open>
  C1. \<open>Message.Decode\<close> is exactly the recogniser of the STUN wire grammar: on a buffer that is
  not channel data it succeeds if and only if the buffer is a header with the magic cookie
  and clear top bits, followed by as many bytes as the header says, which split into padded
  type-length-value attributes; and then the message holds these fields and nothing else.
\<close>

theorem decode_iff_wire_grammar:
  assumes "msg_Raw r \<noteq> []" and "hd (msg_Raw r) AND 0x40 \<noteq> 0x40"
  shows "Message_Decode r = Ret (None, r') \<longleftrightarrow>
    (\<exists>t l tid as. wire_message (msg_Raw r) t l tid as \<and> r' = decoded r t l tid as)"
  by (rule Message_Decode_iff_wire [OF assms])

theorem decode_iff_wire_grammar_witness:
  "msg_Raw sample_msg \<noteq> [] \<and> hd (msg_Raw sample_msg) AND 0x40 \<noteq> 0x40 \<and>
   (Message_Decode sample_msg = Ret (None, sample_msg) \<longleftrightarrow>
     (\<exists>t l tid as. wire_message (msg_Raw sample_msg) t l tid as \<and> sample_msg = decoded sample_msg t l tid as))"
proof -
  have "hd (msg_Raw sample_msg) = ucast (drop_bit 8 (MessageType_Value BindingRequest))"
    by (simp add: enc_header_def numeral_2_eq_2)
  then have h: "msg_Raw sample_msg \<noteq> []" "hd (msg_Raw sample_msg) AND 0x40 \<noteq> 0x40"
    using first_byte_type(1) [of BindingRequest] by (auto simp: enc_header_def sample_tid_def)
  from decode_iff_wire_grammar [OF h, of sample_msg] h show ?thesis by blast
qed

text \<open>
  C2. Encoding then decoding: the raw bytes of a well-formed message of a valid type, with any
  bytes after them in the buffer, decode without error to its type, length, transaction id
  and attributes.
\<close>

theorem encode_decode_roundtrip:
  assumes "msg_wf m" and "valid_MessageType (msg_Type m)" and "msg_Raw r = msg_Raw m @ extra"
  shows "\<exists>r'. Message_Decode r = Ret (None, r') \<and> msg_Raw r' = msg_Raw r \<and> msg_Type r' = msg_Type m \<and>
    msg_Length r' = msg_Length m \<and> msg_TransactionID r' = msg_TransactionID m \<and>
    msg_Attributes r' = msg_Attributes m"
  using Message_Decode_enc [of r "msg_Type m" "msg_Length m" "msg_TransactionID m" "msg_Attributes m" extra] assms
  by (auto simp: msg_wf_def)

theorem encode_decode_roundtrip_witness:
  "\<exists>r'. Message_Decode (zero_Message\<lparr>msg_Raw := msg_Raw sample_msg @ [9]\<rparr>) = Ret (None, r') \<and>
     msg_Type r' = BindingRequest \<and> msg_TransactionID r' = sample_tid \<and> msg_Attributes r' = []"
  using encode_decode_roundtrip [of sample_msg "zero_Message\<lparr>msg_Raw := msg_Raw sample_msg @ [9]\<rparr>" "[9]"]
  by auto

text \<open>
  C3. \<open>Message.Add\<close> never panics, keeps the message well-formed as long as the body fits the
  16-bit length field, and appends exactly the given attribute, padding with zeros: the raw
  bytes never contain stale bytes of the reused buffer.
\<close>

theorem add_keeps_message_wf:
  assumes "msg_wf m" and "fits m (length v)"
  shows "\<exists>m'. Message_Add m t v = Ret m' \<and> msg_wf m' \<and> msg_Attributes m' = msg_Attributes m @ [mk_attr t v] \<and>
    msg_Type m' = msg_Type m \<and> msg_TransactionID m' = msg_TransactionID m \<and>
    unat (msg_Length m') = unat (msg_Length m) + 4 + nearestPaddedValueLength (length v)"
  using Message_Add_wf [OF assms, of t] by (auto simp: size_defs)

theorem add_keeps_message_wf_witness:
  "\<exists>m'. Message_Add sample_msg AttrSoftware [1, 2, 3, 4, 5] = Ret m' \<and> msg_wf m' \<and> unat (msg_Length m') = 12"
  using add_keeps_message_wf [of sample_msg "[1, 2, 3, 4, 5]" AttrSoftware]
  by (auto simp: nearestPaddedValueLength_eq)



text \<open>
  \<open>MessageType.Value\<close> and \<open>ReadValue\<close>: the bit interleaving of class and method is undone
  for every class of 2 bits and method of 12 bits.
\<close>

theorem message_type_roundtrip:
  assumes "mt_Method t < 0x1000" and "mt_Class t < 4"
  shows "MessageType_ReadValue (MessageType_Value t) = t"
  using assms by (intro MessageType_roundtrip) (simp add: valid_MessageType_def)

theorem message_type_roundtrip_witness:
  "MessageType_ReadValue (MessageType_Value \<lparr>mt_Method = 0xabc, mt_Class = 2\<rparr>) = \<lparr>mt_Method = 0xabc, mt_Class = 2\<rparr>"
  using message_type_roundtrip [of "\<lparr>mt_Method = 0xabc, mt_Class = 2\<rparr>"] by simp

text \<open>
  C5. \<open>Message.Decode\<close> panics exactly on an empty buffer, or on a buffer that starts like
  channel data and whose capacity is below four bytes; otherwise it returns, with or without
  an error.
\<close>

theorem decode_panics_iff:
  "\<not> returns (Message_Decode m) \<longleftrightarrow>
     msg_Raw m = [] \<or> (hd (msg_Raw m) AND 0x40 = 0x40 \<and> Message_cap m < 4)"
  using Message_Decode_returns [of m] by auto

text \<open>
  \<open>Message.CloneTo\<close> into a message that already holds a well-formed message does not clone:
  the target keeps its own type, transaction id and attributes, because the bytes of the
  source are appended behind them.
\<close>

theorem clone_into_used_message_keeps_target:
  assumes "msg_wf b" and "valid_MessageType (msg_Type b)"
  shows "\<exists>b'. Message_CloneTo m b = Ret (None, b') \<and> msg_Raw b' = msg_Raw b @ msg_Raw m \<and>
    msg_Type b' = msg_Type b \<and> msg_TransactionID b' = msg_TransactionID b \<and> msg_Attributes b' = msg_Attributes b"
  using Message_CloneTo_nonempty [OF assms, of m] by auto

theorem clone_into_used_message_keeps_target_witness:
  "\<exists>b'. Message_CloneTo (sample_msg\<lparr>msg_Raw := [1, 2, 3]\<rparr>) sample_msg = Ret (None, b') \<and>
     msg_TransactionID b' = sample_tid \<and> msg_Attributes b' = []"
  using clone_into_used_message_keeps_target [of sample_msg "sample_msg\<lparr>msg_Raw := [1, 2, 3]\<rparr>"] by auto

text \<open>
  \<open>Message.Encode\<close> does not re-encode: every attribute is added to the message that already
  has it, so the encoded message carries its attributes twice.
\<close>

theorem encode_doubles_attributes:
  assumes "list_all attr_wf (msg_Attributes m)" and "length (msg_TransactionID m) = TransactionIDSize"
  shows "\<exists>m'. Message_Encode m = Ret m' \<and> msg_Attributes m' = msg_Attributes m @ msg_Attributes m"
  by (rule Message_Encode_doubles [OF assms])

theorem encode_doubles_attributes_witness:
  "\<exists>m'. Message_Encode (sample_msg\<lparr>msg_Attributes := [mk_attr AttrSoftware [1]]\<rparr>) = Ret m' \<and>
     msg_Attributes m' = [mk_attr AttrSoftware [1], mk_attr AttrSoftware [1]]"
  using encode_doubles_attributes [of "sample_msg\<lparr>msg_Attributes := [mk_attr AttrSoftware [1]]\<rparr>"]
  by (auto simp: attr_wf_def size_defs)

section \<open>Credentials and fingerprints\<close>

text \<open>
  C6. \<open>MessageIntegrity\<close>: after \<open>AddTo\<close> with a key, \<open>Check\<close> with this key accepts every well-formed
  message that starts with the same attributes, also when more attributes (such as a
  fingerprint) were added behind; and \<open>Check\<close> leaves the message as it was.
\<close>

theorem integrity_add_then_check:
  assumes "msg_wf m" and "fits m 20" and "\<not> has_fingerprint (msg_Attributes m)"
    and "\<not> Message_Contains m AttrMessageIntegrity"
  shows "\<exists>m'. MessageIntegrity_AddTo secret m = Ret (None, m') \<and> msg_wf m' \<and>
    (\<forall>m2 behind. msg_wf m2 \<and> msg_Type m2 = msg_Type m \<and> msg_TransactionID m2 = msg_TransactionID m \<and>
       msg_Attributes m2 = msg_Attributes m' @ behind \<longrightarrow> MessageIntegrity_Check secret m2 = Ret (None, m2))"
proof -
  let ?mi = "mk_attr AttrMessageIntegrity (newHMAC secret (signed_prefix m (msg_Attributes m) 24))"
  obtain m' where m': "MessageIntegrity_AddTo secret m = Ret (None, m')" "msg_wf m'"
      "msg_Attributes m' = msg_Attributes m @ [?mi]"
    using MessageIntegrity_AddTo_eq [OF assms(1) _ assms(3), of secret] assms(2)
    by (auto simp: messageIntegritySize_def)
  have "MessageIntegrity_Check secret m2 = Ret (None, m2)"
    if "msg_wf m2" "msg_Type m2 = msg_Type m" "msg_TransactionID m2 = msg_TransactionID m"
      "msg_Attributes m2 = msg_Attributes m' @ behind" for m2 behind
    using MessageIntegrity_Check_eq [OF that(1), of "msg_Attributes m" ?mi behind secret] that m'(3) assms(4)
    by (simp add: Message_Contains_iff newHMAC_def messageIntegritySize_def signed_prefix_def)
  with m' show ?thesis by blast
qed

theorem integrity_add_then_check_witness:
  "\<exists>m'. MessageIntegrity_AddTo [1, 2, 3] sample_msg = Ret (None, m') \<and> msg_wf m' \<and>
    (\<forall>m2 behind. msg_wf m2 \<and> msg_Type m2 = BindingRequest \<and> msg_TransactionID m2 = sample_tid \<and>
       msg_Attributes m2 = msg_Attributes m' @ behind \<longrightarrow> MessageIntegrity_Check [1, 2, 3] m2 = Ret (None, m2))"
  using integrity_add_then_check [of sample_msg "[1, 2, 3]"] by simp

text \<open>
  C7. The verdict of \<open>MessageIntegrity.Check\<close>: on a well-formed message whose first
  MESSAGE-INTEGRITY has 20 bytes it accepts if and only if these are the HMAC-SHA1, under
  the key, of the bytes before the attribute with the length field of a message that ends
  with it; otherwise it reports both digests. The message is left as it was.
\<close>

theorem integrity_check_verdict:
  assumes "msg_wf m" and "msg_Attributes m = pre @ mi # behind"
    and "attr_Type mi = AttrMessageIntegrity" and "length (attr_Value mi) = 20"
    and "\<forall>a\<in>set pre. attr_Type a \<noteq> AttrMessageIntegrity"
  shows "MessageIntegrity_Check secret m =
    (let expected = hmac_sha1 secret (signed_prefix m pre 24)
     in if attr_Value mi = expected then Ret (None, m) else Ret (Some (IntegrityErr expected (attr_Value mi)), m))"
  using MessageIntegrity_Check_eq [OF assms(1-3) _ assms(5), of secret] assms(4)
  by (simp add: messageIntegritySize_def newHMAC_def Let_def)

theorem integrity_check_verdict_witness:
  "\<exists>m. msg_wf m \<and> msg_Attributes m = [mk_attr AttrMessageIntegrity (replicate 20 0)] \<and>
     MessageIntegrity_Check [7] m =
       (let expected = hmac_sha1 [7] (signed_prefix m [] 24)
        in if replicate 20 0 = expected then Ret (None, m)
           else Ret (Some (IntegrityErr expected (replicate 20 0)), m))"
proof -
  obtain m where m: "msg_wf m" "msg_Attributes m = [mk_attr AttrMessageIntegrity (replicate 20 0)]"
    using Message_Add_wf [of sample_msg "replicate 20 0" AttrMessageIntegrity] by auto
  then show ?thesis
    using integrity_check_verdict [of m "[]" "mk_attr AttrMessageIntegrity (replicate 20 0)" "[]" "[7]"]
    by (intro exI [of _ m]) (simp add: Let_def)
qed

text \<open>
  \<open>FingerprintAttr\<close>: what \<open>AddTo\<close> appends to a message without a fingerprint, \<open>Check\<close>
  accepts; and \<open>Check\<close> on a message that ends with its only fingerprint accepts exactly the
  CRC-32 of the bytes before it, XOR-ed with the constant.
\<close>

theorem fingerprint_add_then_check:
  assumes "msg_wf m" and "fits m 4" and "\<not> has_fingerprint (msg_Attributes m)"
  shows "\<exists>m'. Fingerprint_AddTo m = Ret (None, m') \<and> msg_wf m' \<and> Fingerprint_Check m' = Ret (None, m') \<and>
    (\<forall>m2 v. msg_wf m2 \<and> msg_Type m2 = msg_Type m \<and> msg_TransactionID m2 = msg_TransactionID m \<and>
       length v = 4 \<and> msg_Attributes m2 = msg_Attributes m @ [mk_attr AttrFingerprint v] \<and>
       Fingerprint_Check m2 = Ret (None, m2) \<longrightarrow>
       be_get v = ChecksumIEEE (signed_prefix m (msg_Attributes m) 8) XOR fingerprintXORValue)"
proof -
  let ?crc = "FingerprintValue (signed_prefix m (msg_Attributes m) 8)"
  obtain m' where m': "Fingerprint_AddTo m = Ret (None, m')" "msg_wf m'" "msg_Type m' = msg_Type m"
      "msg_TransactionID m' = msg_TransactionID m"
      "msg_Attributes m' = msg_Attributes m @ [mk_attr AttrFingerprint (put_u32 ?crc)]"
    using Fingerprint_AddTo_eq [OF assms(1)] assms(2) by (auto simp: fingerprintSize_def)
  have check: "Fingerprint_Check m2 = Ret (if ?crc = be_get v then None else Some (CRCMismatch ?crc (be_get v)), m2)"
    if "msg_wf m2" "msg_Type m2 = msg_Type m" "msg_TransactionID m2 = msg_TransactionID m" "length v = 4"
      "msg_Attributes m2 = msg_Attributes m @ [mk_attr AttrFingerprint v]" for m2 v
    using Fingerprint_Check_eq [OF that(1,5)] that assms(3) by (simp add: fingerprintSize_def signed_prefix_def)
  have "Fingerprint_Check m' = Ret (None, m')"
    using check [OF m'(2-4) _ m'(5)] by simp
  moreover have "be_get v = ChecksumIEEE (signed_prefix m (msg_Attributes m) 8) XOR fingerprintXORValue"
    if "msg_wf m2" "msg_Type m2 = msg_Type m" "msg_TransactionID m2 = msg_TransactionID m" "length v = 4"
      "msg_Attributes m2 = msg_Attributes m @ [mk_attr AttrFingerprint v]"
      "Fingerprint_Check m2 = Ret (None, m2)" for m2 v
    using check [OF that(1-5)] that(6) by (simp add: FingerprintValue_def split: if_splits)
  ultimately show ?thesis using m'(1,2) by blast
qed

theorem fingerprint_add_then_check_witness:
  "\<exists>m'. Fingerprint_AddTo sample_msg = Ret (None, m') \<and> Fingerprint_Check m' = Ret (None, m')"
  using fingerprint_add_then_check [of sample_msg] by auto

text \<open>
  The order of the two setters is enforced: \<open>MessageIntegrity.AddTo\<close> refuses a message
  that has a fingerprint, with \<open>ErrFingerprintBeforeIntegrity\<close>, and does not touch it.
\<close>

theorem integrity_refused_after_fingerprint:
  assumes "Message_Contains m AttrFingerprint"
  shows "MessageIntegrity_AddTo secret m = Ret (Some ErrFingerprintBeforeIntegrity, m)"
  using assms by (simp add: MessageIntegrity_AddTo_def has_fingerprint_iff Message_Contains_iff)

theorem integrity_refused_after_fingerprint_witness:
  "MessageIntegrity_AddTo [1] (sample_msg\<lparr>msg_Attributes := [mk_attr AttrFingerprint [0, 0, 0, 0]]\<rparr>) =
     Ret (Some ErrFingerprintBeforeIntegrity, sample_msg\<lparr>msg_Attributes := [mk_attr AttrFingerprint [0, 0, 0, 0]]\<rparr>)"
  using integrity_refused_after_fingerprint
    [of "sample_msg\<lparr>msg_Attributes := [mk_attr AttrFingerprint [0, 0, 0, 0]]\<rparr>" "[1]"]
  by (simp add: Message_Contains_iff)

section \<open>Attributes\<close>

text \<open>
  C8. XOR-MAPPED-ADDRESS over the wire: an IPv4 or IPv6 address added to a message, encoded,
  and decoded by a receiver comes back as the same address (an IPv4-mapped one as its four
  bytes) and port, whatever the receiver held and whatever bytes follow in its buffer.
\<close>

theorem xor_address_wire_roundtrip:
  assumes "msg_wf m" and "valid_MessageType (msg_Type m)" and "\<not> Message_Contains m AttrXORMappedAddress"
    and "length (addr_IP a) = 4 \<or> length (addr_IP a) = 16" and "0 \<le> addr_Port a" and "addr_Port a < 65536"
    and "fits m 20"
  shows "\<exists>m'. XORMappedAddress_AddTo a m = Ret (None, m') \<and>
    (\<forall>r. msg_Raw r = msg_Raw m' \<longrightarrow>
       (\<exists>r'. Message_Decode r = Ret (None, r') \<and>
          XORMappedAddress_GetFrom past a0 r' =
            Ret (None, \<lparr>addr_IP = wire_ip (addr_IP a), addr_Port = addr_Port a\<rparr>)))"
proof -
  have valid: "valid_addr a" using assms(4) by (auto simp: valid_addr_def IPv4len_def IPv6len_def)
  have "length (xor_encode (msg_TransactionID m) a) \<le> 20"
    using length_wire_ip [OF valid] by (auto simp: xor_encode_def)
  then have "fits m (length (xor_encode (msg_TransactionID m) a))"
    using assms(7) by (rule fits_mono [rotated])
  from xor_mapped_addr.wire_roundtrip [OF assms(1-3) valid _ this, of past a0] show ?thesis
    using assms(5,6) by (simp add: wire_addr_def)
qed

theorem xor_address_wire_roundtrip_witness:
  "\<exists>m'. XORMappedAddress_AddTo \<lparr>addr_IP = [192, 0, 2, 1], addr_Port = 32853\<rparr> sample_msg = Ret (None, m') \<and>
    (\<forall>r. msg_Raw r = msg_Raw m' \<longrightarrow>
       (\<exists>r'. Message_Decode r = Ret (None, r') \<and>
          XORMappedAddress_GetFrom [] \<lparr>addr_IP = [], addr_Port = 0\<rparr> r' =
            Ret (None, \<lparr>addr_IP = [192, 0, 2, 1], addr_Port = 32853\<rparr>)))"
  using xor_address_wire_roundtrip [of sample_msg "\<lparr>addr_IP = [192, 0, 2, 1], addr_Port = 32853\<rparr>" "[]"
      "\<lparr>addr_IP = [], addr_Port = 0\<rparr>"]
  by (simp add: wire_ip_def IPv6len_def)

text \<open>
  C9. The word-wise XOR loop of \<open>fastXORBytes\<close> computes what the byte-wise \<open>safeXORBytes\<close> does,
  for every length and every tail, whenever the destination is long enough.
\<close>

theorem fast_xor_is_safe_xor:
  assumes "min (length a) (length b) \<le> length dst"
  shows "fastXORBytes dst a b = safeXORBytes dst a b \<and>
    safeXORBytes dst a b = Ret (min (length a) (length b), map2 (XOR) a b @ drop (min (length a) (length b)) dst)"
  using fastXORBytes_eq [OF assms] safeXORBytes_eq [OF assms] by simp

theorem fast_xor_is_safe_xor_witness:
  "fastXORBytes (replicate 9 0) [1, 2, 3, 4, 5, 6, 7, 8, 9] [1, 1, 1, 1, 1, 1, 1, 1, 1, 1] =
     Ret (9, [0, 3, 2, 5, 4, 7, 6, 9, 8])"
  using fast_xor_is_safe_xor [of "[1, 2, 3, 4, 5, 6, 7, 8, 9]" "[1, 1, 1, 1, 1, 1, 1, 1, 1, 1]" "replicate 9 0"]
  by simp

text \<open>
  C10. ERROR-CODE over the wire: a code below 25600 with a reason of at most 759 bytes comes
  back unchanged.
\<close>

theorem error_code_wire_roundtrip:
  assumes "msg_wf m" and "valid_MessageType (msg_Type m)" and "\<not> Message_Contains m AttrErrorCode"
    and "0 \<le> ec_Code c" and "ec_Code c < 25600" and "length (ec_Reason c) \<le> 759"
    and "fits m (4 + length (ec_Reason c))"
  shows "\<exists>m'. ErrorCodeAttribute_AddTo c m = Ret (None, m') \<and>
    (\<forall>r. msg_Raw r = msg_Raw m' \<longrightarrow>
       (\<exists>r'. Message_Decode r = Ret (None, r') \<and> ErrorCodeAttribute_GetFrom c0 r' = Ret (None, c)))"
  using error_code.wire_roundtrip [OF assms(1-3), of c c0] assms(4-7)
  by (simp add: valid_error_code_def length_error_code_encode)

theorem error_code_wire_roundtrip_witness:
  "\<exists>m'. ErrorCodeAttribute_AddTo \<lparr>ec_Code = 401, ec_Reason = [85, 110]\<rparr> sample_msg = Ret (None, m') \<and>
    (\<forall>r. msg_Raw r = msg_Raw m' \<longrightarrow>
       (\<exists>r'. Message_Decode r = Ret (None, r') \<and>
          ErrorCodeAttribute_GetFrom \<lparr>ec_Code = 0, ec_Reason = []\<rparr> r' =
            Ret (None, \<lparr>ec_Code = 401, ec_Reason = [85, 110]\<rparr>)))"
  using error_code_wire_roundtrip [of sample_msg "\<lparr>ec_Code = 401, ec_Reason = [85, 110]\<rparr>"
      "\<lparr>ec_Code = 0, ec_Reason = []\<rparr>"]
  by simp

text \<open>
  \<open>ErrorCodeAttribute.AddTo\<close> panics for the reasons of 760 to 763 bytes, which its length
  check lets pass and its buffer does not hold, and for no other input.
\<close>

theorem error_code_panics_iff:
  "ErrorCodeAttribute_AddTo c m = Panic SliceOutOfRange \<longleftrightarrow> length (ec_Reason c) \<in> {760..763}"
  using ErrorCodeAttribute_AddTo_panics [of c m] by auto

section \<open>TURN\<close>

text \<open>
  C11. ChannelData: a channel number of 0x4000 to 0x7fff with up to 65531 bytes of data, written
  by \<open>AddTo\<close>, is recognised by \<open>Message.Decode\<close> as channel data and read back by \<open>GetFrom\<close>
  with number and data unchanged; a number outside the range is refused.
\<close>

theorem channel_data_roundtrip:
  assumes "mt_Method (msg_Type m) = MethodChannelData" and "length (cd_Data c) \<le> 65531"
  shows "if 0x4000 \<le> cd_ChannelNumber c \<and> cd_ChannelNumber c \<le> 0x7fff
    then \<exists>m'. ChannelData_AddTo c m = Ret (None, m') \<and>
      (\<exists>r'. Message_Decode (zero_Message\<lparr>msg_Raw := msg_Raw m'\<rparr>) = Ret (None, r') \<and>
         ChannelData_GetFrom str c0 r' = (None, c))
    else ChannelData_AddTo c m = Ret (Some (bad_channel (cd_ChannelNumber c)), m)"
proof (cases "0x4000 \<le> cd_ChannelNumber c \<and> cd_ChannelNumber c \<le> 0x7fff")
  case True
  then have valid: "valid_channel_data c"
    using assms(2) by (simp add: valid_channel_data_def MinChannelNumber_def MaxChannelNumber_def)
  let ?r = "zero_Message\<lparr>msg_Raw := channel_data_encode c\<rparr>"
  have "Message_Decode ?r = Ret (None,
      ?r\<lparr>msg_Type := \<lparr>mt_Method = MethodChannelData, mt_Class = ClassSuccessResponse\<rparr>\<rparr>)"
    by (rule Message_Decode_channel_data [OF valid]) simp
  moreover have "ChannelData_GetFrom str c0
      (?r\<lparr>msg_Type := \<lparr>mt_Method = MethodChannelData, mt_Class = ClassSuccessResponse\<rparr>\<rparr>) = (None, c)"
    by (rule ChannelData_GetFrom_encode [OF valid]) simp_all
  ultimately show ?thesis
    using True ChannelData_AddTo_eq [OF valid assms(1)] by auto
next
  case False
  then show ?thesis
    using assms(1) by (auto simp: ChannelData_AddTo_def MinChannelNumber_def MaxChannelNumber_def)
qed

theorem channel_data_roundtrip_witness:
  "\<exists>m'. ChannelData_AddTo \<lparr>cd_ChannelNumber = 0x4001, cd_Data = [1, 2, 3]\<rparr>
        (sample_msg\<lparr>msg_Type := ChannelDataRequest\<rparr>) = Ret (None, m') \<and>
     (\<exists>r'. Message_Decode (zero_Message\<lparr>msg_Raw := msg_Raw m'\<rparr>) = Ret (None, r') \<and>
        ChannelData_GetFrom (\<lambda>_. []) \<lparr>cd_ChannelNumber = 0, cd_Data = []\<rparr> r' =
          (None, \<lparr>cd_ChannelNumber = 0x4001, cd_Data = [1, 2, 3]\<rparr>))"
  using channel_data_roundtrip [of "sample_msg\<lparr>msg_Type := ChannelDataRequest\<rparr>"
      "\<lparr>cd_ChannelNumber = 0x4001, cd_Data = [1, 2, 3]\<rparr>" "\<lambda>_. []" "\<lparr>cd_ChannelNumber = 0, cd_Data = []\<rparr>"]
  by (simp add: ChannelDataRequest_def NewType_def)

text \<open>
  LIFETIME over the wire: every whole number of seconds below \<open>2^32\<close> comes back unchanged,
  through the double-precision \<open>Duration.Seconds\<close> and without overflow of the nanoseconds.
\<close>

theorem lifetime_wire_roundtrip:
  assumes "msg_wf m" and "valid_MessageType (msg_Type m)" and "\<not> Message_Contains m AttrLifetime"
    and "0 \<le> s" and "s < 2 ^ 32" and "fits m 4"
  shows "\<exists>m'. Lifetime_AddTo (time_Second * s) m = Ret (None, m') \<and>
    (\<forall>r. msg_Raw r = msg_Raw m' \<longrightarrow>
       (\<exists>r'. Message_Decode r = Ret (None, r') \<and> Lifetime_GetFrom l0 r' = Ret (None, time_Second * s)))"
  using lifetime.wire_roundtrip [OF assms(1-3), of "time_Second * s" l0] assms(6)
    lifetime_seconds_whole [OF assms(4,5)]
  by simp

theorem lifetime_wire_roundtrip_witness:
  "\<exists>m'. Lifetime_AddTo (time_Second * 600) sample_msg = Ret (None, m') \<and>
    (\<forall>r. msg_Raw r = msg_Raw m' \<longrightarrow>
       (\<exists>r'. Message_Decode r = Ret (None, r') \<and> Lifetime_GetFrom 0 r' = Ret (None, time_Second * 600)))"
  using lifetime_wire_roundtrip [of sample_msg 600 0] by simp

text \<open>
  EVEN-PORT: \<open>GetFrom\<close> into a receiver whose \<open>ReservePort\<close> is already true reports true for
  every attribute it accepts, also for one that says false.
\<close>

theorem even_port_flag_is_never_cleared:
  assumes "Message_Get m AttrEvenPort = Inr (even_port_encode q)" and "ReservePort p"
  shows "EvenPort_GetFrom p m = Ret (None, p)"
  by (rule EvenPort_GetFrom_sticky [OF assms])

theorem even_port_flag_is_never_cleared_witness:
  "EvenPort_GetFrom \<lparr>ReservePort = True\<rparr> (sample_msg\<lparr>msg_Attributes := [mk_attr AttrEvenPort [0]]\<rparr>) =
     Ret (None, \<lparr>ReservePort = True\<rparr>)"
  using even_port_flag_is_never_cleared [of "sample_msg\<lparr>msg_Attributes := [mk_attr AttrEvenPort [0]]\<rparr>"
      "\<lparr>ReservePort = False\<rparr>" "\<lparr>ReservePort = True\<rparr>"]
  by (simp add: Message_Get_def even_port_encode_def)

section \<open>Transactions\<close>

text \<open>
  C12. The agent loses no handler and calls none twice: in every run of a new agent, in any
  interleaving of its operations, the transactions successfully started are, as a multiset,
  those whose handler was called plus those still registered.
\<close>

theorem agent_accounts_for_every_handler:
  assumes "path agent_step (NewAgent h) ls a"
  shows "\<Sum>\<^sub># (mset (map label_started ls)) = agent_pending a + \<Sum>\<^sub># (mset (map label_completed ls))"
proof -
  have "agent_inv (NewAgent h)" "agent_pending (NewAgent h) = {#}"
    by (simp_all add: agent_inv_def NewAgent_def agent_pending_def)
  with agent_table.path_balance [OF assms] show ?thesis by simp
qed

theorem agent_accounts_for_every_handler_witness:
  "\<Sum>\<^sub># (mset (map label_started
       [\<lparr>lb_op = OpStart sample_tid 5 (Some (1::nat)), lb_result = None, lb_calls = []\<rparr>])) =
   agent_pending (snd (Agent_Start sample_tid 5 (Some (1::nat)) (NewAgent None))) + {#}"
proof -
  have "path agent_step (NewAgent None)
      ([] @ [\<lparr>lb_op = OpStart sample_tid 5 (Some (1::nat)), lb_result = None, lb_calls = []\<rparr>])
      (snd (Agent_Start sample_tid 5 (Some (1::nat)) (NewAgent None)))"
    by (rule path_snoc [OF path_Nil], rule step_Start) (simp add: Agent_Start_def NewAgent_def)
  from agent_accounts_for_every_handler [OF this] show ?thesis
    by (simp add: label_completed_def)
qed

text \<open>
  C13. After \<open>Close\<close> nothing is left: once a run has closed the agent, every transaction ever
  started had its handler called exactly once, no transaction is registered, and every
  further operation returns \<open>ErrAgentClosed\<close> and calls nobody.
\<close>

theorem agent_closed_has_completed_all:
  assumes "path agent_step (NewAgent h) ls a" and "closed a"
  shows "\<Sum>\<^sub># (mset (map label_completed ls)) = \<Sum>\<^sub># (mset (map label_started ls)) \<and>
    transactions a = Map.empty \<and> Agent_Start tid d g a = (Some ErrAgentClosed, a) \<and>
    Agent_StopWithError tid e a = Ret (Some ErrAgentClosed, [], a) \<and>
    Agent_Process m a = Ret (Some ErrAgentClosed, [], a) \<and>
    Agent_Collect v t a = Ret (Some ErrAgentClosed, [], a) \<and>
    Agent_Close v a = Ret (Some ErrAgentClosed, [], a)"
proof -
  have init: "agent_inv (NewAgent h)" "agent_pending (NewAgent h) = {#}"
    by (simp_all add: agent_inv_def NewAgent_def agent_pending_def)
  have "transactions a = Map.empty"
    using agent_table.path_inv [OF assms(1) init(1)] assms(2) by (simp add: agent_inv_def)
  then show ?thesis
    using agent_table.path_balance [OF assms(1) init(1)] init(2) assms(2)
    by (simp add: agent_pending_def Agent_Start_def Agent_StopWithError_def Agent_Process_def
        Agent_Collect_def Agent_Close_def)
qed

theorem agent_closed_has_completed_all_witness:
  "Agent_Process sample_msg ((NewAgent (None :: nat option))\<lparr>closed := True\<rparr>) =
     Ret (Some ErrAgentClosed, [], (NewAgent None)\<lparr>closed := True\<rparr>)"
proof -
  let ?a = "(NewAgent (None :: nat option))\<lparr>closed := True\<rparr>"
  have "path agent_step (NewAgent None) ([] @ [\<lparr>lb_op = OpClose, lb_result = None, lb_calls = []\<rparr>]) ?a"
    by (rule path_snoc [OF path_Nil], rule step_Close [of "[]"])
      (simp_all add: Agent_Close_def NewAgent_def visits_def)
  from agent_closed_has_completed_all [OF this] show ?thesis by simp
qed

text \<open>
  C14. \<open>Agent.Collect\<close> times out exactly the transactions whose deadline lies before the given
  time: each of their handlers is called with \<open>ErrTransactionTimeOut\<close>, and exactly the other
  transactions stay registered, unchanged.
\<close>

theorem collect_times_out_exactly_the_late:
  assumes "visits v a" and "\<not> closed a" and "Agent_Collect v t a = Ret (r, cs, a')"
  shows "r = None \<and>
    (\<forall>tid. transactions a' tid =
       (case transactions a tid of
          None \<Rightarrow> None | Some x \<Rightarrow> if at_deadline x < t then None else Some x)) \<and>
    calls_transactions cs = mset [(tid, at_h x). (tid, x) \<leftarrow> v, at_deadline x < t] \<and>
    (\<forall>c\<in>set cs. \<exists>tid h. c = TransactionCall tid h \<lparr>ev_Message = None, ev_Error = Some ErrTransactionTimeOut\<rparr>)"
  by (rule Agent_Collect_exact [OF assms])

theorem collect_times_out_exactly_the_late_witness:
  "\<exists>r cs a'. Agent_Collect [(sample_tid, \<lparr>at_id = sample_tid, at_deadline = 5, at_h = Some (1::nat)\<rparr>)] 6
       (snd (Agent_Start sample_tid 5 (Some (1::nat)) (NewAgent None))) = Ret (r, cs, a') \<and>
     transactions a' sample_tid = None"
proof -
  let ?a = "snd (Agent_Start sample_tid 5 (Some (1::nat)) (NewAgent None))"
  let ?v = "[(sample_tid, \<lparr>at_id = sample_tid, at_deadline = 5, at_h = Some (1::nat)\<rparr>)]"
  have v: "visits ?v ?a" "\<not> closed ?a" "transactions ?a sample_tid = Some (snd (hd ?v))"
    by (simp_all add: visits_def Agent_Start_def NewAgent_def)
  obtain r cs a' where c: "Agent_Collect ?v 6 ?a = Ret (r, cs, a')"
    using v(2) by (simp add: Agent_Collect_def HandleEvent_def)
  have "transactions a' sample_tid = None"
    using collect_times_out_exactly_the_late [OF v(1,2) c] v(3) by simp
  with c show ?thesis by blast
qed

text \<open>
  \<open>Agent.Process\<close> delivers a message to the handler of its transaction, once, and
  unregisters the transaction; a message of no transaction goes to the default handler if
  there is one and to nobody otherwise. Other transactions are untouched.
\<close>

theorem process_delivers_once:
  assumes "\<not> closed a" and "\<And>x. transactions a (msg_TransactionID m) = Some x \<Longrightarrow> at_h x \<noteq> None"
  shows "\<exists>a'. Agent_Process m a = Ret (None,
      (let e = \<lparr>ev_Message = Some m, ev_Error = None\<rparr>
       in case transactions a (msg_TransactionID m) of
            Some x \<Rightarrow> [TransactionCall (msg_TransactionID m) (the (at_h x)) e]
          | None \<Rightarrow> (case zeroHandler a of Some h \<Rightarrow> [DefaultCall h e] | None \<Rightarrow> [])), a') \<and>
    transactions a' = (transactions a)(msg_TransactionID m := None) \<and> \<not> closed a'"
  using assms
  by (cases "transactions a (msg_TransactionID m)")
    (auto simp: Agent_Process_def Let_def HandleEvent_def split: option.splits)

theorem process_delivers_once_witness:
  "\<exists>a'. Agent_Process sample_msg (snd (Agent_Start sample_tid 5 (Some (1::nat)) (NewAgent None))) = Ret (None,
      [TransactionCall sample_tid 1 \<lparr>ev_Message = Some sample_msg, ev_Error = None\<rparr>], a') \<and> transactions a' sample_tid = None"
  using process_delivers_once [of "snd (Agent_Start sample_tid 5 (Some (1::nat)) (NewAgent None))" sample_msg]
  by (auto simp: Agent_Start_def NewAgent_def)

text \<open>
  \<open>Client.Start\<close> whose write fails: the new transaction is taken out again and its handler
  is called once, with \<open>ErrTransactionStopped\<close>; the error of the write is returned.
\<close>

theorem client_start_failed_write_stops:
  assumes "\<not> cl_closed c" and "\<not> closed (cl_a c)" and "transactions (cl_a c) (msg_TransactionID m) = None"
    and "snd (w (msg_Raw m)) = Some e"
  shows "Client_Start w (\<lambda>a. ([], a)) m d (Some h) c = Ret (Some (ClientErr e),
    [TransactionCall (msg_TransactionID m) h \<lparr>ev_Message = None, ev_Error = Some ErrTransactionStopped\<rparr>], c)"
  using assms
  by (cases "w (msg_Raw m)")
    (simp add: Client_Start_def Agent_Start_def Message_WriteTo_def Agent_Stop_def Agent_StopWithError_def
      HandleEvent_def Let_def fun_upd_idem)

theorem client_start_failed_write_stops_witness:
  "\<exists>c. NewClient True None 0 = Inr c \<and>
     Client_Start (\<lambda>b. (0, Some EOF)) (\<lambda>a. ([], a)) sample_msg 9 (Some (1::nat)) c = Ret (Some (ClientErr EOF),
       [TransactionCall sample_tid 1 \<lparr>ev_Message = None, ev_Error = Some ErrTransactionStopped\<rparr>], c)"
  using client_start_failed_write_stops [of "\<lparr>cl_a = NewAgent None, cl_closed = False, cl_gcRate = defaultTimeoutRate\<rparr>"
      sample_msg "\<lambda>b. (0, Some EOF)" EOF 9 "1::nat"]
  by (auto simp: NewClient_def NewAgent_def)

text \<open>A packet with the sample message, read into a buffer with room for it.\<close>

abbreviation sample_reader :: reader where
  "sample_reader \<equiv> \<lambda>n. (enc_header BindingRequest 0 sample_tid, None)"

lemma sample_read:
  assumes "20 \<le> Message_cap m"
  obtains res where "Message_ReadFrom sample_reader m = Ret (20, None, res)" "msg_TransactionID res = sample_tid"
    "Message_cap res = Message_cap m"
proof -
  let ?d = "enc_header BindingRequest 0 sample_tid"
  have len: "length ?d = 20" using msg_wf_length_Raw [OF sample_msg_wf] by (simp add: size_defs)
  let ?r = "m\<lparr>msg_Raw := ?d, msg_Spare := drop 20 (msg_Raw m @ msg_Spare m)\<rparr>"
  note dec = Message_Decode_wf [OF sample_msg_wf, of ?r]
  have "Message_ReadFrom sample_reader m = go_map (\<lambda>(e, m'). (20, e, m')) (Message_Decode ?r)"
    using len assms by (simp add: Message_ReadFrom_def put_at_def Let_def)
  with dec show ?thesis using that len assms by (auto simp: Message_cap_def)
qed

text \<open>
  C15. The reading goroutine of the client gives the agent exactly what it received. Whatever
  other goroutines do to the agent while it reads, what it does is a run of the agent, in
  which its own steps are one \<open>Process\<close> for each message that was read without an error, in
  order, the calls it makes are those of these steps, and a message that is not read
  correctly is skipped. It stops after the first \<open>Process\<close> that finds the agent closed and has then
  returned; otherwise it has processed every message, and has returned exactly if it found
  the client closed.
\<close>

theorem client_reader_refines_agent:
  assumes "readUntilClosed rs m a = Ret (ret, cs, a')"
    and "\<forall>r other a. Some (r, other) \<in> set rs \<longrightarrow> (\<exists>ls. path agent_step a ls (other a))"
  shows "\<exists>ls own. path agent_step a (map snd ls) a' \<and> own = map snd (filter fst ls) \<and> concat (map lb_calls own) = cs \<and>
    map lb_op own = map OpProcess (take (length own) (received rs m)) \<and>
    (\<forall>l\<in>set (butlast own). lb_result l \<noteq> Some ErrAgentClosed) \<and>
    (if own \<noteq> [] \<and> lb_result (last own) = Some ErrAgentClosed then ret
     else length own = length (received rs m) \<and> (ret \<longleftrightarrow> None \<in> set rs))"
  using readUntilClosed_refines [OF assms(1)] assms(2) by (auto simp: processes_def own_steps_def)

text \<open>
  Four reads of an agent that waits for one answer: an error; the answer; the same packet
  again after another goroutine has closed the agent; and one that is not taken any more.
\<close>

theorem client_reader_refines_agent_witness:
  "\<exists>a' cs (own :: nat label list) m1 m2 m3. readUntilClosed [Some (\<lambda>n. ([], Some EOF), \<lambda>a. a), Some (sample_reader, \<lambda>a. a),
        Some (sample_reader, \<lambda>a. if transactions a = Map.empty \<and> \<not> closed a then a\<lparr>closed := True, zeroHandler := None\<rparr> else a),
        Some (sample_reader, \<lambda>a. a)] (zero_Message\<lparr>msg_Raw := replicate 1024 0\<rparr>)
        (snd (Agent_Start sample_tid 5 (Some (1 :: nat)) (NewAgent None))) = Ret (True, cs, a') \<and>
     concat (map lb_calls own) = cs \<and> length cs = 1 \<and> own \<noteq> [] \<and> lb_result (last own) = Some ErrAgentClosed \<and>
     map lb_op own = map OpProcess (take (length own) [m1, m2, m3])"
proof -
  let ?m = "zero_Message\<lparr>msg_Raw := replicate 1024 0\<rparr>" and ?a = "snd (Agent_Start sample_tid 5 (Some (1 :: nat)) (NewAgent None))"
  let ?close = "\<lambda>a :: nat Agent. if transactions a = Map.empty \<and> \<not> closed a then a\<lparr>closed := True, zeroHandler := None\<rparr> else a"
  let ?rs = "[Some (\<lambda>n. ([], Some EOF), \<lambda>a. a), Some (sample_reader, \<lambda>a. a), Some (sample_reader, ?close), Some (sample_reader, \<lambda>a. a)]"
  have cap: "Message_cap ?m = 1024" by (simp add: Message_cap_def zero_Message_def)
  have r0: "Message_ReadFrom (\<lambda>n. ([], Some EOF)) ?m = Ret (0, Some EOF, ?m)"
    by (simp add: Message_ReadFrom_def put_at_def Let_def zero_Message_def)
  obtain m1 where m1: "Message_ReadFrom sample_reader ?m = Ret (20, None, m1)" "msg_TransactionID m1 = sample_tid" "Message_cap m1 = 1024"
    using sample_read [of ?m] cap by auto
  obtain m2 where m2: "Message_ReadFrom sample_reader m1 = Ret (20, None, m2)" "Message_cap m2 = 1024" using sample_read [of m1] m1(3) by auto
  obtain m3 where m3: "Message_ReadFrom sample_reader m2 = Ret (20, None, m3)" using sample_read [of m2] m2(2) by auto
  let ?c = "[TransactionCall sample_tid (1 :: nat) \<lparr>ev_Message = Some m1, ev_Error = None\<rparr>]"
  have run: "readUntilClosed ?rs ?m ?a = Ret (True, ?c, \<lparr>transactions = Map.empty, closed = True, zeroHandler = None\<rparr>)"
    using r0 m1 m2 by (simp add: Agent_Start_def NewAgent_def Agent_Process_def HandleEvent_def)
  have close: "\<exists>ls. path agent_step a ls (?close a)" for a
  proof (cases "transactions a = Map.empty \<and> \<not> closed a")
    case True
    then have "visits [] a" "Agent_Close [] a = Ret (None, [], a\<lparr>closed := True, zeroHandler := None\<rparr>)"
      by (simp_all add: visits_def Agent_Close_def)
    from path_one [where step = agent_step, OF step_Close [OF this]] show ?thesis using True by auto
  qed (auto intro: path_Nil)
  have env: "\<forall>r other a. Some (r, other) \<in> set ?rs \<longrightarrow> (\<exists>ls. path agent_step a ls (other a))"
    using close path_Nil by fastforce
  have recv: "received ?rs ?m = [m1, m2, m3]" using r0 m1 m2 m3 by simp
  define rs where "rs = ?rs"
  obtain own :: "nat label list" where own: "concat (map lb_calls own) = ?c" "map lb_op own = map OpProcess (take (length own) (received rs ?m))"
      "if own \<noteq> [] \<and> lb_result (last own) = Some ErrAgentClosed then True
       else length own = length (received rs ?m) \<and> (True \<longleftrightarrow> None \<in> set rs)"
    using client_reader_refines_agent [OF run [folded rs_def] env [folded rs_def]] by blast
  have "None \<notin> set rs" by (simp add: rs_def)
  then have "own \<noteq> [] \<and> lb_result (last own) = Some ErrAgentClosed" using own(3) by presburger
  moreover have "map lb_op own = map OpProcess (take (length own) [m1, m2, m3])" using own(2) recv by (simp add: rs_def)
  moreover have "length ?c = 1" by simp
  ultimately show ?thesis using run own(1) by blast
qed

section \<open>ICE candidates and check lists\<close>

definition sample_host :: Candidate where
  "sample_host = zero_Candidate\<lparr>cd_addr := ''10.0.0.1:5000'', baseAddr := ''10.0.0.1:5000'', transport := TransportUDP,
     Foundation := 1, ComponentID := 1, Priority := 2130706431, cd_Type := CandidateHost\<rparr>"

definition sample_remote :: Candidate where
  "sample_remote = zero_Candidate\<lparr>cd_addr := ''10.0.0.2:6000'', transport := TransportUDP,
     Foundation := 2, ComponentID := 1, Priority := 1694498815, cd_Type := CandidateServerReflexive\<rparr>"

definition sample_sd :: sessionDescription where
  "sample_sd = \<lparr>sd_user = ''bob'', sd_password = ''secret'', sd_defaultPort = 6000, sd_defaultIP = ''10.0.0.2'',
     sd_candidates = [sample_remote], sd_defautCandidate = Some 0\<rparr>"

abbreviation sample_session :: session where
  "sample_session \<equiv> newIceSession SessionRoleControlling [sample_host] ''alice'' ''pw'' 7"

lemma sample_session_new [simp]: "checkList sample_session = []"
  by (simp add: newIceSession_def)

lemma sample_createCheckList: "\<exists>s. createCheckList sample_sd sample_session = (None, s)"
  by (simp add: createCheckList_def sample_sd_def maxCandidates_def newIceSession_def new_cand_def new_check_def
      sample_remote_def zero_Candidate_def Let_def)


definition sample_v6 :: Candidate where
  "sample_v6 = sample_host\<lparr>cd_addr := ''[::1]:80''\<rparr>"


text \<open>
  The priority of a candidate is the formula of RFC 5245, without overflow, for every local
  preference of 16 bits and component of 1 to 256: 2^24 times the type preference plus 2^8
  times the local preference plus 256 minus the component; so it is a positive 31-bit number.
\<close>

theorem candidate_priority_formula:
  assumes "0 \<le> lp" and "lp < 65536" and "1 \<le> cid" and "cid \<le> 256"
  shows "calcCandidatePriority t lp cid = 2 ^ 24 * type_preference t + 2 ^ 8 * lp + (256 - cid) \<and>
    0 \<le> calcCandidatePriority t lp cid \<and> calcCandidatePriority t lp cid < 2 ^ 31"
  using calcCandidatePriority_eq [OF assms, of t] type_preference_bounds [of t] assms by simp_all

theorem candidate_priority_formula_witness:
  "calcCandidatePriority CandidateHost 65535 1 = 2130706431 \<and> calcCandidatePriority CandidateRelay 65535 1 < 2 ^ 31"
  using candidate_priority_formula [of 65535 1 CandidateHost] candidate_priority_formula [of 65535 1 CandidateRelay]
  by simp

text \<open>
  C17. Both agents give a pair the same priority, whichever of them is controlling; and for
  candidate priorities below 2^31 it is the formula of RFC 5245 in full, with no carry lost.
\<close>

theorem pair_priority_formula:
  assumes "0 \<le> Priority l" and "Priority l < 2 ^ 31" and "0 \<le> Priority r" and "Priority r < 2 ^ 31"
  shows "uint (calcPairPriority SessionRoleControlling l r) =
      2 ^ 32 * min (Priority l) (Priority r) + 2 * max (Priority l) (Priority r) +
      (if Priority l > Priority r then 1 else 0) \<and>
    calcPairPriority SessionRoleControlled r l = calcPairPriority SessionRoleControlling l r"
  using calcPairPriority_eq [of SessionRoleControlling l r "Priority l" "Priority r"] assms
  by (simp_all add: pair_priorities_def calcPairPriority_agree)

theorem pair_priority_formula_witness:
  "uint (calcPairPriority SessionRoleControlling sample_host sample_remote) =
     2 ^ 32 * 1694498815 + 2 * 2130706431 + 1"
  using pair_priority_formula [of sample_host sample_remote]
  by (simp add: sample_host_def sample_remote_def zero_Candidate_def)

text \<open>
  C18. The check list that \<open>createCheckList\<close> makes, when it makes one, is in the order of the
  pair priorities, has no two checks with the same pruning key, leaves no pair out (each pair
  of a local and a remote candidate is covered by a check with its key and at least its
  priority), and all its checks are frozen.
\<close>

theorem check_list_sorted_pruned_complete:
  assumes "createCheckList sd s = (None, s')" and "checkList s = []"
  shows "sorted_wrt (\<lambda>c d. priority (the_check s' d) \<le> priority (the_check s' c)) (checkList s') \<and>
    distinct (map (\<lambda>c. prune_key (cands s') (the_check s' c)) (checkList s')) \<and>
    (\<forall>l r. l \<in> set (localCandidates s') \<and> r \<in> set (remoteCandidates s') \<longrightarrow>
       (\<exists>c\<in>set (checkList s'). covers s' c l r)) \<and>
    (\<forall>c\<in>set (checkList s'). state (the_check s' c) = checkStateFrozen)"
  using createCheckList_spec [OF assms] by blast

theorem check_list_sorted_pruned_complete_witness:
  "\<exists>s'. createCheckList sample_sd sample_session = (None, s') \<and>
    sorted_wrt (\<lambda>c d. priority (the_check s' d) \<le> priority (the_check s' c)) (checkList s') \<and>
    (\<forall>c\<in>set (checkList s'). state (the_check s' c) = checkStateFrozen)"
  using sample_createCheckList check_list_sorted_pruned_complete [OF _ sample_session_new] by blast

section \<open>The ICE session over every run\<close>

text \<open>
  C19. In every state a session can reach, by any sequence of messages, timeouts, goroutine steps
  and calls of the transport: \<open>nominatedCheck\<close> is a check of the valid list that has succeeded
  and has the highest priority of the nominated ones; \<open>validCheck\<close> has the highest priority of
  all valid checks; and every check that a running goroutine or a pending transaction refers
  to is on the check list.
\<close>

theorem session_selects_best_pair:
  assumes "path session_step (newIceSession r ls frag pwd tie) evs s"
  shows "(\<forall>d. nominatedCheck s = Some d \<longrightarrow> d \<in> set (validCheckList s) \<and> state (the_check s d) = checkStateSucced \<and>
      (\<forall>v\<in>set (validCheckList s). nominated (the_check s v) \<longrightarrow> priority (the_check s v) \<le> priority (the_check s d))) \<and>
    (\<forall>v\<in>set (validCheckList s). \<exists>d\<in>set (validCheckList s). validCheck s = Some d \<and>
      priority (the_check s v) \<le> priority (the_check s d)) \<and>
    (\<forall>c b. GoOnecheck c b \<in> set (out s) \<longrightarrow> c \<in> set (checkList s)) \<and> ran (msg2Check s) \<subseteq> set (checkList s)"
proof -
  have inv: "session_inv s" using ice.path_inv [OF assms] newIceSession_inv by blast
  then show ?thesis
    using session_inv_nominated [OF inv] session_inv_valid [OF inv] session_invD(1) [OF inv]
    unfolding refs_ok_def by blast
qed

lemma sample_path: "\<exists>s. path session_step sample_session [CreateCheckList sample_sd] s"
  using sample_createCheckList step_CreateCheckList path_one by (metis sample_session_new)

theorem session_selects_best_pair_witness:
  "\<exists>s. path session_step sample_session [CreateCheckList sample_sd] s \<and>
    (\<forall>v\<in>set (validCheckList s). \<exists>d\<in>set (validCheckList s). validCheck s = Some d \<and>
      priority (the_check s v) \<le> priority (the_check s d)) \<and> ran (msg2Check s) \<subseteq> set (checkList s)"
  using sample_path session_selects_best_pair by blast

text \<open>
  C20. A session only moves forward: from any reachable state on, over any run, the result of the
  session and the state of every check only increase, no check changes its pair or leaves the
  check list, and a nomination is only ever replaced by one of at least its priority.
\<close>

theorem session_only_moves_forward:
  assumes "path session_step (newIceSession r ls frag pwd tie) evs s" and "path session_step s evs' s'"
  shows "completeResult s \<le> completeResult s' \<and>
    (\<forall>c<length (checks s). state (the_check s c) \<le> state (the_check s' c) \<and>
       pair_of (the_check s' c) = pair_of (the_check s c)) \<and>
    set (checkList s) \<subseteq> set (checkList s') \<and>
    (\<forall>c. nominatedCheck s = Some c \<longrightarrow>
       (\<exists>d. nominatedCheck s' = Some d \<and> priority (the_check s c) \<le> priority (the_check s' d)))"
proof -
  have "session_inv s" using ice.path_inv [OF assms(1)] newIceSession_inv by blast
  then have "grows s s'" using ice.path_below assms(2) by blast
  then show ?thesis by (simp add: grows_def)
qed

theorem session_only_moves_forward_witness:
  "\<exists>s. path session_step sample_session [] sample_session \<and> path session_step sample_session [CreateCheckList sample_sd] s \<and>
    completeResult sample_session \<le> completeResult s \<and> set (checkList sample_session) \<subseteq> set (checkList s)"
  using sample_path path_Nil [of session_step sample_session] session_only_moves_forward [OF path_Nil] by blast

text \<open>
  C21. The upper layer hears of the end of a negotiation at most once, whatever happens after, and
  never before the session has a result.
\<close>

theorem upper_layer_notified_at_most_once:
  assumes "path session_step (newIceSession r ls frag pwd tie) evs s"
  shows "length (filter is_notification (out s)) \<le> 1 \<and>
    (completeResult s < sessionCompleteSuccess \<longrightarrow> (\<forall>res. OnIceComplete res \<notin> set (out s)))"
proof -
  have inv: "session_inv s" using ice.path_inv [OF assms] newIceSession_inv by blast
  have "OnIceComplete res \<notin> set (out s)" if "completeResult s < sessionCompleteSuccess" for res
  proof -
    have "filter is_notification (out s) = []"
      using session_invD(3) [OF inv] that by (simp add: notified_ok_def notifications_def)
    then show ?thesis by (metis filter_empty_conv is_notification.simps(1))
  qed
  then show ?thesis using session_inv_notifications [OF inv] by (simp add: notifications_def)
qed

theorem upper_layer_notified_at_most_once_witness:
  "\<exists>s. path session_step sample_session [CreateCheckList sample_sd] s \<and> length (filter is_notification (out s)) \<le> 1"
  using sample_path upper_layer_notified_at_most_once by blast

text \<open>
  C22. When the last check of the list has finished, \<open>tryCompleteCheck\<close> ends the negotiation, and
  how: with a nominated check every call that returns has completed it with success for good.
  Without one, and while the session has not completed, the call returns; a controlled agent
  with a valid pair waits for its nomination, with the timer running; a controlled agent
  without one, and a controlling agent that nominates, have failed and told the upper layer; a
  controlling agent that does not nominate panics, as nothing is implemented for it.
\<close>

theorem last_check_ends_negotiation:
  assumes "all_finished s"
  shows "(nominatedCheck s \<noteq> None \<and> tryCompleteCheck n c s = Ret (b, s') \<longrightarrow>
      b \<and> completeResult s' = sessionAllCompleteSuccess) \<and>
    (nominatedCheck s = None \<and> completeResult s < sessionCheckComplete \<longrightarrow>
      tryCompleteCheck n c s =
        (if role s = SessionRoleControlled \<and> validCheck s \<noteq> None
         then Ret (False, s\<lparr>completeResult := sessionCheckComplete, out := out s @ [WaitNomination]\<rparr>)
         else if role s = SessionRoleControlled
         then Ret (True, s\<lparr>completeResult := sessionCompleteFailure,
                out := out s @ [OnIceComplete (Some (Errorf ''no valid check''))]\<rparr>)
         else if isNominating s
         then Ret (True, s\<lparr>completeResult := sessionCompleteFailure,
                out := out s @ [OnIceComplete (Some (Errorf ''controlling no nominated ''))]\<rparr>)
         else Panic (ExplicitPanic ''not implemented'')))"
  using decide_nominated [of n s b s'] decide_unnominated [of s n] assms
  by (simp only: tryCompleteCheck_finished [OF assms]) blast

text \<open>A controlled session whose only check has succeeded, without a nomination.\<close>

definition sample_finished :: session where
  "sample_finished = (newIceSession SessionRoleControlled [sample_host, sample_remote] ''alice'' ''pw'' 7)\<lparr>
     checks := [\<lparr>localCandidate = 0, remoteCandidate = 1, key = ''k'', priority = 1, state = checkStateSucced,
                 nominated = False, err = None\<rparr>],
     checkList := [0], validCheck := Some 0\<rparr>"

theorem last_check_ends_negotiation_witness:
  "tryCompleteCheck \<lparr>sock_order = [], channelBind = \<lambda>_. None\<rparr> 0 sample_finished =
     Ret (False, sample_finished\<lparr>completeResult := sessionCheckComplete, out := [WaitNomination]\<rparr>)"
proof -
  have fin: "all_finished sample_finished"
    by (simp add: all_finished_def sample_finished_def newIceSession_def state_order_defs)
  from last_check_ends_negotiation [OF fin, of "\<lparr>sock_order = [], channelBind = \<lambda>_. None\<rparr>" 0]
  show ?thesis by (simp add: sample_finished_def newIceSession_def result_order_defs)
qed

section \<open>Two agents\<close>

text \<open>
  C23. Exchanged credentials authenticate: the request that \<open>buildBindingRequest\<close> builds for any
  check is, decoded from its bytes by a peer whose receiving credentials and username are the
  sender's sending ones, never refused: the peer goes on to the roles. The request names
  exactly the role of its sender, and nominates exactly when its sender controls and the
  check is nominated.
\<close>

theorem request_authenticated_by_peer:
  assumes "length tid = TransactionIDSize" and "length (txUserName s) \<le> 513"
    and "rxCrendientials p = txCrendientials s" and "rxUserName p = [] \<or> rxUserName p = txUserName s"
  shows "\<exists>req. buildBindingRequest (tid, None) c s = Ret req \<and>
    (\<forall>r. msg_Raw r = msg_Raw req \<longrightarrow>
       (\<exists>r'. Message_Decode r = Ret (None, r') \<and> authenticated p r' \<and>
          processBindingRequest n la fa r' p =
            authenticated_request n la fa r' (bytes_of_string (txUserName s))
              (of_int (calcCandidatePriority CandidatePeerReflexive defaultPreference 1)) p \<and>
          (Message_Contains r' AttrICEControlling \<longleftrightarrow> role s = SessionRoleControlling) \<and>
          (Message_Contains r' AttrICEControlled \<longleftrightarrow> role s \<noteq> SessionRoleControlling) \<and>
          (Message_Contains r' AttrUseCandidate \<longleftrightarrow> nominated (the_check s c) \<and> role s = SessionRoleControlling)))"
  by (rule exchanged_credentials_authenticate [OF assms])

theorem request_authenticated_by_peer_witness:
  "\<exists>req. buildBindingRequest (sample_tid, None) 0 (sample_session\<lparr>txUserName := ''bob:alice'', txCrendientials := [1, 2]\<rparr>) = Ret req \<and>
    (\<exists>r'. Message_Decode req = Ret (None, r') \<and>
       authenticated (sample_session\<lparr>rxUserName := ''bob:alice'', rxCrendientials := [1, 2]\<rparr>) r')"
proof -
  let ?s = "sample_session\<lparr>txUserName := ''bob:alice'', txCrendientials := [1, 2]\<rparr>"
  let ?p = "sample_session\<lparr>rxUserName := ''bob:alice'', rxCrendientials := [1, 2]\<rparr>"
  have "length sample_tid = TransactionIDSize" "length (txUserName ?s) \<le> 513"
    "rxCrendientials ?p = txCrendientials ?s" "rxUserName ?p = [] \<or> rxUserName ?p = txUserName ?s"
    by (simp_all add: size_defs)
  from request_authenticated_by_peer [OF this] show ?thesis by blast
qed

text \<open>
  C24. A binding request that is not authenticated, by its username and its integrity, changes
  nothing in the session: at most one message goes back to where the request came from.
\<close>

theorem unauthenticated_request_changes_nothing:
  assumes "processBindingRequest n la fa req s = Ret s'" and "\<not> authenticated s req"
  shows "s' = s \<or> (\<exists>sk res. s' = emit (SendStun sk res la fa) s)"
  by (rule processBindingRequest_unauthenticated [OF assms])

theorem unauthenticated_request_changes_nothing_witness:
  "\<exists>s'. processBindingRequest \<lparr>sock_order = [], channelBind = \<lambda>_. None\<rparr> [] [] sample_msg sample_session = Ret s' \<and>
   \<not> authenticated sample_session sample_msg \<and>
   (s' = sample_session \<or> (\<exists>sk res. s' = emit (SendStun sk res [] []) sample_session))"
proof -
  have 1: "processBindingRequest \<lparr>sock_order = [], channelBind = \<lambda>_. None\<rparr> [] [] sample_msg sample_session =
      Ret sample_session"
    using priority.GetFrom_missing [of sample_msg 0] by (simp add: processBindingRequest_def)
  have 2: "\<not> authenticated sample_session sample_msg"
    using username.GetFrom_missing [of sample_msg "[]"] by (simp add: authenticated_def)
  show ?thesis using 1 2 unauthenticated_request_changes_nothing [OF 1 2] by blast
qed

text \<open>
  C25. The success answer: when the socket of the local address is known and the peer's address is
  an IP address and a port, the answer is built and sent on that socket; it has the id of the
  request, carries the peer's address, and passes the integrity check under the same
  credentials once decoded.
\<close>

theorem success_answer_carries_address:
  assumes "getSenderServerSock la s = Inr (Some sk)" and "length (msg_TransactionID req) = TransactionIDSize"
    and "addrToUDPAddr fa = (ip, port)" and "valid_addr \<lparr>addr_IP = ip, addr_Port = port\<rparr>"
  shows "\<exists>res. sendResponse la fa req 0 s = Ret (emit (SendStun sk res la fa) s) \<and>
    msg_Type res = NewType MethodBinding ClassSuccessResponse \<and> answers s req \<lparr>addr_IP = ip, addr_Port = port\<rparr> res"
  by (rule sendResponse_success [OF assms])

lemma sample_addr: "addrToUDPAddr ''10.0.0.2:6000'' = ([0, 0, 0, 0, 0, 0, 0, 0, 0, 0, 255, 255, 10, 0, 0, 2], 6000)"
proof -
  have "dotted [10, 0, 0, 2] = ''10.0.0.2''" "show_dec 6000 = ''6000''"
    by (simp_all add: dotted_eq show_base.simps digit_chars)
  moreover have "ParseIP (dotted [10, 0, 0, 2]) = v4_prefix @ [10, 0, 0, 2]" by (rule ParseIP_dotted) simp
  moreover have "Atoi_value (show_dec 6000) = 6000" using Atoi_value_show_dec [of 6000] by (simp add: max_int_def)
  moreover have "SplitHostPort (''10.0.0.2'' @ '':'' @ ''6000'') = Inr (''10.0.0.2'', ''6000'')"
    by (rule SplitHostPort_plain) (simp_all add: plain_def)
  ultimately show ?thesis
    by (simp add: addrToUDPAddr_def split_or_empty_def v4_prefix_def numeral_eq_Suc)
qed

definition sample_listening :: session where
  "sample_listening = sample_session\<lparr>serverSocks := [''10.0.0.1:5000'' \<mapsto> 3]\<rparr>"

lemma sample_answering:
  "getSenderServerSock ''10.0.0.1:5000'' sample_listening = Inr (Some 3)"
  "length (msg_TransactionID sample_msg) = TransactionIDSize"
  "valid_addr \<lparr>addr_IP = [0, 0, 0, 0, 0, 0, 0, 0, 0, 0, 255, 255, 10, 0, 0, 2], addr_Port = 6000\<rparr>"
  by (simp_all add: getSenderServerSock_def sample_listening_def size_defs valid_addr_def IPv6len_def)

theorem success_answer_carries_address_witness:
  "\<exists>res. sendResponse ''10.0.0.1:5000'' ''10.0.0.2:6000'' sample_msg 0 sample_listening =
    Ret (emit (SendStun 3 res ''10.0.0.1:5000'' ''10.0.0.2:6000'') sample_listening) \<and>
    msg_Type res = NewType MethodBinding ClassSuccessResponse"
  using success_answer_carries_address [OF sample_answering(1,2) sample_addr sample_answering(3)] by blast

text \<open>
  A conflict of roles is settled by exactly one side: of two agents that both claim a role and
  have different tie breakers, the one with the smaller number takes the other role when it
  sees the other's request, and the other one answers with a role conflict.
\<close>

theorem role_conflict_one_side_yields:
  assumes "role a \<noteq> r" and "role b \<noteq> r" and "tieBreaker a \<noteq> tieBreaker b"
  shows "(resolve r (tieBreaker b) a = Some r) \<noteq> (resolve r (tieBreaker a) b = Some r) \<and>
    (resolve r (tieBreaker b) a = Some r \<longleftrightarrow> resolve r (tieBreaker a) b = None)"
  using resolve_one_yields [OF assms] by blast

theorem role_conflict_one_side_yields_witness:
  "resolve SessionRoleControlled 9 sample_session = Some SessionRoleControlled \<longleftrightarrow>
   resolve SessionRoleControlled 7 (sample_session\<lparr>tieBreaker := 9\<rparr>) = None"
proof -
  let ?b = "sample_session\<lparr>tieBreaker := 9\<rparr>"
  have t: "tieBreaker sample_session = 7" "tieBreaker ?b = 9" by (simp_all add: newIceSession_def)
  have "role sample_session \<noteq> SessionRoleControlled" "role ?b \<noteq> SessionRoleControlled"
    "tieBreaker sample_session \<noteq> tieBreaker ?b"
    by (simp_all add: newIceSession_def)
  from conjunct2 [OF role_conflict_one_side_yields [OF this]] show ?thesis unfolding t .
qed

text \<open>
  C26. The answer to a role conflict carries the error code but neither ICE-CONTROLLED nor
  ICE-CONTROLLING, and the agent that receives it looks for just these: every agent that
  handles such an answer ends up with the role \<open>SessionRoleUnkown\<close> and retries the check.
\<close>

theorem role_conflict_answer_erases_role:
  assumes "getSenderServerSock la s = Inr (Some sk)" and "length (msg_TransactionID req) = TransactionIDSize"
    and "addrToUDPAddr fa = (ip, port)" and "valid_addr \<lparr>addr_IP = ip, addr_Port = port\<rparr>"
  shows "\<exists>res. sendResponse la fa req CodeRoleConflict s = Ret (emit (SendStun sk res la fa) s) \<and>
    mt_Class (msg_Type res) = ClassErrorResponse \<and>
    (\<forall>n c p. error_response n c res p = retryOneCheck c (p\<lparr>role := SessionRoleUnkown\<rparr>))"
  by (rule sendResponse_conflict [OF assms])

theorem role_conflict_answer_erases_role_witness:
  "\<exists>res. sendResponse ''10.0.0.1:5000'' ''10.0.0.2:6000'' sample_msg CodeRoleConflict sample_listening =
    Ret (emit (SendStun 3 res ''10.0.0.1:5000'' ''10.0.0.2:6000'') sample_listening) \<and>
    (\<forall>n c p. error_response n c res p = retryOneCheck c (p\<lparr>role := SessionRoleUnkown\<rparr>))"
  using role_conflict_answer_erases_role [OF sample_answering(1,2) sample_addr sample_answering(3)] by blast

section \<open>SDP\<close>

text \<open>
  C27. What the encoder of \<^verbatim>\<open>src/sdp\<close> writes is read back: the text of the lines of a message
  scans into the same lines, and the decoder makes the same message of them, for every
  message with values of the forms the two sides share (an IPv4 connection, one timing
  without repeats or time zones, whole seconds, names without separators).
\<close>

theorem sdp_message_roundtrip:
  assumes "codable m" and "list_all good_line (SdpMessage_Append m [])"
  shows "DecodeSession (Session_AppendTo (SdpMessage_Append m []) []) [] = (SdpMessage_Append m [], None) \<and>
    (\<exists>d. Decoder_Decode (NewDecoder (SdpMessage_Append m [])) zero_SdpMessage = Ret (None, d, m))"
  using DecodeSession_AppendTo [OF assms(2), of "[]"] Decode_lines [OF assms(1)] Append_lines [OF assms(1), of "[]"]
  by simp

theorem sdp_message_roundtrip_witness:
  "\<exists>d. Decoder_Decode (NewDecoder (SdpMessage_Append sample_sdp [])) zero_SdpMessage = Ret (None, d, sample_sdp)"
  using sdp_message_roundtrip [OF sample_sdp_codable plain_lines_good [OF sample_sdp_plain]] by blast

text \<open>
  C28. Decoding SDP always ends. Without repeat-times and time-zones lines it returns, with an
  error or after the last line; a panic comes only from a line of one of these two types.
\<close>

theorem sdp_decode_returns:
  assumes "list_all (\<lambda>l. ln_Type l \<noteq> TypeRepeatTimes \<and> ln_Type l \<noteq> TypeTimeZones) s"
  shows "\<exists>err d m'. Decoder_Decode (NewDecoder s) m = Ret (err, d, m') \<and>
    (err = None \<longrightarrow> dc_s d = s \<and> length s \<le> dc_pos d)"
proof -
  have "\<not> panic_line s" using assms by (auto simp: panic_line_def list_ex_iff list_all_iff)
  then show ?thesis
    using Decoder_Decode_outcome [of s m]
    by (cases "Decoder_Decode (NewDecoder s) m") (auto simp: outcome_ok_def split: option.splits)
qed

theorem sdp_decode_returns_witness:
  "\<exists>err d m'. Decoder_Decode (NewDecoder [\<lparr>ln_Type = TypeMediaDescription, ln_Value = ''audio''\<rparr>]) zero_SdpMessage =
     Ret (err, d, m')"
  using sdp_decode_returns [of "[\<lparr>ln_Type = TypeMediaDescription, ln_Value = ''audio''\<rparr>]" zero_SdpMessage]
  by (auto simp: Types_distinct)

lemma repeat_times_panics:
  "Decoder_Decode (NewDecoder (\<lparr>ln_Type = TypeRepeatTimes, ln_Value = v\<rparr> # ls)) zero_SdpMessage =
     Panic (ExplicitPanic ''value should be positive'')"
proof -
  have "isExpected TypeRepeatTimes sectionSession 0 = None"
    by (simp add: isExpected.simps orderingAfterTime_def getOrdering_def orderingTime_def in_ordering_iff)
  then show ?thesis
    by (subst Decoder_Decode_def, subst decodeSession_sdp_def, subst session_loop.simps)
      (simp add: NewDecoder_def decoder_next_def Let_def count_field_def decodeField_def Types_distinct
        decodeRepeatTimes_def shouldBePositive_def zero_SdpMessage_def isZeroOrMore_def)
qed

section \<open>Sockets\<close>

text \<open>
  C29. A socket accounts for every request it waits for an answer to: over any run of sends,
  packets, waits, channel bindings, mode changes and \<open>Close\<close>, the waits that were started
  are those still in the table of waiters plus those that ended, by exactly one answer or
  by \<open>Close\<close>. It holds for the session's sockets and for the one behind the TURN server,
  whose callback feeds messages back into the socket.
\<close>

theorem socket_accounts_for_every_wait:
  assumes "newStunServerSock None a = Inr s" and "path (sock_step cbs) s ls s'"
    and "cbs = {to_session} \<or> cbs = turn_callbacks cfg"
  shows "\<Sum>\<^sub># (mset (map started_wait ls)) = pending_waits s' + ended_waits (sk_out s')"
  using assms session_sock.waits_balance turn_sockets.waits_balance by blast

definition sample_sock :: stunServerSock where
  "sample_sock = (case newStunServerSock None ''10.0.0.1:5000'' of Inr s \<Rightarrow> s)"

lemma sample_sock_new: "newStunServerSock None ''10.0.0.1:5000'' = Inr sample_sock"
  by (simp add: sample_sock_def newStunServerSock_def)

theorem socket_accounts_for_every_wait_witness:
  "\<exists>ls s. path (sock_step {to_session}) sample_sock ls s \<and> {#sample_tid#} = pending_waits s + ended_waits (sk_out s)"
proof -
  have sync: "stunServerSock_sendStunMessageSync 0 sample_msg ''10.0.0.1:5000'' ''10.0.0.2:6000'' sample_sock = Ret (None, s)"
    if "s = sk_emit (Written (msg_Raw sample_msg) (addrToUDPAddr ''10.0.0.2:6000''))
      (sample_sock\<lparr>sk_waiters := [(sample_tid, Waiting)]\<rparr>)" for s
    using that
    by (simp add: stunServerSock_sendStunMessageSync_def stunServerSock_addWaiter_def sample_sock_def newStunServerSock_def
        stunServerSock_sendStunMessageAsync_def stunServerSock_sendData_def BindingRequest_def NewType_def class_defs)
  define s where "s = sk_emit (Written (msg_Raw sample_msg) (addrToUDPAddr ''10.0.0.2:6000''))
      (sample_sock\<lparr>sk_waiters := [(sample_tid, Waiting)]\<rparr>)"
  have "path (sock_step {to_session}) sample_sock [(SockSync 0 sample_msg ''10.0.0.1:5000'' ''10.0.0.2:6000'', None)] s"
    by (rule path_one, rule sock_Sync, rule sync) (simp add: s_def)
  from this socket_accounts_for_every_wait [OF sample_sock_new this] show ?thesis
    by (intro exI conjI) (assumption, simp add: started_wait_def)
qed

text \<open>
  C30. Retransmitted requests are answered from the cache, on a socket of the session (not one
  behind a TURN server, whose relayed answers are indications and are not cached). When a
  response was sent, then however often its request arrives again within ten seconds, and
  whatever else the socket sends and receives in between (but no second response with the same id), each
  retransmission is answered with the same bytes, to where it came from, and is not
  handed to the session, provided that the socket is still open and does not itself wait for
  an answer with this id.
\<close>

theorem retransmission_answered_from_cache:
  assumes "newStunServerSock None a = Inr s0" and "path (sock_step {to_session}) s0 ls0 s"
    and "stunServerSock_sendStunMessageAsync sent res fr to s = Ret s1" and "is_response res"
    and "path (sock_step {to_session}) s1 ls s2"
    and "\<forall>l\<in>set ls. leaves_cached (msg_TransactionID res) (sent + stunResponseCacheDuration) (fst l)"
    and "\<not> sk_stoped s2" and "map_of (sk_waiters s2) (msg_TransactionID req) = None"
    and "msg_TransactionID res = msg_TransactionID req" and "mt_Method (msg_Type res) = mt_Method (msg_Type req)"
    and "now \<le> sent + stunResponseCacheDuration"
    and "Message_Write (take 1024 packet) zero_Message = Ret (n, None, req)"
    and "mt_Method (msg_Type req) \<noteq> MethodChannelData" and "mt_Class (msg_Type req) \<noteq> ClassIndication"
  shows "\<exists>s3. stunServerSock_serveConn to_session now packet addr s2 = Ret s3 \<and>
    sk_out s3 = sk_out s2 @ [Written (msg_Raw res) (addrToUDPAddr (UDPAddr_String addr))]"
proof -
  have "sock_inv s" using session_sock.path_inv [OF assms(2)] newStunServerSock_inv [OF assms(1)] by blast
  from retransmission_answered [OF this assms(3-14)] show ?thesis .
qed

lemma sample_packet:
  obtains req where "Message_Write (take 1024 (enc_header BindingRequest 0 sample_tid)) zero_Message = Ret (20, None, req)"
    "msg_TransactionID req = sample_tid" "msg_Type req = BindingRequest"
proof -
  have "length (enc_header BindingRequest 0 sample_tid) = 20"
    using msg_wf_length_Raw [OF sample_msg_wf] by (simp add: size_defs)
  moreover obtain m' where "Message_Write (msg_Raw sample_msg) zero_Message = Ret (length (msg_Raw sample_msg), None, m')"
      "extends sample_msg [] m'"
    using Message_Write_wf [OF sample_msg_wf] by auto
  ultimately show thesis using that by (auto simp: extends_def)
qed

lemma BindingRequest_plain:
  "mt_Method BindingRequest \<noteq> MethodChannelData" "mt_Class BindingRequest \<noteq> ClassIndication"
  by (simp_all add: BindingRequest_def NewType_def class_defs MethodBinding_def MethodChannelData_def)

text \<open>A response and two retransmissions of its request, three and nine seconds later.\<close>

theorem retransmission_answered_from_cache_witness:
  "\<exists>s1 s2 s3. stunServerSock_sendStunMessageAsync 0 (sample_msg\<lparr>msg_Type := BindingSuccess\<rparr>) ''10.0.0.1:5000'' ''10.0.0.2:6000''
      sample_sock = Ret s1 \<and>
    stunServerSock_serveConn to_session (3 * time_Second) (enc_header BindingRequest 0 sample_tid) ([10, 0, 0, 2], 6000) s1 = Ret s2 \<and>
    stunServerSock_serveConn to_session (9 * time_Second) (enc_header BindingRequest 0 sample_tid) ([10, 0, 0, 2], 6000) s2 = Ret s3 \<and>
    length (sk_out s3) = 3"
proof -
  let ?res = "sample_msg\<lparr>msg_Type := BindingSuccess\<rparr>" and ?p = "enc_header BindingRequest 0 sample_tid"
  let ?serve = "\<lambda>t. stunServerSock_serveConn to_session t ?p ([10, 0, 0, 2], 6000)"
  obtain s1 where s1: "stunServerSock_sendStunMessageAsync 0 ?res ''10.0.0.1:5000'' ''10.0.0.2:6000'' sample_sock = Ret s1"
      "length (sk_out s1) = 1" "\<not> sk_stoped s1" "sk_waiters s1 = []"
    by (simp add: stunServerSock_sendStunMessageAsync_def stunServerSock_sendData_def BindingSuccess_def NewType_def
        sample_sock_def newStunServerSock_def sk_emit_def Let_def)
  obtain req where req: "Message_Write (take 1024 ?p) zero_Message = Ret (20, None, req)"
    "msg_TransactionID req = sample_tid" "msg_Type req = BindingRequest" by (rule sample_packet)
  have ty: "is_response ?res" "mt_Method BindingSuccess = mt_Method BindingRequest"
    by (simp_all add: is_response_def BindingSuccess_def BindingRequest_def NewType_def)
  have again: "\<exists>s3. ?serve t s2 = Ret s3 \<and> sk_out s3 = sk_out s2 @ [Written (msg_Raw ?res) (addrToUDPAddr (UDPAddr_String ([10, 0, 0, 2], 6000)))]"
    if "path (sock_step {to_session}) s1 ls s2" "\<forall>l\<in>set ls. leaves_cached sample_tid (10 * time_Second) (fst l)"
      "\<not> sk_stoped s2" "sk_waiters s2 = []" "t \<le> 10 * time_Second" for ls s2 t
    by (rule retransmission_answered_from_cache [OF sample_sock_new path_Nil s1(1) ty(1) that(1), where req = req])
      (use that req ty(2) BindingRequest_plain in \<open>simp_all add: stunResponseCacheDuration_def\<close>)
  have le: "3 * time_Second \<le> 10 * time_Second" "9 * time_Second \<le> 10 * time_Second" by (simp_all add: time_Second_def)
  obtain s2 where s2: "?serve (3 * time_Second) s1 = Ret s2" "length (sk_out s2) = 2"
    using again [OF path_Nil _ s1(3,4) le(1)] s1(2) by auto
  have keep: "sk_stoped s2 = sk_stoped s1" "sk_waiters s2 = sk_waiters s1"
    using s2(1) unfolding serveConn_message [OF req(1), unfolded req(3), OF BindingRequest_plain]
    by (auto simp: deliver_def stunServerSock_getAndRemoveWaiter_def s1(4) stunServerSock_checkCachedResponse_def
        stunServerSock_sendData_def to_session_def sk_emit_def Let_def go_bind_Ret_iff go_map_Ret split: if_splits option.splits)
  have "path (sock_step {to_session}) s1 [(SockPacket (3 * time_Second) ?p ([10, 0, 0, 2], 6000), None)] s2"
    by (rule path_one, rule sock_Packet [OF _ s2(1)]) simp
  from again [OF this _ _ _ le(2)] keep s1(3,4) le(1) obtain s3 where "?serve (9 * time_Second) s2 = Ret s3" "length (sk_out s3) = 3"
    using s2(2) by auto
  then show ?thesis using s1(1) s2(1) by blast
qed

text \<open>
  C31. An answer that comes too late blocks the socket: after \<open>wait\<close> has timed out the waiter is
  still in the table, so when the answer arrives the reading goroutine sends it to a channel
  nobody receives from, and never reads another packet.
\<close>

theorem late_answer_blocks_reader:
  assumes "map_of (sk_waiters s) (msg_TransactionID req) \<noteq> None"
    and "Message_Write (take 1024 packet) zero_Message = Ret (n, None, req)"
    and "mt_Method (msg_Type req) \<noteq> MethodChannelData" and "mt_Class (msg_Type req) \<noteq> ClassIndication"
  shows "stunServerSock_wait (msg_TransactionID req) s = (errTimeout, s') \<Longrightarrow>
    stunServerSock_serveConn cb now packet addr s' = Panic BlockedSend"
  using late_answer_blocks [OF assms, of cb now addr] by simp

theorem late_answer_blocks_reader_witness:
  "stunServerSock_serveConn to_session 9 (enc_header BindingRequest 0 sample_tid) ([10, 0, 0, 2], 6000)
     (sample_sock\<lparr>sk_waiters := [(sample_tid, Abandoned)]\<rparr>) = Panic BlockedSend"
proof -
  obtain req where req: "Message_Write (take 1024 (enc_header BindingRequest 0 sample_tid)) zero_Message = Ret (20, None, req)"
    "msg_TransactionID req = sample_tid" "msg_Type req = BindingRequest" by (rule sample_packet)
  show ?thesis
    by (rule late_answer_blocks_reader [where s = "sample_sock\<lparr>sk_waiters := [(sample_tid, Waiting)]\<rparr>" and req = req, OF _ req(1)])
      (simp_all add: req BindingRequest_plain stunServerSock_wait_def)
qed

section \<open>The relay\<close>

text \<open>
  C32. The TURN server carries messages both ways. A message sent from the relayed address goes
  to the server in a SEND indication from which the server reads the peer's address and
  exactly the message's bytes; and a DATA indication with those bytes and the sender's
  address makes the receiving socket handle the message as one that came from the sender to
  its own relayed address.
\<close>

theorem relay_carries_messages:
  assumes "length tid = TransactionIDSize" and "relay = tc_relayAddress (ts_cfg ts)" and "relay \<noteq> sk_Addr (ts_s ts)"
    and "valid_addr (peer_of toaddr)" and "length (msg_Raw msg) < 65000"
    and "msg_wf msg" "valid_MessageType (msg_Type msg)" "mt_Method (msg_Type msg) \<noteq> MethodChannelData"
    and "msg_Type ind = DataIndication" "valid_addr sender"
    and "msg_Attributes ind = indication_attrs (msg_TransactionID ind) sender (msg_Raw msg) @ others"
  shows "(\<exists>msg2. turnServerSock_wrapperStunMessage (tid, None) relay toaddr msg ts =
        Ret (msg2, sk_Addr (ts_s ts), tc_serverAddr (ts_cfg ts)) \<and> msg_Type msg2 = SendIndication \<and> msg_wf msg2 \<and>
      Data_GetFrom [] msg2 = Ret (None, msg_Raw msg) \<and>
      PeerAddress_GetFrom past p msg2 = Ret (None, wire_addr (peer_of toaddr))) \<and>
    (\<exists>msg'. msg_Type msg' = msg_Type msg \<and> msg_TransactionID msg' = msg_TransactionID msg \<and>
      msg_Attributes msg' = msg_Attributes msg \<and> msg_Raw msg' = msg_Raw msg \<and>
      turnServerSock_RecieveStunMessage past now la (tc_serverAddr (ts_cfg ts2)) ind ts2 =
        with_sock ts2 (stunServerSock_stunMessageReceived (turn_cb (ts_cfg ts2) past now) now
          (tc_relayAddress (ts_cfg ts2)) (addr_String (wire_addr sender)) msg' (ts_s ts2)))"
proof -
  obtain msg2 fp where m: "turnServerSock_wrapperStunMessage (tid, None) relay toaddr msg ts =
        Ret (msg2, sk_Addr (ts_s ts), tc_serverAddr (ts_cfg ts))" "msg_wf msg2" "msg_Type msg2 = SendIndication"
      "msg_TransactionID msg2 = tid"
      "msg_Attributes msg2 = indication_attrs tid (peer_of toaddr) (msg_Raw msg) @ [mk_attr AttrFingerprint fp]"
    using wrapped_message [OF assms(1-5)] by blast
  have "msg_Attributes msg2 = indication_attrs (msg_TransactionID msg2) (peer_of toaddr) (msg_Raw msg) @ [mk_attr AttrFingerprint fp]"
    using m by simp
  note get = indication_get [OF this assms(4)]
  show ?thesis
    using m(1-3) get unwrapped_message [OF assms(9,11,10,6-8), of past now la ts2] by (auto simp: extends_def)
qed

definition sample_turn :: turnServerSock where
  "sample_turn = \<lparr>ts_s = sample_sock,
     ts_cfg = \<lparr>tc_user = ''u'', tc_password = ''p'', tc_nonce = ''n'', tc_realm = ''r'', tc_credentials = [],
       tc_lifetime = 0, tc_relayAddress = ''192.0.2.1:4000'', tc_serverAddr = ''192.0.2.9:3478''\<rparr>,
     ts_stopchan_closed = False, ts_goroutines = []\<rparr>"

lemma sample_turn_sel [simp]:
  "ts_s sample_turn = sample_sock" "tc_relayAddress (ts_cfg sample_turn) = ''192.0.2.1:4000''"
  "tc_serverAddr (ts_cfg sample_turn) = ''192.0.2.9:3478''"
  by (simp_all add: sample_turn_def)

lemma sample_sock_sel [simp]:
  "sk_Addr sample_sock = ''10.0.0.1:5000''" "sk_waiters sample_sock = []" "sk_cachedResponse sample_sock = []"
  "\<not> sk_stoped sample_sock" "\<not> sk_sendchan_closed sample_sock" "sk_out sample_sock = []"
  by (simp_all add: sample_sock_def newStunServerSock_def)

lemma sample_peer: "valid_addr (peer_of ''10.0.0.2:6000'')"
  by (simp add: peer_of_def sample_addr valid_addr_def IPv6len_def)

theorem relay_carries_messages_witness:
  "\<exists>msg2. turnServerSock_wrapperStunMessage (sample_tid, None) ''192.0.2.1:4000'' ''10.0.0.2:6000'' sample_msg sample_turn =
      Ret (msg2, ''10.0.0.1:5000'', ''192.0.2.9:3478'') \<and> Data_GetFrom [] msg2 = Ret (None, msg_Raw sample_msg)"
proof -
  let ?ind = "sample_msg\<lparr>msg_Type := DataIndication,
    msg_Attributes := indication_attrs sample_tid (peer_of ''10.0.0.2:6000'') (msg_Raw sample_msg)\<rparr>"
  have "length (msg_Raw sample_msg) < 65000" using msg_wf_length_Raw [OF sample_msg_wf] by (simp add: size_defs)
  from relay_carries_messages [of sample_tid "''192.0.2.1:4000''" sample_turn "''10.0.0.2:6000''" sample_msg ?ind
      "peer_of ''10.0.0.2:6000''" "[]" "[]" "peer_of ''10.0.0.2:6000''" 0 "[]" sample_turn] this
  show ?thesis using sample_peer BindingRequest_plain by (auto simp: size_defs)
qed


definition sample_bound :: turnServerSock where
  "sample_bound = sample_turn\<lparr>ts_s := stunServerSock_SetChannelNumber 0x4000 ''10.0.0.2:6000'' (sample_sock\<lparr>sk_mode := turnModeData\<rparr>)\<rparr>"


section \<open>The transport\<close>

text \<open>
  C34. A session description reaches the peer: what \<open>EncodeSession\<close> prints, \<open>decodeSession\<close> reads
  back as the same user fragment, password and candidates, with the default candidate among
  them, for candidates with IPv4 addresses and credentials without colon and newline.
\<close>

theorem session_description_roundtrip:
  assumes "tr_session t = Some s" and "tc_defaultCandidate (tr_component t) = Some dc"
    and "dc \<in> set (tc_candidates (tr_component t))" and "list_all offerable (tc_candidates (tr_component t))"
    and "credential (rxUserFrag s)" "credential (rxPassword s)"
  shows "\<exists>text sd j. StreamTransport_EncodeSession t = Ret (Inr text) \<and> decodeSession text = Inr sd \<and>
    sd_user sd = rxUserFrag s \<and> sd_password sd = rxPassword s \<and>
    list_all2 Candidate_Equal (tc_candidates (tr_component t)) (sd_candidates sd) \<and>
    sd_defautCandidate sd = Some j \<and> j < length (sd_candidates sd) \<and> cd_addr (sd_candidates sd ! j) = cd_addr dc"
  using Encode_decodeSession [OF assms] .

definition sample_transport :: StreamTransport where
  "sample_transport = \<lparr>tr_cfg = NewTransportConfigHostonly, tr_transporter = HostOnlySocket,
     tr_component = \<lparr>tc_componentID = 1, tc_candidates = [sample_host], tc_defaultCandidate = Some sample_host\<rparr>,
     tr_State = TransportStateSessionReady, tr_session = Some sample_session, tr_cb = True, tr_out = []\<rparr>"

lemma sample_host_offerable: "offerable sample_host"
proof -
  have "dotted [10, 0, 0, 1] = ''10.0.0.1''" "show_dec 5000 = ''5000''"
    by (simp_all add: dotted_eq show_base.simps digit_chars)
  then have "v4_addr ''10.0.0.1:5000'' [10, 0, 0, 1] 5000" by (simp add: v4_addr_def)
  then show ?thesis
    by (auto simp: offerable_def sample_host_def zero_Candidate_def good_number_def max_int_def)
qed

theorem session_description_roundtrip_witness:
  "\<exists>text sd. StreamTransport_EncodeSession sample_transport = Ret (Inr text) \<and> decodeSession text = Inr sd \<and>
    sd_user sd = ''alice'' \<and> list_all2 Candidate_Equal [sample_host] (sd_candidates sd)"
  using session_description_roundtrip [of sample_transport sample_session sample_host] sample_host_offerable
  by (fastforce simp: sample_transport_def credential_def newIceSession_def newLine_def plain_char_def)



text \<open>
  C36. \<open>Stop\<close> is not safe to repeat, or to race with the session: it leaves the transport in the
  failed state, so a second \<open>Stop\<close> closes closed channels and panics, and so does
  \<open>onIceComplete\<close> when an event still under way completes the session.
\<close>

theorem stop_leaves_transport_fragile:
  assumes "tr_session t = Some s" and "tr_State t \<noteq> TransportStateStopped" and "StreamTransport_Stop order t = Ret t'"
  shows "StreamTransport_Stop order' t' = Panic CloseOfClosedChannel \<and>
    (list_ex is_notification (drop (length (out u)) (out u')) \<longrightarrow>
       take_session u u' t' = Panic (ExplicitPanic ''only finish once''))"
proof -
  have "tr_State t' = TransportStateFailed" using assms by (auto simp: StreamTransport_Stop_def Let_def go_map_Ret)
  then show ?thesis using Stop_again [OF assms(1,3,2)] completion_after_Stop [OF _ refl] by blast
qed

theorem stop_leaves_transport_fragile_witness:
  "\<exists>t'. StreamTransport_Stop [] sample_transport = Ret t' \<and> StreamTransport_Stop [] t' = Panic CloseOfClosedChannel"
proof -
  obtain t' where "StreamTransport_Stop [] sample_transport = Ret t'"
    by (auto simp: StreamTransport_Stop_def Let_def sample_transport_def session_Stop_def newIceSession_def)
  then show ?thesis
    using stop_leaves_transport_fragile [of sample_transport sample_session "[]" t'] by (auto simp: sample_transport_def)
qed

section \<open>The loop, gathering and the client\<close>

text \<open>
  C37. The loop handles what the sockets give it, in order and once: a run of the session's
  goroutines is a run of the session in which the messages handled are those given, in the
  order they were given, less those that wait in the channel, at most ten; the data handed
  to the transport likewise.
\<close>

theorem loop_handles_messages_in_order:
  assumes "path loop_step (new_loop (newIceSession r locals frag pwd tie)) ls q"
  shows "\<exists>es. path session_step (newIceSession r locals frag pwd tie) es (sl_session q) \<and>
    given_messages ls = handled_messages es @ sl_msgChan q \<and>
    given_data ls = sl_rxData q @ map (\<lambda>w. (dw_data w, dw_remoteAddr w)) (sl_dataChan q) \<and>
    length (sl_msgChan q) \<le> 10 \<and> length (sl_dataChan q) \<le> 10"
proof -
  note inv = new_loop_inv [OF newIceSession_inv, of r locals frag pwd tie]
  have "loop_inv q" using loop_machine.path_inv [OF assms inv] .
  then show ?thesis using loop_run [OF assms inv] by (simp add: new_loop_def loop_inv_def chanSize_def)
qed

theorem loop_handles_messages_in_order_witness:
  "\<exists>(q :: loop_state) es. path session_step sample_session es (sl_session q) \<and>
    [\<lparr>mw_localAddr = ''10.0.0.1:5000'', mw_remoteAddr = ''10.0.0.2:6000'', mw_msg = sample_msg\<rparr>] =
      handled_messages es @ sl_msgChan q"
proof -
  let ?w = "\<lparr>mw_localAddr = ''10.0.0.1:5000'', mw_remoteAddr = ''10.0.0.2:6000'', mw_msg = sample_msg\<rparr>"
  let ?q = "(new_loop sample_session)\<lparr>sl_msgChan := [?w]\<rparr>"
  have "loop_step (new_loop sample_session) (GiveMessage ?w) ?q"
    by (rule loop_Message)
      (simp_all add: new_loop_def newIceSession_def session_RecieveStunMessage_def chan_put_def chanSize_def)
  then have "path loop_step (new_loop sample_session) [GiveMessage ?w] ?q" by (rule path_one)
  from loop_handles_messages_in_order [OF this] obtain es
    where "path session_step sample_session es (sl_session ?q)" "given_messages [GiveMessage ?w] = handled_messages es @ sl_msgChan ?q"
    by blast
  moreover have "given_messages [GiveMessage ?w] = [?w]" by (simp add: given_messages_def List.map_filter_def)
  ultimately have "path session_step sample_session es (sl_session ?q) \<and> [?w] = handled_messages es @ sl_msgChan ?q" by metis
  then show ?thesis by blast
qed

text \<open>
  C38. No reference dangles: in every reachable session each check names two candidates that
  exist, each entry of the check list, the valid list and the table of requests under way
  names a check that exists, and no check is in both lists.
\<close>

theorem session_references_exist:
  assumes "path session_step (newIceSession r locals frag pwd tie) es s"
  shows "(\<forall>c\<in>set (checkList s) \<union> set (validCheckList s) \<union> ran (msg2Check s). c < length (checks s)) \<and>
    (\<forall>i\<in>set (localCandidates s) \<union> set (remoteCandidates s). i < length (cands s)) \<and>
    (\<forall>ch\<in>set (checks s). localCandidate ch < length (cands s) \<and> remoteCandidate ch < length (cands s)) \<and>
    set (checkList s) \<inter> set (validCheckList s) = {}"
proof -
  have "refs_ok s" using session_invD(1) [OF ice.path_inv [OF assms newIceSession_inv]] .
  then show ?thesis unfolding refs_ok_def by blast
qed

theorem session_references_exist_witness:
  "\<exists>s. path session_step sample_session [CreateCheckList sample_sd] s \<and>
    (\<forall>ch\<in>set (checks s). localCandidate ch < length (cands s) \<and> remoteCandidate ch < length (cands s))"
  using sample_path session_references_exist by blast

text \<open>
  C39. Every host candidate that is offered has a socket: whatever source a transport gathers
  from (the interfaces alone, a STUN server or a TURN server), after \<open>StartServer\<close> has opened
  a socket on the addresses the source names, there is one at the address of each host
  candidate.
\<close>

theorem host_candidates_have_sockets:
  assumes "host_gathers h cs h' \<and> addrs = HostOnlySock_getListenCandidiates h' \<or>
      stun_gathers s cs s' \<and> addrs = stunSocket_getListenCandidiates s' \<or>
      turn_gathers t cs t' \<and> addrs = turnSock_getListenCandidiates t'"
    and "session_StartServer listen relay addrs order ses = Ret (None, ses')"
    and "c \<in> set cs" and "cd_Type c = CandidateHost"
  shows "serverSocks ses' (cd_addr c) \<noteq> None"
  using assms(1)
proof (elim disjE conjE)
  assume "host_gathers h cs h'" "addrs = HostOnlySock_getListenCandidiates h'"
  then show ?thesis using host_source.hosts_have_sockets assms(2-4) by blast
next
  assume "stun_gathers s cs s'" "addrs = stunSocket_getListenCandidiates s'"
  then show ?thesis using stun_source.hosts_have_sockets assms(2-4) by blast
next
  assume "turn_gathers t cs t'" "addrs = turnSock_getListenCandidiates t'"
  then show ?thesis using turn_source.hosts_have_sockets assms(2-4) by blast
qed

lemma sample_gather:
  "\<exists>c. host_gathers \<lparr>ho_localCandidates = []\<rparr> [c] \<lparr>ho_localCandidates = [''10.0.0.1:5000'']\<rparr> \<and>
    cd_addr c = ''10.0.0.1:5000'' \<and> cd_Type c = CandidateHost"
proof -
  let ?ip = "v4_prefix @ [10, 0, 0, 1]"
  let ?ifs = "Inr [\<lparr>if_Name = ''eth0'', if_Up = True, if_Addrs = Inr [Inr ?ip]\<rparr>] :: go_error + Interface list"
  have ip: "IP_String ?ip = ''10.0.0.1''" by (simp add: IP_String_v4 dotted_eq show_base.simps digit_chars)
  have t: "To4 ?ip = Some [10, 0, 0, 1]" by (simp add: To4_def v4_prefix_def)
  have g: "Gather ?ifs = ([\<lparr>ad_IP = ?ip, ad_Zone = [], ad_Precedence = gatherer_precedence ?ip\<rparr>], None)"
    by (simp add: Gather_def t IsLoopback_def IsLinkLocalUnicast_def)
  have split: "SplitHostPort (''10.0.0.1'' @ '':'' @ ''5000'') = Inr (''10.0.0.1'', ''5000'')"
    by (rule SplitHostPort_plain) (simp_all add: plain_def)
  have "itoa 5000 = ''5000''" by (simp add: itoa_def show_base.simps digit_chars)
  then show ?thesis
    using ip split
    by (auto simp: host_gathers_def HostOnlySock_GetCandidates_def g gather_candidates_def getLocalCandidates_def Let_def
        maxCandidates_def intro!: exI [of _ ?ifs] exI [of _ 5000])
qed

theorem host_candidates_have_sockets_witness:
  "\<exists>ses'. session_StartServer (\<lambda>_. None) False [''10.0.0.1:5000''] [] sample_session = Ret (None, ses') \<and>
    serverSocks ses' ''10.0.0.1:5000'' \<noteq> None"
proof -
  obtain c where c: "host_gathers \<lparr>ho_localCandidates = []\<rparr> [c] \<lparr>ho_localCandidates = [''10.0.0.1:5000'']\<rparr>"
      "cd_addr c = ''10.0.0.1:5000''" "cd_Type c = CandidateHost"
    using sample_gather by blast
  obtain ses' where ses': "session_StartServer (\<lambda>_. None) False [''10.0.0.1:5000''] [] sample_session = Ret (None, ses')"
    by (simp add: session_StartServer_def)
  have "serverSocks ses' (cd_addr c) \<noteq> None"
    by (rule host_candidates_have_sockets [OF disjI1 ses', where cs = "[c]"])
      (use c in \<open>auto simp: HostOnlySock_getListenCandidiates_def\<close>)
  then show ?thesis using ses' c(2) by auto
qed



end
